(* ===== verification/Prelude.thy ===== *)
theory Prelude
  imports Main "HOL-Library.Word"
begin

unbundle bit_operations_syntax

text \<open>
  Shared material of the development: Go's error values, the actions of stateful code
  (a state transformer whose result is an error or a value), a small Hoare logic for
  them, and the facts about bytes and lists that several components use.
  The collection \<open>act_simps\<close> unfolds actions, \<open>act_elims\<close> takes the equation of a
  run apart, \<open>hoare\<close> holds the rules that take a
  triple apart along the structure of the code, \<open>keeps_rules\<close> those for an invariant, and
  \<open>byte_simps\<close> the facts about bytes.
\<close>

named_theorems act_simps \<open>equations that evaluate an action\<close>
named_theorems act_elims \<open>eliminations for the equation of a run\<close>
named_theorems hoare \<open>rules that decompose a Hoare triple\<close>
named_theorems keeps_rules \<open>rules that decompose the preservation of an invariant\<close>
named_theorems byte_simps \<open>facts about bytes and their composition\<close>

subsection \<open>Machine integers\<close>

type_synonym byte = "8 word"
type_synonym u16 = "16 word"
type_synonym u32 = "32 word"
type_synonym u64 = "64 word"

text \<open>
  \<open>hi, lo\<close> are the two bytes of a 16-bit value, high byte first: Go's
  \<^verbatim>\<open>byte(v >> 8)\<close> and \<^verbatim>\<open>byte(v)\<close>; \<open>be16\<close> is
  \<^verbatim>\<open>uint16(a)<<8 | uint16(b)\<close>, and \<open>be_nat\<close> the same composition of an
  \<^verbatim>\<open>int\<close> from any number of bytes.
\<close>

definition hi_byte :: "u16 \<Rightarrow> byte" where
  "hi_byte v = ucast (drop_bit 8 v)"

definition lo_byte :: "u16 \<Rightarrow> byte" where
  "lo_byte v = ucast v"

definition be16 :: "byte \<Rightarrow> byte \<Rightarrow> u16" where
  "be16 a b = push_bit 8 (ucast a) OR ucast b"

lemma be16_split [byte_simps, simp]: "be16 (hi_byte v) (lo_byte v) = v"
  unfolding be16_def hi_byte_def lo_byte_def
  by (rule bit_word_eqI) (auto simp: bit_simps not_less)

lemma hi_byte_be16 [byte_simps, simp]: "hi_byte (be16 a b) = a"
  unfolding be16_def hi_byte_def
  by (rule bit_word_eqI) (use bit_imp_le_length [of b] in \<open>force simp: bit_simps\<close>)

lemma lo_byte_be16 [byte_simps, simp]: "lo_byte (be16 a b) = b"
  unfolding be16_def lo_byte_def by (rule bit_word_eqI) (auto simp: bit_simps)

definition be_nat :: "byte list \<Rightarrow> nat" where
  "be_nat bs = foldl (\<lambda>v b. v * 256 + unat b) 0 bs"

lemma unat_byte_less [byte_simps]: "unat (b :: byte) < 256"
  using unsigned_less [of b] by simp

lemma unat_of_nat_byte [byte_simps]: "unat (of_nat n :: byte) = n mod 256"
  by (simp add: unat_of_nat)

lemma be_nat_split2 [byte_simps]:
  "be_nat [of_nat (n div 256), of_nat n] = n mod 65536"
proof -
  have "n div 256 mod 256 * 256 + n mod 256 = n mod 65536"
    using mod_mult2_eq [of n 256 256] by simp
  then show ?thesis by (simp add: be_nat_def unat_of_nat_byte)
qed

lemma be_nat_split3 [byte_simps]:
  "be_nat [of_nat (n div 65536), of_nat (n div 256), of_nat n] = n mod 16777216"
proof -
  have "n mod 16777216 = 256 * (n div 256 mod 65536) + n mod 256"
    using mod_mult2_eq [of n 256 65536] by simp
  moreover have "n div 256 mod 65536 = 256 * (n div 65536 mod 256) + n div 256 mod 256"
    using mod_mult2_eq [of "n div 256" 256 256] by (simp add: div_mult2_eq [of n 256 256, simplified])
  ultimately show ?thesis by (simp add: be_nat_def unat_of_nat_byte)
qed

text \<open>The decimal text of a number.\<close>

fun decimal :: "nat \<Rightarrow> string" where
  "decimal n = (if n < 10 then [char_of (48 + n)] else decimal (n div 10) @ [char_of (48 + n mod 10)])"

subsection \<open>Errors\<close>

text \<open>
  An error is one of the package's sentinel values, a message of its own
  (\<^verbatim>\<open>errors.New\<close>, or \<^verbatim>\<open>fmt.Errorf\<close> without \<^verbatim>\<open>%w\<close>), or a message that wraps
  another error (\<^verbatim>\<open>%w\<close>). \<open>Panic\<close> stands for a run-time panic (an index or slice
  out of range), so that code which can panic has a branch that does. \<open>OutOfFuel\<close> is no error of the code: it marks a loop that was
  cut off, and the development proves where it cannot occur. The texts name the error;
  the values formatted into them are left out.
\<close>

datatype sentinel =
    ErrFrameRejected | ErrFrameChecksum | ErrCommandResponse | ErrDSPLinkFailure
  | ErrNotExist | ErrExist | ErrCanceled | ErrProcessDone | ESRCH | EAGAIN | ErrRuntimeDirectoryLost

datatype go_error =
    Sentinel sentinel
  | Errorf string
  | Wrapf string go_error
  | Panic string
  | OutOfFuel

primrec errors_is :: "go_error \<Rightarrow> sentinel \<Rightarrow> bool" where
  "errors_is (Sentinel s) t = (s = t)"
| "errors_is (Errorf m) t = False"
| "errors_is (Wrapf m e) t = errors_is e t"
| "errors_is (Panic m) t = False"
| "errors_is OutOfFuel t = False"

subsection \<open>Actions\<close>

text \<open>
  An action reads and updates a state and returns an error or a value; the state is
  kept in both cases, since Go code that returns an error has had its effects.
\<close>

type_synonym ('s, 'a) act = "'s \<Rightarrow> (go_error + 'a) \<times> 's"

definition ret :: "'a \<Rightarrow> ('s, 'a) act" where
  "ret x s = (Inr x, s)"

definition fail :: "go_error \<Rightarrow> ('s, 'a) act" where
  "fail e s = (Inl e, s)"

definition bindE :: "('s, 'a) act \<Rightarrow> ('a \<Rightarrow> ('s, 'b) act) \<Rightarrow> ('s, 'b) act" where
  "bindE m f s = (case m s of (Inl e, t) \<Rightarrow> (Inl e, t) | (Inr x, t) \<Rightarrow> f x t)"

definition seqE :: "('s, 'a) act \<Rightarrow> ('s, 'b) act \<Rightarrow> ('s, 'b) act" where
  "seqE m k = bindE m (\<lambda>_. k)"

text \<open>\<open>tryE m f\<close> hands the error or the value of \<open>m\<close> to \<open>f\<close>: \<^verbatim>\<open>x, err := m()\<close>.\<close>

definition tryE :: "('s, 'a) act \<Rightarrow> (go_error + 'a \<Rightarrow> ('s, 'b) act) \<Rightarrow> ('s, 'b) act" where
  "tryE m f s = (case m s of (r, t) \<Rightarrow> f r t)"

definition wrapE :: "string \<Rightarrow> ('s, 'a) act \<Rightarrow> ('s, 'a) act" where
  "wrapE msg m = tryE m (\<lambda>r. case r of Inl e \<Rightarrow> fail (Wrapf msg e) | Inr x \<Rightarrow> ret x)"

text \<open>
  \<open>maskE msg m\<close> replaces an error by a message of its own, as \<^verbatim>\<open>fmt.Errorf\<close> with
  \<^verbatim>\<open>%v\<close> does; a panic passes through.
\<close>

definition maskE :: "string \<Rightarrow> ('s, 'a) act \<Rightarrow> ('s, 'a) act" where
  "maskE msg m = tryE m (\<lambda>r. case r of
     Inl e \<Rightarrow> fail (case e of Panic p \<Rightarrow> Panic p | OutOfFuel \<Rightarrow> OutOfFuel | _ \<Rightarrow> Errorf msg)
   | Inr x \<Rightarrow> ret x)"

text \<open>
  \<open>ignoreE\<close> drops an action's result (\<^verbatim>\<open>_ = m()\<close>); \<open>finallyE m c\<close> runs the deferred
  \<open>c\<close> after \<open>m\<close>, whatever \<open>m\<close> returned.
\<close>

definition ignoreE :: "('s, 'a) act \<Rightarrow> ('s, unit) act" where
  "ignoreE m s = (Inr (), snd (m s))"

definition finallyE :: "('s, 'a) act \<Rightarrow> ('s, unit) act \<Rightarrow> ('s, 'a) act" where
  "finallyE m c s = (case m s of (r, t) \<Rightarrow> (r, snd (c t)))"

definition readS :: "('s \<Rightarrow> 'a) \<Rightarrow> ('s, 'a) act" where
  "readS f s = (Inr (f s), s)"

definition updS :: "('s \<Rightarrow> 's) \<Rightarrow> ('s, unit) act" where
  "updS f s = (Inr (), f s)"

definition checkE :: "bool \<Rightarrow> go_error \<Rightarrow> ('s, unit) act" where
  "checkE c e = (if c then ret () else fail e)"

definition liftE :: "go_error + 'a \<Rightarrow> ('s, 'a) act" where
  "liftE r s = (r, s)"

text \<open>
  \<open>blockE\<close> runs a list of steps and stops at the first error, as a run of
  \<^verbatim>\<open>if err := ...; err != nil { return err }\<close> statements does; \<open>forE\<close> is the same
  for a loop over a list.
\<close>

primrec blockE :: "('s, unit) act list \<Rightarrow> ('s, unit) act" where
  "blockE [] = ret ()"
| "blockE (m # ms) = seqE m (blockE ms)"

primrec forE :: "'a list \<Rightarrow> ('a \<Rightarrow> ('s, unit) act) \<Rightarrow> ('s, unit) act" where
  "forE [] f = ret ()"
| "forE (x # xs) f = seqE (f x) (forE xs f)"

lemmas act_defs [act_simps] =
  ret_def fail_def bindE_def seqE_def tryE_def wrapE_def readS_def updS_def checkE_def liftE_def
  ignoreE_def finallyE_def maskE_def

text \<open>
  To evaluate an action on a concrete state, only the state is simplified before the next step
  is unfolded; the continuation waits until the step before it has run.
\<close>

lemma run_cong:
  "s = s' \<Longrightarrow> bindE m f s = bindE m f s'" "s = s' \<Longrightarrow> seqE m k s = seqE m k s'"
  "s = s' \<Longrightarrow> tryE m g s = tryE m g s'" "s = s' \<Longrightarrow> wrapE msg m s = wrapE msg m s'"
  "s = s' \<Longrightarrow> maskE msg m s = maskE msg m s'"
  "s = s' \<Longrightarrow> ignoreE m s = ignoreE m s'" "s = s' \<Longrightarrow> finallyE m k s = finallyE m k s'"
  by simp_all

text \<open>
  A run is taken apart forwards: a successful sequence passed through an intermediate state,
  a successful check held.
\<close>

lemma bindE_value [act_elims]:
  assumes "bindE m f s = (Inr x, t)"
  obtains y u where "m s = (Inr y, u)" "f y u = (Inr x, t)"
  using assms by (cases "m s"; cases "fst (m s)") (auto simp: bindE_def)

lemma seqE_value [act_elims]:
  assumes "seqE m k s = (Inr x, t)"
  obtains y u where "m s = (Inr y, u)" "k u = (Inr x, t)"
  using assms unfolding seqE_def by (rule bindE_value)

lemma bindE_error [act_elims]:
  assumes "bindE m f s = (Inl e, t)"
  obtains "m s = (Inl e, t)" | y u where "m s = (Inr y, u)" "f y u = (Inl e, t)"
  using assms by (cases "m s"; cases "fst (m s)") (auto simp: bindE_def)

lemma seqE_error [act_elims]:
  assumes "seqE m k s = (Inl e, t)"
  obtains "m s = (Inl e, t)" | y u where "m s = (Inr y, u)" "k u = (Inl e, t)"
  using assms unfolding seqE_def by (rule bindE_error)

lemma tryE_run [act_elims]:
  assumes "tryE m f s = (v, t)"
  obtains r u where "m s = (r, u)" "f r u = (v, t)"
  using assms by (cases "m s") (auto simp: tryE_def)

lemma wrapE_value [act_elims]:
  assumes "wrapE msg m s = (Inr x, t)"
  obtains "m s = (Inr x, t)"
  using assms by (cases "m s"; cases "fst (m s)") (auto simp: act_simps)

lemma wrapE_error [act_elims]:
  assumes "wrapE msg m s = (Inl e, t)"
  obtains e' where "m s = (Inl e', t)" "e = Wrapf msg e'"
  using assms by (cases "m s"; cases "fst (m s)") (auto simp: act_simps)

lemma maskE_value [act_elims]:
  assumes "maskE msg m s = (Inr x, t)"
  obtains "m s = (Inr x, t)"
  using assms by (cases "m s"; cases "fst (m s)") (auto simp: act_simps)

lemma maskE_error [act_elims]:
  assumes "maskE msg m s = (Inl e, t)"
  obtains e' where "m s = (Inl e', t)" "e = Errorf msg \<or> e = e'"
  using assms by (cases "m s"; cases "fst (m s)") (auto simp: act_simps split: go_error.splits)

lemma checkE_value [act_elims]:
  assumes "checkE c e s = (Inr x, t)"
  obtains "c" "t = s"
  using assms by (auto simp: act_simps split: if_splits)

text \<open>Every step of a successful block, and of a successful loop, succeeded.\<close>

lemma blockE_nth:
  "blockE ms s = (Inr x, t) \<Longrightarrow> i < length ms \<Longrightarrow> \<exists>u y v. (ms ! i) u = (Inr y, v)"
proof (induction ms arbitrary: s i)
  case (Cons m ms)
  from Cons.prems(1) show ?case
    unfolding blockE.simps by (rule seqE_value) (use Cons.IH Cons.prems(2) in \<open>cases i; fastforce\<close>)
qed simp

lemma forE_member:
  "forE xs f s = (Inr z, t) \<Longrightarrow> x \<in> set xs \<Longrightarrow> \<exists>u y v. f x u = (Inr y, v)"
proof (induction xs arbitrary: s)
  case (Cons y ys)
  from Cons.prems(1) show ?case
    unfolding forE.simps by (rule seqE_value) (use Cons.IH Cons.prems(2) in fastforce)
qed simp

lemma ret_run [simp]: "ret x s = (r, t) \<longleftrightarrow> r = Inr x \<and> t = s"
  by (auto simp: ret_def)

lemma fail_run [simp]: "fail e s = (r, t) \<longleftrightarrow> r = Inl e \<and> t = s"
  by (auto simp: fail_def)

lemma readS_run [simp]: "readS f s = (r, t) \<longleftrightarrow> r = Inr (f s) \<and> t = s"
  by (auto simp: readS_def)

lemma updS_run [simp]: "updS f s = (r, t) \<longleftrightarrow> r = Inr () \<and> t = f s"
  by (auto simp: updS_def)

lemma liftE_run [simp]: "liftE x s = (r, t) \<longleftrightarrow> x = r \<and> t = s"
  by (auto simp: liftE_def)

subsection \<open>Hoare triples\<close>

text \<open>
  \<open>triple P m Q E\<close>: from a state satisfying \<open>P\<close>, a value \<open>x\<close> leaves a state satisfying
  \<open>Q x\<close>, and an error \<open>e\<close> one satisfying \<open>E e\<close>. \<open>keeps I m\<close> says that \<open>m\<close> keeps \<open>I\<close>
  whatever it returns.
\<close>

definition triple ::
  "('s \<Rightarrow> bool) \<Rightarrow> ('s, 'a) act \<Rightarrow> ('a \<Rightarrow> 's \<Rightarrow> bool) \<Rightarrow> (go_error \<Rightarrow> 's \<Rightarrow> bool) \<Rightarrow> bool" where
  "triple P m Q E \<longleftrightarrow>
     (\<forall>s. P s \<longrightarrow> (case m s of (Inl e, t) \<Rightarrow> E e t | (Inr x, t) \<Rightarrow> Q x t))"

abbreviation keeps :: "('s \<Rightarrow> bool) \<Rightarrow> ('s, 'a) act \<Rightarrow> bool" where
  "keeps I m \<equiv> triple I m (\<lambda>_. I) (\<lambda>_. I)"

lemma tripleI:
  assumes "\<And>s e t. P s \<Longrightarrow> m s = (Inl e, t) \<Longrightarrow> E e t"
    and "\<And>s x t. P s \<Longrightarrow> m s = (Inr x, t) \<Longrightarrow> Q x t"
  shows "triple P m Q E"
  unfolding triple_def
proof (intro allI impI)
  fix s assume "P s"
  then show "case m s of (Inl e, t) \<Rightarrow> E e t | (Inr x, t) \<Rightarrow> Q x t"
    using assms [of s] by (cases "m s"; cases "fst (m s)") auto
qed

lemma tripleD_value: "triple P m Q E \<Longrightarrow> P s \<Longrightarrow> m s = (Inr x, t) \<Longrightarrow> Q x t"
  unfolding triple_def by (drule spec [of _ s]) simp

lemma tripleD_error: "triple P m Q E \<Longrightarrow> P s \<Longrightarrow> m s = (Inl e, t) \<Longrightarrow> E e t"
  unfolding triple_def by (drule spec [of _ s]) simp

lemma triple_conseq:
  assumes "triple P' m Q' E'"
    and "\<And>s. P s \<Longrightarrow> P' s" "\<And>x s. Q' x s \<Longrightarrow> Q x s" "\<And>e s. E' e s \<Longrightarrow> E e s"
  shows "triple P m Q E"
proof (rule tripleI)
  show "E e t" if "P s" "m s = (Inl e, t)" for s e t
    using that assms(2,4) tripleD_error [OF assms(1)] by blast
  show "Q x t" if "P s" "m s = (Inr x, t)" for s x t
    using that assms(2,3) tripleD_value [OF assms(1)] by blast
qed

lemma keepsD: "keeps I m \<Longrightarrow> I s \<Longrightarrow> I (snd (m s))"
  by (cases "m s"; cases "fst (m s)") (auto dest: tripleD_value tripleD_error)

lemma keepsI: "(\<And>s. I s \<Longrightarrow> I (snd (m s))) \<Longrightarrow> keeps I m"
  by (rule tripleI) (metis snd_conv)+

lemma triple_ret [hoare]: "(\<And>s. P s \<Longrightarrow> Q x s) \<Longrightarrow> triple P (ret x) Q E"
  by (simp add: triple_def ret_def)

lemma triple_fail [hoare]: "(\<And>s. P s \<Longrightarrow> E e s) \<Longrightarrow> triple P (fail e) Q E"
  by (simp add: triple_def fail_def)

lemma triple_bindE [hoare]:
  assumes "triple P m R E" and "\<And>x. triple (R x) (f x) Q E"
  shows "triple P (bindE m f) Q E"
proof (rule tripleI)
  show "E e t" if "P s" "bindE m f s = (Inl e, t)" for s e t
    using that tripleD_error [OF assms(1)] tripleD_value [OF assms(1)] tripleD_error [OF assms(2)]
    unfolding bindE_def by (cases "m s"; cases "fst (m s)"; simp; blast)
  show "Q x t" if "P s" "bindE m f s = (Inr x, t)" for s x t
    using that tripleD_value [OF assms(1)] tripleD_value [OF assms(2)]
    unfolding bindE_def by (cases "m s"; cases "fst (m s)"; simp; blast)
qed

lemma triple_seqE [hoare]:
  assumes "triple P m (\<lambda>_. R) E" and "triple R k Q E"
  shows "triple P (seqE m k) Q E"
  unfolding seqE_def using assms by (rule triple_bindE)

lemma triple_tryE [hoare]:
  assumes "triple P m (\<lambda>x. R (Inr x)) (\<lambda>e. R (Inl e))" and "\<And>r. triple (R r) (f r) Q E"
  shows "triple P (tryE m f) Q E"
proof (rule tripleI)
  have R: "R r t" if "P s" "m s = (r, t)" for s r t
    using that tripleD_error [OF assms(1)] tripleD_value [OF assms(1)] by (cases r) auto
  show "E e t" if "P s" "tryE m f s = (Inl e, t)" for s e t
    using that R tripleD_error [OF assms(2)] unfolding tryE_def by (cases "m s"; simp; blast)
  show "Q x t" if "P s" "tryE m f s = (Inr x, t)" for s x t
    using that R tripleD_value [OF assms(2)] unfolding tryE_def by (cases "m s"; simp; blast)
qed

lemma triple_wrapE [hoare]:
  assumes "triple P m Q (\<lambda>e. E (Wrapf msg e))"
  shows "triple P (wrapE msg m) Q E"
  unfolding wrapE_def
  by (rule triple_tryE [where R = "case_sum (\<lambda>e. E (Wrapf msg e)) Q"])
     (use assms in \<open>auto intro: triple_ret triple_fail split: sum.split\<close>)

lemma triple_ignoreE [hoare]:
  assumes "triple P m (\<lambda>_. Q ()) (\<lambda>_. Q ())"
  shows "triple P (ignoreE m) Q E"
proof (rule tripleI)
  show "E e t" if "ignoreE m s = (Inl e, t)" for s e t
    using that by (simp add: ignoreE_def)
  show "Q x t" if "P s" "ignoreE m s = (Inr x, t)" for s x t
    using that tripleD_error [OF assms] tripleD_value [OF assms]
    unfolding ignoreE_def by (cases "m s"; cases "fst (m s)") auto
qed

lemma triple_finallyE [hoare]:
  assumes "triple P m Q' E'" and "\<And>x. triple (Q' x) c (\<lambda>_. Q x) (\<lambda>_. Q x)"
    and "\<And>e. triple (E' e) c (\<lambda>_. E e) (\<lambda>_. E e)"
  shows "triple P (finallyE m c) Q E"
proof -
  have snd_c: "R (snd (c t))" if "triple R' c (\<lambda>_. R) (\<lambda>_. R)" "R' t" for R' R t
    using tripleD_error [OF that(1) that(2)] tripleD_value [OF that(1) that(2)]
    by (cases "c t"; cases "fst (c t)") auto
  show ?thesis
  proof (rule tripleI)
    show "E e t" if "P s" "finallyE m c s = (Inl e, t)" for s e t
      using that tripleD_error [OF assms(1)] snd_c [OF assms(3)]
      unfolding finallyE_def by (cases "m s") auto
    show "Q x t" if "P s" "finallyE m c s = (Inr x, t)" for s x t
      using that tripleD_value [OF assms(1)] snd_c [OF assms(2)]
      unfolding finallyE_def by (cases "m s") auto
  qed
qed

lemma triple_maskE [hoare]:
  assumes "triple P m Q (\<lambda>_ s. \<forall>e. E e s)"
  shows "triple P (maskE msg m) Q E"
proof (rule tripleI)
  show "E e t" if "P s" "maskE msg m s = (Inl e, t)" for s e t
    using that(2) by (rule maskE_error) (use that(1) tripleD_error [OF assms] in blast)
  show "Q x t" if "P s" "maskE msg m s = (Inr x, t)" for s x t
    using that(2) by (rule maskE_value) (use that(1) tripleD_value [OF assms] in blast)
qed

lemma triple_readS [hoare]: "(\<And>s. P s \<Longrightarrow> Q (f s) s) \<Longrightarrow> triple P (readS f) Q E"
  by (simp add: triple_def readS_def)

lemma triple_updS [hoare]: "(\<And>s. P s \<Longrightarrow> Q () (f s)) \<Longrightarrow> triple P (updS f) Q E"
  by (simp add: triple_def updS_def)

lemma triple_checkE [hoare]:
  "(\<And>s. P s \<Longrightarrow> c \<Longrightarrow> Q () s) \<Longrightarrow> (\<And>s. P s \<Longrightarrow> \<not> c \<Longrightarrow> E e s) \<Longrightarrow> triple P (checkE c e) Q E"
  by (simp add: triple_def checkE_def ret_def fail_def)

lemma triple_liftE [hoare]:
  "(\<And>s x. P s \<Longrightarrow> r = Inr x \<Longrightarrow> Q x s) \<Longrightarrow> (\<And>s e. P s \<Longrightarrow> r = Inl e \<Longrightarrow> E e s) \<Longrightarrow>
   triple P (liftE r) Q E"
  by (rule tripleI) (auto simp: liftE_def)

lemma triple_if [hoare]:
  "(c \<Longrightarrow> triple P m Q E) \<Longrightarrow> (\<not> c \<Longrightarrow> triple P k Q E) \<Longrightarrow> triple P (if c then m else k) Q E"
  by simp

lemma triple_case_sum [hoare]:
  "(\<And>e. r = Inl e \<Longrightarrow> triple P (f e) Q E) \<Longrightarrow> (\<And>x. r = Inr x \<Longrightarrow> triple P (g x) Q E) \<Longrightarrow>
   triple P (case r of Inl e \<Rightarrow> f e | Inr x \<Rightarrow> g x) Q E"
  by (cases r) simp_all

lemma triple_case_option [hoare]:
  "(o' = None \<Longrightarrow> triple P m Q E) \<Longrightarrow> (\<And>x. o' = Some x \<Longrightarrow> triple P (f x) Q E) \<Longrightarrow>
   triple P (case o' of None \<Rightarrow> m | Some x \<Rightarrow> f x) Q E"
  by (cases o') simp_all

lemma triple_case_prod [hoare]:
  "(\<And>a b. p = (a, b) \<Longrightarrow> triple P (f a b) Q E) \<Longrightarrow> triple P (case p of (a, b) \<Rightarrow> f a b) Q E"
  by (cases p) simp

lemma keeps_blockE: "(\<And>m. m \<in> set ms \<Longrightarrow> keeps I m) \<Longrightarrow> keeps I (blockE ms)"
proof (induction ms)
  case Nil
  show ?case by (simp add: triple_ret)
next
  case (Cons m ms)
  then show ?case by (auto intro!: triple_seqE)
qed

lemma triple_forE:
  assumes "\<And>x. x \<in> set xs \<Longrightarrow> triple I (f x) (\<lambda>_. I) E"
  shows "triple I (forE xs f) (\<lambda>_. I) E"
  using assms
proof (induction xs)
  case Nil
  show ?case by (simp add: triple_ret)
next
  case (Cons x xs)
  then show ?case by (auto intro!: triple_seqE)
qed

lemmas keeps_forE = triple_forE [where E = "\<lambda>_. I" and I = I for I]

text \<open>
  When only the successful runs matter, the steps that keep the precondition are skipped from
  the front and those that keep the postcondition from the back.
\<close>

lemma value_prefix:
  "keeps P m \<Longrightarrow> triple P k Q (\<lambda>_ _. True) \<Longrightarrow> triple P (seqE m k) Q (\<lambda>_ _. True)"
  by (rule triple_seqE [rotated], assumption, erule triple_conseq) simp_all

lemma value_suffix:
  "triple P m (\<lambda>_. R) (\<lambda>_ _. True) \<Longrightarrow> keeps R k \<Longrightarrow>
   triple P (seqE m k) (\<lambda>_. R) (\<lambda>_ _. True)"
  by (erule triple_seqE, erule triple_conseq) simp_all

lemma triple_any: "triple P m (\<lambda>_ _. True) (\<lambda>_ _. True)"
  by (rule tripleI) simp_all

lemma kept_tryE:
  "keeps P m \<Longrightarrow> (\<And>r. triple P (f r) Q E) \<Longrightarrow> triple P (tryE m f) Q E"
  by (rule triple_tryE [where R = "\<lambda>_. P"])

lemma kept_readS: "(\<And>x. triple P (g x) Q E) \<Longrightarrow> triple P (bindE (readS f) g) Q E"
  by (rule triple_bindE [where R = "\<lambda>_. P"]) (simp_all add: triple_readS)

lemma triple_pure: "(b \<Longrightarrow> triple (\<lambda>_. True) m Q E) \<Longrightarrow> triple (\<lambda>_. b) m Q E"
  by (cases b) (simp_all add: triple_def)

lemma triple_pure_conj: "(b \<Longrightarrow> triple P m Q E) \<Longrightarrow> triple (\<lambda>s. b \<and> P s) m Q E"
  by (cases b) (simp_all add: triple_def)

lemma value_only: "triple P m Q E \<Longrightarrow> triple P m Q (\<lambda>_ _. True)"
  by (erule triple_conseq) simp_all

text \<open>An action that cannot fail, whatever the state, is skipped.\<close>

lemma triple_skip:
  "(\<And>s. fst (m s) = Inr ()) \<Longrightarrow> triple (\<lambda>_. True) k Q E \<Longrightarrow> triple (\<lambda>_. True) (seqE m k) Q E"
proof (rule triple_seqE, rule tripleI)
  fix s e t assume "\<And>s. fst (m s) = Inr ()" "m s = (Inl e, t)"
  then show "E e t" by (metis fst_conv sum.distinct(1))
qed simp

lemma value_finally:
  "triple P m (\<lambda>_. R) (\<lambda>_ _. True) \<Longrightarrow> keeps R c \<Longrightarrow>
   triple P (finallyE m c) (\<lambda>_. R) (\<lambda>_ _. True)"
  by (erule triple_finallyE, assumption, rule triple_any)

subsection \<open>Preserving an invariant\<close>

text \<open>
  The same rules for one predicate kept throughout, with the case distinctions of the code:
  \<open>intro keeps_rules\<close> reduces the claim for a whole function to its primitive steps.
\<close>

lemma keeps_ret [keeps_rules]: "keeps I (ret x)"
  by (simp add: triple_ret)

lemma keeps_fail [keeps_rules]: "keeps I (fail e)"
  by (simp add: triple_fail)

lemma keeps_bindE [keeps_rules]:
  "keeps I m \<Longrightarrow> (\<And>x. keeps I (f x)) \<Longrightarrow> keeps I (bindE m f)"
  by (rule triple_bindE)

lemma keeps_seqE [keeps_rules]: "keeps I m \<Longrightarrow> keeps I k \<Longrightarrow> keeps I (seqE m k)"
  by (rule triple_seqE)

lemma keeps_tryE [keeps_rules]:
  "keeps I m \<Longrightarrow> (\<And>r. keeps I (f r)) \<Longrightarrow> keeps I (tryE m f)"
  by (rule triple_tryE)

lemma keeps_wrapE [keeps_rules]: "keeps I m \<Longrightarrow> keeps I (wrapE msg m)"
  by (rule triple_wrapE)

lemma keeps_maskE [keeps_rules]: "keeps I m \<Longrightarrow> keeps I (maskE msg m)"
  by (rule triple_maskE) simp

lemma keeps_ignoreE [keeps_rules]: "keeps I m \<Longrightarrow> keeps I (ignoreE m)"
  by (rule triple_ignoreE)

lemma keeps_finallyE [keeps_rules]: "keeps I m \<Longrightarrow> keeps I c \<Longrightarrow> keeps I (finallyE m c)"
  by (rule triple_finallyE)

lemma keeps_readS [keeps_rules]: "keeps I (readS f)"
  by (simp add: triple_readS)

lemma keeps_checkE [keeps_rules]: "keeps I (checkE c e)"
  by (simp add: triple_checkE)

lemma keeps_liftE [keeps_rules]: "keeps I (liftE r)"
  by (simp add: triple_liftE)

lemma keeps_if [keeps_rules]:
  "(c \<Longrightarrow> keeps I m) \<Longrightarrow> (\<not> c \<Longrightarrow> keeps I k) \<Longrightarrow> keeps I (if c then m else k)"
  by simp

lemma keeps_case_sum [keeps_rules]:
  "(\<And>e. r = Inl e \<Longrightarrow> keeps I (f e)) \<Longrightarrow> (\<And>x. r = Inr x \<Longrightarrow> keeps I (g x)) \<Longrightarrow>
   keeps I (case r of Inl e \<Rightarrow> f e | Inr x \<Rightarrow> g x)"
  by (cases r) simp_all

lemma keeps_case_option [keeps_rules]:
  "(o' = None \<Longrightarrow> keeps I m) \<Longrightarrow> (\<And>x. o' = Some x \<Longrightarrow> keeps I (f x)) \<Longrightarrow>
   keeps I (case o' of None \<Rightarrow> m | Some x \<Rightarrow> f x)"
  by (cases o') simp_all

lemma keeps_case_prod [keeps_rules]:
  "(\<And>a b. p = (a, b) \<Longrightarrow> keeps I (f a b)) \<Longrightarrow> keeps I (case p of (a, b) \<Rightarrow> f a b)"
  by (cases p) simp

lemma keeps_updS: "(\<And>s. I s \<Longrightarrow> I (f s)) \<Longrightarrow> keeps I (updS f)"
  by (rule triple_updS)

lemmas [keeps_rules] = keeps_blockE keeps_forE

text \<open>\<open>same f m\<close>: the action leaves the observation \<open>f\<close> of the state alone.\<close>

definition same :: "('s \<Rightarrow> 'x) \<Rightarrow> ('s, 'a) act \<Rightarrow> bool" where
  "same f m \<longleftrightarrow> (\<forall>s. f (snd (m s)) = f s)"

lemma sameI: "(\<And>s. f (snd (m s)) = f s) \<Longrightarrow> same f m"
  by (simp add: same_def)

lemma sameD: "same f m \<Longrightarrow> m s = (r, t) \<Longrightarrow> f t = f s"
  using same_def [of f m] by (metis snd_conv)

lemma same_keeps: "same f m \<Longrightarrow> keeps (\<lambda>s. P (f s)) m"
  by (rule keepsI) (simp add: same_def)

lemma keeps_same:
  assumes "\<And>c. keeps (\<lambda>s. f s = c) m"
  shows "same f m"
  unfolding same_def
proof
  fix s
  from keepsD [OF assms [of "f s"], of s] show "f (snd (m s)) = f s" by simp
qed

subsection \<open>Freedom from crashes\<close>

text \<open>
  \<open>crash e\<close>: the error is a run-time panic, or the mark of a loop that was cut off. \<open>safe m\<close>
  says that \<open>m\<close> returns neither, so that its loops end within their fuel and no index is out
  of range.
\<close>

named_theorems safe_rules \<open>rules that decompose freedom from crashes\<close>

primrec crash :: "go_error \<Rightarrow> bool" where
  "crash (Sentinel s) = False"
| "crash (Errorf m) = False"
| "crash (Wrapf m e) = crash e"
| "crash (Panic m) = True"
| "crash OutOfFuel = True"

abbreviation safe_res :: "go_error + 'a \<Rightarrow> bool" where
  "safe_res r \<equiv> (case r of Inl e \<Rightarrow> \<not> crash e | Inr _ \<Rightarrow> True)"

definition safe :: "('s, 'a) act \<Rightarrow> bool" where
  "safe m \<longleftrightarrow> (\<forall>s. safe_res (fst (m s)))"

lemma safeI: "(\<And>s. safe_res (fst (m s))) \<Longrightarrow> safe m"
  by (simp add: safe_def)

lemma safeD: "safe m \<Longrightarrow> m s = (Inl e, t) \<Longrightarrow> \<not> crash e"
  unfolding safe_def by (drule spec [of _ s]) simp

lemma safeD_res: "safe m \<Longrightarrow> m s = (r, t) \<Longrightarrow> safe_res r"
  unfolding safe_def by (drule spec [of _ s]) simp

lemma safe_triple: "safe m \<Longrightarrow> triple P m (\<lambda>_ _. True) (\<lambda>e _. \<not> crash e)"
  by (rule tripleI) (simp_all add: safeD)

lemma safe_ret [safe_rules]: "safe (ret x)"
  by (simp add: safe_def ret_def)

lemma safe_fail [safe_rules]: "\<not> crash e \<Longrightarrow> safe (fail e)"
  by (simp add: safe_def fail_def)

lemma safe_bindE [safe_rules]:
  assumes "safe m" and "\<And>x. safe (f x)"
  shows "safe (bindE m f)"
proof (rule safeI)
  fix s
  obtain r t where m: "m s = (r, t)" by fastforce
  show "safe_res (fst (bindE m f s))"
  proof (cases r)
    case (Inl e)
    then show ?thesis using m safeD [OF assms(1), of s] by (simp add: bindE_def)
  next
    case (Inr x)
    then show ?thesis using m assms(2) [of x] by (simp add: bindE_def safe_def)
  qed
qed

lemma safe_seqE [safe_rules]: "safe m \<Longrightarrow> safe k \<Longrightarrow> safe (seqE m k)"
  unfolding seqE_def by (rule safe_bindE)

lemma safe_tryE [safe_rules]:
  assumes "safe m" and "\<And>r. safe_res r \<Longrightarrow> safe (f r)"
  shows "safe (tryE m f)"
proof (rule safeI)
  fix s
  obtain r t where m: "m s = (r, t)" by fastforce
  show "safe_res (fst (tryE m f s))"
    using m assms(2) [OF safeD_res [OF assms(1) m]] by (simp add: tryE_def safe_def)
qed

lemma safe_wrapE [safe_rules]: "safe m \<Longrightarrow> safe (wrapE msg m)"
  unfolding wrapE_def by (rule safe_tryE) (auto intro: safe_rules split: sum.split)

lemma safe_maskE [safe_rules]: "safe m \<Longrightarrow> safe (maskE msg m)"
  unfolding maskE_def by (rule safe_tryE) (auto intro: safe_rules split: sum.split go_error.split)

lemma safe_ignoreE [safe_rules]: "safe (ignoreE m)"
  by (simp add: safe_def ignoreE_def)

lemma safe_finallyE [safe_rules]: "safe m \<Longrightarrow> safe (finallyE m c)"
  by (simp add: safe_def finallyE_def split_beta)

lemma safe_readS [safe_rules]: "safe (readS f)"
  by (simp add: safe_def readS_def)

lemma safe_bind_readS: "(\<And>s. safe (g (f s))) \<Longrightarrow> safe (bindE (readS f) g)"
  by (simp add: safe_def readS_def bindE_def)

lemma safe_updS [safe_rules]: "safe (updS f)"
  by (simp add: safe_def updS_def)

lemma safe_checkE [safe_rules]: "(\<not> c \<Longrightarrow> \<not> crash e) \<Longrightarrow> safe (checkE c e)"
  by (auto simp: checkE_def intro: safe_rules)

lemma safe_liftE [safe_rules]: "safe_res r \<Longrightarrow> safe (liftE r)"
  by (simp add: safe_def liftE_def)

lemma safe_if [safe_rules]: "(c \<Longrightarrow> safe m) \<Longrightarrow> (\<not> c \<Longrightarrow> safe k) \<Longrightarrow> safe (if c then m else k)"
  by simp

lemma safe_case_sum [safe_rules]:
  "(\<And>e. r = Inl e \<Longrightarrow> safe (f e)) \<Longrightarrow> (\<And>x. r = Inr x \<Longrightarrow> safe (g x)) \<Longrightarrow>
   safe (case r of Inl e \<Rightarrow> f e | Inr x \<Rightarrow> g x)"
  by (cases r) simp_all

lemma safe_case_option [safe_rules]:
  "(o' = None \<Longrightarrow> safe m) \<Longrightarrow> (\<And>x. o' = Some x \<Longrightarrow> safe (f x)) \<Longrightarrow>
   safe (case o' of None \<Rightarrow> m | Some x \<Rightarrow> f x)"
  by (cases o') simp_all

lemma safe_case_prod [safe_rules]:
  "(\<And>a b. p = (a, b) \<Longrightarrow> safe (f a b)) \<Longrightarrow> safe (case p of (a, b) \<Rightarrow> f a b)"
  by (cases p) simp

lemma safe_forE [safe_rules]: "(\<And>x. safe (f x)) \<Longrightarrow> safe (forE xs f)"
  by (induction xs) (simp_all add: safe_rules)

lemma kept_safe_tryE:
  assumes "keeps P m" and "safe m" and "\<And>r. safe_res r \<Longrightarrow> triple P (f r) Q E"
  shows "triple P (tryE m f) Q E"
proof (rule triple_tryE [where R = "\<lambda>r s. P s \<and> safe_res r"])
  show "triple P m (\<lambda>x s. P s \<and> safe_res (Inr x :: go_error + 'b)) (\<lambda>e s. P s \<and> safe_res (Inl e :: go_error + 'b))"
    by (rule tripleI)
       (auto dest: tripleD_value [OF assms(1)] tripleD_error [OF assms(1)] safeD [OF assms(2)])
  show "triple (\<lambda>s. P s \<and> safe_res r) (f r) Q E" for r
    using assms(3) [of r] by (cases "safe_res r") (auto simp: triple_def)
qed

subsection \<open>Actions that succeed\<close>

text \<open>\<open>nofail m\<close>: the action returns a value from every state, as an in-memory device does.\<close>

named_theorems nofail_rules \<open>rules that decompose the success of an action\<close>

definition nofail :: "('s, 'a) act \<Rightarrow> bool" where
  "nofail m \<longleftrightarrow> (\<forall>s. \<not> isl (fst (m s)))"

lemma nofailD: "nofail m \<Longrightarrow> \<exists>x t. m s = (Inr x, t)"
  unfolding nofail_def by (metis isl_def prod.collapse sum.exhaust)

lemma nofail_prims [nofail_rules]:
  "nofail (ret x)" "nofail (readS f)" "nofail (updS g)" "nofail (ignoreE m)"
  "c \<Longrightarrow> nofail (checkE c e)"
  by (simp_all add: nofail_def act_simps)

lemma nofail_bindE [nofail_rules]: "nofail m \<Longrightarrow> (\<And>x. nofail (f x)) \<Longrightarrow> nofail (bindE m f)"
  by (auto simp: nofail_def bindE_def split: prod.split sum.split) (metis fst_conv sum.disc(1))

lemma nofail_seqE [nofail_rules]: "nofail m \<Longrightarrow> nofail k \<Longrightarrow> nofail (seqE m k)"
  unfolding seqE_def by (rule nofail_bindE)

lemma nofail_wrapE [nofail_rules]: "nofail m \<Longrightarrow> nofail (wrapE msg m)"
  by (auto simp: nofail_def act_simps split: prod.split sum.split) (metis fst_conv sum.disc(1))

lemma nofail_maskE [nofail_rules]: "nofail m \<Longrightarrow> nofail (maskE msg m)"
  by (auto simp: nofail_def act_simps split: prod.split sum.split) (metis fst_conv sum.disc(1))

lemma nofail_finallyE [nofail_rules]: "nofail m \<Longrightarrow> nofail (finallyE m c)"
  by (simp add: nofail_def finallyE_def split_beta)

lemma nofail_forE [nofail_rules]: "(\<And>x. nofail (f x)) \<Longrightarrow> nofail (forE xs f)"
  by (induction xs) (simp_all add: nofail_rules)

end
