(* ===== verification/Msgpack.thy ===== *)
theory Msgpack
  imports Prelude
begin

text \<open>
  The MessagePack codec of the services (\<^verbatim>\<open>tools/dsp-interface/msgpack.go\<close>): the
  encoder and the decoder as the code has them, that a decoder run takes a proper prefix of
  its input and builds no more than it read, and that decoding what was encoded gives the
  value back, with its integers in the decoder's types.
\<close>

subsection \<open>Values\<close>

text \<open>
  The Go values the codec handles. A Go string is a sequence of bytes, as is a HOL string;
  \<open>GInt\<close> is an \<^verbatim>\<open>int\<close> or \<^verbatim>\<open>int64\<close>, read as signed; \<open>GFloat\<close> holds the
  bits of a \<^verbatim>\<open>float64\<close>; a map is the list of its entries in the order an iteration
  visits them.
\<close>

datatype go_value =
    GNil | GBool bool | GString string | GBytes "byte list"
  | GInt u64 | GUint64 u64 | GUint32 u32 | GFloat u64
  | GArray "go_value list" | GMap "(string \<times> go_value) list"

definition maxMessagePackStringBytes :: nat where "maxMessagePackStringBytes = 1048576"
definition maxMessagePackCollectionElements :: nat where "maxMessagePackCollectionElements = 4096"
definition maxMessagePackDepth :: nat where "maxMessagePackDepth = 32"

definition str_bytes :: "string \<Rightarrow> byte list" where
  "str_bytes s = map (\<lambda>c. of_nat (of_char c)) s"

definition bytes_str :: "byte list \<Rightarrow> string" where
  "bytes_str bs = map (\<lambda>b. char_of (unat b)) bs"

text \<open>\<open>be_bytes n v\<close> is the big-endian form of the low \<open>n\<close> bytes of \<open>v\<close>.\<close>

primrec be_bytes :: "nat \<Rightarrow> u64 \<Rightarrow> byte list" where
  "be_bytes 0 v = []"
| "be_bytes (Suc n) v = ucast (drop_bit (8 * n) v) # be_bytes n v"

subsection \<open>Encoding\<close>

definition appendInteger :: "byte list \<Rightarrow> u64 \<Rightarrow> byte list" where
  "appendInteger out v =
     (let value = sint v in
      if 0 \<le> value \<and> value \<le> 0x7f then out @ [ucast v]
      else if value < 0 \<and> -32 \<le> value then out @ [ucast v]
      else if 0 \<le> value \<and> value \<le> 0xff then out @ 0xcc # be_bytes 1 v
      else if 0 \<le> value \<and> value \<le> 0xffff then out @ 0xcd # be_bytes 2 v
      else if 0 \<le> value \<and> value \<le> 0xffffffff then out @ 0xce # be_bytes 4 v
      else if 0 \<le> value then out @ 0xcf # be_bytes 8 v
      else if -0x80 \<le> value then out @ 0xd0 # be_bytes 1 v
      else if -0x8000 \<le> value then out @ 0xd1 # be_bytes 2 v
      else if -0x80000000 \<le> value then out @ 0xd2 # be_bytes 4 v
      else out @ 0xd3 # be_bytes 8 v)"

definition appendString :: "byte list \<Rightarrow> string \<Rightarrow> byte list" where
  "appendString out value =
     (let len = length value in
      (if len \<le> 31 then out @ [0xa0 OR of_nat len]
       else if len \<le> 0xff then out @ 0xd9 # be_bytes 1 (of_nat len)
       else if len \<le> 0xffff then out @ 0xda # be_bytes 2 (of_nat len)
       else out @ 0xdb # be_bytes 4 (of_nat len)) @ str_bytes value)"

definition appendBinary :: "byte list \<Rightarrow> byte list \<Rightarrow> go_error + byte list" where
  "appendBinary out value =
     (let len = length value in
      if len \<le> 0xff then Inr (out @ 0xc4 # be_bytes 1 (of_nat len) @ value)
      else if len \<le> 0xffff then Inr (out @ 0xc5 # be_bytes 2 (of_nat len) @ value)
      else Inl (Errorf ''binary value is too long''))"

fun appendValue :: "byte list \<Rightarrow> go_value \<Rightarrow> go_error + byte list"
and appendElements :: "byte list \<Rightarrow> go_value list \<Rightarrow> go_error + byte list"
and appendEntries :: "byte list \<Rightarrow> (string \<times> go_value) list \<Rightarrow> go_error + byte list" where
  "appendValue out GNil = Inr (out @ [0xc0])"
| "appendValue out (GBool b) = Inr (out @ [if b then 0xc3 else 0xc2])"
| "appendValue out (GString s) = Inr (appendString out s)"
| "appendValue out (GBytes b) = appendBinary out b"
| "appendValue out (GInt v) = Inr (appendInteger out v)"
| "appendValue out (GUint64 v) =
     (if 0x7fffffffffffffff < v then Inl (Errorf ''unsigned value is too large'')
      else Inr (appendInteger out v))"
| "appendValue out (GUint32 v) = Inr (appendInteger out (ucast v))"
| "appendValue out (GFloat bits) = Inr (out @ 0xcb # be_bytes 8 bits)"
| "appendValue out (GArray vs) =
     (let len = length vs in
      if len \<le> 15 then appendElements (out @ [0x90 OR of_nat len]) vs
      else if len \<le> 0xffff then appendElements (out @ 0xdc # be_bytes 2 (of_nat len)) vs
      else Inl (Errorf ''array is too long''))"
| "appendValue out (GMap kvs) =
     (let len = length kvs in
      if len \<le> 15 then appendEntries (out @ [0x80 OR of_nat len]) kvs
      else if len \<le> 0xffff then appendEntries (out @ 0xde # be_bytes 2 (of_nat len)) kvs
      else Inl (Errorf ''map is too large''))"
| "appendElements out [] = Inr out"
| "appendElements out (v # vs) =
     (case appendValue out v of Inl e \<Rightarrow> Inl e | Inr out' \<Rightarrow> appendElements out' vs)"
| "appendEntries out [] = Inr out"
| "appendEntries out ((k, v) # kvs) =
     (case appendValue (appendString out k) v of Inl e \<Rightarrow> Inl e | Inr out' \<Rightarrow> appendEntries out' kvs)"

definition encodeMessagePack :: "go_value \<Rightarrow> go_error + byte list" where
  "encodeMessagePack value = appendValue [] value"

subsection \<open>Decoding\<close>

type_synonym 'a decoded = "go_error + 'a \<times> byte list"

definition decodeUnsigned :: "byte list \<Rightarrow> nat \<Rightarrow> u64 decoded" where
  "decodeUnsigned payload width =
     (if length payload < width then Inl (Errorf ''truncated MessagePack length'')
      else Inr (foldl (\<lambda>value part. push_bit 8 value OR ucast part) 0 (take width payload),
                drop width payload))"

text \<open>\<open>maxInt\<close> is the largest \<^verbatim>\<open>int\<close> of the platform.\<close>

definition decodeLength :: "nat \<Rightarrow> byte list \<Rightarrow> nat \<Rightarrow> nat decoded" where
  "decodeLength maxInt payload width =
     (case decodeUnsigned payload width of
        Inl e \<Rightarrow> Inl e
      | Inr (value, rest) \<Rightarrow>
          if unat value > maxInt then Inl (Errorf ''MessagePack length exceeds platform limit'')
          else Inr (unat value, rest))"

definition signed_value :: "u64 \<Rightarrow> nat \<Rightarrow> u64" where
  "signed_value value width =
     (if width = 1 then scast (ucast value :: 8 word)
      else if width = 2 then scast (ucast value :: 16 word)
      else if width = 4 then scast (ucast value :: 32 word)
      else value)"

definition decodeString :: "byte list \<Rightarrow> nat \<Rightarrow> go_value decoded" where
  "decodeString payload len =
     (if len > maxMessagePackStringBytes \<or> length payload < len
      then Inl (Errorf ''truncated MessagePack string'')
      else Inr (GString (bytes_str (take len payload)), drop len payload))"

text \<open>
  \<^verbatim>\<open>float64(math.Float32frombits(bits))\<close> on the bit patterns: every \<^verbatim>\<open>float32\<close> is
  a \<^verbatim>\<open>float64\<close>; a subnormal is normalised and a NaN becomes quiet.
\<close>

fun ilog2 :: "nat \<Rightarrow> nat" where
  "ilog2 n = (if n < 2 then 0 else Suc (ilog2 (n div 2)))"

definition widen_float :: "u32 \<Rightarrow> u64" where
  "widen_float bits =
     (let s = (ucast (drop_bit 31 bits) :: u64);
          e = unat (drop_bit 23 bits AND 0xff);
          f = unat (bits AND 0x7fffff);
          k = ilog2 f;
          (e', f') = (if e = 255 then (2047, if f = 0 then 0 else (f * 2 ^ 29) mod 2 ^ 51 + 2 ^ 51)
                      else if e = 0 then (if f = 0 then (0, 0) else (k + 874, f * 2 ^ (52 - k) - 2 ^ 52))
                      else (e + 896, f * 2 ^ 29))
      in push_bit 63 s OR push_bit 52 (of_nat e') OR of_nat f')"

text \<open>
  \<^verbatim>\<open>fmt.Sprint\<close> of a decoded value, which names a map's entry. The text of a
  floating-point number or of a composite value is the parameter \<open>text_of\<close>.
\<close>

definition sprint :: "(go_value \<Rightarrow> string) \<Rightarrow> go_value \<Rightarrow> string" where
  "sprint text_of v =
     (case v of
        GString s \<Rightarrow> s
      | GUint64 n \<Rightarrow> decimal (unat n)
      | GInt n \<Rightarrow> (if sint n < 0 then CHR ''-'' # decimal (nat (- sint n)) else decimal (nat (sint n)))
      | GBool b \<Rightarrow> (if b then ''true'' else ''false'')
      | GNil \<Rightarrow> ''<nil>''
      | _ \<Rightarrow> text_of v)"

text \<open>\<^verbatim>\<open>values[key] = value\<close>: an existing entry is overwritten in place.\<close>

fun map_put :: "string \<Rightarrow> go_value \<Rightarrow> (string \<times> go_value) list \<Rightarrow> (string \<times> go_value) list" where
  "map_put k v [] = [(k, v)]"
| "map_put k v ((k', v') # kvs) = (if k = k' then (k, v) # kvs else (k', v') # map_put k v kvs)"

text \<open>
  The loops over the elements of an array and the entries of a map, for the decoder \<open>dec\<close> of
  one value.
\<close>

primrec decodeElements ::
  "(byte list \<Rightarrow> go_value decoded) \<Rightarrow> nat \<Rightarrow> byte list \<Rightarrow> go_value list decoded" where
  "decodeElements dec 0 rest = Inr ([], rest)"
| "decodeElements dec (Suc n) rest =
     (case dec rest of
        Inl e \<Rightarrow> Inl e
      | Inr (value, remainder) \<Rightarrow>
          (case decodeElements dec n remainder of
             Inl e \<Rightarrow> Inl e
           | Inr (values, rest') \<Rightarrow> Inr (value # values, rest')))"

definition decodeArray ::
  "(byte list \<Rightarrow> go_value decoded) \<Rightarrow> byte list \<Rightarrow> nat \<Rightarrow> go_value decoded" where
  "decodeArray dec payload len =
     (if len > maxMessagePackCollectionElements \<or> len > length payload
      then Inl (Errorf ''MessagePack array length exceeds payload'')
      else (case decodeElements dec len payload of
              Inl e \<Rightarrow> Inl e
            | Inr (values, rest) \<Rightarrow> Inr (GArray values, rest)))"

primrec decodeEntries ::
  "(go_value \<Rightarrow> string) \<Rightarrow> (byte list \<Rightarrow> go_value decoded) \<Rightarrow> nat
     \<Rightarrow> (string \<times> go_value) list \<Rightarrow> byte list \<Rightarrow> go_value decoded" where
  "decodeEntries text_of dec 0 values rest = Inr (GMap values, rest)"
| "decodeEntries text_of dec (Suc n) values rest =
     (case dec rest of
        Inl e \<Rightarrow> Inl e
      | Inr (key, remainder) \<Rightarrow>
          (case dec remainder of
             Inl e \<Rightarrow> Inl e
           | Inr (value, next) \<Rightarrow>
               decodeEntries text_of dec n (map_put (sprint text_of key) value values) next))"

definition decodeMap ::
  "(go_value \<Rightarrow> string) \<Rightarrow> (byte list \<Rightarrow> go_value decoded) \<Rightarrow> byte list \<Rightarrow> nat
     \<Rightarrow> go_value decoded" where
  "decodeMap text_of dec payload len =
     (if len > maxMessagePackCollectionElements \<or> len > length payload div 2
      then Inl (Errorf ''MessagePack map length exceeds payload'')
      else decodeEntries text_of dec len [] payload)"

text \<open>
  The code counts the nesting depth up from 0 and refuses a depth above the limit; here
  \<open>levels\<close> counts what is left, so that depth \<open>d\<close> is
  \<open>maxMessagePackDepth + 1 - d\<close> levels and the recursion is on them.
\<close>

definition with_length ::
  "nat \<Rightarrow> byte list \<Rightarrow> nat \<Rightarrow> (byte list \<Rightarrow> nat \<Rightarrow> go_value decoded) \<Rightarrow> go_value decoded" where
  "with_length maxInt rest width k =
     (case decodeLength maxInt rest width of Inl e \<Rightarrow> Inl e | Inr (len, rest') \<Rightarrow> k rest' len)"

fun decodeValue ::
  "nat \<Rightarrow> (go_value \<Rightarrow> string) \<Rightarrow> nat \<Rightarrow> byte list \<Rightarrow> go_value decoded" where
  "decodeValue maxInt text_of 0 payload = Inl (Errorf ''MessagePack nesting exceeds limit'')"
| "decodeValue maxInt text_of (Suc levels) [] = Inl (Errorf ''truncated MessagePack value'')"
| "decodeValue maxInt text_of (Suc levels) (tag # rest) =
     (let inner = decodeValue maxInt text_of levels in
      if tag \<le> 0x7f then Inr (GUint64 (ucast tag), rest)
      else if 0xe0 \<le> tag then Inr (GInt (scast tag), rest)
      else if tag AND 0xf0 = 0x80 then decodeMap text_of inner rest (unat (tag AND 0x0f))
      else if tag AND 0xf0 = 0x90 then decodeArray inner rest (unat (tag AND 0x0f))
      else if tag AND 0xe0 = 0xa0 then decodeString rest (unat (tag AND 0x1f))
      else if tag = 0xc0 then Inr (GNil, rest)
      else if tag = 0xc2 then Inr (GBool False, rest)
      else if tag = 0xc3 then Inr (GBool True, rest)
      else if tag = 0xc4 \<or> tag = 0xc5 then
        with_length maxInt rest (if tag = 0xc5 then 2 else 1) (\<lambda>rest len.
          if length rest < len then Inl (Errorf ''truncated MessagePack binary'')
          else Inr (GBytes (take len rest), drop len rest))
      else if tag = 0xca then
        (if length rest < 4 then Inl (Errorf ''truncated MessagePack float'')
         else (case decodeUnsigned rest 4 of
                 Inl e \<Rightarrow> Inl e | Inr (bits, rest') \<Rightarrow> Inr (GFloat (widen_float (ucast bits)), rest')))
      else if tag = 0xcb then
        (if length rest < 8 then Inl (Errorf ''truncated MessagePack double'')
         else (case decodeUnsigned rest 8 of
                 Inl e \<Rightarrow> Inl e | Inr (bits, rest') \<Rightarrow> Inr (GFloat bits, rest')))
      else if 0xcc \<le> tag \<and> tag \<le> 0xcf then
        (case decodeUnsigned rest (2 ^ unat (tag - 0xcc)) of
           Inl e \<Rightarrow> Inl e | Inr (value, rest') \<Rightarrow> Inr (GUint64 value, rest'))
      else if 0xd0 \<le> tag \<and> tag \<le> 0xd3 then
        (let width = 2 ^ unat (tag - 0xd0) in
         case decodeUnsigned rest width of
           Inl e \<Rightarrow> Inl e | Inr (value, rest') \<Rightarrow> Inr (GInt (signed_value value width), rest'))
      else if 0xd9 \<le> tag \<and> tag \<le> 0xdb then
        with_length maxInt rest (2 ^ unat (tag - 0xd9)) decodeString
      else if tag = 0xdc \<or> tag = 0xdd then
        with_length maxInt rest (if tag = 0xdd then 4 else 2) (decodeArray inner)
      else if tag = 0xde \<or> tag = 0xdf then
        with_length maxInt rest (if tag = 0xdf then 4 else 2) (decodeMap text_of inner)
      else Inl (Errorf ''unsupported MessagePack tag''))"

declare decodeValue.simps [simp del]

definition decodeMessagePack ::
  "nat \<Rightarrow> (go_value \<Rightarrow> string) \<Rightarrow> byte list \<Rightarrow> go_error + go_value" where
  "decodeMessagePack maxInt text_of payload =
     (case decodeValue maxInt text_of (Suc maxMessagePackDepth) payload of
        Inl e \<Rightarrow> Inl e
      | Inr (value, rest) \<Rightarrow>
          if rest \<noteq> [] then Inl (Errorf ''trailing MessagePack bytes'') else Inr value)"

subsection \<open>Bytes of an integer\<close>

lemma length_be_bytes [simp]: "length (be_bytes n v) = n"
  by (induction n) simp_all

lemma foldl_be_bytes:
  "foldl (\<lambda>value part. push_bit 8 value OR ucast part) a (be_bytes n v)
     = push_bit (8 * n) a OR take_bit (8 * n) (v :: u64)"
proof (induction n arbitrary: a)
  case 0
  show ?case by simp
next
  case (Suc n)
  have "push_bit m (push_bit 8 a OR ucast (ucast (drop_bit m v) :: byte)) OR take_bit m v
      = push_bit (m + 8) a OR take_bit (m + 8) v" for m
    by (rule bit_word_eqI) (auto simp: bit_simps)
  from this [of "8 * n"] show ?case
    by (simp only: be_bytes.simps foldl_Cons Suc mult_Suc_right add.commute)
qed

declare be_bytes.simps [simp del]

lemma decodeUnsigned_be_bytes [simp]:
  "decodeUnsigned (be_bytes n v @ rest) n = Inr (take_bit (8 * n) v, rest)"
  by (simp add: decodeUnsigned_def foldl_be_bytes)

lemma take_bit_small: "unat v < 2 ^ n \<Longrightarrow> take_bit n (v :: u64) = v"
  by (simp add: word_unat_eq_iff unsigned_take_bit_eq take_bit_nat_eq_self)

lemma sint_nonneg: "0 \<le> sint v \<Longrightarrow> sint v = int (unat v)" for v :: u64
  using sint_less [of v] by (simp add: uint_sint [symmetric] flip: uint_nat)
    (simp add: uint_sint take_bit_int_eq_self)

lemma take_bit_sint:
  assumes "0 \<le> sint v" "sint v < 2 ^ n"
  shows "take_bit n (v :: u64) = v"
proof (rule take_bit_small)
  have "int (unat v) < int (2 ^ n)" using assms sint_nonneg [of v] by simp
  then show "unat v < 2 ^ n" by (simp only: of_nat_less_iff)
qed

lemma take_bit_64 [simp]: "take_bit 64 (v :: u64) = v"
  using take_bit_length_eq [of v] by simp

lemma bytes_str_bytes [simp]: "bytes_str (str_bytes s) = s"
  by (simp add: bytes_str_def str_bytes_def comp_def unat_of_nat)

lemma length_str_bytes [simp]: "length (str_bytes s) = length s"
  by (simp add: str_bytes_def)

text \<open>Where the decoder puts the sign back: a value within \<open>n\<close> signed bytes survives.\<close>

lemma narrow_signed:
  fixes v :: u64
  assumes "LENGTH('a) \<le> 64" and "- (2 ^ (LENGTH('a) - 1)) \<le> sint v" "sint v < 2 ^ (LENGTH('a) - 1)"
  shows "scast (ucast v :: 'a :: len word) = v"
proof -
  have "sint (ucast v :: 'a word) = signed_take_bit (LENGTH('a) - Suc 0) (take_bit 64 (sint v))"
    by (simp add: signed_ucast_eq uint_sint)
  also have "\<dots> = signed_take_bit (LENGTH('a) - Suc 0) (sint v)"
    using assms(1) by (simp add: signed_take_bit_take_bit)
  also have "\<dots> = sint v"
    using assms(2,3) by (intro signed_take_bit_int_eq_self) simp_all
  finally have a: "sint (ucast v :: 'a word) = sint v" .
  have "sint (scast (ucast v :: 'a word) :: u64) = sint v"
    using sint_greater_eq [of v] sint_less [of v]
    by (simp add: signed_scast_eq a signed_take_bit_int_eq_self)
  then show ?thesis by (rule signed_word_eqI)
qed

subsection \<open>A decoder run\<close>

text \<open>
  What a value weighs: its nodes and the bytes of its strings and byte slices; and the depth
  of what is innermost in it.
\<close>

fun weight :: "go_value \<Rightarrow> nat" and entries_weight :: "(string \<times> go_value) list \<Rightarrow> nat"
  and elements_weight :: "go_value list \<Rightarrow> nat" where
  "weight (GString s) = Suc (length s)"
| "weight (GBytes b) = Suc (length b)"
| "weight (GArray vs) = Suc (elements_weight vs)"
| "weight (GMap kvs) = Suc (entries_weight kvs)"
| "weight _ = 1"
| "entries_weight [] = 0"
| "entries_weight ((k, v) # kvs) = Suc (weight v + entries_weight kvs)"
| "elements_weight [] = 0"
| "elements_weight (v # vs) = weight v + elements_weight vs"

fun nesting :: "go_value \<Rightarrow> nat" where
  "nesting (GArray vs) = foldr (\<lambda>v n. max (Suc (nesting v)) n) vs 0"
| "nesting (GMap kvs) = foldr (\<lambda>kv n. max (Suc (nesting (snd kv))) n) kvs 0"
| "nesting _ = 0"

text \<open>
  \<open>takes d dec\<close>: a decoder that takes a prefix of its input and gives a value no heavier than
  that prefix, nested less than \<open>d\<close> deep.
\<close>

definition takes :: "nat \<Rightarrow> (byte list \<Rightarrow> go_value decoded) \<Rightarrow> bool" where
  "takes d dec \<longleftrightarrow> (\<forall>p v rest. dec p = Inr (v, rest) \<longrightarrow>
     (\<exists>used. p = used @ rest \<and> weight v \<le> length used) \<and> nesting v < d)"

lemma weight_pos: "0 < weight v"
  by (cases v) simp_all

lemma nesting_array: "(\<forall>v \<in> set vs. nesting v < d) \<Longrightarrow> nesting (GArray vs) < Suc d"
  by (induction vs) simp_all

lemma nesting_map: "(\<forall>kv \<in> set kvs. nesting (snd kv) < d) \<Longrightarrow> nesting (GMap kvs) < Suc d"
  by (induction kvs) simp_all

lemma entries_weight_put: "entries_weight (map_put k v kvs) \<le> Suc (weight v + entries_weight kvs)"
  by (induction k v kvs rule: map_put.induct) simp_all

lemma set_map_put: "set (map_put k v kvs) \<subseteq> insert (k, v) (set kvs)"
  by (induction k v kvs rule: map_put.induct) auto

lemma decodeElements_takes:
  assumes "takes d dec"
  shows "decodeElements dec n p = Inr (vs, rest) \<Longrightarrow>
    (\<exists>used. p = used @ rest \<and> elements_weight vs \<le> length used) \<and> (\<forall>v \<in> set vs. nesting v < d)"
proof (induction n arbitrary: p vs)
  case 0
  then show ?case by simp
next
  case (Suc n)
  then obtain v q ws where d: "dec p = Inr (v, q)" "decodeElements dec n q = Inr (ws, rest)" "vs = v # ws"
    by (auto split: sum.splits)
  from assms d(1) obtain u where "p = u @ q" "weight v \<le> length u" "nesting v < d"
    unfolding takes_def by blast
  moreover from Suc.IH [OF d(2)] obtain u' where
    "q = u' @ rest" "elements_weight ws \<le> length u'" "\<forall>v \<in> set ws. nesting v < d"
    by blast
  ultimately show ?case unfolding d(3) by (intro conjI exI [of _ "u @ u'"]) simp_all
qed

lemma decodeEntries_takes:
  assumes "takes d dec"
  shows "decodeEntries text_of dec n kvs p = Inr (m, rest) \<Longrightarrow> \<forall>kv \<in> set kvs. nesting (snd kv) < d \<Longrightarrow>
    \<exists>used. p = used @ rest \<and> weight m \<le> Suc (entries_weight kvs) + length used \<and> nesting m < Suc d"
proof (induction n arbitrary: p kvs)
  case 0
  then show ?case using nesting_map [of kvs d] by (intro exI [of _ "[]"]) auto
next
  case (Suc n)
  then obtain k q v r where d: "dec p = Inr (k, q)" "dec q = Inr (v, r)"
    "decodeEntries text_of dec n (map_put (sprint text_of k) v kvs) r = Inr (m, rest)"
    by (auto split: sum.splits)
  from assms d(1) obtain u where u: "p = u @ q" "weight k \<le> length u"
    unfolding takes_def by blast
  from assms d(2) obtain w where w: "q = w @ r" "weight v \<le> length w" "nesting v < d"
    unfolding takes_def by blast
  have "\<forall>kv \<in> set (map_put (sprint text_of k) v kvs). nesting (snd kv) < d"
    using Suc.prems(2) w(3) set_map_put [of "sprint text_of k" v kvs] by auto
  from Suc.IH [OF d(3) this] obtain x where
    "r = x @ rest" "weight m \<le> Suc (entries_weight (map_put (sprint text_of k) v kvs)) + length x"
    "nesting m < Suc d"
    by blast
  then show ?case
    using u w entries_weight_put [of "sprint text_of k" v kvs] weight_pos [of k]
    by (intro exI [of _ "u @ w @ x"]) simp
qed

lemma decodeUnsigned_takes:
  "decodeUnsigned p n = Inr (v, rest) \<Longrightarrow> p = take n p @ rest \<and> length (take n p) = n"
  by (auto simp: decodeUnsigned_def split: if_splits)

text \<open>The same for what follows a tag, which counts for one.\<close>

definition follows :: "nat \<Rightarrow> go_value decoded \<Rightarrow> byte list \<Rightarrow> bool" where
  "follows d r p \<longleftrightarrow> (\<forall>v rest. r = Inr (v, rest) \<longrightarrow>
     (\<exists>used. p = used @ rest \<and> weight v \<le> Suc (length used)) \<and> nesting v < d)"

lemma follows_fail: "follows d (Inl e) p"
  by (simp add: follows_def)

lemma follows_scalar: "weight v = 1 \<Longrightarrow> nesting v = 0 \<Longrightarrow> follows (Suc d) (Inr (v, p)) p"
  by (simp add: follows_def)

lemma follows_if: "(c \<Longrightarrow> follows d r p) \<Longrightarrow> (\<not> c \<Longrightarrow> follows d r' p) \<Longrightarrow> follows d (if c then r else r') p"
  by simp

lemma follows_string: "follows (Suc d) (decodeString p n) p"
  by (auto simp: follows_def decodeString_def bytes_str_def split: if_splits
      intro!: exI [of _ "take n p"])

lemma follows_bytes: "follows (Suc d) (if length p < n then Inl e else Inr (GBytes (take n p), drop n p)) p"
  by (auto simp: follows_def split: if_splits intro!: exI [of _ "take n p"])

lemma follows_unsigned:
  assumes "\<And>v. weight (f v) = 1" "\<And>v. nesting (f v) = 0"
  shows "follows (Suc d) (case decodeUnsigned p n of Inl e \<Rightarrow> Inl e | Inr (v, rest) \<Rightarrow> Inr (f v, rest)) p"
  using assms
  by (auto simp: follows_def split: sum.splits dest!: decodeUnsigned_takes
      intro: exI [of _ "take n p"])

lemma follows_length:
  assumes "\<And>q n. follows d (k q n) q"
  shows "follows d (with_length maxInt p w k) p"
  unfolding follows_def with_length_def decodeLength_def
proof (intro allI impI)
  fix v rest
  assume "(case case decodeUnsigned p w of Inl e \<Rightarrow> Inl e
       | Inr (value, rest) \<Rightarrow>
           if maxInt < unat value then Inl (Errorf ''MessagePack length exceeds platform limit'')
           else Inr (unat value, rest) of
       Inl e \<Rightarrow> Inl e | Inr (len, rest') \<Rightarrow> k rest' len) = Inr (v, rest)"
  then obtain u q where d: "decodeUnsigned p w = Inr (u, q)" "k q (unat u) = Inr (v, rest)"
    by (auto split: sum.splits if_splits)
  then obtain x where "q = x @ rest" "weight v \<le> Suc (length x)" "nesting v < d"
    using assms [of q "unat u"] unfolding follows_def by blast
  then show "(\<exists>used. p = used @ rest \<and> weight v \<le> Suc (length used)) \<and> nesting v < d"
    using decodeUnsigned_takes [OF d(1)] by (intro conjI exI [of _ "take w p @ x"]) simp_all
qed

lemma follows_array:
  assumes "takes d dec"
  shows "follows (Suc d) (decodeArray dec p n) p"
  unfolding follows_def
proof (intro allI impI)
  fix v rest assume "decodeArray dec p n = Inr (v, rest)"
  then obtain vs where d: "decodeElements dec n p = Inr (vs, rest)" and v: "v = GArray vs"
    by (auto simp: decodeArray_def split: if_splits sum.splits)
  from decodeElements_takes [OF assms d] show
    "(\<exists>used. p = used @ rest \<and> weight v \<le> Suc (length used)) \<and> nesting v < Suc d"
    unfolding v using nesting_array [of vs d] by auto
qed

lemma follows_map:
  assumes "takes d dec"
  shows "follows (Suc d) (decodeMap text_of dec p n) p"
  using decodeEntries_takes [OF assms, where kvs = "[]" and p = p and n = n and text_of = text_of]
  by (auto simp: follows_def decodeMap_def split: if_splits)

lemma takes_tag:
  assumes "\<And>tag p. follows d (dec (tag # p)) p" and "\<And>v rest. dec [] \<noteq> Inr (v, rest)"
  shows "takes d dec"
  unfolding takes_def
proof (intro allI impI)
  fix p v rest assume r: "dec p = Inr (v, rest)"
  then obtain tag q where p: "p = tag # q" using assms(2) by (cases p) auto
  with assms(1) [of tag q] r obtain u where "q = u @ rest" "weight v \<le> Suc (length u)" "nesting v < d"
    unfolding follows_def by blast
  then show "(\<exists>used. p = used @ rest \<and> weight v \<le> length used) \<and> nesting v < d"
    unfolding p by (intro conjI exI [of _ "tag # u"]) simp_all
qed

lemma decodeValue_takes: "takes levels (decodeValue maxInt text_of levels)"
proof (induction levels)
  case 0
  show ?case by (simp add: takes_def decodeValue.simps)
next
  case (Suc levels)
  show ?case
  proof (rule takes_tag)
    fix tag p
    note scalars = follows_unsigned [where f = GUint64] follows_unsigned [where f = GFloat]
      follows_unsigned [where f = "\<lambda>v. GFloat (widen_float (ucast v))"]
      follows_unsigned [where f = "\<lambda>v. GInt (signed_value v w)" for w]
    show "follows (Suc levels) (decodeValue maxInt text_of (Suc levels) (tag # p)) p"
      unfolding decodeValue.simps Let_def
      by (rule follows_bytes follows_string follows_array [OF Suc.IH] follows_map [OF Suc.IH]
          follows_length follows_if scalars follows_fail follows_scalar weight.simps nesting.simps)+
  qed (simp add: decodeValue.simps)
qed



subsection \<open>Round trip\<close>

text \<open>
  What the decoder gives back: an integer that is not negative comes back as a
  \<^verbatim>\<open>uint64\<close>. \<open>encodable\<close> are the values within the decoder's limits on strings
  and collections; a Go map has no key twice.
\<close>

fun normal :: "go_value \<Rightarrow> go_value" where
  "normal (GInt v) = (if 0 \<le> sint v then GUint64 v else GInt v)"
| "normal (GUint32 v) = GUint64 (ucast v)"
| "normal (GArray vs) = GArray (map normal vs)"
| "normal (GMap kvs) = GMap (map (\<lambda>kv. (fst kv, normal (snd kv))) kvs)"
| "normal v = v"

fun encodable :: "go_value \<Rightarrow> bool" where
  "encodable (GString s) = (length s \<le> maxMessagePackStringBytes)"
| "encodable (GArray vs) = (length vs \<le> maxMessagePackCollectionElements \<and> (\<forall>v \<in> set vs. encodable v))"
| "encodable (GMap kvs) = (length kvs \<le> maxMessagePackCollectionElements \<and> distinct (map fst kvs) \<and>
     (\<forall>kv \<in> set kvs. length (fst kv) \<le> maxMessagePackStringBytes \<and> encodable (snd kv)))"
| "encodable v = True"

text \<open>Integers.\<close>

lemma unat_ucast_byte: "unat (ucast (v :: u64) :: byte) = unat v mod 256"
  by (simp add: unsigned_ucast_eq take_bit_eq_mod)

lemma ucast_negative_fix:
  fixes v :: u64
  assumes "sint v < 0" "-32 \<le> sint v"
  shows "0xe0 \<le> (ucast v :: byte)"
proof -
  have "uint (ucast v :: byte) = take_bit 8 (sint v)"
    unfolding unsigned_ucast_eq uint_sint [of v] by simp
  also have "\<dots> = (sint v + 256) mod 256" by (simp add: take_bit_eq_mod)
  also have "\<dots> = sint v + 256" using assms by (intro mod_pos_pos_trivial) simp_all
  finally show ?thesis using assms by (simp add: word_le_def)
qed

lemma ucast_ucast_small: "unat v < 256 \<Longrightarrow> ucast (ucast v :: byte) = (v :: u64)"
  by (simp add: word_unat_eq_iff unsigned_ucast_eq take_bit_nat_eq_self unsigned_take_bit_eq)

lemma signed_take:
  "signed_value (take_bit 8 v) (Suc 0) = scast (ucast v :: 8 word)"
  "signed_value (take_bit 16 v) 2 = scast (ucast v :: 16 word)"
  "signed_value (take_bit 32 v) 4 = scast (ucast v :: 32 word)"
  "signed_value v 8 = v"
proof -
  have "(ucast (take_bit 8 v) :: 8 word) = ucast v" "(ucast (take_bit 16 v) :: 16 word) = ucast v"
    "(ucast (take_bit 32 v) :: 32 word) = ucast v"
    by (rule bit_word_eqI; simp add: bit_simps)+
  then show "signed_value (take_bit 8 v) (Suc 0) = scast (ucast v :: 8 word)"
    "signed_value (take_bit 16 v) 2 = scast (ucast v :: 16 word)"
    "signed_value (take_bit 32 v) 4 = scast (ucast v :: 32 word)" "signed_value v 8 = v"
    by (simp_all add: signed_value_def)
qed

lemma sint_of_small: "uint v < 2 ^ 63 \<Longrightarrow> 0 \<le> sint (v :: u64)"
proof -
  assume less: "uint v < 2 ^ 63"
  have "- (2 ^ 63) \<le> (0 :: int)" by simp
  also have "0 \<le> uint v" by simp
  finally have "signed_take_bit 63 (uint v) = uint v" using less by (rule signed_take_bit_int_eq_self)
  then show ?thesis by (simp add: sint_uint)
qed

lemma integer_formats:
  fixes x :: int
  shows "0 \<le> x \<and> x \<le> 0x7f \<or> x < 0 \<and> -32 \<le> x \<or> 0x7f < x \<and> x \<le> 0xff \<or> 0xff < x \<and> x \<le> 0xffff
    \<or> 0xffff < x \<and> x \<le> 0xffffffff \<or> 0xffffffff < x \<or> x < -32 \<and> -0x80 \<le> x
    \<or> x < -0x80 \<and> -0x8000 \<le> x \<or> x < -0x8000 \<and> -0x80000000 \<le> x \<or> x < -0x80000000"
  by presburger

lemma decode_integer:
  "decodeValue m t (Suc l) (appendInteger [] v @ rest) = Inr (normal (GInt v), rest)"
proof -
  consider "0 \<le> sint v" "sint v \<le> 0x7f" | "sint v < 0" "-32 \<le> sint v"
    | "0x7f < sint v" "sint v \<le> 0xff" | "0xff < sint v" "sint v \<le> 0xffff"
    | "0xffff < sint v" "sint v \<le> 0xffffffff" | "0xffffffff < sint v"
    | "sint v < -32" "-0x80 \<le> sint v" | "sint v < -0x80" "-0x8000 \<le> sint v"
    | "sint v < -0x8000" "-0x80000000 \<le> sint v" | "sint v < -0x80000000"
    using integer_formats [of "sint v"] by blast
  then show ?thesis
  proof cases
    case 1
    then have "unat v \<le> 127" using sint_nonneg [of v] by linarith
    with 1 show ?thesis
      by (simp add: appendInteger_def decodeValue.simps word_le_nat_alt unat_ucast_byte ucast_ucast_small)
  next
    case 2
    have "\<not> (ucast v :: byte) \<le> 0x7f" using ucast_negative_fix [OF 2] by (simp add: word_le_nat_alt)
    with 2 ucast_negative_fix [OF 2] show ?thesis
      by (simp add: appendInteger_def decodeValue.simps narrow_signed)
  next
    case 3
    then show ?thesis by (simp add: appendInteger_def decodeValue.simps take_bit_sint)
  next
    case 4
    then show ?thesis by (simp add: appendInteger_def decodeValue.simps take_bit_sint)
  next
    case 5
    then show ?thesis by (simp add: appendInteger_def decodeValue.simps take_bit_sint)
  next
    case 6
    then show ?thesis by (simp add: appendInteger_def decodeValue.simps take_bit_sint)
  next
    case 7
    then show ?thesis
      by (simp add: appendInteger_def decodeValue.simps signed_take narrow_signed)
  next
    case 8
    then show ?thesis
      by (simp add: appendInteger_def decodeValue.simps signed_take narrow_signed)
  next
    case 9
    then show ?thesis
      by (simp add: appendInteger_def decodeValue.simps signed_take narrow_signed)
  next
    case 10
    then show ?thesis
      by (simp add: appendInteger_def decodeValue.simps signed_take)
  qed
qed

text \<open>Headers: the small lengths live in the tag, the larger ones follow it.\<close>

lemma collection_tag_table:
  "list_all (\<lambda>n. \<not> (0x90 OR of_nat n :: byte) \<le> 0x7f \<and> \<not> 0xe0 \<le> (0x90 OR of_nat n :: byte)
     \<and> (0x90 OR of_nat n :: byte) AND 0xf0 = 0x90 \<and> unat ((0x90 OR of_nat n :: byte) AND 0x0f) = n
     \<and> \<not> (0x80 OR of_nat n :: byte) \<le> 0x7f \<and> \<not> 0xe0 \<le> (0x80 OR of_nat n :: byte)
     \<and> (0x80 OR of_nat n :: byte) AND 0xf0 = 0x80 \<and> unat ((0x80 OR of_nat n :: byte) AND 0x0f) = n)
     [0..<16]"
  by (simp add: upt_rec)

lemma string_tag_table:
  "list_all (\<lambda>n. \<not> (0xa0 OR of_nat n :: byte) \<le> 0x7f \<and> \<not> 0xe0 \<le> (0xa0 OR of_nat n :: byte)
     \<and> (0xa0 OR of_nat n :: byte) AND 0xf0 \<noteq> 0x80 \<and> (0xa0 OR of_nat n :: byte) AND 0xf0 \<noteq> 0x90
     \<and> (0xa0 OR of_nat n :: byte) AND 0xe0 = 0xa0 \<and> unat ((0xa0 OR of_nat n :: byte) AND 0x1f) = n)
     [0..<32]"
  by (simp add: upt_rec)

lemmas collection_tags = collection_tag_table [unfolded list_all_iff set_upt, rule_format]
lemmas string_tags = string_tag_table [unfolded list_all_iff set_upt, rule_format]

lemma with_length_be_bytes:
  assumes "n < 2 ^ (8 * w)" "n \<le> maxInt" "w \<le> 4"
  shows "with_length maxInt (be_bytes w (of_nat n) @ rest) w k = k rest n"
proof -
  have "(2 :: nat) ^ (8 * w) \<le> 2 ^ 32" using assms(3) by (intro power_increasing) simp_all
  then have n: "n < 2 ^ 32" using assms(1) by simp
  then have u: "unat (of_nat n :: u64) = n" by (simp add: unat_of_nat)
  then have "unat (take_bit (8 * w) (of_nat n :: u64)) = n"
    using assms(1) by (simp add: take_bit_small)
  then show ?thesis using assms(2) by (simp add: with_length_def decodeLength_def)
qed

lemma decode_string:
  assumes "length s \<le> maxMessagePackStringBytes" "maxMessagePackStringBytes \<le> m"
  shows "decodeValue m t (Suc l) (appendString [] s @ rest) = Inr (GString s, rest)"
proof -
  have str: "decodeString (str_bytes s @ rest) (length s) = Inr (GString s, rest)"
    using assms(1) by (simp add: decodeString_def)
  consider "length s \<le> 31" | "31 < length s" "length s \<le> 0xff" | "0xff < length s" "length s \<le> 0xffff"
    | "0xffff < length s" "length s \<le> 0x100000"
    using assms(1) by (auto simp: maxMessagePackStringBytes_def) linarith
  then show ?thesis
  proof cases
    case 1
    then show ?thesis
      by (simp add: appendString_def decodeValue.simps string_tags [of "length s"] str Let_def)
  next
    case 2
    then show ?thesis using assms
      by (simp add: appendString_def decodeValue.simps with_length_be_bytes str Let_def)
  next
    case 3
    then show ?thesis using assms
      by (simp add: appendString_def decodeValue.simps with_length_be_bytes str Let_def)
  next
    case 4
    then show ?thesis using assms
      by (simp add: appendString_def decodeValue.simps with_length_be_bytes str Let_def)
  qed
qed

text \<open>Appending to a prefix is appending to nothing, behind the prefix.\<close>

lemma append_prefix:
  "appendInteger out v = out @ appendInteger [] v" "appendString out s = out @ appendString [] s"
  by (simp_all add: appendInteger_def appendString_def Let_def)

lemma scalar_nonempty: "appendInteger [] v \<noteq> []" "appendString [] s \<noteq> []"
  by (simp_all add: appendInteger_def appendString_def Let_def)

lemma decode_bytes:
  assumes "appendBinary out b = Inr out'" "0xffff \<le> m"
  shows "\<exists>bs. out' = out @ bs \<and> bs \<noteq> [] \<and>
    (\<forall>l rest. decodeValue m t (Suc l) (bs @ rest) = Inr (GBytes b, rest))"
proof (cases "length b \<le> 0xff")
  case True
  then show ?thesis using assms
    by (intro exI [of _ "0xc4 # be_bytes 1 (of_nat (length b)) @ b"])
       (simp add: appendBinary_def Let_def decodeValue.simps with_length_be_bytes)
next
  case False
  with assms show ?thesis
    by (intro exI [of _ "0xc5 # be_bytes 2 (of_nat (length b)) @ b"])
       (simp add: appendBinary_def Let_def decodeValue.simps with_length_be_bytes split: if_splits)
qed

text \<open>What the encoding of a value, of elements and of entries decodes to.\<close>

definition decodes :: "nat \<Rightarrow> (go_value \<Rightarrow> string) \<Rightarrow> byte list \<Rightarrow> go_value \<Rightarrow> byte list \<Rightarrow> bool" where
  "decodes m t out v out' \<longleftrightarrow> (\<exists>bs. out' = out @ bs \<and> bs \<noteq> [] \<and>
     (\<forall>l rest. nesting v \<le> l \<longrightarrow> decodeValue m t (Suc l) (bs @ rest) = Inr (normal v, rest)))"

definition elements_decode where
  "elements_decode m t out vs out' \<longleftrightarrow> (\<exists>bs. out' = out @ bs \<and> length vs \<le> length bs \<and>
     (\<forall>l rest. (\<forall>v \<in> set vs. nesting v \<le> l) \<longrightarrow>
        decodeElements (decodeValue m t (Suc l)) (length vs) (bs @ rest) = Inr (map normal vs, rest)))"

definition entries_decode where
  "entries_decode m t out kvs out' \<longleftrightarrow> (\<exists>bs. out' = out @ bs \<and> 2 * length kvs \<le> length bs \<and>
     (\<forall>l rest acc. (\<forall>kv \<in> set kvs. nesting (snd kv) \<le> l) \<longrightarrow> set (map fst kvs) \<inter> set (map fst acc) = {} \<longrightarrow>
        decodeEntries t (decodeValue m t (Suc l)) (length kvs) acc (bs @ rest)
          = Inr (GMap (acc @ map (\<lambda>kv. (fst kv, normal (snd kv))) kvs), rest)))"

lemma map_put_new: "k \<notin> set (map fst kvs) \<Longrightarrow> map_put k v kvs = kvs @ [(k, v)]"
  by (induction k v kvs rule: map_put.induct) auto

lemma decodesI:
  assumes "out' = out @ bs" "bs \<noteq> []"
    "\<And>l rest. nesting v \<le> l \<Longrightarrow> decodeValue m t (Suc l) (bs @ rest) = Inr (normal v, rest)"
  shows "decodes m t out v out'"
  using assms unfolding decodes_def by blast

lemma elements_cons:
  assumes "decodes m t out v mid" "elements_decode m t mid vs out'"
  shows "elements_decode m t out (v # vs) out'"
proof -
  from assms(1) obtain b where b: "mid = out @ b" "b \<noteq> []"
    "\<And>l rest. nesting v \<le> l \<Longrightarrow> decodeValue m t (Suc l) (b @ rest) = Inr (normal v, rest)"
    unfolding decodes_def by blast
  from assms(2) obtain bs where bs: "out' = mid @ bs" "length vs \<le> length bs"
    "\<And>l rest. (\<forall>v \<in> set vs. nesting v \<le> l) \<Longrightarrow>
        decodeElements (decodeValue m t (Suc l)) (length vs) (bs @ rest) = Inr (map normal vs, rest)"
    unfolding elements_decode_def by blast
  from b(2) have "1 \<le> length b" by (cases b) simp_all
  with b(1,3) bs show ?thesis
    unfolding elements_decode_def by (intro exI [of _ "b @ bs"]) simp
qed

lemma entries_cons:
  assumes "decodes m t (appendString out k) v mid" "entries_decode m t mid kvs out'"
    and "k \<notin> set (map fst kvs)" "length k \<le> maxMessagePackStringBytes" "maxMessagePackStringBytes \<le> m"
  shows "entries_decode m t out ((k, v) # kvs) out'"
proof -
  from assms(1) obtain b where b: "mid = out @ appendString [] k @ b" "b \<noteq> []"
    "\<And>l rest. nesting v \<le> l \<Longrightarrow> decodeValue m t (Suc l) (b @ rest) = Inr (normal v, rest)"
    unfolding decodes_def append_prefix(2) [of out] by auto
  from assms(2) obtain bs where bs: "out' = mid @ bs" "2 * length kvs \<le> length bs"
    "\<And>l rest acc. (\<forall>kv \<in> set kvs. nesting (snd kv) \<le> l) \<Longrightarrow> set (map fst kvs) \<inter> set (map fst acc) = {} \<Longrightarrow>
        decodeEntries t (decodeValue m t (Suc l)) (length kvs) acc (bs @ rest)
          = Inr (GMap (acc @ map (\<lambda>kv. (fst kv, normal (snd kv))) kvs), rest)"
    unfolding entries_decode_def by blast
  have "1 \<le> length b" "1 \<le> length (appendString [] k)"
    using b(2) scalar_nonempty(2) [of k] by (simp_all add: Suc_le_eq)
  moreover have "decodeEntries t (decodeValue m t (Suc l)) (Suc (length kvs)) acc
      (appendString [] k @ b @ bs @ rest)
    = Inr (GMap (acc @ (k, normal v) # map (\<lambda>kv. (fst kv, normal (snd kv))) kvs), rest)"
    if "nesting v \<le> l" "\<forall>kv \<in> set kvs. nesting (snd kv) \<le> l"
      "insert k (fst ` set kvs) \<inter> fst ` set acc = {}" for l rest acc
  proof -
    have "map_put k (normal v) acc = acc @ [(k, normal v)]"
      using that(3) by (intro map_put_new) auto
    moreover have "set (map fst kvs) \<inter> set (map fst (acc @ [(k, normal v)])) = {}"
      using that(3) assms(3) by auto
    ultimately show ?thesis
      using bs(3) [OF that(2), of "acc @ [(k, normal v)]" rest]
      by (simp add: decode_string [OF assms(4,5)] b(3) [OF that(1)] sprint_def)
  qed
  ultimately show ?thesis
    using b(1) bs(1,2) unfolding entries_decode_def
    by (intro exI [of _ "appendString [] k @ b @ bs"]) simp
qed

text \<open>The header of a collection and its contents.\<close>

lemma nesting_array_le: "nesting (GArray vs) \<le> Suc k \<Longrightarrow> \<forall>v \<in> set vs. nesting v \<le> k"
  by (induction vs) auto

lemma nesting_map_le: "nesting (GMap kvs) \<le> Suc k \<Longrightarrow> \<forall>kv \<in> set kvs. nesting (snd kv) \<le> k"
  by (induction kvs) auto

lemma decode_array:
  assumes "appendValue out (GArray vs) = Inr out'" "length vs \<le> maxMessagePackCollectionElements"
    and "length vs \<le> 15 \<Longrightarrow> appendElements (out @ [0x90 OR of_nat (length vs)]) vs = Inr out' \<Longrightarrow>
      elements_decode m t (out @ [0x90 OR of_nat (length vs)]) vs out'"
    and "\<not> length vs \<le> 15 \<Longrightarrow> appendElements (out @ 0xdc # be_bytes 2 (of_nat (length vs))) vs = Inr out' \<Longrightarrow>
      elements_decode m t (out @ 0xdc # be_bytes 2 (of_nat (length vs))) vs out'"
    and "0xffff \<le> m"
  shows "decodes m t out (GArray vs) out'"
proof -
  let ?hdr = "if length vs \<le> 15 then [0x90 OR of_nat (length vs)] else 0xdc # be_bytes 2 (of_nat (length vs))"
  have n: "length vs \<le> 4096" using assms(2) by (simp add: maxMessagePackCollectionElements_def)
  have "elements_decode m t (out @ ?hdr) vs out'"
    using assms(1,3,4) n by (simp add: Let_def split: if_splits)
  then obtain bs where bs: "out' = out @ ?hdr @ bs" "length vs \<le> length bs"
    "\<And>l rest. (\<forall>v \<in> set vs. nesting v \<le> l) \<Longrightarrow>
        decodeElements (decodeValue m t (Suc l)) (length vs) (bs @ rest) = Inr (map normal vs, rest)"
    unfolding elements_decode_def by auto
  have arr: "decodeArray (decodeValue m t l) (bs @ rest) (length vs) = Inr (GArray (map normal vs), rest)"
    if "nesting (GArray vs) \<le> l" for l rest
  proof (cases vs)
    case Nil
    then show ?thesis using bs(3) [of 0] by (simp add: decodeArray_def)
  next
    case (Cons w ws)
    with that obtain k where k: "l = Suc k" by (cases l) auto
    have "\<forall>v \<in> set vs. nesting v \<le> k" using nesting_array_le that unfolding k by blast
    with bs(2) bs(3) [of k] assms(2) show ?thesis by (simp add: decodeArray_def k)
  qed
  show ?thesis
  proof (rule decodesI)
    show "out' = out @ (?hdr @ bs)" "?hdr @ bs \<noteq> []" using bs(1) by simp_all
    show "decodeValue m t (Suc l) ((?hdr @ bs) @ rest) = Inr (normal (GArray vs), rest)"
      if "nesting (GArray vs) \<le> l" for l rest
      using arr [OF that] n assms(5)
      by (simp add: decodeValue.simps collection_tags [of "length vs"] with_length_be_bytes Let_def)
  qed
qed

lemma decode_map:
  assumes "appendValue out (GMap kvs) = Inr out'" "length kvs \<le> maxMessagePackCollectionElements"
    and "length kvs \<le> 15 \<Longrightarrow> appendEntries (out @ [0x80 OR of_nat (length kvs)]) kvs = Inr out' \<Longrightarrow>
      entries_decode m t (out @ [0x80 OR of_nat (length kvs)]) kvs out'"
    and "\<not> length kvs \<le> 15 \<Longrightarrow> appendEntries (out @ 0xde # be_bytes 2 (of_nat (length kvs))) kvs = Inr out' \<Longrightarrow>
      entries_decode m t (out @ 0xde # be_bytes 2 (of_nat (length kvs))) kvs out'"
    and "0xffff \<le> m"
  shows "decodes m t out (GMap kvs) out'"
proof -
  let ?hdr = "if length kvs \<le> 15 then [0x80 OR of_nat (length kvs)] else 0xde # be_bytes 2 (of_nat (length kvs))"
  have n: "length kvs \<le> 4096" using assms(2) by (simp add: maxMessagePackCollectionElements_def)
  have "entries_decode m t (out @ ?hdr) kvs out'"
    using assms(1,3,4) n by (simp add: Let_def split: if_splits)
  then obtain bs where bs: "out' = out @ ?hdr @ bs" "2 * length kvs \<le> length bs"
    "\<And>l rest acc. (\<forall>kv \<in> set kvs. nesting (snd kv) \<le> l) \<Longrightarrow> set (map fst kvs) \<inter> set (map fst acc) = {} \<Longrightarrow>
        decodeEntries t (decodeValue m t (Suc l)) (length kvs) acc (bs @ rest)
          = Inr (GMap (acc @ map (\<lambda>kv. (fst kv, normal (snd kv))) kvs), rest)"
    unfolding entries_decode_def by auto
  have mp: "decodeMap t (decodeValue m t l) (bs @ rest) (length kvs) = Inr (normal (GMap kvs), rest)"
    if "nesting (GMap kvs) \<le> l" for l rest
  proof (cases kvs)
    case Nil
    then show ?thesis using bs(3) [of 0 "[]"] by (simp add: decodeMap_def)
  next
    case (Cons w ws)
    with that obtain k where k: "l = Suc k" by (cases l) auto
    have "\<forall>kv \<in> set kvs. nesting (snd kv) \<le> k" using nesting_map_le that unfolding k by blast
    with bs(2) bs(3) [of k "[]" rest] assms(2) show ?thesis by (simp add: decodeMap_def k)
  qed
  show ?thesis
  proof (rule decodesI)
    show "out' = out @ (?hdr @ bs)" "?hdr @ bs \<noteq> []" using bs(1) by simp_all
    show "decodeValue m t (Suc l) ((?hdr @ bs) @ rest) = Inr (normal (GMap kvs), rest)"
      if "nesting (GMap kvs) \<le> l" for l rest
      using mp [OF that] n assms(5)
      by (simp add: decodeValue.simps collection_tags [of "length kvs"] with_length_be_bytes Let_def)
  qed
qed

lemma append_decodes:
  assumes m: "maxMessagePackStringBytes \<le> m"
  shows "appendValue out v = Inr out' \<Longrightarrow> encodable v \<Longrightarrow> decodes m t out v out'"
    and "appendElements out vs = Inr out' \<Longrightarrow> \<forall>v \<in> set vs. encodable v \<Longrightarrow> elements_decode m t out vs out'"
    and "appendEntries out kvs = Inr out' \<Longrightarrow> distinct (map fst kvs) \<Longrightarrow>
      \<forall>kv \<in> set kvs. length (fst kv) \<le> maxMessagePackStringBytes \<and> encodable (snd kv) \<Longrightarrow>
      entries_decode m t out kvs out'"
proof (induction out v and out vs and out kvs arbitrary: out' and out' and out'
    rule: appendValue_appendElements_appendEntries.induct)
  case (1 out)
  then show ?case by (intro decodesI [of _ _ "[0xc0]"]) (simp_all add: decodeValue.simps)
next
  case (2 out b)
  then show ?case
    by (intro decodesI [of _ _ "[if b then 0xc3 else 0xc2]"]) (simp_all add: decodeValue.simps)
next
  case (3 out s)
  then show ?case using m
    by (intro decodesI [of _ _ "appendString [] s"])
       (simp_all add: append_prefix(2) [of out] scalar_nonempty decode_string)
next
  case (4 out b)
  have "0xffff \<le> m" using m by (simp add: maxMessagePackStringBytes_def)
  with 4 decode_bytes [of out b out' m t] show ?case by (auto simp: decodes_def)
next
  case (5 out v)
  then show ?case
    by (intro decodesI [of _ _ "appendInteger [] v"])
       (simp_all only: appendValue.simps append_prefix(1) [of out] scalar_nonempty decode_integer sum.inject simp_thms)
next
  case (6 out v)
  then have "0 \<le> sint v" by (intro sint_of_small) (auto simp: word_less_def split: if_splits)
  with 6 show ?case
    using decode_integer [of m t _ v]
    by (intro decodesI [of _ _ "appendInteger [] v"])
       (auto simp: append_prefix(1) [of out] scalar_nonempty split: if_splits)
next
  case (7 out v)
  have "uint (ucast v :: u64) < 2 ^ 63"
    using uint_bounded [of v] by (simp add: unsigned_ucast_eq take_bit_int_eq_self)
  then have "0 \<le> sint (ucast v :: u64)" by (rule sint_of_small)
  with 7 show ?case
    using decode_integer [of m t _ "ucast v"]
    by (intro decodesI [of _ _ "appendInteger [] (ucast v)"])
       (auto simp: append_prefix(1) [of out] scalar_nonempty)
next
  case (8 out bits)
  then show ?case
    by (intro decodesI [of _ _ "0xcb # be_bytes 8 bits"]) (simp_all add: decodeValue.simps)
next
  case (9 out vs)
  have "length vs \<le> 0xffff" "0xffff \<le> m"
    using m 9(4) by (simp_all add: maxMessagePackStringBytes_def maxMessagePackCollectionElements_def)
  with 9 show ?case by (intro decode_array) simp_all
next
  case (10 out kvs)
  have "length kvs \<le> 0xffff" "0xffff \<le> m"
    using m 10(4) by (simp_all add: maxMessagePackStringBytes_def maxMessagePackCollectionElements_def)
  with 10 show ?case by (intro decode_map) simp_all
next
  case (11 out)
  then show ?case by (simp add: elements_decode_def)
next
  case (12 out v vs)
  then show ?case by (auto split: sum.splits intro: elements_cons)
next
  case (13 out)
  then show ?case by (simp add: entries_decode_def)
next
  case (14 out k v kvs)
  then show ?case using m by (auto split: sum.splits intro!: entries_cons)
qed

lemma decode_encoded:
  assumes "encodeMessagePack v = Inr bs" and "encodable v" and "nesting v \<le> maxMessagePackDepth"
    and "maxMessagePackStringBytes \<le> maxInt"
  shows "decodeMessagePack maxInt text_of bs = Inr (normal v)"
proof -
  have "decodes maxInt text_of [] v bs"
    using append_decodes(1) [OF assms(4) _ assms(2)] assms(1) by (simp add: encodeMessagePack_def)
  then have "decodeValue maxInt text_of (Suc maxMessagePackDepth) (bs @ []) = Inr (normal v, [])"
    using assms(3) unfolding decodes_def by (metis append_Nil)
  then show ?thesis by (simp add: decodeMessagePack_def)
qed

text \<open>(C30) A value within the decoder's limits survives the trip: when the encoder accepts it,
  the decoder gives it back, every integer that is not negative as a \<^verbatim>\<open>uint64\<close>.\<close>

theorem msgpack_roundtrip:
  assumes "encodeMessagePack v = Inr bs" and "encodable v" and "nesting v \<le> maxMessagePackDepth"
    and "maxMessagePackStringBytes \<le> maxInt"
  shows "decodeMessagePack maxInt text_of bs = Inr (normal v)"
  using assms by (rule decode_encoded)

theorem msgpack_roundtrip_witness:
  "decodeMessagePack maxMessagePackStringBytes (\<lambda>_. []) [0x92, 0x05, 0x81, 0xa1, 0x61, 0xfb]
     = Inr (GArray [GUint64 5, GMap [(''a'', GInt (-5))]])"
proof -
  have e: "encodeMessagePack (GArray [GInt 5, GMap [(''a'', GInt (-5))]])
      = Inr [0x92, 0x05, 0x81, 0xa1, 0x61, 0xfb]"
    by (simp add: encodeMessagePack_def appendInteger_def appendString_def str_bytes_def)
  have "encodable (GArray [GInt 5, GMap [(''a'', GInt (-5))]])"
    "nesting (GArray [GInt 5, GMap [(''a'', GInt (-5))]]) \<le> maxMessagePackDepth"
    by (simp_all add: maxMessagePackStringBytes_def maxMessagePackCollectionElements_def maxMessagePackDepth_def)
  from msgpack_roundtrip [OF e this order.refl, of "\<lambda>_. []"] show ?thesis by simp
qed

end
