(* ===== verification/Dsp_Wamp_Conn.thy ===== *)
theory Dsp_Wamp_Conn
  imports Msgpack
begin

text \<open>
  The WAMP connection of the DSP service (\<^verbatim>\<open>tools/dsp-interface/wamp.go\<close>, the methods of
  \<^verbatim>\<open>wampConnection\<close>): RawSocket frames over a stream, request ids, the session handshake,
  registration and subscription, and calls, which refuse the mute gates. The stream is a
  record of actions over an arbitrary connection \<open>'c\<close>; what the client relies on is the
  locale \<open>stream\<close>, interpreted on an in-memory pipe.
\<close>

subsection \<open>Constants\<close>

definition wampHello :: u64 where "wampHello = 1"
definition wampWelcome :: u64 where "wampWelcome = 2"
definition wampError :: u64 where "wampError = 8"
definition wampPublish :: u64 where "wampPublish = 16"
definition wampSubscribe :: u64 where "wampSubscribe = 32"
definition wampSubscribed :: u64 where "wampSubscribed = 33"
definition wampEvent :: u64 where "wampEvent = 36"
definition wampCall :: u64 where "wampCall = 48"
definition wampResult :: u64 where "wampResult = 50"
definition wampRegister :: u64 where "wampRegister = 64"
definition wampRegistered :: u64 where "wampRegistered = 65"
definition wampInvocation :: u64 where "wampInvocation = 68"
definition wampYield :: u64 where "wampYield = 70"
definition wampMaxFrameLen :: nat where "wampMaxFrameLen = 0xffffff"
definition maxDeferredSetupMessages :: nat where "maxDeferredSetupMessages = 256"

definition forbiddenProcedures :: "string list" where
  "forbiddenProcedures = [''com.harman.vui.mutedaccontrol'', ''com.harman.vui.muteampcontrol'']"

record procedureSpec =
  spec_Name :: string
  spec_ID :: u16
  spec_Opcode :: byte
  spec_Arguments :: nat

subsection \<open>Streams and messages\<close>

text \<open>
  \<open>NetWrite\<close> is \<^verbatim>\<open>net.Conn.Write\<close>, which returns the number of bytes written;
  \<open>ReadFull n\<close> is \<^verbatim>\<open>io.ReadFull\<close> into \<open>n\<close> bytes. \<open>maxInt\<close> and \<open>text_of\<close> are the
  parameters of the MessagePack decoder.
\<close>

record 'c wamp_io =
  NetWrite :: "byte list \<Rightarrow> ('c, nat) act"
  ReadFull :: "nat \<Rightarrow> ('c, byte list) act"
  maxInt :: nat
  text_of :: "go_value \<Rightarrow> string"

text \<open>\<open>frames\<close> logs the messages written; it is no field of the Go struct.\<close>

record 'c wampConnection =
  connection :: 'c
  nextID :: u64
  frames :: "go_value list list"

definition on_conn :: "('c, 'a) act \<Rightarrow> ('c wampConnection, 'a) act" where
  "on_conn m c = (case m (connection c) of (r, s) \<Rightarrow> (r, c\<lparr>connection := s\<rparr>))"

text \<open>
  The loop writes what is left until nothing is; \<open>fuel\<close> bounds the writes. A write that
  claims more than it was given would slice out of range.
\<close>

fun writeAll :: "'c wamp_io \<Rightarrow> nat \<Rightarrow> byte list \<Rightarrow> ('c, unit) act" where
  "writeAll io fuel [] = ret ()"
| "writeAll io 0 (b # bs) = fail OutOfFuel"
| "writeAll io (Suc fuel) (b # bs) =
     bindE (NetWrite io (b # bs)) (\<lambda>written.
       if length (b # bs) < written then fail (Panic ''slice bounds out of range'')
       else writeAll io fuel (drop written (b # bs)))"

definition frame_header :: "nat \<Rightarrow> byte list" where
  "frame_header len = [0, of_nat (len div 65536), of_nat (len div 256), of_nat len]"

lemma length_frame_header [simp]: "length (frame_header len) = 4"
  by (simp add: frame_header_def)

definition writeFrame :: "'c wamp_io \<Rightarrow> go_value list \<Rightarrow> ('c wampConnection, unit) act" where
  "writeFrame io message =
     bindE (liftE (encodeMessagePack (GArray message))) (\<lambda>payload. blockE [
       checkE (length payload \<le> wampMaxFrameLen) (Errorf ''WAMP frame exceeds RawSocket limit''),
       on_conn (writeAll io 4 (frame_header (length payload))),
       on_conn (writeAll io (length payload) payload),
       updS (\<lambda>c. c\<lparr>frames := frames c @ [message]\<rparr>)])"

definition readFrame :: "'c wamp_io \<Rightarrow> ('c wampConnection, go_value list) act" where
  "readFrame io =
     bindE (on_conn (ReadFull io 4)) (\<lambda>header.
       if header ! 0 \<noteq> 0 then fail (Errorf ''unsupported RawSocket frame type'')
       else bindE (on_conn (ReadFull io (be_nat [header ! 1, header ! 2, header ! 3]))) (\<lambda>payload.
         bindE (liftE (decodeMessagePack (maxInt io) (text_of io) payload)) (\<lambda>decoded.
           case decoded of GArray message \<Rightarrow> ret message
           | _ \<Rightarrow> fail (Errorf ''WAMP message is not an array''))))"

definition go_unsigned :: "go_value \<Rightarrow> u64 option" where
  "go_unsigned value =
     (case value of
        GUint64 number \<Rightarrow> Some number
      | GInt number \<Rightarrow> (if 0 \<le> sint number then Some number else None)
      | _ \<Rightarrow> None)"

definition messageType :: "go_value list \<Rightarrow> u64" where
  "messageType message =
     (case message of [] \<Rightarrow> 0 | v # _ \<Rightarrow> (case go_unsigned v of Some n \<Rightarrow> n | None \<Rightarrow> 0))"

definition requestID :: "('c wampConnection, u64) act" where
  "requestID c = (Inr (nextID c), c\<lparr>nextID := nextID c + 1\<rparr>)"

subsection \<open>Session set-up\<close>

definition negotiate :: "'c wamp_io \<Rightarrow> string \<Rightarrow> ('c wampConnection, unit) act" where
  "negotiate io realm =
     seqE (wrapE ''write RawSocket handshake''
             (bindE (on_conn (NetWrite io [0x7f, 0xf2, 0, 0])) (\<lambda>_. ret ())))
      (bindE (wrapE ''read RawSocket handshake'' (on_conn (ReadFull io 4))) (\<lambda>handshake.
        if handshake ! 0 \<noteq> 0x7f \<or> handshake ! 1 AND 0x0f \<noteq> 2
        then fail (Errorf ''RawSocket handshake rejected'')
        else seqE (writeFrame io [GInt wampHello, GString realm,
               GMap [(''roles'', GMap [(''callee'', GMap []), (''caller'', GMap []),
                                       (''publisher'', GMap []), (''subscriber'', GMap [])])]])
             (bindE (readFrame io) (\<lambda>response.
               if messageType response \<noteq> wampWelcome then fail (Errorf ''expected WELCOME'')
               else ret ()))))"

text \<open>
  Reads until the reply to the request arrives; every other message is put aside, at most
  \<^term>\<open>maxDeferredSetupMessages\<close> of them. The reply comes with the messages put aside.
\<close>

definition setup_reply :: "u64 \<Rightarrow> u64 \<Rightarrow> go_value list \<Rightarrow> bool" where
  "setup_reply expected rid message \<longleftrightarrow> messageType message = expected \<and>
     length message > 1 \<and> go_unsigned (message ! 1) = Some rid"

definition setup_failure :: "u64 \<Rightarrow> u64 \<Rightarrow> go_value list \<Rightarrow> bool" where
  "setup_failure expected rid message \<longleftrightarrow> messageType message \<noteq> expected \<and>
     messageType message = wampError \<and> length message > 2 \<and> go_unsigned (message ! 2) = Some rid"

function awaitSetupResponse ::
  "'c wamp_io \<Rightarrow> u64 \<Rightarrow> u64 \<Rightarrow> go_value list list
     \<Rightarrow> ('c wampConnection, go_value list \<times> go_value list list) act" where
  "awaitSetupResponse io expected rid deferred =
     bindE (readFrame io) (\<lambda>message.
       if setup_reply expected rid message then ret (message, deferred)
       else if setup_failure expected rid message then fail (Errorf ''setup request failed'')
       else if length (deferred @ [message]) > maxDeferredSetupMessages
       then fail (Errorf ''router sent messages without replying'')
       else awaitSetupResponse io expected rid (deferred @ [message]))"
  by pat_completeness auto
termination
  by (relation "measure (\<lambda>(io, e, r, deferred). Suc maxDeferredSetupMessages - length deferred)") auto

declare awaitSetupResponse.simps [simp del]

fun register ::
  "'c wamp_io \<Rightarrow> procedureSpec list \<Rightarrow> (u64 \<rightharpoonup> procedureSpec) \<Rightarrow> go_value list list
     \<Rightarrow> ('c wampConnection, (u64 \<rightharpoonup> procedureSpec) \<times> go_value list list) act" where
  "register io [] registrations deferred = ret (registrations, deferred)"
| "register io (spec # specs) registrations deferred =
     bindE requestID (\<lambda>rid.
       seqE (writeFrame io [GInt wampRegister, GUint64 rid, GMap [], GString (spec_Name spec)])
        (bindE (awaitSetupResponse io wampRegistered rid deferred) (\<lambda>(response, deferred).
          if length response < 3 then fail (Errorf ''registration failed'')
          else (case go_unsigned (response ! 2) of
                  None \<Rightarrow> fail (Errorf ''invalid registration response'')
                | Some registrationID \<Rightarrow>
                    register io specs (registrations(registrationID \<mapsto> spec)) deferred))))"

definition subscribe ::
  "'c wamp_io \<Rightarrow> string \<Rightarrow> go_value list list \<Rightarrow> ('c wampConnection, u64 \<times> go_value list list) act" where
  "subscribe io topic deferred =
     bindE requestID (\<lambda>rid.
       seqE (writeFrame io [GInt wampSubscribe, GUint64 rid, GMap [], GString topic])
        (bindE (awaitSetupResponse io wampSubscribed rid deferred) (\<lambda>(response, deferred).
          if length response < 3 then fail (Errorf ''subscription failed'')
          else (case go_unsigned (response ! 2) of
                  None \<Rightarrow> fail (Errorf ''invalid subscription response'')
                | Some subscription \<Rightarrow> ret (subscription, deferred)))))"

subsection \<open>Publications and calls\<close>

definition publish :: "'c wamp_io \<Rightarrow> string \<Rightarrow> go_value list \<Rightarrow> ('c wampConnection, unit) act" where
  "publish io topic args =
     bindE requestID (\<lambda>rid.
       writeFrame io [GInt wampPublish, GUint64 rid, GMap [], GString topic, GArray args])"

definition call :: "'c wamp_io \<Rightarrow> string \<Rightarrow> go_value list \<Rightarrow> ('c wampConnection, unit) act" where
  "call io procedure args =
     (if procedure \<in> set forbiddenProcedures then fail (Errorf ''refusing to call'')
      else bindE requestID (\<lambda>rid.
        writeFrame io [GInt wampCall, GUint64 rid, GMap [], GString procedure, GArray args]))"

subsection \<open>The stream's contract\<close>

text \<open>
  A write that reports no error has written everything (the contract of \<^verbatim>\<open>io.Writer\<close>),
  and a full read takes exactly the bytes it asked for, and succeeds when they are there.
\<close>

locale stream =
  fixes io :: "'c wamp_io" and written :: "'c \<Rightarrow> byte list" and inbound :: "'c \<Rightarrow> byte list"
  assumes write_value: "NetWrite io bs s = (Inr n, s') \<Longrightarrow>
      n = length bs \<and> written s' = written s @ bs \<and> inbound s' = inbound s"
    and write_safe: "safe (NetWrite io bs)"
    and read_value: "ReadFull io k s = (Inr bs, s') \<Longrightarrow>
      length bs = k \<and> inbound s = bs @ inbound s' \<and> written s' = written s"
    and read_safe: "safe (ReadFull io k)"
    and read_available: "k \<le> length (inbound s) \<Longrightarrow> \<not> isl (fst (ReadFull io k s))"
begin

lemma writeAll_value:
  assumes "writeAll io (Suc fuel) bs s = (Inr (), s')"
  shows "written s' = written s @ bs \<and> inbound s' = inbound s"
proof (cases bs)
  case Nil
  with assms show ?thesis by simp
next
  case (Cons b rest)
  with assms obtain n t where n: "NetWrite io bs s = (Inr n, t)"
    and k: "(if length bs < n then fail (Panic ''slice bounds out of range'')
             else writeAll io fuel (drop n bs)) t = (Inr (), s')"
    by (auto elim!: act_elims)
  from write_value [OF n] k show ?thesis by simp
qed

lemma writeAll_safe: "safe (writeAll io (Suc fuel) bs)"
proof (cases bs)
  case Nil
  then show ?thesis by (simp add: safe_ret)
next
  case (Cons b rest)
  have "\<not> crash e" if "writeAll io (Suc fuel) bs s = (Inl e, t)" for s e t
    using that unfolding Cons
    by (auto elim!: act_elims dest: safeD [OF write_safe] dest!: write_value)
  then show ?thesis by (intro safeI) (metis prod.collapse sum.case_eq_if sum.collapse(1))
qed

lemma writeFrame_value:
  assumes "writeFrame io message c = (Inr (), c')"
  obtains payload where "encodeMessagePack (GArray message) = Inr payload"
    "length payload \<le> wampMaxFrameLen"
    "written (connection c') = written (connection c) @ frame_header (length payload) @ payload"
    "inbound (connection c') = inbound (connection c)"
    "frames c' = frames c @ [message]" "nextID c' = nextID c"
proof -
  have on: "written (connection d') = written (connection d) @ bs \<and>
      inbound (connection d') = inbound (connection d) \<and> frames d' = frames d \<and> nextID d' = nextID d"
    if "on_conn (writeAll io fuel bs) d = (Inr (), d')" "bs = [] \<or> 0 < fuel" for d d' fuel bs
  proof (cases fuel)
    case 0
    with that show ?thesis by (auto simp: on_conn_def ret_def)
  next
    case (Suc k)
    with that writeAll_value [of k bs] show ?thesis by (auto simp: on_conn_def split: prod.splits)
  qed
  from assms have "\<exists>payload d e. encodeMessagePack (GArray message) = Inr payload \<and>
      length payload \<le> wampMaxFrameLen \<and>
      on_conn (writeAll io 4 (frame_header (length payload))) c = (Inr (), d) \<and>
      on_conn (writeAll io (length payload) payload) d = (Inr (), e) \<and>
      connection c' = connection e \<and> frames c' = frames e @ [message] \<and> nextID c' = nextID e"
    unfolding writeFrame_def blockE.simps by (elim act_elims) auto
  then obtain payload d e where p: "encodeMessagePack (GArray message) = Inr payload"
    "length payload \<le> wampMaxFrameLen"
    "on_conn (writeAll io 4 (frame_header (length payload))) c = (Inr (), d)"
    "on_conn (writeAll io (length payload) payload) d = (Inr (), e)"
    "connection c' = connection e" "frames c' = frames e @ [message]" "nextID c' = nextID e"
    by blast
  from on [OF p(3)] on [OF p(4)] p show thesis by (intro that [of payload]) auto
qed

lemma writeFrame_safe:
  assumes "encodeMessagePack (GArray message) = Inr payload"
  shows "safe (writeFrame io message)"
proof -
  have w: "safe (on_conn (writeAll io fuel bs))" if "bs = [] \<or> 0 < fuel" for fuel bs
  proof -
    have "safe (writeAll io fuel bs)"
      using that writeAll_safe by (cases fuel) (auto simp: safe_ret)
    then show ?thesis by (simp add: safe_def on_conn_def split_beta)
  qed
  show ?thesis
    unfolding writeFrame_def blockE.simps
    by (intro safe_rules w) (auto simp: assms)
qed

text \<open>What one side writes, the other side reads.\<close>

lemma readFrame_framed:
  assumes "encodeMessagePack (GArray message) = Inr payload" "length payload \<le> wampMaxFrameLen"
    and "encodable (GArray message)" "nesting (GArray message) \<le> maxMessagePackDepth"
    and "maxMessagePackStringBytes \<le> maxInt io"
    and "inbound (connection c) = frame_header (length payload) @ payload @ rest"
  shows "\<exists>c'. readFrame io c = (Inr (map normal message), c') \<and> inbound (connection c') = rest"
proof -
  obtain header s where h: "ReadFull io 4 (connection c) = (Inr header, s)"
    using read_available [of 4 "connection c"] assms(6)
    by (cases "ReadFull io 4 (connection c)"; cases "fst (ReadFull io 4 (connection c))")
       (auto simp: frame_header_def)
  have header: "header = frame_header (length payload)" "inbound s = payload @ rest"
    using read_value [OF h] assms(6) by (metis append_eq_append_conv length_frame_header)+
  have len: "header ! 0 = 0" "be_nat [header ! 1, header ! 2, header ! 3] = length payload"
    using assms(2) by (simp_all add: header frame_header_def be_nat_split3 wampMaxFrameLen_def)
  obtain got t where g: "ReadFull io (length payload) s = (Inr got, t)"
    using read_available [of "length payload" s] header(2)
    by (cases "ReadFull io (length payload) s"; cases "fst (ReadFull io (length payload) s)") auto
  have got: "got = payload" "inbound t = rest"
    using read_value [OF g] header(2) by (metis append_eq_append_conv)+
  have "decodeMessagePack (maxInt io) (text_of io) payload = Inr (normal (GArray message))"
    by (rule decode_encoded [OF assms(1,3,4,5)])
  then show ?thesis
    using h g got len by (simp add: readFrame_def on_conn_def act_simps)
qed

end

subsection \<open>An in-memory pipe\<close>

record pipe =
  p_in :: "byte list"
  p_out :: "byte list"

definition pipe_io :: "pipe wamp_io" where
  "pipe_io =
     \<lparr>NetWrite = (\<lambda>bs p. (Inr (length bs), p\<lparr>p_out := p_out p @ bs\<rparr>)),
      ReadFull = (\<lambda>n p. if length (p_in p) < n then (Inl (Errorf ''unexpected EOF''), p\<lparr>p_in := []\<rparr>)
                       else (Inr (take n (p_in p)), p\<lparr>p_in := drop n (p_in p)\<rparr>)),
      maxInt = maxMessagePackStringBytes, text_of = (\<lambda>_. [])\<rparr>"

interpretation pipe_stream: stream pipe_io p_out p_in
  by unfold_locales (auto simp: pipe_io_def safe_def split: if_splits)

definition open_pipe :: "byte list \<Rightarrow> pipe wampConnection" where
  "open_pipe input = \<lparr>connection = \<lparr>p_in = input, p_out = []\<rparr>, nextID = 1, frames = []\<rparr>"

lemma pipe_writeAll:
  "bs = [] \<or> 0 < fuel \<Longrightarrow> writeAll pipe_io fuel bs p = (Inr (), p\<lparr>p_out := p_out p @ bs\<rparr>)"
  by (cases bs; cases fuel) (simp_all add: pipe_io_def act_simps)

lemma pipe_writeFrame:
  assumes "encodeMessagePack (GArray message) = Inr payload" "length payload \<le> wampMaxFrameLen"
  shows "writeFrame pipe_io message c = (Inr (), c\<lparr>connection := (connection c)
     \<lparr>p_out := p_out (connection c) @ frame_header (length payload) @ payload\<rparr>,
     frames := frames c @ [message]\<rparr>)"
  using assms by (simp add: writeFrame_def act_simps on_conn_def pipe_writeAll)

subsection \<open>What is written\<close>

text \<open>Only a successful write adds to the messages written, and it adds its message.\<close>

lemma on_conn_frames: "keeps (\<lambda>c. P (frames c) (nextID c)) (on_conn m)"
  by (rule keepsI) (simp add: on_conn_def split_beta)

lemma writeFrame_frames:
  "triple (\<lambda>c. frames c = F \<and> nextID c = n) (writeFrame io m)
     (\<lambda>_ c. frames c = F @ [m] \<and> nextID c = n) (\<lambda>_ c. frames c = F \<and> nextID c = n)"
proof -
  let ?I = "\<lambda>c. frames c = F \<and> nextID c = n"
  have log: "triple ?I (updS (\<lambda>c. c\<lparr>frames := frames c @ [m]\<rparr>))
      (\<lambda>_ c. frames c = F @ [m] \<and> nextID c = n) (\<lambda>_. ?I)"
    by (rule triple_updS) simp
  show ?thesis
    unfolding writeFrame_def blockE.simps
    by (rule triple_bindE [where R = "\<lambda>_. ?I"] triple_liftE triple_seqE [OF keeps_checkE]
        triple_seqE [OF on_conn_frames [where P = "\<lambda>f k. f = F \<and> k = n"]] triple_seqE [OF log]
        triple_ret | assumption)+
qed

lemma readFrame_frames: "keeps (\<lambda>c. P (frames c) (nextID c)) (readFrame io)"
proof -
  have body: "keeps (\<lambda>c. P (frames c) (nextID c))
      (case v of GArray message \<Rightarrow> ret message | _ \<Rightarrow> fail e)" for v e
    by (cases v) (simp_all add: keeps_rules)
  show ?thesis unfolding readFrame_def by (intro keeps_rules on_conn_frames body)
qed

lemma awaitSetupResponse_frames:
  "keeps (\<lambda>c. P (frames c) (nextID c)) (awaitSetupResponse io expected rid deferred)"
proof (induction "Suc maxDeferredSetupMessages - length deferred" arbitrary: deferred rule: less_induct)
  case less
  show ?case
    by (subst awaitSetupResponse.simps) (intro keeps_rules readFrame_frames less.hyps; simp)
qed

text \<open>The reply of a set-up step, and what it puts aside.\<close>

lemma awaitSetupResponse_value:
  "triple (\<lambda>_. True) (awaitSetupResponse io expected rid deferred)
     (\<lambda>(reply, deferred') _. setup_reply expected rid reply \<and>
        (\<exists>aside. deferred' = deferred @ aside \<and> (\<forall>m \<in> set aside. \<not> setup_reply expected rid m) \<and>
           length aside \<le> maxDeferredSetupMessages - length deferred)) (\<lambda>_ _. True)"
proof (induction "Suc maxDeferredSetupMessages - length deferred" arbitrary: deferred rule: less_induct)
  case less
  have step: "triple (\<lambda>_. True) (awaitSetupResponse io expected rid (deferred @ [message]))
     (\<lambda>(reply, deferred') _. setup_reply expected rid reply \<and>
        (\<exists>aside. deferred' = deferred @ aside \<and> (\<forall>m \<in> set aside. \<not> setup_reply expected rid m) \<and>
           length aside \<le> maxDeferredSetupMessages - length deferred)) (\<lambda>_ _. True)"
    if "\<not> setup_reply expected rid message" "\<not> length (deferred @ [message]) > maxDeferredSetupMessages"
    for message
  proof (rule triple_conseq [OF less.hyps])
    show "Suc maxDeferredSetupMessages - length (deferred @ [message])
        < Suc maxDeferredSetupMessages - length deferred"
      using that(2) by simp
  next
    show "(case x of (reply, deferred') \<Rightarrow> \<lambda>_. setup_reply expected rid reply \<and>
        (\<exists>aside. deferred' = deferred @ aside \<and> (\<forall>m \<in> set aside. \<not> setup_reply expected rid m) \<and>
           length aside \<le> maxDeferredSetupMessages - length deferred)) s"
      if "(case x of (reply, deferred') \<Rightarrow> \<lambda>_. setup_reply expected rid reply \<and>
        (\<exists>aside. deferred' = (deferred @ [message]) @ aside \<and> (\<forall>m \<in> set aside. \<not> setup_reply expected rid m) \<and>
           length aside \<le> maxDeferredSetupMessages - length (deferred @ [message]))) s" for x s
      using that \<open>\<not> setup_reply expected rid message\<close> \<open>\<not> length (deferred @ [message]) > _\<close>
      by (cases x) (auto intro: exI [of _ "message # _"])
  qed simp_all
  show ?case
    by (subst awaitSetupResponse.simps)
       (intro triple_bindE [OF triple_any] triple_if step triple_ret triple_fail; simp)
qed

text \<open>
  Registration sends one REGISTER per procedure, in order, with consecutive request ids, and the
  table it builds maps ids to the given procedures only.
\<close>

fun register_frames :: "u64 \<Rightarrow> procedureSpec list \<Rightarrow> go_value list list" where
  "register_frames n [] = []"
| "register_frames n (spec # specs) =
     [GInt wampRegister, GUint64 n, GMap [], GString (spec_Name spec)] # register_frames (n + 1) specs"

lemma requestID_run:
  "triple (\<lambda>c. frames c = F \<and> nextID c = n) requestID (\<lambda>r c. r = n \<and> frames c = F \<and> nextID c = n + 1) E"
  by (rule tripleI) (auto simp: requestID_def)

lemma register_value:
  "triple (\<lambda>c. frames c = F \<and> nextID c = n) (register io specs regs deferred)
     (\<lambda>(regs', _) c. ran regs' \<subseteq> ran regs \<union> set specs \<and>
        frames c = F @ register_frames n specs \<and> nextID c = n + of_nat (length specs))
     (\<lambda>_ _. True)"
proof (induction specs arbitrary: F n regs deferred)
  case Nil
  show ?case by (simp add: triple_ret)
next
  case (Cons spec specs)
  let ?m = "\<lambda>n. [GInt wampRegister, GUint64 n, GMap [], GString (spec_Name spec)]"
  have req: "triple (\<lambda>c. frames c = F \<and> nextID c = n) requestID
      (\<lambda>r c. r = n \<and> frames c = F \<and> nextID c = n + 1) (\<lambda>_ _. True)"
    by (rule requestID_run)
  have rest: "triple (\<lambda>c. frames c = F @ [?m n] \<and> nextID c = n + 1)
      (register io specs (regs(k \<mapsto> spec)) deferred)
      (\<lambda>(regs', _) c. ran regs' \<subseteq> ran regs \<union> set (spec # specs) \<and>
        frames c = F @ register_frames n (spec # specs) \<and>
        nextID c = n + of_nat (length (spec # specs))) (\<lambda>_ _. True)" for k deferred
  proof (rule triple_conseq [OF Cons.IH])
    show "(case x of (regs', u) \<Rightarrow> \<lambda>c. ran regs' \<subseteq> ran regs \<union> set (spec # specs) \<and>
        frames c = F @ register_frames n (spec # specs) \<and>
        nextID c = n + of_nat (length (spec # specs))) c"
      if "(case x of (regs', u) \<Rightarrow> \<lambda>c. ran regs' \<subseteq> ran (regs(k \<mapsto> spec)) \<union> set specs \<and>
        frames c = (F @ [?m n]) @ register_frames (n + 1) specs \<and>
        nextID c = n + 1 + of_nat (length specs)) c" for x c
    proof -
      have "ran (regs(k \<mapsto> spec)) \<subseteq> insert spec (ran regs)" by (auto simp: ran_def)
      with that show ?thesis by (cases x) (auto simp: algebra_simps)
    qed
  qed simp_all
  note await = value_only [OF awaitSetupResponse_frames [where P = "\<lambda>f k. f = F @ [?m n] \<and> k = n + 1"]]
  show ?case
    unfolding register.simps
    by (rule triple_bindE [OF req] triple_pure_conj triple_seqE [OF value_only [OF writeFrame_frames]]
        triple_bindE [OF await] triple_case_prod triple_if triple_case_option triple_fail TrueI rest
        | simp only:)+
qed

subsection \<open>Properties\<close>

text \<open>(C35) A message that one side writes to the stream is the message the other side reads from
  it: when the reader's input starts with the bytes a successful write added, reading gives
  the same message, its non-negative integers as \<^verbatim>\<open>uint64\<close>, and leaves the rest of
  the input. The message must be within the decoder's limits.\<close>

theorem wamp_frame_roundtrip:
  assumes "stream io written inbound" and "writeFrame io message c = (Inr (), c')"
    and "encodable (GArray message)" "nesting (GArray message) \<le> maxMessagePackDepth"
    and "maxMessagePackStringBytes \<le> maxInt io"
    and "inbound (connection d) = drop (length (written (connection c))) (written (connection c')) @ rest"
  shows "\<exists>d'. readFrame io d = (Inr (map normal message), d') \<and> inbound (connection d') = rest"
proof (rule stream.writeFrame_value [OF assms(1,2)])
  fix payload assume p: "encodeMessagePack (GArray message) = Inr payload"
    "length payload \<le> wampMaxFrameLen"
    "written (connection c') = written (connection c) @ frame_header (length payload) @ payload"
  from p(3) assms(6) have "inbound (connection d) = frame_header (length payload) @ payload @ rest"
    by simp
  from stream.readFrame_framed [OF assms(1) p(1,2) assms(3-5) this] show ?thesis .
qed

theorem wamp_frame_roundtrip_witness:
  "\<exists>d'. readFrame pipe_io (open_pipe [0, 0, 0, 3, 0x92, 0x46, 0x05]) = (Inr [GUint64 70, GUint64 5], d')"
proof -
  have enc: "encodeMessagePack (GArray [GInt 70, GInt 5]) = Inr [0x92, 0x46, 0x05]"
    by (simp add: encodeMessagePack_def appendInteger_def)
  have "length [0x92, 0x46, 0x05 :: byte] \<le> wampMaxFrameLen" by (simp add: wampMaxFrameLen_def)
  note w = pipe_writeFrame [OF enc this, of "open_pipe []"]
  have e: "encodable (GArray [GInt 70, GInt 5])" "nesting (GArray [GInt 70, GInt 5]) \<le> maxMessagePackDepth"
    "maxMessagePackStringBytes \<le> maxInt pipe_io"
    by (simp_all add: maxMessagePackCollectionElements_def maxMessagePackDepth_def pipe_io_def)
  from wamp_frame_roundtrip [OF pipe_stream.stream_axioms w e,
      of "open_pipe [0, 0, 0, 3, 0x92, 0x46, 0x05]" "[]"]
  show ?thesis by (auto simp: open_pipe_def frame_header_def)
qed



text \<open>Registration, when it succeeds, has sent exactly one REGISTER per procedure, in the
  order of the table and with consecutive request ids, and its table maps registration ids to
  these procedures only.\<close>

theorem register_sends_each_procedure_once:
  assumes "register io specs Map.empty deferred c = (Inr (regs, deferred'), c')"
  shows "frames c' = frames c @ register_frames (nextID c) specs \<and> ran regs \<subseteq> set specs \<and>
    nextID c' = nextID c + of_nat (length specs)"
  using tripleD_value [OF register_value _ assms, of "frames c" "nextID c"] by simp

theorem register_sends_each_procedure_once_witness:
  "\<exists>c'. register pipe_io [\<lparr>spec_Name = ''p'', spec_ID = 2, spec_Opcode = 0, spec_Arguments = 1\<rparr>]
      Map.empty [] (open_pipe [0, 0, 0, 4, 0x93, 0x41, 0x01, 0x07]) =
        (Inr ([7 \<mapsto> \<lparr>spec_Name = ''p'', spec_ID = 2, spec_Opcode = 0, spec_Arguments = 1\<rparr>], []), c') \<and>
     frames c' = [[GInt 64, GUint64 1, GMap [], GString ''p'']]"
proof -
  let ?spec = "\<lparr>spec_Name = ''p'', spec_ID = 2, spec_Opcode = 0, spec_Arguments = 1\<rparr>"
  let ?m = "[GInt 64, GUint64 1, GMap [], GString ''p'']"
  let ?p = "[0x94, 0x40, 0x01, 0x80, 0xa1, 0x70] :: byte list"
  let ?c = "(open_pipe [0, 0, 0, 4, 0x93, 0x41, 0x01, 0x07])\<lparr>nextID := 2\<rparr>"
  have enc: "encodeMessagePack (GArray ?m) = Inr ?p"
    by (simp add: encodeMessagePack_def appendInteger_def appendString_def str_bytes_def)
  have "length ?p \<le> wampMaxFrameLen" by (simp add: wampMaxFrameLen_def)
  note w = pipe_writeFrame [OF enc this, of ?c]
  have enc': "encodeMessagePack (GArray [GUint64 65, GUint64 1, GUint64 7]) = Inr [0x93, 0x41, 0x01, 0x07]"
    by (simp add: encodeMessagePack_def appendInteger_def)
  have lim: "length [0x93, 0x41, 0x01, 0x07 :: byte] \<le> wampMaxFrameLen"
    "encodable (GArray [GUint64 65, GUint64 1, GUint64 7])"
    "nesting (GArray [GUint64 65, GUint64 1, GUint64 7]) \<le> maxMessagePackDepth"
    "maxMessagePackStringBytes \<le> maxInt pipe_io"
    by (simp_all add: wampMaxFrameLen_def maxMessagePackCollectionElements_def maxMessagePackDepth_def
        pipe_io_def)
  have "p_in (connection (snd (writeFrame pipe_io ?m ?c))) =
      frame_header (length [0x93, 0x41, 0x01, 0x07 :: byte]) @ [0x93, 0x41, 0x01, 0x07] @ []"
    unfolding w by (simp add: open_pipe_def frame_header_def)
  from pipe_stream.readFrame_framed [OF enc' lim this]
  obtain c' where r: "readFrame pipe_io (snd (writeFrame pipe_io ?m ?c)) = (Inr [GUint64 65, GUint64 1, GUint64 7], c')"
    by auto
  then have "register pipe_io [?spec] Map.empty [] (open_pipe [0, 0, 0, 4, 0x93, 0x41, 0x01, 0x07]) =
        (Inr ([7 \<mapsto> ?spec], []), c')"
    using w by (simp add: act_simps requestID_def wampRegister_def open_pipe_def awaitSetupResponse.simps
        setup_reply_def messageType_def go_unsigned_def wampRegistered_def)
  from this register_sends_each_procedure_once [OF this] show ?thesis
    by (auto simp: open_pipe_def wampRegister_def)
qed

end
