(* ===== verification/Dsp_Frame.thy ===== *)
theory Dsp_Frame
  imports Prelude
begin

text \<open>
  The wire framing of the DSP's SPI link (\<^verbatim>\<open>tools/dsp-interface/frame.go\<close>): building a
  host frame, checking and decoding a device frame, the table of event names and the
  version decoder. A frame is five header bytes (message id and payload length, high byte
  first, then a checksum) followed by the payload, padded with zeros to a multiple of four.
\<close>

definition messageIDControl :: u16 where "messageIDControl = 0"
definition messageIDBoot :: u16 where "messageIDBoot = 1"
definition messageIDTest :: u16 where "messageIDTest = 2"

definition maxPayloadBytes :: nat where "maxPayloadBytes = 614400 - 5"

record frame =
  ID :: u16
  Payload :: "byte list"

definition Code :: "frame \<Rightarrow> byte option" where
  "Code f = (case Payload f of [] \<Rightarrow> None | b # _ \<Rightarrow> Some b)"

definition frameLength :: "nat \<Rightarrow> nat" where
  "frameLength payload = ((payload + 5 + 3) div 4) * 4"

definition devicePayloadRead :: "nat \<Rightarrow> nat" where
  "devicePayloadRead payload = (if payload \<le> 3 then 3 else frameLength payload - 5)"

definition byte_sum :: "byte list \<Rightarrow> nat" where
  "byte_sum bs = sum_list (map unat bs)"

definition checksum :: "u16 \<Rightarrow> byte list \<Rightarrow> byte" where
  "checksum mid payload =
     of_nat (unat (hi_byte mid) + unat (lo_byte mid) + length payload div 256
       + length payload mod 256 + byte_sum payload)"

definition buildFrame :: "u16 \<Rightarrow> byte list \<Rightarrow> go_error + byte list" where
  "buildFrame mid payload =
     (if length payload > maxPayloadBytes then Inl (Errorf ''payload is too long'')
      else Inr ([hi_byte mid, lo_byte mid, of_nat (length payload div 256),
                 of_nat (length payload), checksum mid payload]
                @ payload
                @ replicate (frameLength (length payload) - 5 - length payload) 0))"

definition parseDeviceHeader :: "byte list \<Rightarrow> go_error + (u16 \<times> nat)" where
  "parseDeviceHeader header =
     (if length header < 5 then Inl (Errorf ''device header needs five bytes'')
      else if header ! 0 = 0xff \<or> header ! 1 = 0xff then Inl (Sentinel ErrFrameRejected)
      else let mid = be16 (header ! 0) (header ! 1);
               len = be_nat [header ! 2, header ! 3]
           in if len = 0 then Inl (Sentinel ErrFrameRejected) else Inr (mid, len))"

definition decodeDeviceFrame :: "byte list \<Rightarrow> byte list \<Rightarrow> go_error + frame" where
  "decodeDeviceFrame header rd =
     (case parseDeviceHeader header of
        Inl e \<Rightarrow> Inl e
      | Inr (mid, len) \<Rightarrow>
          if length rd \<noteq> devicePayloadRead len
          then Inl (Errorf ''device frame read an unexpected number of bytes'')
          else if of_nat (byte_sum [header ! 0, header ! 1, header ! 2, header ! 3] + byte_sum rd)
                    \<noteq> header ! 4
          then Inl (Sentinel ErrFrameChecksum)
          else Inr \<lparr>ID = mid, Payload = take (min len (length rd)) rd\<rparr>)"

definition eventName :: "u16 \<Rightarrow> byte \<Rightarrow> string" where
  "eventName mid code =
     (if mid = messageIDControl then
        (if code = 0x04 then ''EVENT_NEW_DAC_GAIN''
         else if code = 0x05 then ''EVENT_EXPECT_SPEECH''
         else if code = 0x06 then ''EVENT_CANCEL_TRIGGER''
         else if code = 0x07 then ''EVENT_SW_UPGRADE''
         else if code = 0x08 then ''EVENT_DSP_VERSION''
         else if code = 0x09 then ''EVENT_MIC_MUTE''
         else if code = 0x0b then ''EVENT_CORTANA_SKYPE''
         else if code = 0x0c then ''DSP_MEMORY_DUMP''
         else if code = 0xff then ''EVENT_ERR''
         else '''')
      else if mid = messageIDBoot then
        (if code = 0x00 then ''EVENT_TRIGGER_FOUND''
         else if code = 0x01 then ''EVENT_PAYLOAD_DEGIN''
         else if code = 0x02 then ''EVENT_PAYLOAD_END''
         else if code = 0x03 then ''EVENT_PAYLOAD_TIMEOUT''
         else if code = 0x04 then ''EVENT_DSP_BOOTUP''
         else if code = 0xff then ''EVENT_WRITE_ERR''
         else '''')
      else if mid = messageIDTest then
        (if code = 0x00 then ''EVENT_MIC_TEST_SINGLE''
         else if code = 0x01 then ''EVENT_MIC_TEST_PAIR''
         else if code = 0x02 then ''EVENT_MIC_NORMAL''
         else if code = 0x03 then ''EVENT_HW_PERFORM_TEST''
         else if code = 0xff then ''EVENT_TEST_ERR''
         else '''')
      else '''')"

text \<open>\<^verbatim>\<open>%X\<close> of a byte: upper-case hexadecimal without leading zeros.\<close>

definition hex_digit :: "nat \<Rightarrow> char" where
  "hex_digit d = ''0123456789ABCDEF'' ! d"

definition hex_upper :: "byte \<Rightarrow> string" where
  "hex_upper b =
     (if unat b < 16 then [hex_digit (unat b)]
      else [hex_digit (unat b div 16), hex_digit (unat b mod 16)])"

definition decodeVersion :: "byte list \<Rightarrow> (string \<times> u32) option" where
  "decodeVersion payload =
     (if length payload < 5 then None
      else let b0 = payload ! 1; b1 = payload ! 2; b2 = payload ! 3; b3 = payload ! 4;
               packed = push_bit 24 (ucast b0) OR push_bit 16 (ucast b1)
                        OR push_bit 8 (ucast b2) OR (ucast b3 :: u32)
           in Some (hex_upper b0 @ ''.'' @ hex_upper b1 @ ''.'' @ hex_upper b2 @ ''.'' @ hex_upper b3,
                    packed))"

subsection \<open>Frame lengths\<close>

lemma frameLength_ge: "payload + 5 \<le> frameLength payload"
  unfolding frameLength_def by presburger

lemma frameLength_less: "frameLength payload < payload + 9"
  unfolding frameLength_def by presburger

lemma frameLength_dvd: "4 dvd frameLength payload"
  by (simp add: frameLength_def)

lemma length_buildFrame:
  "buildFrame mid payload = Inr out \<Longrightarrow> length out = frameLength (length payload)"
  using frameLength_ge [of "length payload"]
  by (auto simp: buildFrame_def split: if_splits)

text \<open>The clamp to three bytes changes nothing: the rounding rule already gives three.\<close>

lemma devicePayloadRead_eq: "devicePayloadRead payload = frameLength payload - 5"
proof (cases "payload \<le> 3")
  case True
  then consider "payload = 0" | "payload = 1" | "payload = 2" | "payload = 3" by linarith
  then show ?thesis by cases (simp_all add: devicePayloadRead_def frameLength_def)
qed (simp add: devicePayloadRead_def)

lemma devicePayloadRead_ge: "payload \<le> devicePayloadRead payload"
  using frameLength_ge [of payload] by (simp add: devicePayloadRead_eq)

subsection \<open>Checksums\<close>

lemma byte_sum_simps [simp]:
  "byte_sum [] = 0" "byte_sum (b # bs) = unat b + byte_sum bs"
  "byte_sum (bs @ cs) = byte_sum bs + byte_sum cs" "byte_sum (replicate n 0) = 0"
  by (simp_all add: byte_sum_def)

lemma byte_sum_update:
  "i < length bs \<Longrightarrow> byte_sum (bs[i := v]) + unat (bs ! i) = byte_sum bs + unat v"
  by (induction bs arbitrary: i) (auto split: nat.split simp: less_Suc_eq_0_disj)

lemma of_nat_byte_eq_iff: "(of_nat m :: byte) = of_nat n \<longleftrightarrow> m mod 256 = n mod 256"
  by (simp add: word_unat_eq_iff unat_of_nat)

lemma checksum_changes:
  assumes "i < length bs" and "v \<noteq> bs ! i"
  shows "(of_nat (k + byte_sum (bs[i := v])) :: byte) \<noteq> of_nat (k + byte_sum bs)"
proof
  assume "(of_nat (k + byte_sum (bs[i := v])) :: byte) = of_nat (k + byte_sum bs)"
  then have "(of_nat (k + byte_sum (bs[i := v])) :: byte) + of_nat (unat (bs ! i))
      = of_nat (k + byte_sum bs) + of_nat (unat (bs ! i))"
    by simp
  moreover have "k + byte_sum (bs[i := v]) + unat (bs ! i) = k + byte_sum bs + unat v"
    using byte_sum_update [OF assms(1), of v] by simp
  ultimately have "(of_nat (k + byte_sum bs) :: byte) + of_nat (unat v)
      = of_nat (k + byte_sum bs) + of_nat (unat (bs ! i))"
    by (metis of_nat_add)
  then have "v = bs ! i" by simp
  with assms(2) show False ..
qed

subsection \<open>Round trip and corruption\<close>

text \<open>The parts of a built frame as the receiver sees them: five header bytes and the rest.\<close>

lemma buildFrame_parts:
  assumes "buildFrame mid payload = Inr out"
  shows "take 5 out = [hi_byte mid, lo_byte mid, of_nat (length payload div 256),
                       of_nat (length payload), checksum mid payload]"
    and "drop 5 out = payload @ replicate (frameLength (length payload) - 5 - length payload) 0"
  using assms by (auto simp: buildFrame_def split: if_splits)

lemma parse_built_header:
  assumes "hi_byte mid \<noteq> 0xff" "lo_byte mid \<noteq> 0xff" "payload \<noteq> []" "length payload < 65536"
  shows "parseDeviceHeader [hi_byte mid, lo_byte mid, of_nat (length payload div 256),
           of_nat (length payload), c] = Inr (mid, length payload)"
  using assms by (simp add: parseDeviceHeader_def be_nat_split2)

lemma checksum_eq:
  assumes "length payload < 65536"
  shows "checksum mid payload =
    of_nat (byte_sum [hi_byte mid, lo_byte mid, of_nat (length payload div 256),
                      of_nat (length payload)] + byte_sum payload)"
proof -
  have "length payload div 256 < 256" using assms by (simp add: less_mult_imp_div_less)
  then show ?thesis by (simp add: checksum_def unat_of_nat_byte add.assoc)
qed

text \<open>(C37) A frame that the host builds from an acceptable message id and a non-empty payload
  short enough for the length field is decoded by the device-frame decoder to the same
  message id and the same payload.\<close>

theorem frame_roundtrip:
  assumes "hi_byte mid \<noteq> 0xff" "lo_byte mid \<noteq> 0xff"
    and "payload \<noteq> []" "length payload < 65536"
  shows "\<exists>out. buildFrame mid payload = Inr out \<and>
    decodeDeviceFrame (take 5 out) (drop 5 out) = Inr \<lparr>ID = mid, Payload = payload\<rparr>"
proof -
  obtain out where out: "buildFrame mid payload = Inr out"
    using assms(4) by (simp add: buildFrame_def maxPayloadBytes_def)
  have len: "length (drop 5 out) = devicePayloadRead (length payload)"
    using length_buildFrame [OF out] by (simp add: devicePayloadRead_eq)
  have "length payload \<le> length (drop 5 out)"
    unfolding len by (rule devicePayloadRead_ge)
  moreover have "take (length payload) (drop 5 out) = payload"
    by (simp add: buildFrame_parts [OF out])
  ultimately have "decodeDeviceFrame (take 5 out) (drop 5 out) = Inr \<lparr>ID = mid, Payload = payload\<rparr>"
    unfolding decodeDeviceFrame_def buildFrame_parts(1) [OF out] parse_built_header [OF assms]
    using len by (simp add: checksum_eq [OF assms(4)] buildFrame_parts(2) [OF out] add_ac)
  with out show ?thesis by blast
qed

theorem frame_roundtrip_witness:
  "\<exists>out. buildFrame 1 [0x04] = Inr out \<and>
    decodeDeviceFrame (take 5 out) (drop 5 out) = Inr \<lparr>ID = 1, Payload = [0x04]\<rparr>"
  by (rule frame_roundtrip) (simp_all add: hi_byte_def lo_byte_def)

lemma decode_accepted:
  assumes "decodeDeviceFrame header rd = Inr f"
  obtains len where "parseDeviceHeader header = Inr (ID f, len)"
    and "length rd = devicePayloadRead len"
    and "of_nat (byte_sum [header ! 0, header ! 1, header ! 2, header ! 3] + byte_sum rd) = header ! 4"
    and "Payload f = take len rd" "0 < len"
proof -
  from assms obtain mid len where p: "parseDeviceHeader header = Inr (mid, len)"
    and l: "length rd = devicePayloadRead len"
    and c: "of_nat (byte_sum [header ! 0, header ! 1, header ! 2, header ! 3] + byte_sum rd) = header ! 4"
    and f: "f = \<lparr>ID = mid, Payload = take (min len (length rd)) rd\<rparr>"
    unfolding decodeDeviceFrame_def by (auto split: sum.splits if_splits)
  from p have "0 < len" by (auto simp: parseDeviceHeader_def Let_def split: if_splits)
  moreover have "min len (length rd) = len"
    using l devicePayloadRead_ge [of len] by simp
  ultimately show thesis using that p l c f by simp
qed

text \<open>(C38) The decoder detects every corruption of a single byte after the header: if a
  header and body are accepted, then changing any one body byte, padding included, makes
  the decoder report a checksum mismatch.\<close>

theorem frame_body_corruption_detected:
  assumes "decodeDeviceFrame header rd = Inr f" and "i < length rd" and "v \<noteq> rd ! i"
  shows "decodeDeviceFrame header (rd[i := v]) = Inl (Sentinel ErrFrameChecksum)"
proof -
  let ?h = "byte_sum [header ! 0, header ! 1, header ! 2, header ! 3]"
  from assms(1) obtain len where p: "parseDeviceHeader header = Inr (ID f, len)"
    and l: "length rd = devicePayloadRead len"
    and c: "of_nat (?h + byte_sum rd) = header ! 4"
    by (rule decode_accepted)
  have "of_nat (?h + byte_sum (rd[i := v])) \<noteq> header ! 4"
    using checksum_changes [OF assms(2,3), of ?h] unfolding c .
  then show ?thesis
    unfolding decodeDeviceFrame_def p using l by simp
qed

theorem frame_body_corruption_detected_witness:
  "decodeDeviceFrame [0, 1, 0, 1, 6] ([4, 0, 0][1 := 7]) = Inl (Sentinel ErrFrameChecksum)"
  by (rule frame_body_corruption_detected [where f = "\<lparr>ID = 1, Payload = [4]\<rparr>"])
     (simp_all add: decodeDeviceFrame_def parseDeviceHeader_def be16_def be_nat_def
        devicePayloadRead_def byte_sum_def)

text \<open>The decoder trusts nothing it did not check: whatever bytes arrive, an accepted
  frame has a message id with neither byte 0xff, a payload of exactly the declared
  (non-zero) length that is a prefix of the body read, and a body whose length is the one
  the framing rule prescribes.\<close>

theorem decode_sound:
  assumes "decodeDeviceFrame header rd = Inr f"
  shows "5 \<le> length header \<and> hi_byte (ID f) \<noteq> 0xff \<and> lo_byte (ID f) \<noteq> 0xff
    \<and> Payload f \<noteq> [] \<and> length (Payload f) = be_nat [header ! 2, header ! 3]
    \<and> Payload f = take (length (Payload f)) rd
    \<and> length rd = frameLength (length (Payload f)) - 5"
proof -
  from assms obtain len where p: "parseDeviceHeader header = Inr (ID f, len)"
    and l: "length rd = devicePayloadRead len" and t: "Payload f = take len rd" and "0 < len"
    by (rule decode_accepted)
  from p have h: "5 \<le> length header" "header ! 0 \<noteq> 0xff" "header ! 1 \<noteq> 0xff"
      "ID f = be16 (header ! 0) (header ! 1)" "len = be_nat [header ! 2, header ! 3]"
    by (auto simp: parseDeviceHeader_def Let_def split: if_splits)
  have "length (Payload f) = len"
    unfolding t using l devicePayloadRead_ge [of len] by simp
  then show ?thesis
    using h t l \<open>0 < len\<close> by (auto simp: devicePayloadRead_eq)
qed

theorem decode_sound_witness:
  "length [4 :: byte] = be_nat [0, 1] \<and> length [4 :: byte, 0, 0] = frameLength 1 - 5"
  using decode_sound [of "[0, 1, 0, 1, 6]" "[4, 0, 0]" "\<lparr>ID = 1, Payload = [4]\<rparr>"]
  by (simp add: decodeDeviceFrame_def parseDeviceHeader_def be16_def be_nat_def
        devicePayloadRead_def byte_sum_def)

text \<open>(C40) The builder's length check is weaker than its length field: it accepts payloads of
  65536 bytes and more (up to 614395), but the two length bytes then declare only the
  length modulo 65536.\<close>

theorem buildFrame_length_field_wraps:
  assumes "65536 \<le> length payload" "length payload \<le> maxPayloadBytes"
  shows "\<exists>out. buildFrame mid payload = Inr out \<and>
    be_nat [out ! 2, out ! 3] = length payload mod 65536 \<and>
    be_nat [out ! 2, out ! 3] \<noteq> length payload"
proof -
  have "length payload mod 65536 < 65536" by simp
  then show ?thesis
    using assms by (simp add: buildFrame_def be_nat_split2)
qed

theorem buildFrame_length_field_wraps_witness:
  "\<exists>out. buildFrame 0 (replicate 65536 0) = Inr out \<and> be_nat [out ! 2, out ! 3] = 0"
  using buildFrame_length_field_wraps [of "replicate 65536 0" 0]
  by (auto simp: maxPayloadBytes_def)

end
