(* ===== verification/Dsp_Image.thy ===== *)
theory Dsp_Image
  imports Prelude
begin

text \<open>
  Loading of the DSP boot image (\<^verbatim>\<open>tools/dsp-interface/image.go\<close>): the bit order of every
  byte is reversed, and the stream must be a whole number of four-byte transfers. The
  hexadecimal SHA-256 digest is the parameter \<open>sha\<close>; the file is the result of opening it
  and, if that succeeded, of reading it.
\<close>

definition maxImageBytes :: nat where "maxImageBytes = 614400"
definition imageChunkBytes :: nat where "imageChunkBytes = 4"
definition speedRestoreOffset :: nat where "speedRestoreOffset = 1536"
definition recordedImageBytes :: nat where "recordedImageBytes = 160484"
definition recordedImageTransfers :: nat where "recordedImageTransfers = 40121"
definition recordedImageSHA256 :: string where
  "recordedImageSHA256 = ''e76f6ce7c53bb5b508507354fb08523089c136b3731d5ad4f4488a50526a44c8''"
definition recordedStreamSHA256 :: string where
  "recordedStreamSHA256 = ''9e3d85f37ac62e191616f558359e7b4ec46ce6499167da991994ea0b944f34f2''"

record bootImage =
  Stream :: "byte list"
  SourceSHA256 :: string
  StreamSHA256 :: string

definition Transfers :: "bootImage \<Rightarrow> nat" where
  "Transfers img = length (Stream img) div imageChunkBytes"

definition Matches :: "bootImage \<Rightarrow> bool" where
  "Matches img \<longleftrightarrow>
     SourceSHA256 img = recordedImageSHA256 \<and> StreamSHA256 img = recordedStreamSHA256 \<and>
     length (Stream img) = recordedImageBytes \<and> Transfers img = recordedImageTransfers"

definition reverseBits :: "byte \<Rightarrow> byte" where
  "reverseBits value =
     (let value = drop_bit 4 (value AND 0xf0) OR push_bit 4 (value AND 0x0f);
          value = drop_bit 2 (value AND 0xcc) OR push_bit 2 (value AND 0x33)
      in drop_bit 1 (value AND 0xaa) OR push_bit 1 (value AND 0x55))"

definition loadBootImage ::
  "(byte list \<Rightarrow> string) \<Rightarrow> go_error + (go_error + byte list) \<Rightarrow> go_error + bootImage" where
  "loadBootImage sha opened =
     (case opened of
        Inl e \<Rightarrow> Inl (Wrapf ''open DSP image'' e)
      | Inr (Inl e) \<Rightarrow> Inl (Wrapf ''read DSP image'' e)
      | Inr (Inr content) \<Rightarrow>
          let source = take (maxImageBytes + 1) content in
          if length source > maxImageBytes
          then Inl (Errorf ''DSP image is larger than the staging buffer'')
          else if length source = 0 then Inl (Errorf ''DSP image is empty'')
          else if length source mod imageChunkBytes \<noteq> 0
          then Inl (Errorf ''DSP image is not a whole number of transfers'')
          else let stream = map reverseBits source
               in Inr \<lparr>Stream = stream, SourceSHA256 = sha source, StreamSHA256 = sha stream\<rparr>)"

definition verifyBootImage :: "bootImage \<Rightarrow> go_error + unit" where
  "verifyBootImage img =
     (if Matches img then Inr () else Inl (Errorf ''DSP image is not the recovered image''))"

subsection \<open>Bit reversal\<close>

lemma less_8_cases:
  fixes n :: nat
  assumes "n < 8"
  obtains "n = 0" | "n = 1" | "n = 2" | "n = 3" | "n = 4" | "n = 5" | "n = 6" | "n = 7"
  using assms by linarith

lemma mask_bits:
  "bit (0xf0 :: byte) n = (n \<in> {4, 5, 6, 7})" "bit (0x0f :: byte) n = (n \<in> {0, 1, 2, 3})"
  "bit (0xcc :: byte) n = (n \<in> {2, 3, 6, 7})" "bit (0x33 :: byte) n = (n \<in> {0, 1, 4, 5})"
  "bit (0xaa :: byte) n = (n \<in> {1, 3, 5, 7})" "bit (0x55 :: byte) n = (n \<in> {0, 2, 4, 6})"
  by (auto simp: bit_simps bit_numeral_rec split: nat.splits)

lemmas mask_bit_simps = bit_or_iff bit_drop_bit_eq bit_push_bit_iff bit_and_iff comp_def mask_bits

text \<open>The three stages swap the nibbles, the pairs within nibbles, the bits within pairs.\<close>

lemma bit_swap4:
  "n < 8 \<Longrightarrow> bit (drop_bit 4 (v AND 0xf0) OR push_bit 4 (v AND (0x0f :: byte))) n
     = bit v ([4, 5, 6, 7, 0, 1, 2, 3] ! n)"
  by (erule less_8_cases) (simp_all only: mask_bit_simps, simp_all)

lemma bit_swap2:
  "n < 8 \<Longrightarrow> bit (drop_bit 2 (v AND 0xcc) OR push_bit 2 (v AND (0x33 :: byte))) n
     = bit v ([2, 3, 0, 1, 6, 7, 4, 5] ! n)"
  by (erule less_8_cases) (simp_all only: mask_bit_simps, simp_all)

lemma bit_swap1:
  "n < 8 \<Longrightarrow> bit (drop_bit 1 (v AND 0xaa) OR push_bit 1 (v AND (0x55 :: byte))) n
     = bit v ([1, 0, 3, 2, 5, 4, 7, 6] ! n)"
  by (erule less_8_cases) (simp_all only: mask_bit_simps, simp_all add: eval_nat_numeral)

lemma bit_reverseBits:
  assumes "n < 8"
  shows "bit (reverseBits b) n = bit b (7 - n)"
proof -
  define v1 where "v1 = drop_bit 4 (b AND 0xf0) OR push_bit 4 (b AND 0x0f)"
  define v2 where "v2 = drop_bit 2 (v1 AND 0xcc) OR push_bit 2 (v1 AND 0x33)"
  have r: "reverseBits b = drop_bit 1 (v2 AND 0xaa) OR push_bit 1 (v2 AND 0x55)"
    unfolding reverseBits_def Let_def v1_def v2_def ..
  have v2: "bit v2 k = bit v1 ([2, 3, 0, 1, 6, 7, 4, 5] ! k)" if "k < 8" for k
    unfolding v2_def using that by (rule bit_swap2)
  have v1: "bit v1 k = bit b ([4, 5, 6, 7, 0, 1, 2, 3] ! k)" if "k < 8" for k
    unfolding v1_def using that by (rule bit_swap4)
  show ?thesis
    unfolding r using assms
    by (subst bit_swap1, assumption) (erule less_8_cases; simp add: v1 v2)
qed

lemma bit_reverseBits_iff: "bit (reverseBits b) n = (n < 8 \<and> bit b (7 - n))"
  using bit_reverseBits [of n b] bit_imp_le_length [of "reverseBits b" n] by auto

lemma reverseBits_reverseBits [simp]: "reverseBits (reverseBits b) = b"
  by (rule bit_word_eqI) (auto simp: bit_reverseBits_iff)

text \<open>Bit reversal does what its name says: bit n of the result is bit 7 - n of the
  byte, and so reversing twice gives the byte back.\<close>

theorem reverseBits_reverses:
  "bit (reverseBits b) n = (n < 8 \<and> bit b (7 - n)) \<and> reverseBits (reverseBits b) = b"
  by (simp add: bit_reverseBits_iff)

lemma reverseBits_inj: "inj reverseBits"
  by (rule inj_on_inverseI [where g = reverseBits]) simp

subsection \<open>Loading\<close>

lemma take_le_all: "length (take (n + 1) xs) \<le> n \<Longrightarrow> take (n + 1) xs = xs"
  by simp

text \<open>A loaded image is the whole file, bit-reversed, and can be streamed: it is not
  empty, fits the staging buffer, divides into whole four-byte transfers, and reversing its
  stream again gives the file.\<close>

theorem loadBootImage_sound:
  assumes "loadBootImage sha opened = Inr img"
  shows "\<exists>content. opened = Inr (Inr content) \<and> content \<noteq> [] \<and> length content \<le> maxImageBytes
    \<and> Stream img = map reverseBits content \<and> map reverseBits (Stream img) = content
    \<and> Transfers img * imageChunkBytes = length (Stream img)
    \<and> SourceSHA256 img = sha content \<and> StreamSHA256 img = sha (Stream img)"
proof -
  from assms obtain content where o: "opened = Inr (Inr content)"
    by (auto simp: loadBootImage_def split: sum.splits)
  let ?src = "take (maxImageBytes + 1) content"
  from assms have l: "length ?src \<le> maxImageBytes" "?src \<noteq> []" "length ?src mod imageChunkBytes = 0"
    and i: "img = \<lparr>Stream = map reverseBits ?src, SourceSHA256 = sha ?src,
                     StreamSHA256 = sha (map reverseBits ?src)\<rparr>"
    by (auto simp: loadBootImage_def o Let_def split: if_splits)
  have src: "?src = content" using l(1) by (rule take_le_all)
  have "map reverseBits (map reverseBits content) = content"
    by (simp add: comp_def)
  then show ?thesis
    using o l i unfolding src by (auto simp: Transfers_def)
qed

theorem loadBootImage_sound_witness:
  "map reverseBits [0x80, 0x01, 0x0f, 0xaa] = [0x01, 0x80, 0xf0, 0x55 :: byte] \<and>
   loadBootImage (\<lambda>_. ''d'') (Inr (Inr [0x80, 0x01, 0x0f, 0xaa])) =
     Inr \<lparr>Stream = [0x01, 0x80, 0xf0, 0x55], SourceSHA256 = ''d'', StreamSHA256 = ''d''\<rparr> \<and>
   Transfers \<lparr>Stream = [0x01, 0x80, 0xf0, 0x55], SourceSHA256 = ''d'', StreamSHA256 = ''d''\<rparr>
     * imageChunkBytes = 4"
proof -
  have r: "map reverseBits [0x80, 0x01, 0x0f, 0xaa] = [0x01, 0x80, 0xf0, 0x55 :: byte]"
    by (simp add: reverseBits_def)
  then have l: "loadBootImage (\<lambda>_. ''d'') (Inr (Inr [0x80, 0x01, 0x0f, 0xaa])) =
     Inr \<lparr>Stream = [0x01, 0x80, 0xf0, 0x55], SourceSHA256 = ''d'', StreamSHA256 = ''d''\<rparr>"
    by (simp add: loadBootImage_def maxImageBytes_def imageChunkBytes_def)
  show ?thesis using r l loadBootImage_sound [OF l] by auto
qed

end
