(* ===== verification/Dsp_Backend.thy ===== *)
theory Dsp_Backend
  imports Prelude
begin

text \<open>
  The hardware interfaces of the DSP service and their in-memory implementations
  (\<^verbatim>\<open>tools/dsp-interface/backend.go\<close>). Each Go interface is a record of actions over an
  arbitrary world \<open>'w\<close>, so that the link runs over any implementation; what its clients
  rely on is a locale (\<open>register_bus\<close>, \<open>gpio_lines\<close>, \<open>spi_sender\<close>), and each locale is
  interpreted on the memory backend at the end of the theory. A log entry is kept as a
  value where the code renders it as text.
\<close>

subsection \<open>The interfaces\<close>

text \<open>
  A transfer takes the bytes to transmit (none for a nil buffer) and the length of the
  receive buffer (0 for a nil buffer), and returns the bytes received.
\<close>

record 'w spiBus =
  Configure :: "byte \<Rightarrow> byte \<Rightarrow> u32 \<Rightarrow> ('w, unit) act"
  Transfer :: "byte list \<Rightarrow> nat \<Rightarrow> u32 \<Rightarrow> u16 \<Rightarrow> ('w, byte list) act"
  SpiClose :: "('w, unit) act"

record 'w gpioLines =
  Export :: "int \<Rightarrow> ('w, unit) act"
  Unexport :: "int \<Rightarrow> ('w, unit) act"
  Direction :: "int \<Rightarrow> bool \<Rightarrow> ('w, unit) act"
  GpioWrite :: "int \<Rightarrow> bool \<Rightarrow> ('w, unit) act"
  GpioRead :: "int \<Rightarrow> ('w, bool) act"

record 'w i2cBus =
  ReadRegister :: "byte \<Rightarrow> byte \<Rightarrow> ('w, byte) act"
  WriteRegister :: "byte \<Rightarrow> byte \<Rightarrow> byte \<Rightarrow> ('w, unit) act"
  UpdateRegister :: "byte \<Rightarrow> byte \<Rightarrow> (byte \<Rightarrow> byte) \<Rightarrow> ('w, unit) act"
  I2cClose :: "('w, unit) act"

subsection \<open>Memory SPI\<close>

record spiTransfer =
  tr_Length :: nat
  tr_SpeedHz :: u32
  tr_DelayUsecs :: u16
  tr_TX :: "byte list"

text \<open>\<open>digest_input\<close> holds the bytes fed to the running digest, in order.\<close>

record memorySPI =
  spi_Mode :: byte
  spi_Bits :: byte
  spi_Speed :: u32
  spi_Transfers :: nat
  spi_Bytes :: nat
  spi_Chunked :: nat
  spi_Serial :: nat
  spi_Recorded :: "spiTransfer list"
  spi_KeepTransfers :: bool
  spi_Responses :: "byte list"
  digest_input :: "byte list"

definition newMemorySPI :: memorySPI where
  "newMemorySPI = \<lparr>spi_Mode = 0, spi_Bits = 0, spi_Speed = 0, spi_Transfers = 0, spi_Bytes = 0,
     spi_Chunked = 0, spi_Serial = 0, spi_Recorded = [], spi_KeepTransfers = False,
     spi_Responses = [], digest_input = []\<rparr>"

definition memSPI_Configure :: "byte \<Rightarrow> byte \<Rightarrow> u32 \<Rightarrow> (memorySPI, unit) act" where
  "memSPI_Configure mode bitsPerWord speedHz =
     updS (\<lambda>bus. bus\<lparr>spi_Mode := mode, spi_Bits := bitsPerWord, spi_Speed := speedHz\<rparr>)"

text \<open>One byte per element of the receive buffer: the next scripted response, or zero.\<close>

fun take_responses :: "nat \<Rightarrow> byte list \<Rightarrow> byte list \<times> byte list" where
  "take_responses 0 rs = ([], rs)"
| "take_responses (Suc n) [] = (case take_responses n [] of (got, left) \<Rightarrow> (0 # got, left))"
| "take_responses (Suc n) (r # rs) = (case take_responses n rs of (got, left) \<Rightarrow> (r # got, left))"

definition memSPI_Transfer ::
  "byte list \<Rightarrow> nat \<Rightarrow> u32 \<Rightarrow> u16 \<Rightarrow> (memorySPI, byte list) act" where
  "memSPI_Transfer tx rx speedHz delayUsecs bus =
     (let len = (if length tx = 0 then rx else length tx) in
      if length tx \<noteq> 0 \<and> rx \<noteq> 0 \<and> length tx \<noteq> rx
      then (Inl (Errorf ''SPI buffers differ in length''), bus)
      else
        let bus = bus\<lparr>spi_Transfers := spi_Transfers bus + 1, spi_Bytes := spi_Bytes bus + len\<rparr>;
            bus = (if len = 4 then bus\<lparr>spi_Chunked := spi_Chunked bus + 1\<rparr>
                   else if len = 1 then bus\<lparr>spi_Serial := spi_Serial bus + 1\<rparr>
                   else bus);
            bus = bus\<lparr>digest_input := digest_input bus @ tx\<rparr>;
            bus = (if spi_KeepTransfers bus
                   then bus\<lparr>spi_Recorded := spi_Recorded bus @
                          [\<lparr>tr_Length = len, tr_SpeedHz = speedHz, tr_DelayUsecs = delayUsecs,
                            tr_TX = tx\<rparr>]\<rparr>
                   else bus)
        in case take_responses rx (spi_Responses bus) of
             (got, left) \<Rightarrow> (Inr got, bus\<lparr>spi_Responses := left\<rparr>))"

definition memSPI_Close :: "(memorySPI, unit) act" where
  "memSPI_Close = ret ()"

definition memSPI_StreamSHA256 :: "(byte list \<Rightarrow> string) \<Rightarrow> memorySPI \<Rightarrow> string" where
  "memSPI_StreamSHA256 sha bus = sha (digest_input bus)"

definition memSPI_Queue :: "byte list \<Rightarrow> memorySPI \<Rightarrow> memorySPI" where
  "memSPI_Queue response bus = bus\<lparr>spi_Responses := spi_Responses bus @ response\<rparr>"

definition memSPI_Counters :: "memorySPI \<Rightarrow> nat \<times> nat \<times> nat \<times> nat" where
  "memSPI_Counters bus = (spi_Transfers bus, spi_Bytes bus, spi_Chunked bus, spi_Serial bus)"

subsection \<open>Memory GPIO\<close>

datatype gpio_log =
    LogExport int | LogUnexport int | LogDirection int bool | LogWrite int bool | LogRead int

record memoryGPIO =
  gpio_values :: "int \<Rightarrow> bool option"
  gpio_exported :: "int \<Rightarrow> bool option"
  gpio_outputs :: "int \<Rightarrow> bool option"
  gpio_Log :: "gpio_log list"
  gpio_OnRead :: "(int \<Rightarrow> bool \<Rightarrow> bool) option"

definition newMemoryGPIO :: memoryGPIO where
  "newMemoryGPIO = \<lparr>gpio_values = Map.empty, gpio_exported = Map.empty,
     gpio_outputs = Map.empty, gpio_Log = [], gpio_OnRead = None\<rparr>"

definition memGPIO_Export :: "int \<Rightarrow> (memoryGPIO, unit) act" where
  "memGPIO_Export pin = updS (\<lambda>l. l\<lparr>gpio_exported := (gpio_exported l)(pin \<mapsto> True),
     gpio_Log := gpio_Log l @ [LogExport pin]\<rparr>)"

definition memGPIO_Unexport :: "int \<Rightarrow> (memoryGPIO, unit) act" where
  "memGPIO_Unexport pin = updS (\<lambda>l. l\<lparr>gpio_exported := (gpio_exported l)(pin := None),
     gpio_Log := gpio_Log l @ [LogUnexport pin]\<rparr>)"

definition memGPIO_Direction :: "int \<Rightarrow> bool \<Rightarrow> (memoryGPIO, unit) act" where
  "memGPIO_Direction pin output = updS (\<lambda>l. l\<lparr>gpio_outputs := (gpio_outputs l)(pin \<mapsto> output),
     gpio_Log := gpio_Log l @ [LogDirection pin output]\<rparr>)"

definition memGPIO_Write :: "int \<Rightarrow> bool \<Rightarrow> (memoryGPIO, unit) act" where
  "memGPIO_Write pin high = updS (\<lambda>l. l\<lparr>gpio_values := (gpio_values l)(pin \<mapsto> high),
     gpio_Log := gpio_Log l @ [LogWrite pin high]\<rparr>)"

definition memGPIO_Read :: "int \<Rightarrow> (memoryGPIO, bool) act" where
  "memGPIO_Read pin l =
     (let value = (case gpio_values l pin of None \<Rightarrow> True | Some v \<Rightarrow> v);
          value = (case gpio_OnRead l of None \<Rightarrow> value | Some hook \<Rightarrow> hook pin value)
      in (Inr value, l\<lparr>gpio_Log := gpio_Log l @ [LogRead pin]\<rparr>))"

definition memGPIO_Operations :: "memoryGPIO \<Rightarrow> gpio_log list" where
  "memGPIO_Operations l = gpio_Log l"

subsection \<open>Memory I2C\<close>

definition expanderAddress :: byte where "expanderAddress = 0x20"
definition expanderOutput :: byte where "expanderOutput = 0x01"
definition expanderConfig :: byte where "expanderConfig = 0x03"

datatype i2c_log = LogRegRead byte byte byte | LogRegWrite byte byte byte

text \<open>A register that was never written reads as zero, as a missing key of a Go map does.\<close>

record memoryI2C =
  i2c_registers :: "byte \<times> byte \<Rightarrow> byte"
  i2c_Log :: "i2c_log list"

definition newMemoryI2C :: memoryI2C where
  "newMemoryI2C = \<lparr>i2c_registers = (\<lambda>_. 0)((expanderAddress, expanderOutput) := 0xfb), i2c_Log = []\<rparr>"

definition memI2C_ReadRegister :: "byte \<Rightarrow> byte \<Rightarrow> (memoryI2C, byte) act" where
  "memI2C_ReadRegister address register bus =
     (let value = i2c_registers bus (address, register)
      in (Inr value, bus\<lparr>i2c_Log := i2c_Log bus @ [LogRegRead address register value]\<rparr>))"

definition memI2C_WriteRegister :: "byte \<Rightarrow> byte \<Rightarrow> byte \<Rightarrow> (memoryI2C, unit) act" where
  "memI2C_WriteRegister address register value =
     updS (\<lambda>bus. bus\<lparr>i2c_registers := (i2c_registers bus)((address, register) := value),
       i2c_Log := i2c_Log bus @ [LogRegWrite address register value]\<rparr>)"

definition memI2C_UpdateRegister ::
  "byte \<Rightarrow> byte \<Rightarrow> (byte \<Rightarrow> byte) \<Rightarrow> (memoryI2C, unit) act" where
  "memI2C_UpdateRegister address register update bus =
     (let key = (address, register);
          current = i2c_registers bus key;
          bus = bus\<lparr>i2c_Log := i2c_Log bus @ [LogRegRead address register current]\<rparr>;
          value = update current;
          bus = bus\<lparr>i2c_registers := (i2c_registers bus)(key := value)\<rparr>
      in (Inr (), bus\<lparr>i2c_Log := i2c_Log bus @ [LogRegWrite address register value]\<rparr>))"

definition memI2C_Close :: "(memoryI2C, unit) act" where
  "memI2C_Close = ret ()"

definition memI2C_Operations :: "memoryI2C \<Rightarrow> i2c_log list" where
  "memI2C_Operations bus = i2c_Log bus"

subsection \<open>One world of three memory devices\<close>

text \<open>
  The three devices side by side, with a clock that a sleep advances; \<open>on_spi\<close>,
  \<open>on_gpio\<close> and \<open>on_i2c\<close> run an action of one device in it.
\<close>

record memory_world =
  w_spi :: memorySPI
  w_gpio :: memoryGPIO
  w_i2c :: memoryI2C
  w_clock :: nat

definition on_spi :: "(memorySPI, 'a) act \<Rightarrow> (memory_world, 'a) act" where
  "on_spi m w = (case m (w_spi w) of (r, d) \<Rightarrow> (r, w\<lparr>w_spi := d\<rparr>))"

definition on_gpio :: "(memoryGPIO, 'a) act \<Rightarrow> (memory_world, 'a) act" where
  "on_gpio m w = (case m (w_gpio w) of (r, d) \<Rightarrow> (r, w\<lparr>w_gpio := d\<rparr>))"

definition on_i2c :: "(memoryI2C, 'a) act \<Rightarrow> (memory_world, 'a) act" where
  "on_i2c m w = (case m (w_i2c w) of (r, d) \<Rightarrow> (r, w\<lparr>w_i2c := d\<rparr>))"

definition mem_spiBus :: "memory_world spiBus" where
  "mem_spiBus = \<lparr>Configure = (\<lambda>m b s. on_spi (memSPI_Configure m b s)),
     Transfer = (\<lambda>tx rx s d. on_spi (memSPI_Transfer tx rx s d)), SpiClose = on_spi memSPI_Close\<rparr>"

definition mem_gpioLines :: "memory_world gpioLines" where
  "mem_gpioLines = \<lparr>Export = (\<lambda>p. on_gpio (memGPIO_Export p)),
     Unexport = (\<lambda>p. on_gpio (memGPIO_Unexport p)),
     Direction = (\<lambda>p d. on_gpio (memGPIO_Direction p d)),
     GpioWrite = (\<lambda>p h. on_gpio (memGPIO_Write p h)), GpioRead = (\<lambda>p. on_gpio (memGPIO_Read p))\<rparr>"

definition mem_i2cBus :: "memory_world i2cBus" where
  "mem_i2cBus = \<lparr>ReadRegister = (\<lambda>a r. on_i2c (memI2C_ReadRegister a r)),
     WriteRegister = (\<lambda>a r v. on_i2c (memI2C_WriteRegister a r v)),
     UpdateRegister = (\<lambda>a r f. on_i2c (memI2C_UpdateRegister a r f)), I2cClose = on_i2c memI2C_Close\<rparr>"

definition new_memory_world :: memory_world where
  "new_memory_world =
     \<lparr>w_spi = newMemorySPI, w_gpio = newMemoryGPIO, w_i2c = newMemoryI2C, w_clock = 0\<rparr>"

lemmas mem_defs =
  mem_spiBus_def mem_gpioLines_def mem_i2cBus_def on_spi_def on_gpio_def on_i2c_def
  memSPI_Configure_def memSPI_Close_def memGPIO_Export_def memGPIO_Unexport_def
  memGPIO_Direction_def memGPIO_Write_def memGPIO_Read_def
  memI2C_ReadRegister_def memI2C_WriteRegister_def memI2C_UpdateRegister_def memI2C_Close_def

lemma length_take_responses: "length (fst (take_responses n rs)) = n"
  by (induction n rs rule: take_responses.induct) (auto split: prod.splits)

subsection \<open>What the clients rely on\<close>

text \<open>
  A register bus: a successful update replaces the one register by the updated value and
  leaves every other register alone; a failed one changes none.
\<close>

locale register_bus =
  fixes update :: "byte \<Rightarrow> byte \<Rightarrow> (byte \<Rightarrow> byte) \<Rightarrow> ('w, unit) act"
    and regs :: "'w \<Rightarrow> byte \<times> byte \<Rightarrow> byte"
  assumes update_value:
      "update a r f w = (Inr (), w') \<Longrightarrow> regs w' = (regs w)((a, r) := f (regs w (a, r)))"
    and update_error: "update a r f w = (Inl e, w') \<Longrightarrow> regs w' = regs w"
begin

text \<open>A mask is preserved when every update function preserves it, whether or not it succeeds.\<close>

lemma update_preserves:
  assumes "\<And>v. P v \<Longrightarrow> P (f v)"
  shows "keeps (\<lambda>w. P (regs w (a, r))) (update a r f)"
  by (rule tripleI) (simp_all add: update_value update_error assms)

lemma update_other: "(a, r) \<noteq> k \<Longrightarrow> keeps (\<lambda>w. P (regs w k)) (update a r f)"
  by (rule tripleI) (auto dest: update_value update_error)

lemma update_triple:
  "triple (\<lambda>w. regs w = R) (update a r f)
     (\<lambda>_ w. regs w = R((a, r) := f (R (a, r)))) (\<lambda>_ w. regs w = R)"
  by (rule tripleI) (auto dest: update_value update_error)

end

text \<open>
  GPIO lines: a successful write drives its line, a failed one changes nothing, and no other
  operation moves a line; a change of direction may move its own line only.
\<close>

locale gpio_lines =
  fixes lines :: "'w gpioLines" and level :: "'w \<Rightarrow> int \<Rightarrow> bool"
  assumes write_value: "GpioWrite lines p h w = (Inr (), w') \<Longrightarrow> level w' = (level w)(p := h)"
    and write_error: "GpioWrite lines p h w = (Inl e, w') \<Longrightarrow> level w' = level w"
    and read_level: "same level (GpioRead lines p)"
    and direction_level: "q \<noteq> p \<Longrightarrow> level (snd (Direction lines p d w)) q = level w q"
begin

lemma write_other: "q \<noteq> p \<Longrightarrow> keeps (\<lambda>w. level w q = b) (GpioWrite lines p h)"
  by (rule tripleI) (auto dest: write_value write_error)

end

text \<open>An SPI master: \<open>sent\<close> is the sequence of bytes transmitted so far.\<close>

locale spi_sender =
  fixes transfer :: "byte list \<Rightarrow> nat \<Rightarrow> u32 \<Rightarrow> u16 \<Rightarrow> ('w, byte list) act"
    and sent :: "'w \<Rightarrow> byte list"
  assumes transfer_sent: "transfer tx rx s d w = (Inr got, w') \<Longrightarrow> sent w' = sent w @ tx"

text \<open>The memory backend keeps each of these promises.\<close>

abbreviation mem_regs :: "memory_world \<Rightarrow> byte \<times> byte \<Rightarrow> byte" where
  "mem_regs w \<equiv> i2c_registers (w_i2c w)"

abbreviation mem_level :: "memory_world \<Rightarrow> int \<Rightarrow> bool" where
  "mem_level w p \<equiv> (case gpio_values (w_gpio w) p of None \<Rightarrow> True | Some v \<Rightarrow> v)"

abbreviation mem_sent :: "memory_world \<Rightarrow> byte list" where
  "mem_sent w \<equiv> digest_input (w_spi w)"

interpretation mem_i2c: register_bus "UpdateRegister mem_i2cBus" mem_regs
  by unfold_locales (auto simp: mem_defs act_simps Let_def)

interpretation mem_gpio: gpio_lines mem_gpioLines mem_level
  by unfold_locales (auto simp: mem_defs act_simps same_def Let_def fun_eq_iff)

interpretation mem_spi: spi_sender "Transfer mem_spiBus" mem_sent
  by unfold_locales
     (auto simp: mem_defs act_simps memSPI_Transfer_def Let_def split: if_splits prod.splits)

end
