(* ===== verification/Dsp_Link.thy ===== *)
theory Dsp_Link
  imports Dsp_Frame Dsp_Image Dsp_Backend
begin

text \<open>
  The SPI link to the DSP (\<^verbatim>\<open>tools/dsp-interface/link.go\<close>): the reset pulse, the image
  download, the transmit queue and the message handshake. The functions take the injected
  backends as the record \<open>dsp_env\<close> and act on the link's state, which carries the world
  the backends act on. A mutex-protected section is one step of the action; a completion
  channel is a number, and what was sent on it is logged in \<open>completed\<close>. Durations are in
  nanoseconds.
\<close>

subsection \<open>Constants and state\<close>

definition dspResetMask :: byte where "dspResetMask = 0x01"
definition spiMode :: byte where "spiMode = 3"
definition spiBitsPerWord :: byte where "spiBitsPerWord = 8"
definition spiSpeedHz :: u32 where "spiSpeedHz = 1000000"
definition frameDelayUsecs :: u16 where "frameDelayUsecs = 1"
definition downloadDelayUsecs :: u16 where "downloadDelayUsecs = 0"
definition resetHoldDelay :: nat where "resetHoldDelay = 20 * 1000000"
definition resetSettleDelay :: nat where "resetSettleDelay = 10 * 1000000"
definition downloadStageWait :: nat where "downloadStageWait = 10 * 1000000"
definition handshakeDelay :: nat where "handshakeDelay = 10 * 1000000"
definition releaseDelay :: nat where "releaseDelay = 10 * 1000000"
definition readyPollInterval :: nat where "readyPollInterval = 100 * 1000000"
definition maxDevicePayload :: nat where "maxDevicePayload = 64"
definition maxHeaderShifts :: nat where "maxHeaderShifts = 4"
definition maxUnrelatedFrames :: nat where "maxUnrelatedFrames = 8"
definition maxReceiveRetries :: nat where "maxReceiveRetries = 3"
definition receiveRetryDelay :: nat where "receiveRetryDelay = 100 * 1000000"

record pinout =
  Strobe :: int
  ChipSelect :: int
  Ready :: int
  Active :: int
  Busy :: int

definition defaultPinout :: pinout where
  "defaultPinout = \<lparr>Strobe = 4, ChipSelect = 5, Ready = 12, Active = 13, Busy = 15\<rparr>"

record linkStats =
  DownloadTransfers :: nat
  DownloadBytes :: nat
  FramesSent :: nat
  FramesReceived :: nat
  FramesRejected :: nat
  FrameResyncs :: nat

record queuedMessage =
  q_frame :: "byte list"
  q_completion :: "nat option"
  q_context :: nat

text \<open>
  The fields of the Go struct that never change after construction: the three backends,
  the pins, the sleep function and the ready timeout; with them the clock and the state of
  a request's context (\<open>None\<close> while it is live).
\<close>

record 'w dsp_env =
  spi :: "'w spiBus"
  gpio :: "'w gpioLines"
  i2c :: "'w i2cBus"
  pins :: pinout
  sleep :: "nat \<Rightarrow> 'w \<Rightarrow> 'w"
  now :: "'w \<Rightarrow> nat"
  ctx_err :: "nat \<Rightarrow> 'w \<Rightarrow> go_error option"
  readyTimeout :: nat

record 'w link =
  queue :: "queuedMessage list"
  pending :: "frame list"
  stats :: linkStats
  booted :: bool
  next_completion :: nat
  completed :: "(nat \<times> go_error option) list"
  world :: 'w

definition newStats :: linkStats where
  "newStats = \<lparr>DownloadTransfers = 0, DownloadBytes = 0, FramesSent = 0, FramesReceived = 0,
     FramesRejected = 0, FrameResyncs = 0\<rparr>"

definition newLink :: "'w \<Rightarrow> 'w link" where
  "newLink w = \<lparr>queue = [], pending = [], stats = newStats, booted = False,
     next_completion = 0, completed = [], world = w\<rparr>"

definition on_world :: "('w, 'a) act \<Rightarrow> ('w link, 'a) act" where
  "on_world m l = (case m (world l) of (r, w) \<Rightarrow> (r, l\<lparr>world := w\<rparr>))"

definition doSleep :: "'w dsp_env \<Rightarrow> nat \<Rightarrow> ('w link, unit) act" where
  "doSleep env d = on_world (updS (sleep env d))"

definition count :: "(linkStats \<Rightarrow> linkStats) \<Rightarrow> ('w link, unit) act" where
  "count f = updS (\<lambda>l. l\<lparr>stats := f (stats l)\<rparr>)"

definition isFrameError :: "go_error \<Rightarrow> bool" where
  "isFrameError err \<longleftrightarrow> errors_is err ErrFrameRejected \<or> errors_is err ErrFrameChecksum"

subsection \<open>Reset and image download\<close>

definition setReset :: "'w dsp_env \<Rightarrow> bool \<Rightarrow> ('w link, unit) act" where
  "setReset env asserted =
     wrapE ''update IO expander''
       (on_world (UpdateRegister (i2c env) expanderAddress expanderOutput
          (\<lambda>current. if asserted then current OR dspResetMask
                     else current AND NOT dspResetMask)))"

definition configureResetOutput :: "'w dsp_env \<Rightarrow> ('w link, unit) act" where
  "configureResetOutput env =
     wrapE ''configure DSP reset output''
       (on_world (UpdateRegister (i2c env) expanderAddress expanderConfig
          (\<lambda>current. current AND NOT dspResetMask)))"

definition pulseReset :: "'w dsp_env \<Rightarrow> ('w link, unit) act" where
  "pulseReset env = blockE [
     setReset env True,
     setReset env False,
     doSleep env resetHoldDelay,
     setReset env True,
     doSleep env resetSettleDelay]"

definition prepareDownloadLines :: "'w dsp_env \<Rightarrow> ('w link, unit) act" where
  "prepareDownloadLines env =
     (let p = pins env; g = gpio env in blockE [
        forE [Strobe p, Active p, Ready p, Busy p]
          (\<lambda>pin. wrapE ''export GPIO'' (on_world (Export g pin))),
        wrapE ''configure strobe GPIO'' (on_world (Direction g (Strobe p) True)),
        forE [Active p, Ready p, Busy p]
          (\<lambda>pin. wrapE ''configure GPIO as input'' (on_world (Direction g pin False))),
        wrapE ''raise strobe'' (on_world (GpioWrite g (Strobe p) True)),
        forE [Active p, Ready p, Busy p]
          (\<lambda>pin. wrapE ''sample GPIO'' (bindE (on_world (GpioRead g pin)) (\<lambda>_. ret ())))])"

text \<open>One iteration of the download loop sends \<open>stream[offset : offset+4]\<close>.\<close>

definition downloadChunk :: "'w dsp_env \<Rightarrow> nat \<Rightarrow> byte list \<Rightarrow> nat \<Rightarrow> ('w link, unit) act" where
  "downloadChunk env ctx stream offset = blockE [
     bindE (readS (\<lambda>l. ctx_err env ctx (world l)))
       (\<lambda>e. case e of Some err \<Rightarrow> fail err | None \<Rightarrow> ret ()),
     checkE (offset + imageChunkBytes \<le> length stream) (Panic ''slice bounds out of range''),
     wrapE ''stream image'' (bindE (on_world (Transfer (spi env)
         (take imageChunkBytes (drop offset stream)) 0 spiSpeedHz downloadDelayUsecs)) (\<lambda>_. ret ())),
     count (\<lambda>s. s\<lparr>DownloadTransfers := DownloadTransfers s + 1,
                   DownloadBytes := DownloadBytes s + imageChunkBytes\<rparr>),
     (if offset + imageChunkBytes = speedRestoreOffset
      then seqE (wrapE ''restore SPI speed''
                  (on_world (Configure (spi env) spiMode spiBitsPerWord spiSpeedHz)))
                (doSleep env downloadStageWait)
      else ret ())]"

function downloadLoop :: "'w dsp_env \<Rightarrow> nat \<Rightarrow> byte list \<Rightarrow> nat \<Rightarrow> ('w link, unit) act" where
  "downloadLoop env ctx stream offset =
     (if offset < length stream
      then seqE (downloadChunk env ctx stream offset)
                (downloadLoop env ctx stream (offset + imageChunkBytes))
      else ret ())"
  by pat_completeness auto
termination
  by (relation "measure (\<lambda>(env, ctx, stream, offset). length stream - offset)")
     (auto simp: imageChunkBytes_def)

declare downloadLoop.simps [simp del]

definition download :: "'w dsp_env \<Rightarrow> nat \<Rightarrow> byte list \<Rightarrow> ('w link, unit) act" where
  "download env ctx stream =
     (let cs = ChipSelect (pins env); g = gpio env in
      seqE (wrapE ''export chip select'' (on_world (Export g cs)))
       (finallyE
         (blockE [
            wrapE ''configure chip select'' (on_world (Direction g cs True)),
            wrapE ''raise chip select'' (on_world (GpioWrite g cs True)),
            wrapE ''assert chip select'' (on_world (GpioWrite g cs False)),
            downloadLoop env ctx stream 0])
         (seqE (ignoreE (on_world (GpioWrite g cs True)))
               (ignoreE (on_world (Unexport g cs))))))"

definition prepareHandshake :: "'w dsp_env \<Rightarrow> ('w link, unit) act" where
  "prepareHandshake env = blockE [
     wrapE ''configure transfer GPIO'' (on_world (Direction (gpio env) (Active (pins env)) True)),
     on_world (GpioWrite (gpio env) (Active (pins env)) False)]"

definition BootContext :: "'w dsp_env \<Rightarrow> nat \<Rightarrow> bootImage \<Rightarrow> ('w link, unit) act" where
  "BootContext env ctx img = blockE [
     checkE (length (Stream img) \<noteq> 0) (Errorf ''boot image is empty''),
     wrapE ''configure SPI'' (on_world (Configure (spi env) spiMode spiBitsPerWord spiSpeedHz)),
     prepareDownloadLines env,
     configureResetOutput env,
     wrapE ''pulse DSP reset'' (pulseReset env),
     download env ctx (Stream img),
     prepareHandshake env,
     updS (\<lambda>l. l\<lparr>booted := True\<rparr>)]"

subsection \<open>The transmit queue\<close>

text \<open>A tracked message gets a fresh completion channel, returned to the caller.\<close>

definition enqueue :: "nat \<Rightarrow> u16 \<Rightarrow> byte list \<Rightarrow> bool \<Rightarrow> ('w link, nat option) act" where
  "enqueue ctx mid payload tracked =
     bindE (liftE (buildFrame mid payload)) (\<lambda>message l.
       if \<not> booted l then (Inl (Errorf ''DSP link is not booted''), l)
       else let c = (if tracked then Some (next_completion l) else None)
            in (Inr c, l\<lparr>queue := queue l @ [\<lparr>q_frame = message, q_completion = c, q_context = ctx\<rparr>],
                         next_completion := next_completion l + (if tracked then 1 else 0)\<rparr>))"

definition dequeue :: "('w link, queuedMessage option) act" where
  "dequeue l = (case queue l of [] \<Rightarrow> (Inr None, l) | m # ms \<Rightarrow> (Inr (Some m), l\<lparr>queue := ms\<rparr>))"

definition requeue :: "queuedMessage \<Rightarrow> ('w link, unit) act" where
  "requeue m = updS (\<lambda>l. l\<lparr>queue := m # queue l\<rparr>)"

definition stashFrame :: "frame \<Rightarrow> ('w link, unit) act" where
  "stashFrame f = updS (\<lambda>l. l\<lparr>pending := pending l @ [f]\<rparr>)"

definition takePendingFrame :: "('w link, frame option) act" where
  "takePendingFrame l =
     (case pending l of [] \<Rightarrow> (Inr None, l) | f # fs \<Rightarrow> (Inr (Some f), l\<lparr>pending := fs\<rparr>))"

definition complete :: "queuedMessage \<Rightarrow> go_error option \<Rightarrow> ('w link, unit) act" where
  "complete m err =
     (case q_completion m of
        None \<Rightarrow> ret ()
      | Some c \<Rightarrow> updS (\<lambda>l. l\<lparr>completed := completed l @ [(c, err)]\<rparr>))"

subsection \<open>Transfers\<close>

text \<open>
  One byte per transfer. A received byte lands in a zeroed buffer cell, so a backend that
  fills nothing leaves a zero there.
\<close>

fun transferSerial :: "'w dsp_env \<Rightarrow> byte list \<Rightarrow> bool \<Rightarrow> ('w link, byte list) act" where
  "transferSerial env [] rd = ret []"
| "transferSerial env (b # bs) rd =
     bindE (on_world (Transfer (spi env) (if rd then [] else [b]) (if rd then 1 else 0)
              spiSpeedHz frameDelayUsecs))
       (\<lambda>got. bindE (transferSerial env bs rd)
          (\<lambda>rest. ret ((if rd then take 1 (got @ [0]) else [b]) @ rest)))"

definition finishTransfer :: "'w dsp_env \<Rightarrow> go_error option \<Rightarrow> ('w link, unit) act" where
  "finishTransfer env cause =
     seqE (doSleep env releaseDelay)
      (tryE (on_world (GpioWrite (gpio env) (Active (pins env)) False)) (\<lambda>r. case r of
         Inl err \<Rightarrow> (case cause of
             Some c \<Rightarrow> fail (Wrapf ''cause; release transfer line'' err)
           | None \<Rightarrow> fail (Wrapf ''release transfer line'' err))
       | Inr _ \<Rightarrow> (case cause of Some c \<Rightarrow> fail c | None \<Rightarrow> ret ())))"

text \<open>\<^verbatim>\<open>return nil, l.finishTransfer(err)\<close> with an error that is not nil.\<close>

definition abortTransfer :: "'w dsp_env \<Rightarrow> go_error \<Rightarrow> ('w link, 'a) act" where
  "abortTransfer env err = seqE (finishTransfer env (Some err)) (fail err)"

definition strobe :: "'w dsp_env \<Rightarrow> ('w link, unit) act" where
  "strobe env =
     (let p = pins env; g = gpio env in blockE [
        wrapE ''lower strobe'' (on_world (GpioWrite g (Strobe p) False)),
        doSleep env handshakeDelay,
        wrapE ''raise strobe'' (on_world (GpioWrite g (Strobe p) True)),
        wrapE ''raise transfer line'' (on_world (GpioWrite g (Active p) True)),
        doSleep env handshakeDelay])"

text \<open>
  The ready line is polled until it reads low or the deadline has passed. The loop ends
  because sleeping advances the clock; \<open>fuel\<close> bounds the number of polls.
\<close>

fun waitReadyLoop :: "'w dsp_env \<Rightarrow> nat \<Rightarrow> nat \<Rightarrow> ('w link, unit) act" where
  "waitReadyLoop env 0 deadline = fail OutOfFuel"
| "waitReadyLoop env (Suc fuel) deadline =
     bindE (wrapE ''read ready line'' (on_world (GpioRead (gpio env) (Ready (pins env)))))
       (\<lambda>ready. if \<not> ready then ret ()
          else bindE (readS (\<lambda>l. now env (world l))) (\<lambda>t.
            if \<not> t < deadline then fail (Errorf ''DSP did not report ready'')
            else seqE (doSleep env readyPollInterval) (waitReadyLoop env fuel deadline)))"

definition readyFuel :: "'w dsp_env \<Rightarrow> nat" where
  "readyFuel env = readyTimeout env div readyPollInterval + 2"

definition waitReady :: "'w dsp_env \<Rightarrow> ('w link, unit) act" where
  "waitReady env =
     bindE (readS (\<lambda>l. now env (world l) + readyTimeout env)) (waitReadyLoop env (readyFuel env))"

function syncLoop :: "'w dsp_env \<Rightarrow> nat \<Rightarrow> byte list \<Rightarrow> ('w link, byte list \<times> nat) act" where
  "syncLoop env shift header =
     (if shift \<le> maxHeaderShifts then
        (case parseDeviceHeader header of
           Inr (mid, len) \<Rightarrow>
             if mid \<le> messageIDTest \<and> len \<le> maxDevicePayload
             then seqE (if shift > 0 then count (\<lambda>s. s\<lparr>FrameResyncs := FrameResyncs s + 1\<rparr>) else ret ())
                       (ret (header, len))
             else if shift = maxHeaderShifts
             then fail (Wrapf ''synchronization failed'' (Sentinel ErrFrameRejected))
             else bindE (wrapE ''resynchronize frame header'' (transferSerial env [0] True))
                    (\<lambda>next. syncLoop env (shift + 1) (drop 1 header @ [next ! 0]))
         | Inl _ \<Rightarrow>
             if shift = maxHeaderShifts
             then fail (Wrapf ''synchronization failed'' (Sentinel ErrFrameRejected))
             else bindE (wrapE ''resynchronize frame header'' (transferSerial env [0] True))
                    (\<lambda>next. syncLoop env (shift + 1) (drop 1 header @ [next ! 0])))
      else fail (Errorf ''device frame synchronization exhausted''))"
  by pat_completeness auto
termination
  by (relation "measure (\<lambda>(env, shift, header). Suc maxHeaderShifts - shift)") auto

declare syncLoop.simps [simp del]

definition readSynchronizedHeader :: "'w dsp_env \<Rightarrow> ('w link, byte list \<times> nat) act" where
  "readSynchronizedHeader env =
     bindE (wrapE ''read frame header'' (transferSerial env (replicate 5 0) True)) (syncLoop env 0)"

definition receive :: "'w dsp_env \<Rightarrow> ('w link, frame) act" where
  "receive env =
     seqE (strobe env)
      (tryE (readSynchronizedHeader env) (\<lambda>r. case r of
         Inl err \<Rightarrow>
           seqE (count (\<lambda>s. s\<lparr>FramesRejected := FramesRejected s + 1\<rparr>)) (abortTransfer env err)
       | Inr (header, len) \<Rightarrow>
           tryE (transferSerial env (replicate (devicePayloadRead len) 0) True) (\<lambda>r. case r of
             Inl err \<Rightarrow> abortTransfer env (Wrapf ''read frame payload'' err)
           | Inr body \<Rightarrow>
               seqE (finishTransfer env None)
                (case decodeDeviceFrame header body of
                   Inl err \<Rightarrow> seqE (count (\<lambda>s. s\<lparr>FramesRejected := FramesRejected s + 1\<rparr>))
                                   (fail (Wrapf ''header and body'' err))
                 | Inr decoded \<Rightarrow> seqE (count (\<lambda>s. s\<lparr>FramesReceived := FramesReceived s + 1\<rparr>))
                                      (ret decoded)))))"

text \<open>
  The loop that waits for the matching response: an unrelated frame is stashed, a frame
  error is retried, anything else ends the wait.
\<close>

function awaitResponse :: "'w dsp_env \<Rightarrow> u16 \<Rightarrow> byte \<Rightarrow> nat \<Rightarrow> nat \<Rightarrow> ('w link, frame) act" where
  "awaitResponse env expectedID expectedCode unrelated failures =
     (if unrelated \<le> maxUnrelatedFrames then
        tryE (receive env) (\<lambda>r. case r of
          Inl err \<Rightarrow>
            if \<not> isFrameError err then fail err
            else if failures + 1 \<ge> maxReceiveRetries
            then fail (Wrapf ''last receive error'' (Sentinel ErrCommandResponse))
            else seqE (doSleep env receiveRetryDelay) (seqE (waitReady env)
                   (awaitResponse env expectedID expectedCode unrelated (failures + 1)))
        | Inr received \<Rightarrow>
            if ID received = expectedID \<and> Code received = Some expectedCode then ret received
            else seqE (count (\<lambda>s. s\<lparr>FramesRejected := FramesRejected s + 1\<rparr>))
                  (seqE (stashFrame received)
                    (if unrelated + 1 > maxUnrelatedFrames
                     then fail (Wrapf ''no matching response'' (Sentinel ErrFrameRejected))
                     else seqE (waitReady env)
                            (awaitResponse env expectedID expectedCode (unrelated + 1) failures))))
      else fail (Wrapf ''no matching response'' (Sentinel ErrFrameRejected)))"
  by pat_completeness auto
termination
  by (relation "measure (\<lambda>(env, i, c, unrelated, failures).
        (Suc maxUnrelatedFrames - unrelated) + (maxReceiveRetries - failures))") auto

declare awaitResponse.simps [simp del]

definition transmitOnce :: "'w dsp_env \<Rightarrow> byte list \<Rightarrow> ('w link, frame) act" where
  "transmitOnce env message =
     seqE (wrapE ''raise transfer line'' (on_world (GpioWrite (gpio env) (Active (pins env)) True)))
      (seqE (doSleep env handshakeDelay)
       (tryE (transferSerial env message False) (\<lambda>r. case r of
          Inl err \<Rightarrow> abortTransfer env (Wrapf ''send frame'' err)
        | Inr _ \<Rightarrow>
            seqE (doSleep env handshakeDelay)
             (tryE (on_world (GpioWrite (gpio env) (Active (pins env)) False)) (\<lambda>r. case r of
                Inl err \<Rightarrow> abortTransfer env (Wrapf ''lower transfer line'' err)
              | Inr _ \<Rightarrow>
                  tryE (waitReady env) (\<lambda>r. case r of
                    Inl err \<Rightarrow> abortTransfer env err
                  | Inr _ \<Rightarrow>
                      seqE (count (\<lambda>s. s\<lparr>FramesSent := FramesSent s + 1\<rparr>))
                       (if length message < 6 then fail (Panic ''index out of range'')
                        else awaitResponse env (be16 (message ! 0) (message ! 1)) (message ! 5) 0 0)))))))"

subsection \<open>One iteration of the message loop\<close>

text \<open>
  The result is the received frame, whether traffic moved, and the error: Go's three
  return values.
\<close>

definition Poll :: "'w dsp_env \<Rightarrow> ('w link, frame option \<times> bool \<times> go_error option) act" where
  "Poll env =
     (let g = gpio env; p = pins env in
      tryE (on_world (Direction g (Active p) True)) (\<lambda>r. case r of
        Inl err \<Rightarrow> ret (None, False, Some (Wrapf ''configure transfer line'' err))
      | Inr _ \<Rightarrow>
      tryE (on_world (GpioWrite g (Active p) False)) (\<lambda>r. case r of
        Inl err \<Rightarrow> ret (None, False, Some (Wrapf ''lower transfer line'' err))
      | Inr _ \<Rightarrow>
      bindE takePendingFrame (\<lambda>stashed. case stashed of
        Some received \<Rightarrow> ret (Some received, True, None)
      | None \<Rightarrow>
      bindE dequeue (\<lambda>next. case next of
        Some message \<Rightarrow>
          bindE (readS (\<lambda>l. ctx_err env (q_context message) (world l))) (\<lambda>cancelled. case cancelled of
            Some err \<Rightarrow> seqE (complete message (Some err)) (ret (None, True, None))
          | None \<Rightarrow>
              tryE (on_world (GpioRead g (Busy p))) (\<lambda>r. case r of
                Inl err \<Rightarrow> seqE (requeue message) (ret (None, False, Some (Wrapf ''read busy line'' err)))
              | Inr busy \<Rightarrow>
                  if busy then seqE (requeue message) (ret (None, False, None))
                  else tryE (transmitOnce env (q_frame message)) (\<lambda>r. case r of
                    Inl err \<Rightarrow> seqE (complete message (Some err)) (ret (None, True, Some err))
                  | Inr received \<Rightarrow> seqE (complete message None) (ret (Some received, True, None)))))
      | None \<Rightarrow>
          tryE (on_world (GpioRead g (Ready p))) (\<lambda>r. case r of
            Inl err \<Rightarrow> ret (None, False, Some (Wrapf ''read ready line'' err))
          | Inr ready \<Rightarrow>
              if ready then ret (None, False, None)
              else tryE (receive env) (\<lambda>r. case r of
                Inl err \<Rightarrow> ret (None, True, Some err)
              | Inr received \<Rightarrow> ret (Some received, True, None))))))))"

definition Close :: "'w dsp_env \<Rightarrow> ('w link, unit) act" where
  "Close env =
     (let g = gpio env; p = pins env in
      tryE (on_world (GpioWrite g (Active p) False)) (\<lambda>activeErr.
      seqE (forE [Strobe p, Active p, Ready p, Busy p] (\<lambda>pin. ignoreE (on_world (Unexport g pin))))
      (tryE (on_world (SpiClose (spi env))) (\<lambda>spiErr.
      tryE (on_world (I2cClose (i2c env))) (\<lambda>i2cErr.
        case spiErr of Inl e \<Rightarrow> fail e | Inr _ \<Rightarrow>
        (case activeErr of Inl e \<Rightarrow> fail e | Inr _ \<Rightarrow> liftE i2cErr))))))"

end
