(* ===== verification/Dsp_Link_Queue.thy ===== *)
theory Dsp_Link_Queue
  imports Dsp_Link
begin

text \<open>
  The bookkeeping of the SPI link, for any backends: which part of the state the hardware
  traffic leaves alone, the queue with its completions over every history of the link, and
  the frames a receive or a command returns.
\<close>

lemma keeps_on_world: "same f m \<Longrightarrow> keeps (\<lambda>l. P (f (world l))) (on_world m)"
  by (rule keepsI) (simp add: on_world_def split_beta same_def)

lemma triple_on_world:
  "triple P m Q E \<Longrightarrow>
   triple (\<lambda>l. P (world l)) (on_world m) (\<lambda>x l. Q x (world l)) (\<lambda>e l. E e (world l))"
  by (rule tripleI)
     (auto simp: on_world_def split: prod.splits dest: tripleD_value tripleD_error)

lemma keeps_not_world:
  "(\<And>l w. P (l\<lparr>world := w\<rparr>) = P l) \<Longrightarrow> keeps P (on_world m)"
  by (rule keepsI) (simp add: on_world_def split: prod.splits)

lemma doSleep_world: "world (snd (doSleep env d l)) = sleep env d (world l)"
  by (simp add: doSleep_def on_world_def updS_def)

lemma world_bookkeeping:
  "same world (count f)" "same world (complete m err)" "same world (requeue m)"
  "same world dequeue" "same world takePendingFrame" "same world (stashFrame f')"
  by (auto simp: same_def count_def complete_def requeue_def dequeue_def takePendingFrame_def
        stashFrame_def updS_def ret_def split: option.splits list.splits)

lemmas keeps_bookkeeping = world_bookkeeping [THEN same_keeps]

subsection \<open>The queue and its completions\<close>

text \<open>
  \<open>core\<close> is the part of the link that only the queue operations move, \<open>calm\<close> adds the frames
  received early. The hardware traffic of an iteration leaves them alone, whatever the backends
  do.
\<close>

definition core :: "'w link \<Rightarrow> queuedMessage list \<times> (nat \<times> go_error option) list \<times> nat \<times> bool" where
  "core l = (queue l, completed l, next_completion l, booted l)"

definition calm where "calm l = (core l, pending l)"

lemma calm_world: "keeps (\<lambda>l. P (calm l)) (on_world m)"
  by (rule keeps_not_world) (simp add: calm_def core_def)

lemma calm_traffic:
  "keeps (\<lambda>l. P (calm l)) (count f)" "keeps (\<lambda>l. P (calm l)) (doSleep env d)"
  by (rule keepsI, simp add: calm_def core_def count_def doSleep_def on_world_def act_simps)+

lemma serial_calm: "keeps (\<lambda>l. P (calm l)) (transferSerial env bs rd)"
  by (induction bs) (simp_all only: transferSerial.simps, (intro keeps_rules calm_world | assumption)+)

lemma waitReady_calm: "keeps (\<lambda>l. P (calm l)) (waitReady env)"
proof -
  have "keeps (\<lambda>l. P (calm l)) (waitReadyLoop env fuel deadline)" for fuel deadline
    by (induction fuel) (simp_all, (intro keeps_rules calm_world calm_traffic | assumption)+)
  then show ?thesis unfolding waitReady_def by (intro keeps_rules)
qed

lemma abort_calm: "keeps (\<lambda>l. P (calm l)) (abortTransfer env err)"
  "keeps (\<lambda>l. P (calm l)) (finishTransfer env c)"
  unfolding abortTransfer_def finishTransfer_def by (intro keeps_rules calm_world calm_traffic)+

lemma syncLoop_calm: "keeps (\<lambda>l. P (calm l)) (syncLoop env shift header)"
proof (induction "Suc maxHeaderShifts - shift" arbitrary: shift header rule: less_induct)
  case less
  show ?case
    by (subst syncLoop.simps)
       (intro keeps_rules serial_calm calm_traffic less.hyps; simp)
qed

lemma receive_calm: "keeps (\<lambda>l. P (calm l)) (receive env)"
  unfolding receive_def strobe_def readSynchronizedHeader_def Let_def blockE.simps
  by (intro keeps_rules calm_world calm_traffic serial_calm syncLoop_calm abort_calm)

lemmas receive_core = receive_calm [where P = "\<lambda>c. P (fst c)" for P, unfolded calm_def fst_conv]
lemmas waitReady_core = waitReady_calm [where P = "\<lambda>c. P (fst c)" for P, unfolded calm_def fst_conv]
lemmas serial_core = serial_calm [where P = "\<lambda>c. P (fst c)" for P, unfolded calm_def fst_conv]
lemmas abort_core = abort_calm [where P = "\<lambda>c. P (fst c)" for P, unfolded calm_def fst_conv]
lemmas core_world = calm_world [where P = "\<lambda>c. P (fst c)" for P, unfolded calm_def fst_conv]

lemma core_traffic:
  "keeps (\<lambda>l. P (core l)) (count f)" "keeps (\<lambda>l. P (core l)) (stashFrame fr)"
  "keeps (\<lambda>l. P (core l)) takePendingFrame" "keeps (\<lambda>l. P (core l)) (doSleep env d)"
  by (rule keepsI, simp add: core_def count_def stashFrame_def takePendingFrame_def doSleep_def
        on_world_def act_simps split: list.split)+

lemma awaitResponse_core: "keeps (\<lambda>l. P (core l)) (awaitResponse env i c unrelated failures)"
proof (induction "(Suc maxUnrelatedFrames - unrelated) + (maxReceiveRetries - failures)"
    arbitrary: unrelated failures rule: less_induct)
  case less
  show ?case
    by (subst awaitResponse.simps)
       (intro keeps_rules receive_core core_traffic waitReady_core less.hyps; simp)
qed

lemma transmitOnce_core: "keeps (\<lambda>l. P (core l)) (transmitOnce env message)"
  unfolding transmitOnce_def
  by (intro keeps_rules core_world core_traffic serial_core waitReady_core abort_core awaitResponse_core)

lemma BootContext_queue:
  "keeps (\<lambda>l. P (queue l) (completed l) (next_completion l) \<and> (b \<longrightarrow> booted l))
     (BootContext env ctx img)"
proof -
  let ?I = "\<lambda>l. P (queue l) (completed l) (next_completion l) \<and> (b \<longrightarrow> booted l)"
  have w: "keeps ?I (on_world m)" for m :: "('a, 'b) act"
    by (rule keeps_not_world) simp
  have st: "keeps ?I (count f)" "keeps ?I (doSleep env d)" for f d
    by (rule keepsI, simp add: count_def doSleep_def on_world_def act_simps)+
  have chunk: "keeps ?I (downloadChunk env ctx stream offset)" for stream offset
    unfolding downloadChunk_def blockE.simps by (intro keeps_rules w st)
  have loop: "keeps ?I (downloadLoop env ctx stream offset)" for stream offset
    by (induction "length stream - offset" arbitrary: offset rule: less_induct)
       (subst downloadLoop.simps, (intro keeps_rules chunk; simp add: imageChunkBytes_def))
  have flag: "keeps ?I (updS (\<lambda>l. l\<lparr>booted := True\<rparr>))"
    by (rule keeps_updS) simp
  show ?thesis
    unfolding BootContext_def prepareDownloadLines_def configureResetOutput_def pulseReset_def
      setReset_def download_def prepareHandshake_def Let_def blockE.simps
    by (intro keeps_rules w st loop flag)
qed

text \<open>
  \<open>popped k k'\<close>: the first message of the queue is gone and, when it was tracked, exactly
  one result was sent on its channel.
\<close>

fun popped where
  "popped (q, d, n, b) (q', d', n', b') \<longleftrightarrow>
     n' = n \<and> b' = b \<and> (\<exists>m e. q = m # q' \<and>
       d' = d @ (case q_completion m of None \<Rightarrow> [] | Some c \<Rightarrow> [(c, e)]))"

lemma Poll_core:
  "triple (\<lambda>l. core l = k) (Poll env) (\<lambda>r l. core l = k \<or> popped k (core l)) (\<lambda>_ _. False)"
proof -
  define held where "held m c \<longleftrightarrow> k = (m # fst c, snd c)"
    for m and c :: "queuedMessage list \<times> (nat \<times> go_error option) list \<times> nat \<times> bool"
  let ?I = "\<lambda>l :: 'a link. core l = k" and ?H = "\<lambda>m (l :: 'a link). held m (core l)"
  have take: "triple ?I takePendingFrame (\<lambda>_. ?I) (\<lambda>_ _. False)"
    by (rule tripleI) (auto simp: takePendingFrame_def core_def split: list.splits)
  have deq: "triple ?I dequeue (\<lambda>x. case x of None \<Rightarrow> ?I | Some m \<Rightarrow> ?H m) (\<lambda>_ _. False)"
    by (rule tripleI) (auto simp: dequeue_def core_def held_def split: list.splits)
  have compl: "triple (?H m) (complete m e) (\<lambda>_ l. popped k (core l)) (\<lambda>_ _. False)" for m e
    by (rule tripleI) (auto simp: complete_def core_def held_def act_simps split: option.splits)
  have req: "triple (?H m) (requeue m) (\<lambda>_. ?I) (\<lambda>_ _. False)" for m
    by (rule tripleI) (auto simp: requeue_def core_def held_def)
  have send: "triple (?H m) (seqE (complete m e) (ret r))
      (\<lambda>r l. core l = k \<or> popped k (core l)) (\<lambda>_ _. False)" for m e r
    by (rule triple_seqE [OF compl]) (simp add: triple_ret)
  have again: "triple (?H m) (seqE (requeue m) (ret r))
      (\<lambda>r l. core l = k \<or> popped k (core l)) (\<lambda>_ _. False)" for m r
    by (rule triple_seqE [OF req]) (simp add: triple_ret)
  have stay: "triple ?I (ret r) (\<lambda>r l. core l = k \<or> popped k (core l)) (\<lambda>_ _. False)" for r
    by (simp add: triple_ret)
  have dequeued: "triple (case x of None \<Rightarrow> ?I | Some m \<Rightarrow> ?H m)
      (case x of Some m \<Rightarrow> f m | None \<Rightarrow> g) Q E"
    if "\<And>m. triple (?H m) (f m) Q E" "triple ?I g Q E" for x f g Q E
    using that by (cases x) simp_all
  show ?thesis
    unfolding Poll_def Let_def
    apply (rule kept_tryE [OF core_world [where P = "\<lambda>c. c = k"]])
    apply (rule triple_case_sum, rule stay)
    apply (rule kept_tryE [OF core_world [where P = "\<lambda>c. c = k"]])
    apply (rule triple_case_sum, rule stay)
    apply (rule triple_bindE [OF take])
    apply (rule triple_case_option [rotated], rule stay)
    apply (rule triple_bindE [OF deq])
    apply (rule dequeued)
     apply (rule kept_readS)
     apply (rule triple_case_option [rotated], rule send)
     apply (rule kept_tryE [OF core_world [where P = "held m" for m]])
     apply (rule triple_case_sum, rule again)
     apply (rule triple_if, rule again)
     apply (rule kept_tryE [OF transmitOnce_core [where P = "held m" for m]])
     apply (rule triple_case_sum, rule send, rule send)
    apply (rule kept_tryE [OF core_world [where P = "\<lambda>c. c = k"]])
    apply (rule triple_case_sum, rule stay)
    apply (rule triple_if, rule stay)
    apply (rule kept_tryE [OF receive_core [where P = "\<lambda>c. c = k"]])
    apply (rule triple_case_sum, rule stay, rule stay)
    done
qed

lemma Poll_returns: "\<exists>r l'. Poll env l = (Inr r, l')"
proof (cases "Poll env l")
  case (Pair v l')
  then show ?thesis
    using tripleD_error [OF Poll_core [where k = "core l" and env = env] refl] by (cases v) auto
qed

text \<open>
  Any history of a link: booting, enqueueing, polling, and whatever the outside world does to
  the devices in between.
\<close>

inductive link_run :: "'w dsp_env \<Rightarrow> 'w link \<Rightarrow> bool" for env where
  run_new: "link_run env (newLink w)"
| run_boot: "link_run env l \<Longrightarrow> link_run env (snd (BootContext env ctx img l))"
| run_enqueue: "link_run env l \<Longrightarrow> link_run env (snd (enqueue ctx mid payload tracked l))"
| run_poll: "link_run env l \<Longrightarrow> link_run env (snd (Poll env l))"
| run_world: "link_run env l \<Longrightarrow> link_run env (l\<lparr>world := w\<rparr>)"

definition tracked :: "queuedMessage list \<Rightarrow> nat list" where
  "tracked q = List.map_filter q_completion q"

text \<open>
  The accounting invariant: the results delivered so far and the messages still queued are
  the channels handed out, in order; a queued frame has its header and code; and nothing is
  queued before the boot.
\<close>

definition link_inv :: "'w link \<Rightarrow> bool" where
  "link_inv l \<longleftrightarrow> map fst (completed l) @ tracked (queue l) = [0..<next_completion l]
     \<and> (\<forall>m \<in> set (queue l). 8 \<le> length (q_frame m)) \<and> (queue l \<noteq> [] \<longrightarrow> booted l)"

lemma tracked_simps [simp]:
  "tracked [] = []" "tracked (p @ q) = tracked p @ tracked q"
  "tracked (m # q) = (case q_completion m of None \<Rightarrow> tracked q | Some c \<Rightarrow> c # tracked q)"
  by (simp_all add: tracked_def map_filter_def split: option.split)

lemma enqueue_cases:
  obtains e where "enqueue ctx mid payload t l = (Inl e, l)"
  | out where "buildFrame mid payload = Inr out" "booted l"
      "enqueue ctx mid payload t l = (Inr (if t then Some (next_completion l) else None),
        l\<lparr>queue := queue l @ [\<lparr>q_frame = out, q_completion = if t then Some (next_completion l) else None,
             q_context = ctx\<rparr>],
          next_completion := next_completion l + (if t then 1 else 0)\<rparr>)"
  by (cases "buildFrame mid payload"; cases "booted l") (auto simp: enqueue_def act_simps Let_def)

lemma enqueue_inv: "link_inv l \<Longrightarrow> link_inv (snd (enqueue ctx mid payload t l))"
proof (rule enqueue_cases [of ctx mid payload t l])
  fix out assume inv: "link_inv l" and b: "buildFrame mid payload = Inr out" "booted l"
    and e: "enqueue ctx mid payload t l = (Inr (if t then Some (next_completion l) else None),
        l\<lparr>queue := queue l @ [\<lparr>q_frame = out, q_completion = if t then Some (next_completion l) else None,
             q_context = ctx\<rparr>],
          next_completion := next_completion l + (if t then 1 else 0)\<rparr>)"
  have "8 \<le> length out"
    using length_buildFrame [OF b(1)] by (simp add: frameLength_def)
  with inv b(2) show ?thesis
    unfolding e snd_conv by (cases t) (simp_all add: link_inv_def)
qed simp

lemma popped_inv: "link_inv l \<Longrightarrow> popped (core l) (core l') \<Longrightarrow> link_inv l'"
  by (auto simp: link_inv_def core_def split: option.splits)

lemma Poll_cases:
  obtains "core (snd (Poll env l)) = core l" | "popped (core l) (core (snd (Poll env l)))"
proof -
  obtain r l' where "Poll env l = (Inr r, l')" using Poll_returns by blast
  with tripleD_value [OF Poll_core [where k = "core l" and env = env] refl this] that
  show thesis by auto
qed

lemma link_run_inv: "link_run env l \<Longrightarrow> link_inv l"
proof (induction rule: link_run.induct)
  case (run_new w)
  show ?case by (simp add: link_inv_def newLink_def)
next
  case (run_boot l ctx img)
  let ?P = "\<lambda>q c n. map fst c @ tracked q = [0..<n] \<and> (\<forall>m \<in> set q. 8 \<le> length (q_frame m))
     \<and> (q \<noteq> [] \<longrightarrow> booted l)"
  have "?P (queue l) (completed l) (next_completion l) \<and> (booted l \<longrightarrow> booted l)"
    using run_boot.IH by (simp add: link_inv_def)
  note keepsD [OF BootContext_queue [where P = ?P and b = "booted l"], OF this]
  then show ?case by (auto simp: link_inv_def)
next
  case (run_enqueue l ctx mid payload t)
  then show ?case by (simp add: enqueue_inv)
next
  case (run_poll l)
  show ?case
  proof (rule Poll_cases [of env l])
    assume "core (snd (Poll env l)) = core l"
    with run_poll.IH show ?thesis by (simp add: link_inv_def core_def)
  qed (rule popped_inv [OF run_poll.IH])
next
  case (run_world l w)
  then show ?case by (simp add: link_inv_def)
qed

text \<open>\<open>lowers_active\<close>: driving the transfer line low succeeds, so that the release at the end of
  every transfer takes effect.\<close>

definition lowers_active :: "'w dsp_env \<Rightarrow> bool" where
  "lowers_active env \<longleftrightarrow> (\<forall>w. \<exists>w'. GpioWrite (gpio env) (Active (pins env)) False w = (Inr (), w'))"

lemma never_fails:
  "fst (doSleep env d l) = Inr ()" "fst (count f l) = Inr ()"
  by (auto simp: doSleep_def on_world_def count_def act_simps)

subsection \<open>Received frames and matching responses\<close>

text \<open>A header that the synchronizer lets through has a known id and a bounded length.\<close>

definition good_header :: "byte list \<Rightarrow> nat \<Rightarrow> bool" where
  "good_header h n \<longleftrightarrow>
     (\<exists>mid. parseDeviceHeader h = Inr (mid, n) \<and> mid \<le> messageIDTest \<and> n \<le> maxDevicePayload)"

lemma syncLoop_value:
  "triple (\<lambda>_. True) (syncLoop env shift header) (\<lambda>(h, n) _. good_header h n) (\<lambda>_ _. True)"
proof (induction "Suc maxHeaderShifts - shift" arbitrary: shift header rule: less_induct)
  case less
  note rules = triple_if triple_case_sum triple_case_prod triple_bindE [OF triple_any]
    triple_seqE [OF triple_any] triple_fail triple_ret less.hyps
  show ?case
    by (subst syncLoop.simps, intro rules) (auto simp: good_header_def)
qed

text \<open>A received frame has a known id, a code, and at most the device's payload limit.\<close>

definition good_frame :: "frame \<Rightarrow> bool" where
  "good_frame f \<longleftrightarrow> ID f \<le> messageIDTest \<and> Payload f \<noteq> [] \<and> length (Payload f) \<le> maxDevicePayload"

lemma decode_good: "good_header h n \<Longrightarrow> decodeDeviceFrame h b = Inr f \<Longrightarrow> good_frame f"
  using devicePayloadRead_ge [of n]
  by (auto simp: good_header_def good_frame_def decodeDeviceFrame_def parseDeviceHeader_def Let_def
      split: if_splits)

lemma abort_fails: "triple P (abortTransfer env err) Q (\<lambda>_ _. True)"
  unfolding abortTransfer_def
  by (rule triple_seqE [where R = "\<lambda>_. True", OF triple_any [THEN triple_conseq]])
     (simp_all add: triple_fail)

lemma receive_value:
  "triple (\<lambda>_. True) (receive env) (\<lambda>f _. good_frame f) (\<lambda>_ _. True)"
proof -
  have hdr: "triple (\<lambda>_. True) (readSynchronizedHeader env)
      (\<lambda>x _. case_sum (\<lambda>_. True) (\<lambda>(h, n). good_header h n) (Inr x :: go_error + _))
      (\<lambda>e _. case_sum (\<lambda>_. True) (\<lambda>(h, n). good_header h n) (Inl e))"
    unfolding readSynchronizedHeader_def sum.case
    by (rule triple_bindE [OF triple_any], rule triple_conseq [OF syncLoop_value]) auto
  note rules = triple_case_sum triple_case_prod triple_bindE [OF triple_any] triple_any
    triple_seqE [OF triple_any] triple_tryE [OF triple_any]
  show ?thesis
    unfolding receive_def
    apply (rule triple_seqE [OF triple_any])
    apply (rule triple_tryE [OF hdr])
    apply (rule triple_pure)
    apply (intro rules abort_fails triple_fail triple_ret)
    by (auto intro: decode_good)
qed

text \<open>
  A command returns only the response it waits for. The frames that came first were put aside,
  at most \<^term>\<open>maxUnrelatedFrames\<close> of them, and each is a well-formed frame that does not match.
\<close>

definition matches :: "u16 \<Rightarrow> byte \<Rightarrow> frame \<Rightarrow> bool" where
  "matches i c f \<longleftrightarrow> ID f = i \<and> Code f = Some c"

lemma awaitResponse_value:
  assumes "awaitResponse env i c unrelated failures l = (Inr f, l')"
  shows "matches i c f \<and> good_frame f \<and>
    (\<exists>extra. pending l' = pending l @ extra \<and> length extra + unrelated \<le> maxUnrelatedFrames \<and>
       (\<forall>x \<in> set extra. good_frame x \<and> \<not> matches i c x))"
  using assms
proof (induction "(Suc maxUnrelatedFrames - unrelated) + (maxReceiveRetries - failures)"
    arbitrary: unrelated failures l rule: less_induct)
  case less
  note pending_same = keepsD [OF receive_calm [where P = "\<lambda>x. snd x = p" for p]]
    keepsD [OF waitReady_calm [where P = "\<lambda>x. snd x = p" for p]]
    keepsD [OF calm_traffic(2) [where P = "\<lambda>x. snd x = p" for p]]
  note run = less.prems [unfolded awaitResponse.simps [of env i c unrelated failures]]
  obtain r u where recv: "receive env l = (r, u)" by fastforce
  have pu: "pending u = pending l"
    using pending_same(1) [of l "pending l" env] recv by (simp add: calm_def)
  show ?case
  proof (cases r)
    case (Inl e)
    with run recv obtain v w y z where
      s: "doSleep env receiveRetryDelay u = (Inr y, v)" "waitReady env v = (Inr z, w)"
        "failures + 1 < maxReceiveRetries" "unrelated \<le> maxUnrelatedFrames"
        "awaitResponse env i c unrelated (failures + 1) w = (Inr f, l')"
      by (auto simp: tryE_def split: if_splits elim!: act_elims)
    have "pending w = pending l"
      using pending_same(3) [of u "pending u" env receiveRetryDelay]
        pending_same(2) [of v "pending v" env] s pu
      by (simp add: calm_def)
    then show ?thesis using less.hyps [OF _ s(5)] s(3,4) by simp
  next
    case (Inr g)
    have good: "good_frame g" using tripleD_value [OF receive_value TrueI] recv Inr by blast
    show ?thesis
    proof (cases "matches i c g")
      case True
      with run recv Inr have "f = g" "l' = u" "unrelated \<le> maxUnrelatedFrames"
        by (auto simp: tryE_def matches_def split: if_splits)
      then show ?thesis using True good pu by (intro conjI exI [of _ "[]"]) simp_all
    next
      case False
      define v where "v = u\<lparr>stats := stats u\<lparr>FramesRejected := FramesRejected (stats u) + 1\<rparr>,
          pending := pending u @ [g]\<rparr>"
      from False run recv Inr obtain w z where
        s: "pending v = pending u @ [g]" "waitReady env v = (Inr z, w)"
          "unrelated + 1 \<le> maxUnrelatedFrames"
          "awaitResponse env i c (unrelated + 1) failures w = (Inr f, l')"
        by (auto simp: tryE_def matches_def count_def stashFrame_def v_def split: if_splits
            elim!: act_elims)
      have smaller: "(Suc maxUnrelatedFrames - (unrelated + 1)) + (maxReceiveRetries - failures)
          < (Suc maxUnrelatedFrames - unrelated) + (maxReceiveRetries - failures)"
        using s(3) by linarith
      have "pending w = pending l @ [g]"
        using pending_same(2) [of v "pending v" env] s(1,2) pu by (simp add: calm_def)
      then obtain extra where "pending l' = pending l @ (g # extra)"
          "length extra + (unrelated + 1) \<le> maxUnrelatedFrames" "matches i c f" "good_frame f"
          "\<forall>x \<in> set extra. good_frame x \<and> \<not> matches i c x"
        using less.hyps [OF smaller s(4)] by auto
      then show ?thesis using False good by (intro conjI exI [of _ "g # extra"]) simp_all
    qed
  qed
qed

definition answers :: "frame list \<Rightarrow> byte list \<Rightarrow> frame \<Rightarrow> 'w link \<Rightarrow> bool" where
  "answers p message f l \<longleftrightarrow> 6 \<le> length message \<and> good_frame f \<and>
     matches (be16 (message ! 0) (message ! 1)) (message ! 5) f \<and>
     (\<exists>extra. pending l = p @ extra \<and> length extra \<le> maxUnrelatedFrames \<and>
       (\<forall>x \<in> set extra. good_frame x \<and> \<not> matches (be16 (message ! 0) (message ! 1)) (message ! 5) x))"

lemma transmitOnce_value:
  "triple (\<lambda>l. snd (calm l) = p) (transmitOnce env message) (\<lambda>f l. answers p message f l) (\<lambda>_ _. True)"
proof -
  have await: "triple (\<lambda>l. snd (calm l) = p)
      (awaitResponse env (be16 (message ! 0) (message ! 1)) (message ! 5) 0 0)
      (\<lambda>f l. answers p message f l) (\<lambda>_ _. True)" if "\<not> length message < 6"
    using that awaitResponse_value [where env = env and unrelated = 0]
    by (intro tripleI) (auto simp: answers_def calm_def)
  note I = calm_world [where P = "\<lambda>c. snd c = p"] calm_traffic [where P = "\<lambda>c. snd c = p"]
    serial_calm [where P = "\<lambda>c. snd c = p"] waitReady_calm [where P = "\<lambda>c. snd c = p"]
  show ?thesis
    unfolding transmitOnce_def
    by (rule value_prefix [OF keeps_wrapE] value_prefix kept_tryE triple_case_sum abort_fails
        triple_if await I triple_fail TrueI | assumption)+
qed

end
