(* ===== verification/Dsp_Link_Props.thy ===== *)
theory Dsp_Link_Props
  imports Dsp_Link_Queue
begin

text \<open>
  What the SPI link guarantees on hardware that keeps the laws of the locale
  \<open>dsp_hardware\<close>: the reset pulse disturbs no other expander bit, a completed download has
  sent exactly the image, every iteration of the message loop releases the transfer line, and
  no wait is endless. The locale is interpreted on the memory backend, as the dry run wires
  it.
\<close>

text \<open>
  \<open>proper_devices\<close>: the errors of the backends and of a request's context are ordinary
  errors.
\<close>

definition proper_devices :: "'w dsp_env \<Rightarrow> bool" where
  "proper_devices env \<longleftrightarrow>
     (\<forall>m b s. safe (Configure (spi env) m b s)) \<and> (\<forall>tx rx s d. safe (Transfer (spi env) tx rx s d))
     \<and> (\<forall>p. safe (Export (gpio env) p)) \<and> (\<forall>p d. safe (Direction (gpio env) p d))
     \<and> (\<forall>p h. safe (GpioWrite (gpio env) p h)) \<and> (\<forall>p. safe (GpioRead (gpio env) p))
     \<and> (\<forall>a r f. safe (UpdateRegister (i2c env) a r f))
     \<and> (\<forall>c w e. ctx_err env c w = Some e \<longrightarrow> \<not> crash e)"

subsection \<open>The laws of the hardware\<close>

text \<open>
  Besides the promises of the three interfaces: each device is left alone by the others'
  operations, a sleep lets its duration pass, and reading a line does not turn the clock
  back.
\<close>

locale dsp_hardware =
  gpio_lines "gpio env" level + register_bus "UpdateRegister (i2c env)" regs
  + spi_sender "Transfer (spi env)" sent
  for env :: "'w dsp_env" and level and regs and sent +
  assumes transfer_level: "same level (Transfer (spi env) tx rx s d)"
    and sleep_level: "level (sleep env n w) = level w"
    and sleep_regs: "regs (sleep env n w) = regs w"
    and sleep_sent: "sent (sleep env n w) = sent w"
    and update_sent: "same sent (UpdateRegister (i2c env) a r f)"
    and configure_sent: "same sent (Configure (spi env) m b s)"
    and gpio_sent: "same sent (Export (gpio env) p)" "same sent (Unexport (gpio env) p)"
      "same sent (Direction (gpio env) p h)" "same sent (GpioWrite (gpio env) p h)"
      "same sent (GpioRead (gpio env) p)"
    and sleep_clock: "now env w + n \<le> now env (sleep env n w)"
    and read_clock: "now env w \<le> now env (snd (GpioRead (gpio env) p w))"
begin

subsubsection \<open>Reset\<close>

lemma setReset_triple:
  "triple (\<lambda>l. regs (world l) = R) (setReset env a)
     (\<lambda>_ l. regs (world l) = R((expanderAddress, expanderOutput) :=
        (if a then R (expanderAddress, expanderOutput) OR dspResetMask
         else R (expanderAddress, expanderOutput) AND NOT dspResetMask)))
     (\<lambda>_ l. regs (world l) = R)"
  unfolding setReset_def by (intro hoare triple_on_world update_triple)

lemma doSleep_regs: "keeps (\<lambda>l. P (regs (world l))) (doSleep env d)"
  by (rule keepsI) (simp add: doSleep_world sleep_regs)

lemma doSleep_level: "keeps (\<lambda>l. P (level (world l))) (doSleep env d)"
  by (rule keepsI) (simp add: doSleep_world sleep_level)

lemma doSleep_sent: "keeps (\<lambda>l. P (sent (world l))) (doSleep env d)"
  by (rule keepsI) (simp add: doSleep_world sleep_sent)

text \<open>Any part of the registers that ignores the reset bit is kept, even when the pulse fails.\<close>

lemma setReset_keeps:
  assumes "\<And>R. P (R((expanderAddress, expanderOutput) :=
      R (expanderAddress, expanderOutput) OR dspResetMask)) = P R"
    and "\<And>R. P (R((expanderAddress, expanderOutput) :=
      R (expanderAddress, expanderOutput) AND NOT dspResetMask)) = P R"
  shows "keeps (\<lambda>l. P (regs (world l))) (setReset env a)"
proof (rule tripleI)
  fix l :: "'w link" and e t assume p: "P (regs (world l))" and v: "setReset env a l = (Inl e, t)"
  have "regs (world t) = regs (world l)" by (rule tripleD_error [OF setReset_triple refl v])
  with p show "P (regs (world t))" by simp
next
  fix l :: "'w link" and x t assume p: "P (regs (world l))" and v: "setReset env a l = (Inr x, t)"
  note tripleD_value [OF setReset_triple refl v]
  then show "P (regs (world t))" using p assms by (simp split: if_splits)
qed

lemma pulseReset_keeps:
  assumes "\<And>R. P (R((expanderAddress, expanderOutput) :=
      R (expanderAddress, expanderOutput) OR dspResetMask)) = P R"
    and "\<And>R. P (R((expanderAddress, expanderOutput) :=
      R (expanderAddress, expanderOutput) AND NOT dspResetMask)) = P R"
  shows "keeps (\<lambda>l. P (regs (world l))) (pulseReset env)"
proof -
  note r = setReset_keeps [of P, OF assms]
  show ?thesis
    unfolding pulseReset_def blockE.simps by (intro keeps_rules r doSleep_regs)
qed

lemma pulseReset_value:
  "triple (\<lambda>_. True) (pulseReset env)
     (\<lambda>_ l. bit (regs (world l) (expanderAddress, expanderOutput)) 0) (\<lambda>_ _. True)"
proof -
  have m: "bit (v OR dspResetMask) 0" for v :: byte
    by (simp add: bit_simps dspResetMask_def)
  have s: "triple (\<lambda>_. True) (setReset env True)
     (\<lambda>_ l. bit (regs (world l) (expanderAddress, expanderOutput)) 0) (\<lambda>_ _. True)"
  proof (rule tripleI)
    fix l :: "'w link" and x t assume "setReset env True l = (Inr x, t)"
    then show "bit (regs (world t) (expanderAddress, expanderOutput)) 0"
      using tripleD_value [OF setReset_triple [of "regs (world l)" True] refl] by (simp add: m)
  qed simp
  have any: "triple (\<lambda>_. True) (m' :: ('w link, unit) act) (\<lambda>_ _. True) (\<lambda>_ _. True)" for m'
    by (rule tripleI) simp_all
  have z: "triple P (doSleep env d) (\<lambda>_. P) E" if "P = (\<lambda>l. P' (regs (world l)))" for P P' E d
    by (rule tripleI) (auto simp: that doSleep_def on_world_def updS_def sleep_regs)
  show ?thesis
    unfolding pulseReset_def blockE.simps
    by (rule triple_seqE [OF any] triple_seqE [OF s] triple_seqE [OF z [OF refl]] triple_ret)+ simp
qed


subsubsection \<open>The image stream\<close>

text \<open>
  Only a transfer adds to the bytes sent; a download loop that returns without an error has
  sent the stream from its offset on.
\<close>

lemma world_sent: "same sent m \<Longrightarrow> keeps (\<lambda>l. P (sent (world l))) (on_world m)"
  by (rule keeps_on_world)

lemma count_world: "keeps (\<lambda>l. P (world l)) (count f)"
  by (rule keeps_bookkeeping)

lemma reset_sent:
  "keeps (\<lambda>l. P (sent (world l))) (setReset env b)"
  "keeps (\<lambda>l. P (sent (world l))) (configureResetOutput env)"
  unfolding setReset_def configureResetOutput_def
  by (intro keeps_rules world_sent update_sent)+

lemma pulseReset_sent: "keeps (\<lambda>l. P (sent (world l))) (pulseReset env)"
  unfolding pulseReset_def blockE.simps
  by (intro keeps_rules reset_sent doSleep_sent)

lemma prepare_sent:
  "keeps (\<lambda>l. P (sent (world l))) (prepareDownloadLines env)"
  "keeps (\<lambda>l. P (sent (world l))) (prepareHandshake env)"
  unfolding prepareDownloadLines_def prepareHandshake_def Let_def blockE.simps
  by (intro keeps_rules world_sent gpio_sent)+

lemma downloadChunk_sent:
  assumes "downloadChunk env ctx stream offset l = (Inr x, l')"
  shows "offset + imageChunkBytes \<le> length stream \<and>
    sent (world l') = sent (world l) @ take imageChunkBytes (drop offset stream)"
proof -
  have stage: "keeps (\<lambda>l. P (sent (world l)))
      (if c then seqE (wrapE msg (on_world (Configure (spi env) m b s))) (doSleep env d) else ret ())"
    for P c msg m b s d
    by (intro keeps_rules world_sent configure_sent doSleep_sent)
  note stage = sameD [OF keeps_same, OF stage]
  note counted = sameD [OF keeps_same, OF count_world [where P = "\<lambda>w. sent w = c" for c]]
  from assms show ?thesis
    unfolding downloadChunk_def blockE.simps
    by (elim act_elims) (auto dest!: stage counted transfer_sent simp: on_world_def
        split: prod.splits option.splits)
qed

lemma downloadLoop_sent:
  assumes "downloadLoop env ctx stream offset l = (Inr x, l')" and "offset \<le> length stream"
  shows "sent (world l') = sent (world l) @ drop offset stream"
  using assms
proof (induction "length stream - offset" arbitrary: offset l rule: less_induct)
  case less
  show ?case
  proof (cases "offset < length stream")
    case False
    with less.prems show ?thesis by (simp add: downloadLoop.simps [of env])
  next
    case True
    with less.prems obtain y u where
      chunk: "downloadChunk env ctx stream offset l = (Inr y, u)" and
      rest: "downloadLoop env ctx stream (offset + imageChunkBytes) u = (Inr x, l')"
      by (auto simp: downloadLoop.simps [of env ctx stream offset] elim!: act_elims)
    have "sent (world l') = sent (world u) @ drop (offset + imageChunkBytes) stream"
    proof (rule less.hyps [OF _ rest])
      show "length stream - (offset + imageChunkBytes) < length stream - offset"
        using True by (simp add: imageChunkBytes_def)
      show "offset + imageChunkBytes \<le> length stream" using downloadChunk_sent [OF chunk] ..
    qed
    moreover have "take n xs @ drop (offset + n) stream = xs" if "xs = drop offset stream" for n xs
      using that append_take_drop_id [of n xs] by (simp add: add.commute)
    ultimately show ?thesis using downloadChunk_sent [OF chunk] by simp
  qed
qed

lemma download_sent:
  "triple (\<lambda>l. sent (world l) = S) (download env ctx stream)
     (\<lambda>_ l. sent (world l) = S @ stream) (\<lambda>_ _. True)"
proof -
  have loop: "triple (\<lambda>l. sent (world l) = S) (downloadLoop env ctx stream 0)
      (\<lambda>_ l. sent (world l) = S @ stream) (\<lambda>_ _. True)"
    by (rule tripleI) (auto dest: downloadLoop_sent)
  show ?thesis
    unfolding download_def Let_def blockE.simps
    by (rule value_prefix value_finally value_suffix [OF loop]
        | intro keeps_rules world_sent gpio_sent)+
qed

text \<open>A boot that succeeds has sent exactly the image and marks the link booted.\<close>

lemma BootContext_sent:
  "triple (\<lambda>l. sent (world l) = S) (BootContext env ctx img)
     (\<lambda>_ l. sent (world l) = S @ Stream img) (\<lambda>_ _. True)"
proof -
  have flag: "keeps (\<lambda>l. sent (world l) = S') (updS (\<lambda>l. l\<lparr>booted := True\<rparr>))" for S'
    by (rule keeps_updS) simp
  show ?thesis
    unfolding BootContext_def blockE.simps
    by (rule value_suffix [OF download_sent] value_prefix
        | intro keeps_rules world_sent configure_sent prepare_sent reset_sent pulseReset_sent flag)+
qed

lemma BootContext_value:
  assumes "BootContext env ctx img l = (Inr x, l')"
  shows "booted l' \<and> Stream img \<noteq> []"
  using assms unfolding BootContext_def blockE.simps by (elim act_elims) auto

subsubsection \<open>The transfer line\<close>

abbreviation low :: "'w link \<Rightarrow> bool" where
  "low l \<equiv> \<not> level (world l) (Active (pins env))"

text \<open>
  The transfer line is low after every receive and every command, provided that lowering it
  does not fail and it is not also the strobe line.
\<close>

lemma lower_triple:
  assumes "lowers_active env"
  shows "triple (\<lambda>_. True) (on_world (GpioWrite (gpio env) (Active (pins env)) False))
    (\<lambda>_. low) (\<lambda>_ _. False)"
proof -
  have "triple (\<lambda>_. True) (GpioWrite (gpio env) (Active (pins env)) False)
      (\<lambda>_ w. \<not> level w (Active (pins env))) (\<lambda>_ _. False)"
    using assms unfolding lowers_active_def
    by (intro tripleI) (metis Pair_inject sum.distinct(1), metis fun_upd_same old.unit.exhaust write_value)
  from triple_on_world [OF this] show ?thesis by simp
qed


lemma transfer_low: "keeps low (on_world (Transfer (spi env) tx rx s d))"
  by (rule keeps_on_world [OF transfer_level])

lemma read_low: "keeps low (on_world (GpioRead (gpio env) p))"
  by (rule keeps_on_world [OF read_level])

lemma serial_low: "keeps low (transferSerial env bs rd)"
  by (induction bs) (simp_all only: transferSerial.simps, (intro keeps_rules transfer_low | assumption)+)

lemma waitReady_low: "keeps low (waitReady env)"
proof -
  have "keeps low (waitReadyLoop env fuel deadline)" for fuel deadline
    by (induction fuel) (simp_all, (intro keeps_rules read_low doSleep_level | assumption)+)
  then show ?thesis unfolding waitReady_def by (intro keeps_rules)
qed

lemma finishTransfer_low:
  assumes "lowers_active env"
  shows "triple (\<lambda>_. True) (finishTransfer env c) (\<lambda>_. low) (\<lambda>_. low)"
proof -
  have sl: "triple (\<lambda>_. True) (doSleep env d) (\<lambda>_ _. True) (\<lambda>_. low)" for d
    by (rule tripleI) (auto simp: doSleep_def on_world_def act_simps)
  show ?thesis
    unfolding finishTransfer_def
  proof (rule triple_seqE [OF sl], rule triple_tryE [where R = "\<lambda>_. low"])
    show "triple (\<lambda>_. True) (on_world (GpioWrite (gpio env) (Active (pins env)) False))
        (\<lambda>x. low) (\<lambda>e. low)"
      by (rule triple_conseq [OF lower_triple [OF assms]]) simp_all
  qed (intro keeps_rules)
qed

lemma abortTransfer_low:
  assumes "lowers_active env"
  shows "triple (\<lambda>_. True) (abortTransfer env err) (\<lambda>_. low) (\<lambda>_. low)"
  unfolding abortTransfer_def
  by (rule triple_seqE [OF finishTransfer_low [OF assms]]) (intro keeps_rules)

lemma bookkeeping_low:
  "keeps low (count f)" "keeps low (stashFrame fr)" "keeps low (complete m err)"
  "keeps low (requeue m)" "keeps low dequeue" "keeps low takePendingFrame"
  by (rule keeps_bookkeeping)+


lemma abort_keeps_low: "lowers_active env \<Longrightarrow> keeps low (abortTransfer env err)"
  by (rule triple_conseq [OF abortTransfer_low]) simp_all

lemma lower_keeps_low:
  "lowers_active env \<Longrightarrow> triple (\<lambda>_. True)
     (on_world (GpioWrite (gpio env) (Active (pins env)) False)) (\<lambda>_. low) (\<lambda>_. low)"
  by (rule triple_conseq [OF lower_triple]) simp_all

lemma raise_low:
  "triple low (wrapE msg (on_world (GpioWrite (gpio env) (Active (pins env)) True)))
     (\<lambda>_ _. True) (\<lambda>_. low)"
proof (rule triple_wrapE, rule triple_conseq [OF triple_on_world])
  show "triple (\<lambda>w. \<not> level w (Active (pins env))) (GpioWrite (gpio env) (Active (pins env)) True)
      (\<lambda>_ _. True) (\<lambda>_ w. \<not> level w (Active (pins env)))"
    by (rule tripleI) (simp_all add: write_error)
qed simp_all

lemma strobe_low:
  assumes "Strobe (pins env) \<noteq> Active (pins env)"
  shows "triple low (strobe env) (\<lambda>_ _. True) (\<lambda>_. low)"
proof -
  have w: "keeps low (wrapE msg (on_world (GpioWrite (gpio env) (Strobe (pins env)) h)))" for msg h
    by (intro keeps_rules keeps_on_world triple_conseq [OF triple_on_world [OF write_other [where b = False]]])
       (use assms in auto)
  show ?thesis
    unfolding strobe_def Let_def blockE.simps
    by (rule triple_seqE [OF w] triple_seqE [OF raise_low] triple_seqE [OF doSleep_level]
          triple_skip [OF never_fails(1)] triple_ret TrueI)+
qed

lemma receive_low:
  assumes "lowers_active env" and "Strobe (pins env) \<noteq> Active (pins env)"
  shows "keeps low (receive env)"
  unfolding receive_def
  by (rule triple_seqE [OF strobe_low [OF assms(2)]] triple_tryE [OF triple_any]
        triple_case_sum triple_case_prod abortTransfer_low [OF assms(1)]
        triple_seqE [OF finishTransfer_low [OF assms(1)]] triple_skip [OF never_fails(2)]
      | intro keeps_rules bookkeeping_low)+

lemma awaitResponse_low:
  assumes "lowers_active env" and "Strobe (pins env) \<noteq> Active (pins env)"
  shows "keeps low (awaitResponse env i c unrelated failures)"
proof (induction "(Suc maxUnrelatedFrames - unrelated) + (maxReceiveRetries - failures)"
    arbitrary: unrelated failures rule: less_induct)
  case less
  show ?case
    by (subst awaitResponse.simps)
       (intro keeps_rules receive_low assms bookkeeping_low doSleep_level waitReady_low less.hyps; simp)
qed

lemma transmitOnce_low:
  assumes "lowers_active env" and "Strobe (pins env) \<noteq> Active (pins env)"
  shows "keeps low (transmitOnce env message)"
  unfolding transmitOnce_def
  by (rule triple_seqE [OF raise_low] keeps_tryE [OF waitReady_low] triple_tryE [OF triple_any]
        triple_tryE [OF lower_keeps_low [OF assms(1)]]
        triple_case_sum abortTransfer_low [OF assms(1)] triple_skip [OF never_fails(1)]
      | intro keeps_rules bookkeeping_low waitReady_low abort_keeps_low awaitResponse_low assms)+

text \<open>
  Unless the line could not even be made an output, an iteration of the message loop ends
  with the transfer line low.
\<close>

lemma Poll_low:
  assumes "lowers_active env" and "Strobe (pins env) \<noteq> Active (pins env)"
    and "Poll env l = (Inr (received, active, err), l')"
    and "\<And>e. err \<noteq> Some (Wrapf ''configure transfer line'' e)"
  shows "low l'"
proof -
  define bad where "bad r \<longleftrightarrow> (\<exists>e. snd (snd r) = Some (Wrapf ''configure transfer line'' e))"
    for r :: "frame option \<times> bool \<times> go_error option"
  have fin: "triple low m (\<lambda>r l. bad r \<or> low l) (\<lambda>_ _. True)" if "keeps low m" for m
    by (rule triple_conseq [OF that]) simp_all
  have lowered: "triple (\<lambda>_. True) (on_world (GpioWrite (gpio env) (Active (pins env)) False))
      (\<lambda>x. case_sum (\<lambda>_ _. False) (\<lambda>_. low) (Inr x))
      (\<lambda>e. case_sum (\<lambda>_ _. False) (\<lambda>_. low) (Inl e :: go_error + unit))"
    using lower_triple [OF assms(1)] by simp
  have "triple (\<lambda>_. True) (Poll env) (\<lambda>r l. bad r \<or> low l) (\<lambda>_ _. True)"
    unfolding Poll_def Let_def
    apply (rule triple_tryE [OF triple_any])
    apply (rule triple_case_sum)
     apply (simp add: triple_ret bad_def)
    apply (rule triple_tryE [OF lowered])
    apply (rule triple_case_sum)
     apply (simp add: triple_def)
    apply (simp only: sum.case)
    apply (rule fin)
    apply (intro keeps_rules bookkeeping_low read_low transmitOnce_low receive_low assms)
    done
  from tripleD_value [OF this _ assms(3)] assms(4) show ?thesis by (simp add: bad_def)
qed


subsubsection \<open>Waiting ends\<close>

text \<open>
  A wait is cut off only when the fuel is spent; every poll that does not end it sleeps for
  one interval, so the deadline is reached with fuel left.
\<close>

lemma safe_on_world: "safe m \<Longrightarrow> safe (on_world m)"
  by (simp add: safe_def on_world_def split_beta)

lemma safe_doSleep: "safe (doSleep env d)"
  by (simp add: doSleep_def safe_on_world safe_updS)

lemma safe_bookkeeping: "safe (count f)" "safe (stashFrame fr)" "safe (complete m e)"
  "safe (requeue m)" "safe dequeue" "safe takePendingFrame"
  by (auto simp: safe_def count_def stashFrame_def complete_def requeue_def dequeue_def
        takePendingFrame_def act_simps split: option.split list.split)

lemma read_advances:
  "on_world (GpioRead (gpio env) p) l = (r, u) \<Longrightarrow> now env (world l) \<le> now env (world u)"
  using read_clock [of "world l" p] by (auto simp: on_world_def split: prod.splits)

lemma sleep_advances: "doSleep env d l = (r, u) \<Longrightarrow> now env (world l) + d \<le> now env (world u)"
  using sleep_clock [of "world l" d] by (simp add: doSleep_def on_world_def act_simps) auto

text \<open>One poll either settles the wait, or the deadline has not passed and an interval has.\<close>

lemma waitReadyLoop_error:
  assumes "safe (GpioRead (gpio env) (Ready (pins env)))"
    and "waitReadyLoop env (Suc fuel) deadline l = (Inl e, l')"
  obtains "\<not> crash e"
  | u where "now env (world l) < deadline" "now env (world l) + readyPollInterval \<le> now env (world u)"
      "waitReadyLoop env fuel deadline u = (Inl e, l')"
proof -
  obtain r u where read: "on_world (GpioRead (gpio env) (Ready (pins env))) l = (r, u)"
    by fastforce
  obtain v where slept: "doSleep env readyPollInterval u = (Inr (), v)"
    by (simp add: doSleep_def on_world_def act_simps)
  show thesis
  proof (cases r)
    case (Inl e')
    then show thesis
      using assms(2) read safeD [OF safe_on_world [OF assms(1)]] that(1) by (auto simp: act_simps)
  next
    case (Inr ready)
    with assms(2) read slept have "\<not> crash e \<or>
        now env (world u) < deadline \<and> waitReadyLoop env fuel deadline v = (Inl e, l')"
      by (auto simp: act_simps split: if_splits)
    then show thesis
      using that(1) that(2) [of v] read_advances [OF read] sleep_advances [OF slept] by linarith
  qed
qed

lemma waitReadyLoop_safe:
  assumes rd: "safe (GpioRead (gpio env) (Ready (pins env)))"
    and "deadline \<le> now env (world l) + readyPollInterval * fuel"
    and "waitReadyLoop env (Suc fuel) deadline l = (Inl e, l')"
  shows "\<not> crash e"
  using assms(2,3)
proof (induction fuel arbitrary: l)
  case (0 l)
  then show ?case by (auto simp del: waitReadyLoop.simps elim: waitReadyLoop_error [OF rd])
next
  case (Suc fuel l)
  from Suc.prems(2) show ?case
  proof (rule waitReadyLoop_error [OF rd])
    fix u assume "now env (world l) + readyPollInterval \<le> now env (world u)"
      and run: "waitReadyLoop env (Suc fuel) deadline u = (Inl e, l')"
    with Suc.prems(1) have "deadline \<le> now env (world u) + readyPollInterval * fuel" by simp
    from Suc.IH [OF this run] show ?thesis .
  qed
qed

lemma waitReady_safe:
  assumes "safe (GpioRead (gpio env) (Ready (pins env)))"
  shows "safe (waitReady env)"
proof (rule safeI)
  fix l
  have "readyTimeout env \<le> readyPollInterval * (readyTimeout env div readyPollInterval + 1)"
    using dividend_less_div_times [of readyPollInterval "readyTimeout env"]
    by (simp add: readyPollInterval_def)
  moreover have "readyFuel env = Suc (readyTimeout env div readyPollInterval + 1)"
    by (simp add: readyFuel_def)
  ultimately have "\<not> crash e" if "waitReady env l = (Inl e, l')" for e l'
    using that waitReadyLoop_safe [OF assms, of "now env (world l) + readyTimeout env" l
        "readyTimeout env div readyPollInterval + 1"]
    unfolding waitReady_def by (auto simp del: waitReadyLoop.simps elim!: act_elims)
  then show "safe_res (fst (waitReady env l))"
    by (cases "waitReady env l"; cases "fst (waitReady env l)") auto
qed

text \<open>
  With ordinary device errors, no step of an iteration panics or is cut off, as long as the
  frame to send has its six header and code bytes.
\<close>

lemma devices_safe:
  assumes "proper_devices env"
  shows "safe (on_world (Configure (spi env) m b s))" "safe (on_world (Transfer (spi env) tx rx s' d))"
    "safe (on_world (Export (gpio env) p))" "safe (on_world (Direction (gpio env) p h))"
    "safe (on_world (GpioWrite (gpio env) p h))" "safe (on_world (GpioRead (gpio env) p))"
    "safe (on_world (UpdateRegister (i2c env) a r f))" "safe (waitReady env)"
  using assms by (auto simp: proper_devices_def intro!: safe_on_world waitReady_safe)

lemma serial_safe:
  assumes "proper_devices env"
  shows "safe (transferSerial env bs rd)"
  by (induction bs)
     (simp_all only: transferSerial.simps, (intro safe_rules devices_safe assms | assumption)+)

lemma finish_safe:
  assumes "proper_devices env"
  shows "(\<And>e. c = Some e \<Longrightarrow> \<not> crash e) \<Longrightarrow> safe (finishTransfer env c)"
    "\<not> crash err \<Longrightarrow> safe (abortTransfer env err)"
proof -
  show f: "safe (finishTransfer env c)" if "\<And>e. c = Some e \<Longrightarrow> \<not> crash e" for c
    unfolding finishTransfer_def using that
    by (intro safe_rules safe_doSleep devices_safe assms) auto
  show "safe (abortTransfer env err)" if "\<not> crash err"
    unfolding abortTransfer_def using that by (intro safe_rules f) auto
qed


lemma decode_safe: "safe_res (decodeDeviceFrame header rd)" "safe_res (parseDeviceHeader header)"
  by (auto simp: decodeDeviceFrame_def parseDeviceHeader_def Let_def split: sum.split)

lemma decode_error: "decodeDeviceFrame header rd = Inl e \<Longrightarrow> \<not> crash e"
  using decode_safe(1) [of header rd] by simp

lemma syncLoop_safe:
  assumes "proper_devices env"
  shows "safe (syncLoop env shift header)"
proof (induction "Suc maxHeaderShifts - shift" arbitrary: shift header rule: less_induct)
  case less
  show ?case
    by (subst syncLoop.simps)
       (intro safe_rules serial_safe safe_bookkeeping assms less.hyps; simp)
qed

lemma receive_safe:
  assumes "proper_devices env"
  shows "safe (receive env)"
  unfolding receive_def strobe_def readSynchronizedHeader_def Let_def blockE.simps
  by (intro safe_rules safe_doSleep devices_safe assms safe_bookkeeping serial_safe syncLoop_safe
        finish_safe) (auto simp: decode_error)

lemma awaitResponse_safe:
  assumes "proper_devices env"
  shows "safe (awaitResponse env i c unrelated failures)"
proof (induction "(Suc maxUnrelatedFrames - unrelated) + (maxReceiveRetries - failures)"
    arbitrary: unrelated failures rule: less_induct)
  case less
  show ?case
    by (subst awaitResponse.simps)
       (intro safe_rules receive_safe assms safe_bookkeeping safe_doSleep devices_safe less.hyps; simp)
qed

lemma transmitOnce_safe:
  assumes "proper_devices env" and "6 \<le> length message"
  shows "safe (transmitOnce env message)"
  unfolding transmitOnce_def
  using assms(2)
  by (intro safe_rules safe_doSleep devices_safe assms(1) safe_bookkeeping serial_safe
        finish_safe awaitResponse_safe) auto


lemma Poll_safe:
  assumes dev: "proper_devices env" and frames: "\<forall>m \<in> set (queue l). 6 \<le> length (q_frame m)"
    and run: "Poll env l = (Inr (received, active, Some e), l')"
  shows "\<not> crash e"
proof -
  define ok where "ok r \<longleftrightarrow> (\<forall>e. snd (snd r) = Some e \<longrightarrow> \<not> crash e)"
    for r :: "frame option \<times> bool \<times> go_error option"
  let ?F = "\<lambda>c. \<forall>m \<in> set (fst c). 6 \<le> length (q_frame m)"
  let ?I = "\<lambda>l :: 'w link. ?F (core l)"
  have stay: "triple P (ret r) (\<lambda>r _. ok r) E" if "ok r" for r P E
    using that by (simp add: triple_ret)
  have after: "triple (\<lambda>_. True) (seqE m (ret r)) (\<lambda>r _. ok r) (\<lambda>_ _. True)"
    if "ok r" for m :: "('w link, unit) act" and r
    by (rule triple_seqE [OF triple_any stay [OF that]])
  have take: "triple ?I takePendingFrame (\<lambda>_. ?I) (\<lambda>_ _. True)"
    by (rule tripleI) (auto simp: takePendingFrame_def core_def split: list.splits)
  have deq: "triple ?I dequeue (\<lambda>x _. case x of None \<Rightarrow> True | Some m \<Rightarrow> 6 \<le> length (q_frame m))
      (\<lambda>_ _. True)"
    by (rule tripleI) (auto simp: dequeue_def core_def split: list.splits)
  have any: "keeps (\<lambda>_. True) m" for m :: "('w link, 'x) act" by (rule triple_any)
  have send: "triple (\<lambda>_. True) (tryE (transmitOnce env (q_frame m)) (\<lambda>r. case r of
       Inl err \<Rightarrow> seqE (complete m (Some err)) (ret (None, True, Some err))
     | Inr received \<Rightarrow> seqE (complete m None) (ret (Some received, True, None))))
     (\<lambda>r _. ok r) (\<lambda>_ _. True)" if "6 \<le> length (q_frame m)" for m
    by (rule kept_safe_tryE [OF any transmitOnce_safe [OF dev that]], rule triple_case_sum;
        rule after; simp add: ok_def)
  have "triple ?I (Poll env) (\<lambda>r _. ok r) (\<lambda>_ _. True)"
    unfolding Poll_def Let_def
    apply (rule kept_safe_tryE [OF core_world [where P = ?F] devices_safe(4) [OF dev]])
    apply (rule triple_case_sum, rule stay, simp add: ok_def)
    apply (rule kept_safe_tryE [OF core_world [where P = ?F] devices_safe(5) [OF dev]])
    apply (rule triple_case_sum, rule stay, simp add: ok_def)
    apply (rule triple_bindE [OF take])
    apply (rule triple_case_option [rotated], rule stay, simp add: ok_def)
    apply (rule triple_bindE [OF deq])
    apply (rule triple_pure)
    apply (rule triple_case_option)
     apply (rule kept_safe_tryE [OF any devices_safe(6) [OF dev]])
     apply (rule triple_case_sum, rule stay, simp add: ok_def)
     apply (rule triple_if, rule stay, simp add: ok_def)
     apply (rule kept_safe_tryE [OF any receive_safe [OF dev]])
     apply (rule triple_case_sum; rule stay; simp add: ok_def)
    apply (rule kept_readS)
    apply (rule triple_case_option [rotated], rule after, simp add: ok_def)
    apply (rule kept_safe_tryE [OF any devices_safe(6) [OF dev]])
    apply (rule triple_case_sum, rule after, simp add: ok_def)
    apply (rule triple_if, rule after, simp add: ok_def)
    apply (rule send, simp)
    done
  from tripleD_value [OF this _ run] frames show ?thesis by (simp add: ok_def core_def)
qed

text \<open>
  A download slices its stream out of range only when the stream is not a whole number of
  transfers.
\<close>

lemma download_safe:
  assumes "proper_devices env" and "imageChunkBytes dvd length stream"
  shows "safe (download env ctx stream)"
proof -
  have chunk: "safe (downloadChunk env ctx stream offset)"
    if "offset + imageChunkBytes \<le> length stream" for offset
  proof -
    have ctx: "safe (bindE (readS (\<lambda>l. ctx_err env ctx (world l)))
        (\<lambda>e. case e of Some err \<Rightarrow> fail err | None \<Rightarrow> ret ()))"
      using assms(1) by (intro safe_bind_readS safe_rules) (auto simp: proper_devices_def)
    show ?thesis
      unfolding downloadChunk_def blockE.simps using that
      by (intro ctx safe_rules devices_safe safe_bookkeeping safe_doSleep assms(1)) simp
  qed
  have loop: "safe (downloadLoop env ctx stream offset)" if "imageChunkBytes dvd offset" for offset
    using that
  proof (induction "length stream - offset" arbitrary: offset rule: less_induct)
    case less
    show ?case
    proof (subst downloadLoop.simps, intro safe_rules chunk less.hyps)
      assume "offset < length stream"
      then show "offset + imageChunkBytes \<le> length stream"
        using less.prems assms(2) by (auto elim!: dvdE simp: imageChunkBytes_def)
      show "length stream - (offset + imageChunkBytes) < length stream - offset"
        using \<open>offset < length stream\<close> by (simp add: imageChunkBytes_def)
      show "imageChunkBytes dvd offset + imageChunkBytes" using less.prems by simp
    qed
  qed
  show ?thesis
    unfolding download_def Let_def blockE.simps
    by (intro safe_rules devices_safe assms(1) loop) simp
qed

lemma BootContext_safe:
  assumes "proper_devices env" and "imageChunkBytes dvd length (Stream img)"
  shows "safe (BootContext env ctx img)"
  unfolding BootContext_def prepareDownloadLines_def configureResetOutput_def pulseReset_def
    setReset_def prepareHandshake_def Let_def blockE.simps
  by (intro safe_rules devices_safe download_safe assms safe_doSleep) auto

end

subsection \<open>The memory backend\<close>

text \<open>
  The dry run of the service: the three memory devices with the default pins, a sleep that
  advances the clock, a ready timeout of half a second and no cancelled request.
\<close>

definition mem_env :: "memory_world dsp_env" where
  "mem_env = \<lparr>spi = mem_spiBus, gpio = mem_gpioLines, i2c = mem_i2cBus, pins = defaultPinout,
     sleep = (\<lambda>d w. w\<lparr>w_clock := w_clock w + d\<rparr>), now = w_clock, ctx_err = (\<lambda>_ _. None),
     readyTimeout = 500 * 1000000\<rparr>"

interpretation mem_link: dsp_hardware mem_env mem_level mem_regs mem_sent
proof unfold_locales
  fix a r f w w' e p h d q n tx rx s dl m b
  show "UpdateRegister (i2c mem_env) a r f w = (Inr (), w') \<Longrightarrow>
      mem_regs w' = (mem_regs w)((a, r) := f (mem_regs w (a, r)))"
    using mem_i2c.update_value by (simp add: mem_env_def)
  show "UpdateRegister (i2c mem_env) a r f w = (Inl e, w') \<Longrightarrow> mem_regs w' = mem_regs w"
    using mem_i2c.update_error by (simp add: mem_env_def)
  show "Transfer (spi mem_env) tx rx s dl w = (Inr got, w') \<Longrightarrow> mem_sent w' = mem_sent w @ tx" for got
    using mem_spi.transfer_sent by (simp add: mem_env_def)
qed (auto simp: mem_env_def mem_defs act_simps memSPI_Transfer_def same_def Let_def fun_eq_iff
    split: prod.splits)

lemma mem_proper: "proper_devices mem_env" "lowers_active mem_env"
  by (auto simp: proper_devices_def lowers_active_def mem_env_def mem_defs safe_def act_simps
      memSPI_Transfer_def Let_def split: prod.splits sum.splits)

text \<open>
  A memory backend whose GPIO directions cannot be set, and a scripted backend on which every
  operation succeeds, the lines read low and the SPI bus returns the given bytes.
\<close>

definition dead_env :: "memory_world dsp_env" where
  "dead_env = mem_env\<lparr>gpio := mem_gpioLines\<lparr>Direction := \<lambda>_ _. fail (Errorf ''no such line'')\<rparr>\<rparr>"

lemma dead_hardware: "dsp_hardware dead_env mem_level mem_regs mem_sent" "proper_devices dead_env"
proof -
  have r: "register_bus (UpdateRegister (i2c dead_env)) mem_regs"
    and s: "spi_sender (Transfer (spi dead_env)) mem_sent"
    using mem_i2c.register_bus_axioms mem_spi.spi_sender_axioms
    by (simp_all add: dead_env_def mem_env_def)
  have g: "gpio_lines (gpio dead_env) mem_level"
    by unfold_locales (auto simp: dead_env_def mem_env_def mem_defs act_simps same_def Let_def fun_eq_iff)
  show "dsp_hardware dead_env mem_level mem_regs mem_sent"
    using r s g unfolding dsp_hardware_def dsp_hardware_axioms_def
    by (auto simp: dead_env_def mem_env_def mem_defs act_simps memSPI_Transfer_def same_def Let_def
        fun_eq_iff split: prod.splits)
  show "proper_devices dead_env"
    using mem_proper(1) by (simp add: proper_devices_def dead_env_def mem_env_def safe_fail)
qed

definition script_env :: "byte list dsp_env" where
  "script_env =
     \<lparr>spi = \<lparr>Configure = (\<lambda>_ _ _. ret ()), Transfer = (\<lambda>_ rx _ _ w. (Inr (take rx w), drop rx w)),
             SpiClose = ret ()\<rparr>,
      gpio = \<lparr>Export = (\<lambda>_. ret ()), Unexport = (\<lambda>_. ret ()), Direction = (\<lambda>_ _. ret ()),
              GpioWrite = (\<lambda>_ _. ret ()), GpioRead = (\<lambda>_. ret False)\<rparr>,
      i2c = \<lparr>ReadRegister = (\<lambda>_ _. ret 0), WriteRegister = (\<lambda>_ _ _. ret ()),
             UpdateRegister = (\<lambda>_ _ _. ret ()), I2cClose = ret ()\<rparr>,
      pins = defaultPinout, sleep = (\<lambda>_ w. w), now = (\<lambda>_. 0), ctx_err = (\<lambda>_ _. None),
      readyTimeout = 0\<rparr>"

lemma two_zeros: "replicate 2 (0 :: byte) = [0, 0]"
  by (simp add: numeral_eq_Suc)

lemma script_ops:
  "Transfer (spi script_env) tx rx s d w = (Inr (take rx w), drop rx w)"
  "GpioWrite (gpio script_env) p h = ret ()" "GpioRead (gpio script_env) p = ret False"
  "sleep script_env n w = w" "now script_env w = 0" "readyTimeout script_env = 0"
  "readyFuel script_env = Suc (Suc 0)"
  by (simp_all add: script_env_def readyFuel_def)

lemma script_transmits:
  "transmitOnce script_env [0, 0, 0, 1, 5, 4, 0, 0] (newLink [0, 0, 0, 1, 5, 4, 0, 0]) =
     (Inr \<lparr>ID = 0, Payload = [4]\<rparr>,
      (newLink [])\<lparr>stats := newStats\<lparr>FramesSent := 1, FramesReceived := 1\<rparr>\<rparr>)"
proof -
  have zeros: "replicate (5 :: nat) (0 :: byte) = [0, 0, 0, 0, 0]" "replicate (3 :: nat) (0 :: byte) = [0, 0, 0]"
    by (simp_all add: numeral_eq_Suc)
  show ?thesis
    by (simp add: transmitOnce_def doSleep_def count_def on_world_def finishTransfer_def strobe_def
        waitReady_def readSynchronizedHeader_def receive_def act_simps script_ops maxUnrelatedFrames_def
        newLink_def newStats_def zeros Let_def be16_def
        awaitResponse.simps [where unrelated = 0 and failures = 0] syncLoop.simps [where shift = 0]
        parseDeviceHeader_def be_nat_def decodeDeviceFrame_def devicePayloadRead_def messageIDTest_def
        maxDevicePayload_def byte_sum_def frameLength_def Code_def cong: run_cong)
qed

text \<open>The memory backend never fails, so it boots any image of whole transfers.\<close>

lemma mem_nofail:
  "nofail (on_world (Configure (spi mem_env) m b s))" "nofail (on_world (Export (gpio mem_env) p))"
  "nofail (on_world (Direction (gpio mem_env) p h))" "nofail (on_world (GpioWrite (gpio mem_env) p h))"
  "nofail (on_world (GpioRead (gpio mem_env) p))" "nofail (on_world (UpdateRegister (i2c mem_env) a r f))"
  "nofail (on_world (Transfer (spi mem_env) tx 0 s' d))" "nofail (doSleep env d')" "nofail (count g)"
  by (auto simp: nofail_def mem_env_def mem_defs act_simps memSPI_Transfer_def on_world_def Let_def
      doSleep_def count_def split: prod.splits)

definition one_chunk :: bootImage where
  "one_chunk = \<lparr>Stream = [1, 128, 240, 85], SourceSHA256 = ''d'', StreamSHA256 = ''d''\<rparr>"

lemma memory_boots: "nofail (BootContext mem_env ctx one_chunk)"
proof -
  have ctx: "nofail (bindE (readS (\<lambda>l. ctx_err mem_env ctx (world l)))
      (\<lambda>e. case e of Some err \<Rightarrow> fail err | None \<Rightarrow> ret ()))"
    by (simp add: nofail_def act_simps mem_env_def)
  have loop: "nofail (downloadLoop mem_env ctx [1, 128, 240, 85] 0)"
    unfolding downloadLoop.simps [where offset = 0] downloadLoop.simps [where offset = "0 + imageChunkBytes"]
      downloadChunk_def blockE.simps
    by (auto simp: imageChunkBytes_def speedRestoreOffset_def intro!: nofail_rules mem_nofail ctx)
  show ?thesis
    unfolding BootContext_def prepareDownloadLines_def configureResetOutput_def pulseReset_def
      setReset_def prepareHandshake_def Let_def blockE.simps download_def one_chunk_def
      bootImage.select_convs
    by (intro nofail_rules mem_nofail loop) simp
qed

lemma memory_pulses: "nofail (pulseReset mem_env)"
  unfolding pulseReset_def setReset_def blockE.simps by (intro nofail_rules mem_nofail)

subsection \<open>Properties\<close>

text \<open>(C14) Over every history of booting, enqueueing and polling, with any device behaviour in
  between, the completion channels are answered in the order they were handed out, each at most
  once, and every channel not answered yet belongs to a message still queued. A queued frame
  has at least eight bytes, and nothing is queued before a boot.\<close>

theorem completions_in_order_exactly_once:
  assumes "link_run env l"
  shows "map fst (completed l) @ tracked (queue l) = [0..<next_completion l]
    \<and> (\<forall>m \<in> set (queue l). 8 \<le> length (q_frame m)) \<and> (queue l \<noteq> [] \<longrightarrow> booted l)"
  using link_run_inv [OF assms] by (simp add: link_inv_def)

theorem completions_in_order_exactly_once_witness:
  "map fst (completed (newLink new_memory_world)) @ tracked (queue (newLink new_memory_world))
     = [0..<next_completion (newLink new_memory_world)]"
  using completions_in_order_exactly_once [OF run_new [of mem_env new_memory_world]] by blast


text \<open>(C19) No wait of the message loop is endless and no frame index is out of range: in every
  history of the link, an error that an iteration reports is neither a panic nor a loop cut
  off, provided that sleeping advances the clock and the devices report ordinary errors.\<close>

theorem Poll_never_hangs_or_panics:
  assumes "dsp_hardware env level regs sent" and "proper_devices env" and "link_run env l"
    and "Poll env l = (Inr (received, active, Some e), l')"
  shows "\<not> crash e"
proof (rule dsp_hardware.Poll_safe [OF assms(1,2) _ assms(4)])
  show "\<forall>m \<in> set (queue l). 6 \<le> length (q_frame m)"
    using link_run_inv [OF assms(3)] by (auto simp: link_inv_def)
qed

theorem Poll_never_hangs_or_panics_witness:
  "\<exists>e l'. Poll dead_env (newLink new_memory_world) = (Inr (None, False, Some e), l') \<and> \<not> crash e"
proof -
  obtain e l' where r: "Poll dead_env (newLink new_memory_world) = (Inr (None, False, Some e), l')"
    by (simp add: Poll_def dead_env_def mem_env_def Let_def tryE_def on_world_def fail_def ret_def)
  with Poll_never_hangs_or_panics [OF dead_hardware run_new r] show ?thesis by blast
qed



text \<open>(C25) A command is answered by its own response: the frame that a transmission of a built
  message returns has the message's id and its first payload byte, a known id and at most 64
  payload bytes; frames that arrived before it are put aside in order, at most eight of them.\<close>

theorem command_gets_its_response:
  assumes "buildFrame mid (c # args) = Inr message" and "transmitOnce env message l = (Inr f, l')"
  shows "ID f = mid \<and> Code f = Some c \<and> mid \<le> 2 \<and> length (Payload f) \<le> 64 \<and>
    (\<exists>extra. pending l' = pending l @ extra \<and> length extra \<le> 8)"
proof -
  have a: "answers (pending l) message f l'"
    using tripleD_value [OF transmitOnce_value _ assms(2), of "pending l"] by (simp add: calm_def)
  have "message ! 0 = hi_byte mid" "message ! 1 = lo_byte mid" "message ! 5 = c"
    using assms(1) by (auto simp: buildFrame_def Let_def split: if_splits)
  with a show ?thesis
    by (auto simp: answers_def matches_def good_frame_def maxDevicePayload_def maxUnrelatedFrames_def
        messageIDTest_def)
qed

theorem command_gets_its_response_witness:
  "ID \<lparr>ID = 0, Payload = [4]\<rparr> = (0 :: u16) \<and> Code \<lparr>ID = 0, Payload = [4]\<rparr> = Some 4"
proof -
  have b: "buildFrame 0 [4] = Inr [0, 0, 0, 1, 5, 4, 0, 0]"
    by (simp add: buildFrame_def maxPayloadBytes_def hi_byte_def lo_byte_def checksum_def
        byte_sum_def frameLength_def two_zeros)
  show ?thesis using command_gets_its_response [OF b script_transmits] by blast
qed

text \<open>(C26) The reset pulse changes nothing but the reset bit: every other register of the bus
  and the other seven bits of the expander's output register are as before, even when the
  pulse fails halfway; and a pulse that succeeds leaves the reset bit set.\<close>

theorem pulseReset_changes_only_the_reset_bit:
  assumes "dsp_hardware env level regs sent" and "pulseReset env l = (r, l')"
  shows "(\<forall>k. k \<noteq> (expanderAddress, expanderOutput) \<longrightarrow> regs (world l') k = regs (world l) k)
    \<and> regs (world l') (expanderAddress, expanderOutput) AND 0xfe =
       regs (world l) (expanderAddress, expanderOutput) AND 0xfe
    \<and> (r = Inr () \<longrightarrow> bit (regs (world l') (expanderAddress, expanderOutput)) 0)"
proof -
  let ?x = "(expanderAddress, expanderOutput)"
  note keep = dsp_hardware.pulseReset_keeps [OF assms(1)]
  have reset_bit: "\<not> bit (0xfe :: byte) 0" by simp
  have m: "(v OR dspResetMask) AND 0xfe = v AND 0xfe" "(v AND NOT dspResetMask) AND 0xfe = v AND 0xfe"
    for v :: byte
    using reset_bit by (rule_tac [!] bit_word_eqI) (auto simp: bit_simps dspResetMask_def intro!: gr0I)
  have "regs (world l') k = regs (world l) k" if "k \<noteq> ?x" for k
    using keepsD [OF keep [of "\<lambda>R. R k = regs (world l) k"], of l] that assms(2) by simp
  moreover have "regs (world l') ?x AND 0xfe = regs (world l) ?x AND 0xfe"
    using keepsD [OF keep [of "\<lambda>R. R ?x AND 0xfe = regs (world l) ?x AND 0xfe"], of l] assms(2)
    by (simp add: m)
  moreover have "r = Inr () \<longrightarrow> bit (regs (world l') ?x) 0"
    using tripleD_value [OF dsp_hardware.pulseReset_value [OF assms(1)], of l] assms(2) by auto
  ultimately show ?thesis by blast
qed

theorem pulseReset_changes_only_the_reset_bit_witness:
  "\<exists>l'. pulseReset mem_env (newLink new_memory_world) = (Inr (), l') \<and>
     bit (mem_regs (world l') (expanderAddress, expanderOutput)) 0"
proof -
  obtain x l' where r: "pulseReset mem_env (newLink new_memory_world) = (Inr x, l')"
    using nofailD [OF memory_pulses] by blast
  with pulseReset_changes_only_the_reset_bit [OF mem_link.dsp_hardware_axioms r] show ?thesis by simp
qed

text \<open>(C28) A boot that succeeds has sent exactly the image: the bytes on the SPI bus are those
  sent before followed by the image's stream, and the link accepts messages from then on.\<close>

theorem boot_sends_exactly_the_image:
  assumes "dsp_hardware env level regs sent" and "BootContext env ctx img l = (Inr (), l')"
  shows "sent (world l') = sent (world l) @ Stream img \<and> booted l' \<and> Stream img \<noteq> []"
  using tripleD_value [OF dsp_hardware.BootContext_sent [OF assms(1)] refl assms(2)]
    dsp_hardware.BootContext_value [OF assms] by simp

theorem boot_sends_exactly_the_image_witness:
  "\<exists>l'. BootContext mem_env 0 one_chunk (newLink new_memory_world) = (Inr (), l') \<and>
     mem_sent (world l') = [1, 128, 240, 85]"
proof -
  obtain x l' where r: "BootContext mem_env 0 one_chunk (newLink new_memory_world) = (Inr x, l')"
    using nofailD [OF memory_boots] by blast
  then have u: "BootContext mem_env 0 one_chunk (newLink new_memory_world) = (Inr (), l')" by simp
  from boot_sends_exactly_the_image [OF mem_link.dsp_hardware_axioms u] u show ?thesis
    by (simp add: newLink_def new_memory_world_def newMemorySPI_def one_chunk_def)
qed

text \<open>(C39) Booting an image that was loaded from a file never panics: the loader only accepts
  whole transfers, so the download never slices its stream out of range.\<close>

theorem loaded_image_boots_without_panic:
  assumes "dsp_hardware env level regs sent" and "proper_devices env"
    and "loadBootImage sha opened = Inr img" and "BootContext env ctx img l = (Inl e, l')"
  shows "\<not> crash e"
proof -
  have "imageChunkBytes dvd length (Stream img)"
    using assms(3) by (auto simp: loadBootImage_def Let_def split: sum.splits if_splits)
  from safeD [OF dsp_hardware.BootContext_safe [OF assms(1,2) this] assms(4)] show ?thesis .
qed

theorem loaded_image_boots_without_panic_witness:
  "\<exists>e l'. BootContext dead_env 0 one_chunk (newLink new_memory_world) = (Inl e, l') \<and> \<not> crash e"
proof -
  have l: "loadBootImage (\<lambda>_. ''d'') (Inr (Inr [128, 1, 15, 170])) = Inr one_chunk"
    by (simp add: loadBootImage_def maxImageBytes_def imageChunkBytes_def one_chunk_def reverseBits_def)
  obtain e l' where r: "BootContext dead_env 0 one_chunk (newLink new_memory_world) = (Inl e, l')"
    by (simp add: BootContext_def prepareDownloadLines_def Let_def one_chunk_def dead_env_def
        mem_env_def mem_defs act_simps on_world_def newLink_def new_memory_world_def cong: run_cong)
  with loaded_image_boots_without_panic [OF dead_hardware l r] show ?thesis by blast
qed

end
