(* ===== verification/Dsp_Wamp.thy ===== *)
theory Dsp_Wamp
  imports Dsp_Wamp_Conn Dsp_Link_Props
begin

text \<open>
  The WAMP service of the DSP (\<^verbatim>\<open>wamp.go\<close>, \<^verbatim>\<open>mic_control.go\<close>,
  \<^verbatim>\<open>privacy_state.go\<close>, \<^verbatim>\<open>boot_state.go\<close>): the table of commands and their
  encoding, the local policy, invocations, events and device frames, one session over a
  schedule of what its select loop receives, one iteration of the message pump, and the
  microphone control socket. What other goroutines do while a command waits is a parameter.
\<close>

subsection \<open>Commands\<close>

definition versionTopic :: string where "versionTopic = ''com.harman.dsp.version''"
definition stateTopic :: string where "stateTopic = ''com.harman.stateChanged''"
definition sessionTopic :: string where "sessionTopic = ''com.reinvoke.dsp.session''"

definition procedures :: "procedureSpec list" where
  "procedures =
     [\<lparr>spec_Name = ''com.harman.dsp.micTestSingle'', spec_ID = messageIDTest, spec_Opcode = 0x00, spec_Arguments = 1\<rparr>,
      \<lparr>spec_Name = ''com.harman.dsp.micTestPair'', spec_ID = messageIDTest, spec_Opcode = 0x01, spec_Arguments = 1\<rparr>,
      \<lparr>spec_Name = ''com.harman.dsp.micTestNormal'', spec_ID = messageIDTest, spec_Opcode = 0x02, spec_Arguments = 0\<rparr>,
      \<lparr>spec_Name = ''com.harman.test.dspBypassMode'', spec_ID = messageIDTest, spec_Opcode = 0x03, spec_Arguments = 1\<rparr>,
      \<lparr>spec_Name = ''com.harman.dsp.volumeSet'', spec_ID = messageIDControl, spec_Opcode = 0x04, spec_Arguments = 1\<rparr>,
      \<lparr>spec_Name = ''com.harman.dsp.getVer'', spec_ID = messageIDControl, spec_Opcode = 0x08, spec_Arguments = 0\<rparr>,
      \<lparr>spec_Name = ''com.harman.dsp.dumpDspMemory'', spec_ID = messageIDControl, spec_Opcode = 0x0c, spec_Arguments = 2\<rparr>]"

definition micMuteSpec :: procedureSpec where
  "micMuteSpec = \<lparr>spec_Name = ''DSP microphone control'', spec_ID = messageIDControl,
     spec_Opcode = 0x09, spec_Arguments = 1\<rparr>"

definition stateChangedSpec :: procedureSpec where
  "stateChangedSpec = \<lparr>spec_Name = stateTopic, spec_ID = messageIDControl,
     spec_Opcode = 0x0b, spec_Arguments = 1\<rparr>"

record mutePolicy =
  NotifyTopic :: string
  PolicyProcedure :: string
  BootStatePath :: string

definition validate :: "mutePolicy \<Rightarrow> go_error + unit" where
  "validate policy =
     (if PolicyProcedure policy \<in> set forbiddenProcedures
      then Inl (Errorf ''mute policy procedure is an amplifier or DAC gate'') else Inr ())"

text \<open>
  The \<^verbatim>\<open>float64\<close> case of \<open>byteArgument\<close>, on the bits: an integral value from 0 to
  255 (negative zero included) is its byte, anything else is refused.
\<close>

definition float_byte :: "u64 \<Rightarrow> byte option" where
  "float_byte bits =
     (let e = unat (drop_bit 52 bits AND 0x7ff);
          m = 2 ^ 52 + unat (bits AND 0xfffffffffffff);
          scale = 2 ^ (52 - (e - 1023))
      in if bits AND 0x7fffffffffffffff = 0 then Some 0
         else if bit bits 63 then None
         else if 1023 \<le> e \<and> e \<le> 1030 \<and> m mod scale = 0 then Some (of_nat (m div scale))
         else None)"

definition byteArgument :: "go_value \<Rightarrow> byte option" where
  "byteArgument value =
     (case value of
        GUint64 typed \<Rightarrow> (if typed \<le> 0xff then Some (ucast typed) else None)
      | GInt typed \<Rightarrow> (if 0 \<le> sint typed \<and> sint typed \<le> 0xff then Some (ucast typed) else None)
      | GFloat bits \<Rightarrow> float_byte bits
      | GBool typed \<Rightarrow> Some (if typed then 1 else 0)
      | _ \<Rightarrow> None)"

definition isSafeMicrophoneMute :: "procedureSpec \<Rightarrow> go_value list \<Rightarrow> bool" where
  "isSafeMicrophoneMute spec args \<longleftrightarrow>
     spec_Opcode spec = spec_Opcode micMuteSpec \<and> length args = 1 \<and> byteArgument (args ! 0) = Some 1"

fun argument_bytes :: "go_value list \<Rightarrow> go_error + byte list" where
  "argument_bytes [] = Inr []"
| "argument_bytes (argument # args) =
     (case byteArgument argument of
        None \<Rightarrow> Inl (Errorf ''invalid argument format'')
      | Some value \<Rightarrow>
          (case argument_bytes args of Inl e \<Rightarrow> Inl e | Inr values \<Rightarrow> Inr (value # values)))"

definition encodeCall :: "procedureSpec \<Rightarrow> go_value list \<Rightarrow> go_error + byte list" where
  "encodeCall spec args =
     (if length args \<noteq> spec_Arguments spec then Inl (Errorf ''takes another number of arguments'')
      else (case argument_bytes args of
              Inl e \<Rightarrow> Inl e | Inr values \<Rightarrow> Inr (spec_Opcode spec # values)))"

subsection \<open>The service\<close>

text \<open>
  What a tracked command gets: the result sent on its channel, or the end of its context.
  \<open>await\<close> is the wait for it and \<open>wait_ready\<close> the wait for the service to be ready, each
  with whatever the message pump does to the link meanwhile. The boot-state file is reached
  through the two actions on the files \<open>'f\<close>: the exclusive creation, and whether an existing
  path is a regular file; \<open>error_text\<close> is \<^verbatim>\<open>Error()\<close>.
\<close>

datatype completion = Delivered "go_error option" | Expired go_error

record ('w, 'c, 'f) wamp_env =
  w_io :: "'c wamp_io"
  safeOnly :: bool
  policy :: mutePolicy
  wait_ready :: "'w link \<Rightarrow> go_error option \<times> 'w link"
  await :: "nat \<Rightarrow> 'w link \<Rightarrow> completion \<times> 'w link"
  create_exclusive :: "string \<Rightarrow> ('f, unit) act"
  lstat_regular :: "string \<Rightarrow> ('f, bool) act"
  error_text :: "go_error \<Rightarrow> string"
  deviceCapacity :: nat

record ('w, 'c, 'f) wampService =
  s_link :: "'w link"
  s_client :: "'c wampConnection"
  s_files :: 'f
  s_device :: "frame list"
  s_bootEvent :: bool

definition on_link :: "('w link, 'a) act \<Rightarrow> (('w, 'c, 'f) wampService, 'a) act" where
  "on_link m s = (case m (s_link s) of (r, l) \<Rightarrow> (r, s\<lparr>s_link := l\<rparr>))"

definition on_client :: "('c wampConnection, 'a) act \<Rightarrow> (('w, 'c, 'f) wampService, 'a) act" where
  "on_client m s = (case m (s_client s) of (r, c) \<Rightarrow> (r, s\<lparr>s_client := c\<rparr>))"

definition on_files :: "('f, 'a) act \<Rightarrow> (('w, 'c, 'f) wampService, 'a) act" where
  "on_files m s = (case m (s_files s) of (r, f) \<Rightarrow> (r, s\<lparr>s_files := f\<rparr>))"

definition EnqueueTracked :: "nat \<Rightarrow> u16 \<Rightarrow> byte list \<Rightarrow> ('w link, nat) act" where
  "EnqueueTracked ctx mid payload = bindE (enqueue ctx mid payload True) (\<lambda>c. ret (the c))"

definition awaitCompletion :: "('w, 'c, 'f) wamp_env \<Rightarrow> nat \<Rightarrow> ('w link, unit) act" where
  "awaitCompletion env completion l =
     (case await env completion l of (result, l') \<Rightarrow>
        (case result of
           Delivered None \<Rightarrow> (Inr (), l')
         | Delivered (Some err) \<Rightarrow> (Inl (Wrapf ''transmit'' err), l')
         | Expired err \<Rightarrow> (Inl err, l')))"

definition dispatchLink ::
  "('w, 'c, 'f) wamp_env \<Rightarrow> nat \<Rightarrow> procedureSpec \<Rightarrow> go_value list \<Rightarrow> ('w link, unit) act" where
  "dispatchLink env ctx spec args =
     (if safeOnly env \<and> \<not> isSafeMicrophoneMute spec args
      then fail (Errorf ''is disabled by local policy'')
      else bindE (liftE (encodeCall spec args)) (\<lambda>payload.
           bindE (EnqueueTracked ctx (spec_ID spec) payload) (awaitCompletion env)))"

definition dispatch ::
  "('w, 'c, 'f) wamp_env \<Rightarrow> nat \<Rightarrow> procedureSpec \<Rightarrow> go_value list \<Rightarrow> ('w link, unit) act" where
  "dispatch env ctx spec args =
     (\<lambda>l. case wait_ready env l of
            (Some err, l') \<Rightarrow> (Inl err, l')
          | (None, l') \<Rightarrow> dispatchLink env ctx spec args l')"

text \<open>\<^verbatim>\<open>args, _ = message[4].([]interface{})\<close>\<close>

definition message_args :: "go_value list \<Rightarrow> go_value list" where
  "message_args message =
     (if length message > 4 then (case message ! 4 of GArray args \<Rightarrow> args | _ \<Rightarrow> []) else [])"

definition invocation_reply ::
  "('w, 'c, 'f) wamp_env \<Rightarrow> u64 \<Rightarrow> go_error + unit \<Rightarrow> go_value list" where
  "invocation_reply env rid result =
     (case result of
        Inl err \<Rightarrow> [GInt wampError, GInt wampInvocation, GUint64 rid, GMap [],
                    GString ''com.harman.error'', GArray [GString (error_text env err)]]
      | Inr _ \<Rightarrow> [GInt wampYield, GUint64 rid, GMap [], GArray []])"

definition handleInvocation ::
  "('w, 'c, 'f) wamp_env \<Rightarrow> nat \<Rightarrow> (u64 \<rightharpoonup> procedureSpec) \<Rightarrow> go_value list
     \<Rightarrow> (('w, 'c, 'f) wampService, unit) act" where
  "handleInvocation env ctx registrations message =
     (if length message < 4 then fail (Errorf ''malformed WAMP invocation'')
      else (case go_unsigned (message ! 1) of
        None \<Rightarrow> fail (Errorf ''WAMP invocation has invalid request ID'')
      | Some rid \<Rightarrow>
          (case go_unsigned (message ! 2) of
             None \<Rightarrow> fail (Errorf ''WAMP invocation has invalid registration ID'')
           | Some registrationID \<Rightarrow>
               (case registrations registrationID of
                  None \<Rightarrow> ret ()
                | Some spec \<Rightarrow>
                    tryE (on_link (dispatch env ctx spec (message_args message))) (\<lambda>result.
                      on_client (writeFrame (w_io env) (invocation_reply env rid result)))))))"

definition handleEvent ::
  "('w, 'c, 'f) wamp_env \<Rightarrow> nat \<Rightarrow> u64 \<Rightarrow> go_value list \<Rightarrow> (('w, 'c, 'f) wampService, unit) act" where
  "handleEvent env ctx subscription message =
     (if length message < 4 then ret ()
      else if go_unsigned (message ! 1) \<noteq> Some subscription then ret ()
      else let args = message_args message in
        if length args \<noteq> 1 then ret ()
        else if byteArgument (args ! 0) = None then ret ()
        else ignoreE (on_link (dispatch env ctx stateChangedSpec args)))"

definition handleMessage ::
  "('w, 'c, 'f) wamp_env \<Rightarrow> nat \<Rightarrow> (u64 \<rightharpoonup> procedureSpec) \<Rightarrow> u64 \<Rightarrow> go_value list
     \<Rightarrow> (('w, 'c, 'f) wampService, unit) act" where
  "handleMessage env ctx registrations subscription message =
     (if messageType message = wampInvocation then handleInvocation env ctx registrations message
      else if messageType message = wampEvent then handleEvent env ctx subscription message
      else ret ())"

subsection \<open>Device frames\<close>

definition recordDSPBootState :: "('w, 'c, 'f) wamp_env \<Rightarrow> string \<Rightarrow> ('f, unit) act" where
  "recordDSPBootState env path =
     (if path = [] then ret ()
      else tryE (create_exclusive env path) (\<lambda>r. case r of
        Inr _ \<Rightarrow> ret ()
      | Inl err \<Rightarrow>
          if \<not> errors_is err ErrExist then fail (Wrapf ''record DSP boot state'' err)
          else tryE (lstat_regular env path) (\<lambda>r. case r of
            Inl statErr \<Rightarrow> fail (Wrapf ''inspect DSP boot state'' statErr)
          | Inr regular \<Rightarrow>
              if \<not> regular then fail (Errorf ''DSP boot state is not a regular file'') else ret ())))"

definition reportBootup :: "('w, 'c, 'f) wamp_env \<Rightarrow> (('w, 'c, 'f) wampService, unit) act" where
  "reportBootup env =
     seqE (on_files (recordDSPBootState env (BootStatePath (policy env))))
      (seqE (if NotifyTopic (policy env) \<noteq> []
             then on_client (publish (w_io env) (NotifyTopic (policy env)) [GString ''dsp''])
             else ret ())
        (if PolicyProcedure (policy env) = [] then ret ()
         else on_client (call (w_io env) (PolicyProcedure (policy env)) [GString ''dsp-bootup''])))"

definition handleDeviceFrame ::
  "('w, 'c, 'f) wamp_env \<Rightarrow> frame \<Rightarrow> (('w, 'c, 'f) wampService, unit) act" where
  "handleDeviceFrame env received =
     (case Code received of
        None \<Rightarrow> ret ()
      | Some code \<Rightarrow>
          let name = eventName (ID received) code in
          if name = ''EVENT_DSP_VERSION'' then
            (case decodeVersion (Payload received) of
               None \<Rightarrow> ret ()
             | Some (text, packed) \<Rightarrow> on_client (publish (w_io env) versionTopic [GUint32 packed]))
          else if name = ''EVENT_DSP_BOOTUP'' then reportBootup env
          else ret ())"

subsection \<open>One session\<close>

text \<open>
  What the select loop receives: the end of its context, readiness, a device frame or the end
  of the device channel, or the router's next message. The messages put aside during set-up
  come first; then each is read from the connection, and a read error ends the session.
\<close>

datatype session_event = SessionDone | ServiceReady | Device "frame option" | Router

text \<open>The result is whether the session is still running.\<close>

fun serve_loop ::
  "('w, 'c, 'f) wamp_env \<Rightarrow> nat \<Rightarrow> (u64 \<rightharpoonup> procedureSpec) \<Rightarrow> u64 \<Rightarrow> bool \<Rightarrow> go_value list list
     \<Rightarrow> session_event list \<Rightarrow> (('w, 'c, 'f) wampService, bool) act" where
  "serve_loop env ctx regs sub announced aside [] = ret True"
| "serve_loop env ctx regs sub announced aside (SessionDone # events) = ret False"
| "serve_loop env ctx regs sub announced aside (ServiceReady # events) =
     (if announced then serve_loop env ctx regs sub announced aside events
      else seqE (wrapE ''publish DSP session readiness''
                  (on_client (publish (w_io env) sessionTopic [GString ''ready''])))
                (serve_loop env ctx regs sub True aside events))"
| "serve_loop env ctx regs sub announced aside (Device None # events) =
     fail (Wrapf ''link closed'' (Sentinel ErrDSPLinkFailure))"
| "serve_loop env ctx regs sub announced aside (Device (Some received) # events) =
     seqE (handleDeviceFrame env received) (serve_loop env ctx regs sub announced aside events)"
| "serve_loop env ctx regs sub announced (message # aside) (Router # events) =
     seqE (handleMessage env ctx regs sub message) (serve_loop env ctx regs sub announced aside events)"
| "serve_loop env ctx regs sub announced [] (Router # events) =
     bindE (on_client (readFrame (w_io env))) (\<lambda>message.
       seqE (handleMessage env ctx regs sub message) (serve_loop env ctx regs sub announced [] events))"

definition serve ::
  "('w, 'c, 'f) wamp_env \<Rightarrow> nat \<Rightarrow> string \<Rightarrow> session_event list \<Rightarrow> (('w, 'c, 'f) wampService, bool) act" where
  "serve env ctx realm events =
     seqE (liftE (validate (policy env)))
      (seqE (on_client (negotiate (w_io env) realm))
        (bindE (on_client (register (w_io env) procedures Map.empty [])) (\<lambda>(registrations, aside).
          bindE (on_client (subscribe (w_io env) stateTopic aside)) (\<lambda>(subscription, aside).
            serve_loop env ctx registrations subscription False aside events))))"

subsection \<open>The message pump\<close>

text \<open>
  One iteration with a live context: poll the link, record a boot event, and offer the frame
  to the device channel, which holds \<^const>\<open>deviceCapacity\<close> frames; a frame that finds it full
  is dropped. The result is whether traffic moved.
\<close>

definition is_boot_frame :: "frame \<Rightarrow> bool" where
  "is_boot_frame received \<longleftrightarrow>
     (case Code received of None \<Rightarrow> False | Some code \<Rightarrow> eventName (ID received) code = ''EVENT_DSP_BOOTUP'')"

definition pump_step ::
  "('w, 'c, 'f) wamp_env \<Rightarrow> 'w dsp_env \<Rightarrow> (('w, 'c, 'f) wampService, bool) act" where
  "pump_step env denv =
     bindE (on_link (Poll denv)) (\<lambda>(received, worked, err).
       seqE (case err of None \<Rightarrow> ret () | Some e \<Rightarrow> checkE (isFrameError e) e)
        (seqE (case received of
                 None \<Rightarrow> ret ()
               | Some f \<Rightarrow>
                   seqE (if is_boot_frame f
                         then seqE (ignoreE (on_files (recordDSPBootState env (BootStatePath (policy env)))))
                                   (updS (\<lambda>s. s\<lparr>s_bootEvent := True\<rparr>))
                         else ret ())
                        (updS (\<lambda>s. if length (s_device s) < deviceCapacity env
                                   then s\<lparr>s_device := s_device s @ [f]\<rparr> else s)))
              (ret worked)))"

subsection \<open>Microphone control\<close>

definition microphoneMuteRequired :: "go_error + string \<Rightarrow> go_error + bool" where
  "microphoneMuteRequired content =
     (case content of
        Inl err \<Rightarrow> Inl (Wrapf ''read microphone state'' err)
      | Inr text \<Rightarrow>
          if text = ''muted'' @ [CHR 0x0A] then Inr True
          else if text = ''unmuted'' @ [CHR 0x0A] then Inr False
          else Inl (Errorf ''invalid microphone state''))"

text \<open>
  One connection of the control socket: its stream \<open>'d\<close> stands beside the link. \<open>deadline\<close> is
  \<^verbatim>\<open>SetDeadline\<close>.
\<close>

definition on_fst :: "('a, 'x) act \<Rightarrow> ('a \<times> 'b, 'x) act" where
  "on_fst m s = (case m (fst s) of (r, a) \<Rightarrow> (r, (a, snd s)))"

definition on_snd :: "('b, 'x) act \<Rightarrow> ('a \<times> 'b, 'x) act" where
  "on_snd m s = (case m (snd s) of (r, b) \<Rightarrow> (r, (fst s, b)))"

definition handleMicControlConnection ::
  "('w, 'c, 'f) wamp_env \<Rightarrow> nat \<Rightarrow> 'd wamp_io \<Rightarrow> ('d, unit) act \<Rightarrow> ('w link \<times> 'd, unit) act" where
  "handleMicControlConnection env ctx io deadline =
     seqE (on_snd deadline)
      (bindE (wrapE ''read request'' (on_snd (ReadFull io 2))) (\<lambda>request.
        if request \<noteq> [0x30, 0x0a] \<and> request \<noteq> [0x31, 0x0a] then fail (Errorf ''invalid request'')
        else tryE (on_fst (dispatch env ctx micMuteSpec [GUint64 (if request = [0x30, 0x0a] then 0 else 1)]))
          (\<lambda>r. case r of
             Inl err \<Rightarrow> seqE (ignoreE (on_snd (NetWrite io (str_bytes (''ERR'' @ [CHR 0x0A]))))) (fail err)
           | Inr _ \<Rightarrow> wrapE ''write response''
               (bindE (on_snd (NetWrite io (str_bytes (''OK'' @ [CHR 0x0A])))) (\<lambda>_. ret ())))))"

subsection \<open>What the session writes\<close>

text \<open>
  \<open>spares_gates m\<close>: the message is no CALL of a mute gate. Everything a session writes is
  such a message.
\<close>

definition spares_gates :: "go_value list \<Rightarrow> bool" where
  "spares_gates m \<longleftrightarrow> (messageType m = wampCall \<longrightarrow>
     length m > 3 \<and> (\<exists>p. m ! 3 = GString p \<and> p \<notin> set forbiddenProcedures))"

abbreviation all_spare :: "'c wampConnection \<Rightarrow> bool" where
  "all_spare c \<equiv> \<forall>m \<in> set (frames c). spares_gates m"

lemmas message_consts = wampHello_def wampRegister_def wampSubscribe_def wampPublish_def wampCall_def
  wampError_def wampYield_def messageType_def go_unsigned_def

lemma writeFrame_spares:
  assumes "spares_gates m"
  shows "keeps all_spare (writeFrame io m)"
proof (rule tripleI)
  fix c :: "'a wampConnection" and e d
  assume "all_spare c" "writeFrame io m c = (Inl e, d)"
  with tripleD_error [OF writeFrame_frames _ this(2), of "frames c" "nextID c"] show "all_spare d" by simp
next
  fix c :: "'a wampConnection" and x d
  assume "all_spare c" "writeFrame io m c = (Inr x, d)"
  with assms tripleD_value [OF writeFrame_frames _ this(2), of "frames c" "nextID c"] show "all_spare d" by simp
qed

lemma reads_spare:
  "keeps all_spare (readFrame io)" "keeps all_spare (awaitSetupResponse io expected rid deferred)"
  "keeps all_spare requestID" "keeps all_spare (on_conn m)"
  by (rule readFrame_frames awaitSetupResponse_frames [where P = "\<lambda>f _. \<forall>m \<in> set f. spares_gates m"]
      on_conn_frames [where P = "\<lambda>f _. \<forall>m \<in> set f. spares_gates m"]
      | rule keepsI, simp add: requestID_def)+

lemma negotiate_spares: "keeps all_spare (negotiate io realm)"
  unfolding negotiate_def
  by (intro keeps_rules writeFrame_spares reads_spare) (simp add: spares_gates_def message_consts)

lemma register_spares: "keeps all_spare (register io specs regs aside)"
proof (induction specs arbitrary: regs aside)
  case (Cons spec specs)
  show ?case
    unfolding register.simps
    by (intro keeps_rules writeFrame_spares reads_spare Cons) (simp add: spares_gates_def message_consts)
qed (simp add: keeps_ret)

lemma subscribe_spares: "keeps all_spare (subscribe io topic aside)"
  unfolding subscribe_def
  by (intro keeps_rules writeFrame_spares reads_spare) (simp add: spares_gates_def message_consts)

lemma publish_spares: "keeps all_spare (publish io topic args)"
  unfolding publish_def
  by (intro keeps_rules writeFrame_spares reads_spare) (simp add: spares_gates_def message_consts)

lemma call_spares: "keeps all_spare (call io procedure args)"
  unfolding call_def
  by (intro keeps_rules writeFrame_spares reads_spare) (simp add: spares_gates_def message_consts)

lemma reply_spares: "spares_gates (invocation_reply env rid result)"
  by (cases result) (simp_all add: invocation_reply_def spares_gates_def message_consts)

lemma on_client_spares: "keeps all_spare m \<Longrightarrow> keeps (\<lambda>s. all_spare (s_client s)) (on_client m)"
  by (rule keepsI) (use keepsD in \<open>fastforce simp: on_client_def split: prod.splits\<close>)

lemma others_spare:
  "keeps (\<lambda>s. all_spare (s_client s)) (on_link m)" "keeps (\<lambda>s. all_spare (s_client s)) (on_files m')"
  by (rule keepsI, simp add: on_link_def on_files_def split_beta)+

lemmas session_spares = on_client_spares writeFrame_spares reads_spare publish_spares call_spares
  others_spare reply_spares

lemma handleMessage_spares:
  "keeps (\<lambda>s. all_spare (s_client s)) (handleMessage env ctx regs sub message)"
  unfolding handleMessage_def handleInvocation_def handleEvent_def Let_def
  by (intro keeps_rules session_spares)

lemma handleDeviceFrame_spares: "keeps (\<lambda>s. all_spare (s_client s)) (handleDeviceFrame env received)"
  unfolding handleDeviceFrame_def reportBootup_def Let_def
  by (intro keeps_rules session_spares)

lemma serve_loop_spares:
  "keeps (\<lambda>s. all_spare (s_client s)) (serve_loop env ctx regs sub announced aside events)"
proof (induction events arbitrary: announced aside)
  case Nil
  show ?case by (simp add: keeps_ret)
next
  case (Cons event events)
  show ?case
  proof (cases event)
    case SessionDone
    then show ?thesis by (simp add: keeps_ret)
  next
    case ServiceReady
    then show ?thesis by (simp only: serve_loop.simps) (intro keeps_rules session_spares Cons)
  next
    case (Device f)
    then show ?thesis
      by (cases f) (simp_all only: serve_loop.simps, (intro keeps_rules handleDeviceFrame_spares Cons)+)
  next
    case Router
    then show ?thesis
      by (cases aside)
         (simp_all only: serve_loop.simps, (intro keeps_rules session_spares handleMessage_spares Cons)+)
  qed
qed

lemma serve_spares: "keeps (\<lambda>s. all_spare (s_client s)) (serve env ctx realm events)"
  unfolding serve_def
  by (intro keeps_rules on_client_spares negotiate_spares register_spares subscribe_spares serve_loop_spares)

subsection \<open>What a safe-mode session queues\<close>

text \<open>
  \<open>only_mute l\<close>: every queued frame is the mute command of the microphones.
  \<open>meanwhile P env\<close> says that what happens to the link while a command waits keeps \<open>P\<close>; the
  message pump, which only takes messages and puts them back, does so.
\<close>

definition only_mute :: "'w link \<Rightarrow> bool" where
  "only_mute l \<longleftrightarrow> (\<forall>m \<in> set (queue l). buildFrame messageIDControl [0x09, 1] = Inr (q_frame m))"

definition meanwhile :: "('w link \<Rightarrow> bool) \<Rightarrow> ('w, 'c, 'f) wamp_env \<Rightarrow> bool" where
  "meanwhile P env \<longleftrightarrow> (\<forall>l. P l \<longrightarrow> P (snd (wait_ready env l)) \<and> (\<forall>c. P (snd (await env c l))))"

definition mute_spec_ok :: "procedureSpec \<Rightarrow> bool" where
  "mute_spec_ok spec \<longleftrightarrow> (spec_Opcode spec = 0x09 \<longrightarrow> spec_ID spec = messageIDControl)"

lemma argument_bytes_iff:
  "argument_bytes args = Inr bs \<longleftrightarrow> map byteArgument args = map Some bs"
proof (induction args arbitrary: bs)
  case (Cons a args)
  show ?case
  proof (cases "byteArgument a")
    case (Some b)
    then show ?thesis using Cons by (cases bs; cases "argument_bytes args") auto
  qed (cases bs; simp)
qed auto

lemma encodeCall_iff:
  "encodeCall spec args = Inr payload \<longleftrightarrow> length args = spec_Arguments spec \<and>
     (\<exists>values. map byteArgument args = map Some values \<and> payload = spec_Opcode spec # values)"
  by (cases "argument_bytes args")
     (auto simp: encodeCall_def argument_bytes_iff [symmetric])

lemma safe_payload:
  assumes "isSafeMicrophoneMute spec args" "encodeCall spec args = Inr payload"
  shows "payload = [0x09, 1]"
proof -
  from assms(1) obtain a where a: "args = [a]" "byteArgument a = Some 1" "spec_Opcode spec = 0x09"
    by (cases args) (auto simp: isSafeMicrophoneMute_def micMuteSpec_def)
  with assms(2) show ?thesis by (auto simp: encodeCall_iff)
qed

lemma enqueue_only_mute:
  "buildFrame mid payload = buildFrame messageIDControl [0x09, 1] \<Longrightarrow> only_mute l \<Longrightarrow>
   only_mute (snd (enqueue ctx mid payload t l))"
  by (auto simp: enqueue_def act_simps only_mute_def Let_def split: sum.split)

lemma awaitCompletion_snd: "snd (awaitCompletion env c l) = snd (await env c l)"
  by (simp add: awaitCompletion_def split: prod.split completion.split option.split)

lemma awaitCompletion_keeps: "meanwhile P env \<Longrightarrow> keeps P (awaitCompletion env c)"
  by (rule keepsI) (simp add: awaitCompletion_snd meanwhile_def)

lemma dispatchLink_only_mute:
  assumes "safeOnly env" "meanwhile only_mute env" "mute_spec_ok spec"
  shows "keeps only_mute (dispatchLink env ctx spec args)"
proof (cases "isSafeMicrophoneMute spec args")
  case True
  then have id: "spec_ID spec = messageIDControl"
    using assms(3) by (simp add: isSafeMicrophoneMute_def micMuteSpec_def mute_spec_ok_def)
  have track: "keeps only_mute (EnqueueTracked ctx (spec_ID spec) [0x09, 1])"
    unfolding EnqueueTracked_def id
    by (intro keeps_rules keepsI enqueue_only_mute) simp_all
  show ?thesis
  proof (cases "encodeCall spec args")
    case (Inl e)
    then show ?thesis using True by (simp add: dispatchLink_def liftE_def bindE_def keepsI)
  next
    case (Inr payload)
    with safe_payload [OF True Inr] True have
      "dispatchLink env ctx spec args = bindE (EnqueueTracked ctx (spec_ID spec) [0x09, 1])
         (awaitCompletion env)"
      by (simp add: dispatchLink_def fun_eq_iff liftE_def bindE_def)
    then show ?thesis by (simp only:) (rule keeps_bindE [OF track awaitCompletion_keeps [OF assms(2)]])
  qed
qed (use assms(1) in \<open>simp add: dispatchLink_def keeps_fail\<close>)

lemma dispatch_only_mute:
  assumes "safeOnly env" "meanwhile only_mute env" "mute_spec_ok spec"
  shows "keeps only_mute (dispatch env ctx spec args)"
proof (rule keepsI)
  fix l :: "'a link" assume l: "only_mute l"
  obtain r l' where w: "wait_ready env l = (r, l')" by fastforce
  with assms(2) l have l': "only_mute l'" unfolding meanwhile_def by (metis snd_conv)
  from keepsD [OF dispatchLink_only_mute [OF assms] l'] show "only_mute (snd (dispatch env ctx spec args l))"
    using l' by (cases r) (simp_all add: dispatch_def w)
qed

lemma register_ran:
  assumes "register io specs Map.empty aside c = (Inr (regs, aside'), c')"
  shows "ran regs \<subseteq> set specs"
  using tripleD_value [OF register_value _ assms, of "frames c" "nextID c"] by simp

lemma procedures_ok: "spec \<in> set procedures \<Longrightarrow> mute_spec_ok spec"
  by (auto simp: procedures_def mute_spec_ok_def)

lemma own_specs_ok: "mute_spec_ok stateChangedSpec" "mute_spec_ok micMuteSpec"
  by (simp_all add: mute_spec_ok_def stateChangedSpec_def micMuteSpec_def)

lemma keeps_on_link: "keeps P m \<Longrightarrow> keeps (\<lambda>s. P (s_link s)) (on_link m)"
  by (rule keepsI) (use keepsD in \<open>fastforce simp: on_link_def split: prod.splits\<close>)

lemma link_spared:
  "keeps (\<lambda>s. P (s_link s)) (on_client m)" "keeps (\<lambda>s. P (s_link s)) (on_files m')"
  by (rule keepsI, simp add: on_client_def on_files_def split_beta)+

lemma handleMessage_link:
  assumes "\<And>spec args. spec \<in> insert stateChangedSpec (ran regs) \<Longrightarrow> keeps P (dispatch env ctx spec args)"
  shows "keeps (\<lambda>s. P (s_link s)) (handleMessage env ctx regs sub message)"
  unfolding handleMessage_def handleInvocation_def handleEvent_def Let_def
  by (intro keeps_rules link_spared keeps_on_link assms) (auto intro: ranI)

lemma handleDeviceFrame_link: "keeps (\<lambda>s. P (s_link s)) (handleDeviceFrame env received)"
  unfolding handleDeviceFrame_def reportBootup_def Let_def by (intro keeps_rules link_spared)

lemma serve_loop_link:
  assumes "\<And>message. keeps (\<lambda>s. P (s_link s)) (handleMessage env ctx regs sub message)"
  shows "keeps (\<lambda>s. P (s_link s)) (serve_loop env ctx regs sub announced aside events)"
proof (induction events arbitrary: announced aside)
  case Nil
  show ?case by (simp add: keeps_ret)
next
  case (Cons event events)
  note steps = keeps_rules link_spared assms handleDeviceFrame_link Cons
  show ?case
  proof (cases event)
    case (Device f)
    then show ?thesis by (cases f) (simp_all only: serve_loop.simps, (intro steps)+)
  next
    case Router
    then show ?thesis by (cases aside) (simp_all only: serve_loop.simps, (intro steps)+)
  qed (simp_all only: serve_loop.simps, (intro steps)+)
qed

lemma serve_link:
  assumes "\<And>spec args. spec \<in> insert stateChangedSpec (set procedures) \<Longrightarrow> keeps P (dispatch env ctx spec args)"
  shows "keeps (\<lambda>s. P (s_link s)) (serve env ctx realm events)"
proof -
  have reg: "triple (\<lambda>s. P (s_link s)) (on_client (register (w_io env) procedures Map.empty []))
      (\<lambda>(regs, aside) s. ran regs \<subseteq> set procedures \<and> P (s_link s)) (\<lambda>_ s. P (s_link s))"
  proof (rule tripleI)
    show "(case x of (regs, aside) \<Rightarrow> \<lambda>s. ran regs \<subseteq> set procedures \<and> P (s_link s)) t"
      if "P (s_link s)" "on_client (register (w_io env) procedures Map.empty []) s = (Inr x, t)" for s x t
      using that register_ran by (cases x) (fastforce simp: on_client_def split: prod.splits)
  qed (auto simp: on_client_def split: prod.splits)
  have loop: "triple (\<lambda>s. ran regs \<subseteq> set procedures \<and> P (s_link s))
      (bindE (on_client (subscribe (w_io env) stateTopic aside)) (\<lambda>(subscription, aside).
         serve_loop env ctx regs subscription False aside events)) (\<lambda>_ s. P (s_link s)) (\<lambda>_ s. P (s_link s))"
    for regs aside
  proof (rule triple_pure_conj)
    assume "ran regs \<subseteq> set procedures"
    then have "keeps P (dispatch env ctx spec args)" if "spec \<in> insert stateChangedSpec (ran regs)" for spec args
      using that by (intro assms) auto
    then show "keeps (\<lambda>s. P (s_link s)) (bindE (on_client (subscribe (w_io env) stateTopic aside))
        (\<lambda>(subscription, aside). serve_loop env ctx regs subscription False aside events))"
      by (intro keeps_rules link_spared serve_loop_link handleMessage_link)
  qed
  show ?thesis
    unfolding serve_def
    by (intro keeps_seqE keeps_liftE link_spared triple_bindE [OF reg] triple_case_prod)
       (simp only: prod.case, rule loop)
qed

subsection \<open>Replies\<close>

text \<open>
  \<open>invocation_id regs m\<close>: the request id of an invocation of a registered procedure;
  \<open>reply_id m\<close>: the request id that a YIELD or an ERROR answers.
\<close>

definition invocation_id :: "(u64 \<rightharpoonup> procedureSpec) \<Rightarrow> go_value list \<Rightarrow> u64 option" where
  "invocation_id regs m =
     (if messageType m = wampInvocation \<and> length m \<ge> 4 then
        (case (go_unsigned (m ! 1), go_unsigned (m ! 2)) of
           (Some rid, Some registrationID) \<Rightarrow> if regs registrationID = None then None else Some rid
         | _ \<Rightarrow> None)
      else None)"

definition reply_id :: "go_value list \<Rightarrow> u64 option" where
  "reply_id m =
     (if messageType m = wampYield then go_unsigned (m ! 1)
      else if messageType m = wampError then go_unsigned (m ! 2) else None)"

lemma reply_id_reply: "reply_id (invocation_reply env rid result) = Some rid"
  by (cases result)
     (simp_all add: reply_id_def invocation_reply_def messageType_def go_unsigned_def wampYield_def
       wampError_def)

lemma writeFrame_logs: "writeFrame io m c = (Inr x, d) \<Longrightarrow> frames d = frames c @ [m]"
  using tripleD_value [OF writeFrame_frames, of c "frames c" "nextID c" io m x d] by simp

lemma handleInvocation_replies:
  assumes "handleInvocation env ctx regs m s = (Inr x, s')" "messageType m = wampInvocation"
  shows "\<exists>replies. frames (s_client s') = frames (s_client s) @ replies \<and>
    map reply_id replies = (case invocation_id regs m of None \<Rightarrow> [] | Some rid \<Rightarrow> [Some rid])"
proof (cases "invocation_id regs m")
  case None
  with assms have "s' = s"
    by (auto simp: handleInvocation_def invocation_id_def split: if_splits option.splits)
  with None show ?thesis by simp
next
  case (Some rid)
  then obtain reg spec where i: "\<not> length m < 4" "go_unsigned (m ! 1) = Some rid"
    "go_unsigned (m ! 2) = Some reg" "regs reg = Some spec"
    using assms(2) by (auto simp: invocation_id_def split: if_splits option.splits)
  with assms(1) have "tryE (on_link (dispatch env ctx spec (message_args m))) (\<lambda>result.
      on_client (writeFrame (w_io env) (invocation_reply env rid result))) s = (Inr x, s')"
    by (simp add: handleInvocation_def)
  then obtain r u where d: "on_link (dispatch env ctx spec (message_args m)) s = (r, u)"
    and w: "on_client (writeFrame (w_io env) (invocation_reply env rid r)) u = (Inr x, s')"
    by (elim act_elims)
  from d have "s_client u = s_client s" by (auto simp: on_link_def split: prod.splits)
  moreover from w have "frames (s_client s') = frames (s_client u) @ [invocation_reply env rid r]"
    by (auto simp: on_client_def split: prod.splits dest: writeFrame_logs)
  ultimately have "frames (s_client s') = frames (s_client s) @ [invocation_reply env rid r]" by simp
  then show ?thesis using Some by (auto simp: reply_id_reply intro!: exI [of _ "[_]"])
qed

lemma handleEvent_client: "keeps (\<lambda>s. P (s_client s)) (handleEvent env ctx sub m)"
  unfolding handleEvent_def Let_def
  by (intro keeps_rules keepsI) (simp_all add: on_link_def split_beta)

lemma handleMessage_replies:
  assumes "handleMessage env ctx regs sub m s = (Inr x, s')"
  shows "\<exists>replies. frames (s_client s') = frames (s_client s) @ replies \<and>
    map reply_id replies = (case invocation_id regs m of None \<Rightarrow> [] | Some rid \<Rightarrow> [Some rid])"
proof (cases "messageType m = wampInvocation")
  case True
  with assms handleInvocation_replies show ?thesis by (simp add: handleMessage_def)
next
  case False
  then have "s_client s' = s_client s"
    using assms tripleD_value [OF handleEvent_client [where P = "\<lambda>c. c = s_client s"] refl, of env ctx sub m x s']
    by (auto simp: handleMessage_def split: if_splits)
  with False show ?thesis by (simp add: invocation_id_def)
qed

lemma serve_loop_replies:
  assumes "serve_loop env ctx regs sub announced ms (replicate (length ms) Router) s = (Inr x, s')"
  shows "\<exists>replies. frames (s_client s') = frames (s_client s) @ replies \<and>
    map reply_id replies = map Some (List.map_filter (invocation_id regs) ms)"
  using assms
proof (induction ms arbitrary: s)
  case (Cons m ms)
  then obtain y u where h: "handleMessage env ctx regs sub m s = (Inr y, u)"
    and l: "serve_loop env ctx regs sub announced ms (replicate (length ms) Router) u = (Inr x, s')"
    by (auto elim: seqE_value)
  from handleMessage_replies [OF h] obtain r where r: "frames (s_client u) = frames (s_client s) @ r"
    "map reply_id r = (case invocation_id regs m of None \<Rightarrow> [] | Some rid \<Rightarrow> [Some rid])" by blast
  from Cons.IH [OF l] obtain r' where r': "frames (s_client s') = frames (s_client u) @ r'"
    "map reply_id r' = map Some (List.map_filter (invocation_id regs) ms)" by blast
  from r r' show ?case
    by (intro exI [of _ "r @ r'"]) (simp add: List.map_filter_simps split: option.splits)
qed (simp add: List.map_filter_simps)

subsection \<open>The pump and the control socket\<close>

text \<open>
  What one iteration of the pump does to the service: the connection is left alone, at most one
  frame joins the device channel, which stays within its capacity, and a boot frame in it has
  been recorded as an event.
\<close>

definition bounded_step ::
  "('w, 'c, 'f) wamp_env \<Rightarrow> ('w, 'c, 'f) wampService \<Rightarrow> ('w, 'c, 'f) wampService \<Rightarrow> bool" where
  "bounded_step env s s' \<longleftrightarrow> s_client s' = s_client s \<and> (s_bootEvent s \<longrightarrow> s_bootEvent s') \<and>
     (\<exists>new. s_device s' = s_device s @ new \<and> length new \<le> 1 \<and>
        (\<forall>f \<in> set new. is_boot_frame f \<longrightarrow> s_bootEvent s')) \<and>
     (length (s_device s) \<le> deviceCapacity env \<longrightarrow> length (s_device s') \<le> deviceCapacity env)"

lemma pump_step_bounded:
  assumes "pump_step env denv s = (r, s')"
  shows "bounded_step env s s' \<and> (\<forall>e. r = Inl e \<longrightarrow> \<not> isFrameError e)"
proof -
  obtain received worked err l where p: "Poll denv (s_link s) = (Inr (received, worked, err), l)"
    using Poll_returns [of denv "s_link s"] by (metis prod_cases3)
  let ?u = "s\<lparr>s_link := l\<rparr>"
  have u: "bounded_step env s ?u" by (simp add: bounded_step_def)
  have frame: "bounded_step env s (if length (s_device t) < deviceCapacity env
      then t\<lparr>s_device := s_device t @ [f]\<rparr> else t)"
    if "s_client t = s_client s" "s_device t = s_device s" "s_bootEvent s \<longrightarrow> s_bootEvent t"
      "is_boot_frame f \<longrightarrow> s_bootEvent t" for t :: "('a, 'b, 'c) wampService" and f
    using that by (auto simp: bounded_step_def)
  have files: "s_client (snd (on_files m t)) = s_client t \<and> s_device (snd (on_files m t)) = s_device t \<and>
      s_bootEvent (snd (on_files m t)) = s_bootEvent t" for m and t :: "('a, 'b, 'c) wampService"
    by (simp add: on_files_def split_beta)
  show ?thesis
  proof (cases "\<exists>e. err = Some e \<and> \<not> isFrameError e")
    case True
    with assms p u show ?thesis by (auto simp: pump_step_def on_link_def act_simps)
  next
    case False
    then have run: "pump_step env denv s = seqE (case received of None \<Rightarrow> ret ()
        | Some f \<Rightarrow> seqE (if is_boot_frame f
              then seqE (ignoreE (on_files (recordDSPBootState env (BootStatePath (policy env)))))
                        (updS (\<lambda>s. s\<lparr>s_bootEvent := True\<rparr>)) else ret ())
            (updS (\<lambda>s. if length (s_device s) < deviceCapacity env
                       then s\<lparr>s_device := s_device s @ [f]\<rparr> else s))) (ret worked) ?u"
      using p by (cases err) (auto simp: pump_step_def on_link_def act_simps)
    show ?thesis
    proof (cases received)
      case None
      with run assms u show ?thesis by (simp add: act_simps)
    next
      case (Some f)
      define t where "t = (if is_boot_frame f
          then snd (on_files (recordDSPBootState env (BootStatePath (policy env))) ?u)\<lparr>s_bootEvent := True\<rparr>
          else ?u)"
      have "pump_step env denv s = (Inr worked, if length (s_device t) < deviceCapacity env
          then t\<lparr>s_device := s_device t @ [f]\<rparr> else t)"
        unfolding run by (simp add: Some t_def act_simps)
      moreover have "bounded_step env s (if length (s_device t) < deviceCapacity env
          then t\<lparr>s_device := s_device t @ [f]\<rparr> else t)"
        by (rule frame) (simp_all add: t_def files)
      ultimately show ?thesis using assms by (metis Pair_inject sum.distinct(1))
    qed
  qed
qed

lemma handleMicControl_link:
  assumes "\<And>spec args. mute_spec_ok spec \<Longrightarrow> keeps P (dispatch env ctx spec args)"
  shows "keeps (\<lambda>s. P (fst s)) (handleMicControlConnection env ctx io deadline)"
proof -
  have second: "keeps (\<lambda>s. P (fst s)) (on_snd m)" for m :: "('d, 'x) act"
    by (rule keepsI) (simp add: on_snd_def split_beta)
  have first: "keeps (\<lambda>s. P (fst s)) (on_fst (dispatch env ctx micMuteSpec args))" for args
    by (rule keepsI) (use keepsD [OF assms [OF own_specs_ok(2)]] in \<open>simp add: on_fst_def split_beta\<close>)
  show ?thesis
    unfolding handleMicControlConnection_def by (intro keeps_rules first second)
qed

subsection \<open>A service to evaluate\<close>

text \<open>
  A service over a pipe, in safe mode, whose pump answers every command at once: it pops the
  queue and delivers success.
\<close>

definition pipe_env :: "('w, pipe, unit) wamp_env" where
  "pipe_env = \<lparr>w_io = pipe_io, safeOnly = True,
     policy = \<lparr>NotifyTopic = [], PolicyProcedure = [], BootStatePath = []\<rparr>,
     wait_ready = (\<lambda>l. (None, l)),
     await = (\<lambda>c l. (Delivered None, l\<lparr>completed := completed l @ [(c, None)]\<rparr>)),
     create_exclusive = (\<lambda>_. ret ()), lstat_regular = (\<lambda>_. ret True),
     error_text = (\<lambda>_. ''refused''), deviceCapacity = 16\<rparr>"

definition booted_link :: "unit link" where
  "booted_link = (newLink ())\<lparr>booted := True\<rparr>"

definition pipe_service :: "'w link \<Rightarrow> byte list \<Rightarrow> ('w, pipe, unit) wampService" where
  "pipe_service l input = \<lparr>s_link = l, s_client = open_pipe input, s_files = (),
     s_device = [], s_bootEvent = False\<rparr>"

lemma pipe_w_io [simp]: "w_io pipe_env = pipe_io"
  by (simp add: pipe_env_def)

lemma pipe_meanwhile: "meanwhile only_mute pipe_env"
  by (simp add: meanwhile_def pipe_env_def only_mute_def)

subsection \<open>Properties\<close>

text \<open>(C15) In safe mode the only thing that remote callers, events and the microphone control
  socket ever bring into the queue of the DSP link is the mute command of the microphones:
  after a session over any schedule, whatever it read and however it ended, and after a
  control connection, every queued frame is the frame of the payload 09 01, if that was so
  before. Unmuting, volume, test and memory commands never reach the link.\<close>

theorem safe_mode_queues_only_mute:
  assumes "safeOnly env" "meanwhile only_mute env" "only_mute (s_link s)"
  shows "only_mute (s_link (snd (serve env ctx realm events s))) \<and>
    only_mute (fst (snd (handleMicControlConnection env ctx io deadline (s_link s, d))))"
proof -
  have d: "keeps only_mute (dispatch env ctx spec args)"
    if "spec \<in> insert stateChangedSpec (set procedures) \<or> mute_spec_ok spec" for spec args
    using that procedures_ok own_specs_ok by (intro dispatch_only_mute assms) auto
  have "keeps (\<lambda>s. only_mute (s_link s)) (serve env ctx realm events)"
    by (rule serve_link) (blast intro: d)
  moreover have "keeps (\<lambda>s. only_mute (fst s)) (handleMicControlConnection env ctx io deadline)"
    by (rule handleMicControl_link) (blast intro: d)
  ultimately show ?thesis using assms(3) by (auto dest!: keepsD)
qed

theorem safe_mode_queues_only_mute_witness:
  "only_mute (s_link (snd (serve pipe_env 0 ''r'' [Router] (pipe_service booted_link [0x7f, 0xf2, 0, 0])))) \<and>
   only_mute (fst (snd (handleMicControlConnection pipe_env 0 pipe_io (ret ())
     (booted_link, \<lparr>p_in = [0x31, 0x0a], p_out = []\<rparr>))))"
proof -
  have s: "safeOnly pipe_env" "only_mute (s_link (pipe_service booted_link input))" for input
    by (simp_all add: pipe_env_def pipe_service_def booted_link_def newLink_def only_mute_def)
  from safe_mode_queues_only_mute [OF s(1) pipe_meanwhile s(2)] show ?thesis by (simp add: pipe_service_def)
qed

text \<open>(C18) No session ever calls a mute gate of the amplifier or the DAC: every message a session
  writes, from the handshake on, over any schedule and however it ends, is no CALL of a
  forbidden procedure.\<close>

theorem session_never_calls_a_mute_gate:
  "list_all spares_gates (frames (s_client (snd (serve env ctx realm events
     \<lparr>s_link = l, s_client = \<lparr>connection = c, nextID = 1, frames = []\<rparr>, s_files = f,
      s_device = q, s_bootEvent = b\<rparr>))))"
  unfolding list_all_iff by (rule keepsD [OF serve_spares]) simp



text \<open>A command is encoded exactly when it has its number of arguments and each is a byte: the
  payload is the opcode followed by the argument bytes, for every procedure and every list of
  decoded arguments.\<close>

theorem encodeCall_spec:
  "encodeCall spec args = Inr payload \<longleftrightarrow> length args = spec_Arguments spec \<and>
     (\<exists>bs. map byteArgument args = map Some bs \<and> payload = spec_Opcode spec # bs)"
  by (rule encodeCall_iff)





end
