(* ===== verification/Nand_Plan.thy ===== *)
theory Nand_Plan
  imports Prelude
begin

text \<open>
  The NAND writer's data and its plan (\<^verbatim>\<open>tools/nand-inspect/internal/probewrite\<close>:
  \<^verbatim>\<open>plan.go\<close>, the types of \<^verbatim>\<open>engine.go\<close> and the build profiles). A build has
  exactly one profile; here it is a field of the environment. Files, the device, the journal
  and SHA-256 are parameters, actions over an arbitrary world \<open>'d\<close>. Offsets and sizes, which
  the code never lets go negative, are natural numbers.
\<close>

subsection \<open>Profiles and constants\<close>

record profile =
  p_Start :: nat
  p_Span :: nat
  p_ImageHash :: string
  p_OriginalHash :: string
  p_BeforeHash :: string
  p_AfterHash :: string
  p_TableHash :: string
  p_InstallAck :: string
  p_RestoreAck :: string
  p_HeaderLast :: bool
  p_ResumeSupported :: bool
  p_RestoreSupported :: bool
  p_PlanProfileName :: string
  p_FilesystemHash :: string

definition EraseBytes :: nat where "EraseBytes = 131072"
definition PageBytes :: nat where "PageBytes = 2048"
definition VisibleOOB :: nat where "VisibleOOB = 32"
definition DeviceBytes :: nat where "DeviceBytes = 268435456"

definition EndByte :: "profile \<Rightarrow> nat" where "EndByte pf = p_Start pf + p_Span pf"
definition nBlocks :: "profile \<Rightarrow> nat" where "nBlocks pf = p_Span pf div EraseBytes"
definition pagesPerBlock :: nat where "pagesPerBlock = EraseBytes div PageBytes"

definition profile_pilot :: profile where
  "profile_pilot = \<lparr>p_Start = 0x02920000, p_Span = 0x02680000,
     p_ImageHash = ''c580a8ff440fee68bd001777a16e24b6feb4446e84b1e7d44d34cd1fd3f37e17'',
     p_OriginalHash = ''3bb7f29b7961424c9b27d3e908477643840a6cf3967f65a0e7ac33990c26fc6d'',
     p_BeforeHash = ''b5a41c3758763bbec72769fab4a2533bf2db0b6312d93d25a695f9e4b9e02260'',
     p_AfterHash = ''7bab4a26440a3362ada1ea6b6cd9c2a886d46d77763cfa4dbc4a8425a60084e0'',
     p_TableHash = ''53fab213e1be985fae65abaaf1ad9de6fbb9f5f7c66cb2316bd65f2ef88d992f'',
     p_InstallAck = ''INSTALL-rootfs-pilot-pty01-02920000-04fa0000'',
     p_RestoreAck = ''RESTORE-original-rootfs-pilot-pty01-02920000-04fa0000'',
     p_HeaderLast = True, p_ResumeSupported = True, p_RestoreSupported = True,
     p_PlanProfileName = ''reinvoke-rootfs-pilot-01-pty01'',
     p_FilesystemHash = ''2f1622c5573a1dfe777f5595206d5750a2afb11e22809f8c0e063189fa27624a''\<rparr>"

definition profile_bsl :: profile where
  "profile_bsl = \<lparr>p_Start = 0x01a20000, p_Span = 0x00500000,
     p_ImageHash = ''91a9dde15fea2959232fc9a0cdafdb739e08a7498c4e8b57d867889c8f358163'',
     p_OriginalHash = ''238187a1d490d43dc9e44c658f88735900d3b6dfc7ed312313b9d267156dd92c'',
     p_BeforeHash = ''b5a41c3758763bbec72769fab4a2533bf2db0b6312d93d25a695f9e4b9e02260'',
     p_AfterHash = ''75c62f48adf907f820d0568cc1966ca5dfa157633851e6556f9adbb42064e6bc'',
     p_TableHash = ''e25ca94fac7c1fac5df425246b9ea147751a6fb1be252e322e547c807f737083'',
     p_InstallAck = ''INSTALL-reinvoke-bsl-v2-01a20000-01f20000'',
     p_RestoreAck = ''RESTORE-UNSUPPORTED-reinvoke-bsl-v2'',
     p_HeaderLast = True, p_ResumeSupported = False, p_RestoreSupported = False,
     p_PlanProfileName = ''reinvoke-bsl-v2-20260911-slim02'',
     p_FilesystemHash = ''16921ec74f3f88f19bba741319f9a60c2adefbf6da2e655b418f0ebc564d3194''\<rparr>"

definition profile_bsl_compact :: profile where
  "profile_bsl_compact = \<lparr>p_Start = 0x01a20000, p_Span = 0x00500000,
     p_ImageHash = ''606923f27236a1bf86807c19354c772dea65ddefca73a0ba075a59f68c4ffec1'',
     p_OriginalHash = ''91a9dde15fea2959232fc9a0cdafdb739e08a7498c4e8b57d867889c8f358163'',
     p_BeforeHash = ''b5a41c3758763bbec72769fab4a2533bf2db0b6312d93d25a695f9e4b9e02260'',
     p_AfterHash = ''75c62f48adf907f820d0568cc1966ca5dfa157633851e6556f9adbb42064e6bc'',
     p_TableHash = ''e25ca94fac7c1fac5df425246b9ea147751a6fb1be252e322e547c807f737083'',
     p_InstallAck = ''INSTALL-reinvoke-bsl-compact-01a20000-01f20000'',
     p_RestoreAck = ''RESTORE-UNSUPPORTED-reinvoke-bsl-compact'',
     p_HeaderLast = True, p_ResumeSupported = False, p_RestoreSupported = False,
     p_PlanProfileName = ''reinvoke-bsl-compact-20260911'',
     p_FilesystemHash = ''d23e1844df71cf58b5f1313038116bc1055db9432cfb726a074e43de52bfee88''\<rparr>"

definition profile_twoblock :: profile where
  "profile_twoblock = \<lparr>p_Start = 0x02ca0000, p_Span = 0x00040000,
     p_ImageHash = ''a64b76e8de7bc2c1471dd40668d627d3ddc9726abc0d09be264518e9c7e497e9'',
     p_OriginalHash = ''005be33d9ebaf5c698ebf26c93e8509c24d6e1e2e775bfb9f8a960b237a093a0'',
     p_BeforeHash = ''7c4a5981443fcb1b6ced74ac8687274edbd3ad770eac0226a1dc1ea1189ed173'',
     p_AfterHash = ''0bcffebd13a1d0b5ea610e1fcbb1e264a9fe921a33b8ff5f038c0740974217be'',
     p_TableHash = ''53fab213e1be985fae65abaaf1ad9de6fbb9f5f7c66cb2316bd65f2ef88d992f'',
     p_InstallAck = ''INSTALL-minimal-probe-02ca0000-02ce0000'',
     p_RestoreAck = ''RESTORE-original-two-blocks-02ca0000-02ce0000'',
     p_HeaderLast = False, p_ResumeSupported = False, p_RestoreSupported = True,
     p_PlanProfileName = [], p_FilesystemHash = []\<rparr>"

subsection \<open>Data\<close>

record planBlock =
  b_Index :: nat
  AbsoluteOffset :: nat
  OriginalSHA256 :: string
  ProbeSHA256 :: string
  Changed :: bool

record plan =
  pl_Start :: nat
  pl_End :: nat
  pl_Span :: nat
  pl_ImageSHA256 :: string
  pl_OriginalSHA256 :: string
  ChangedBlocks :: nat
  WriteOrder :: "nat list"
  Blocks :: "planBlock list"
  WriteAuthorized :: bool
  pl_Profile :: string
  FilesystemSHA256 :: string

text \<open>
  A file or reader: \<open>f_id\<close> identifies an \<^verbatim>\<open>*os.File\<close>, and is \<open>None\<close> for any other
  \<^verbatim>\<open>io.ReaderAt\<close>; \<open>f_ReadAt n off\<close> returns the bytes read, at most \<open>n\<close>.
\<close>

record 'd reader =
  f_id :: "nat option"
  f_Size :: "('d, nat) act"
  f_ReadAt :: "nat \<Rightarrow> nat \<Rightarrow> ('d, byte list) act"
  f_Close :: "('d, unit) act"

record 'd artifactBundle =
  Plan :: plan
  b_image :: "'d reader"
  b_original :: "'d reader"
  b_files :: "'d reader list"

record geometry =
  g_DeviceBytes :: nat
  g_Start :: nat
  g_Span :: nat
  g_PageBytes :: nat
  g_EraseBytes :: nat
  g_OOBBytes :: nat

record nandStats =
  Corrected :: u32
  Failed :: u32
  BadBlocks :: u32
  BBTBlocks :: u32

record event =
  Stage :: string
  ev_Block :: int
  ev_Absolute :: nat
  ev_Bytes :: nat
  ev_Detail :: string
  ev_Corrected :: u32
  ev_Failed :: u32

record statsTracker =
  t_initial :: nandStats
  t_last :: nandStats
  t_resume :: bool
  t_journal :: bool

record snapshot =
  sn_Hashes :: "string list"
  sn_Corrected :: u64
  sn_Failed :: u64
  sn_OOBHash :: string
  sn_restore :: bool
  sn_resume :: bool
  sn_complete :: bool

text \<open>
  The engine's state: the one statistics tracker of an operation, which its snapshot points
  to, and the world. \<open>EnableWrites\<close> may update the snapshot it is given and returns it.
\<close>

record 'd eng =
  tracker :: statsTracker
  nand_world :: 'd

record 'd device =
  Geometry :: "('d, geometry) act"
  CheckIdentity :: "('d, unit) act"
  ReadAt :: "nat \<Rightarrow> nat \<Rightarrow> ('d, byte list) act"
  ReadOOB :: "nat \<Rightarrow> ('d, byte list) act"
  IsBad :: "nat \<Rightarrow> ('d, bool) act"
  dev_Stats :: "('d, nandStats) act"
  EnableWrites :: "'d artifactBundle \<Rightarrow> snapshot \<Rightarrow> ('d eng, snapshot) act"
  Erase :: "nat \<Rightarrow> ('d, unit) act"
  WriteAt :: "byte list \<Rightarrow> nat \<Rightarrow> ('d, nat) act"
  Sync :: "('d, unit) act"

text \<open>
  \<open>mtd_mode\<close> and \<open>mtd_resume_ok\<close> stand for what the code asks of a device that is an
  \<^verbatim>\<open>*MTD\<close>; \<open>cancelled\<close> is \<^verbatim>\<open>ctx.Err()\<close>.
\<close>

record 'd nand_env =
  profile :: profile
  sha256 :: "byte list \<Rightarrow> string"
  device :: "'d device"
  mtd_mode :: "'d \<Rightarrow> snapshot \<Rightarrow> statsTracker \<Rightarrow> go_error + unit"
  mtd_resume_ok :: "'d \<Rightarrow> bool"
  Record :: "event \<Rightarrow> ('d, unit) act"
  oobOutput :: "byte list \<Rightarrow> ('d, unit) act"
  persistEvidence :: "('d, unit) act"
  cancelled :: "'d \<Rightarrow> go_error option"

subsection \<open>Artifacts\<close>

definition checkFile :: "'d nand_env \<Rightarrow> 'd reader \<Rightarrow> nat \<Rightarrow> string \<Rightarrow> ('d, unit) act" where
  "checkFile env file expectedBytes expectedHash =
     bindE (f_Size file) (\<lambda>size.
       if size \<noteq> expectedBytes then fail (Errorf ''wrong file size'')
       else bindE (maskE ''hash input'' (f_ReadAt file expectedBytes 0)) (\<lambda>content.
         if length content \<noteq> expectedBytes then fail (Errorf ''hash input'')
         else checkE (sha256 env content = expectedHash) (Errorf ''SHA-256 mismatch'')))"

definition block :: "'d nand_env \<Rightarrow> 'd artifactBundle \<Rightarrow> nat \<Rightarrow> bool \<Rightarrow> ('d, byte list) act" where
  "block env b index restore =
     (if nBlocks (profile env) \<le> index then fail (Errorf ''block index outside fixed target'')
      else bindE (maskE ''read artifact block''
                   (f_ReadAt (if restore then b_original b else b_image b) EraseBytes (index * EraseBytes)))
        (\<lambda>data. if length data \<noteq> EraseBytes then fail (Errorf ''read artifact block'') else ret data))"

definition expectedSHA256 :: "planBlock \<Rightarrow> bool \<Rightarrow> string" where
  "expectedSHA256 record restore = (if restore then OriginalSHA256 record else ProbeSHA256 record)"

definition verifiedBlock :: "'d nand_env \<Rightarrow> 'd artifactBundle \<Rightarrow> nat \<Rightarrow> bool \<Rightarrow> ('d, byte list) act" where
  "verifiedBlock env b index restore =
     bindE (block env b index restore) (\<lambda>data.
       if length (Blocks (Plan b)) \<le> index then fail (Panic ''index out of range'')
       else if sha256 env data \<noteq> expectedSHA256 (Blocks (Plan b) ! index) restore
       then fail (Errorf ''artifact changed after planning'')
       else ret data)"

definition validatePlanHashes :: "profile \<Rightarrow> plan \<Rightarrow> go_error + unit" where
  "validatePlanHashes pf p =
     (if pl_OriginalSHA256 p \<noteq> p_OriginalHash pf then Inl (Errorf ''original changed during block planning'')
      else if pl_ImageSHA256 p \<noteq> p_ImageHash pf
      then Inl (Errorf ''candidate fragment changed during block planning'')
      else Inr ())"

subsection \<open>The plan\<close>

definition plan_block ::
  "'d nand_env \<Rightarrow> nat \<Rightarrow> byte list \<Rightarrow> byte list \<Rightarrow> planBlock" where
  "plan_block env index original probe =
     \<lparr>b_Index = index, AbsoluteOffset = p_Start (profile env) + index * EraseBytes,
      OriginalSHA256 = sha256 env original, ProbeSHA256 = sha256 env probe,
      Changed = (original \<noteq> probe)\<rparr>"

text \<open>
  One iteration of the planning loop extends the plan and the bytes hashed so far; the loop
  runs over the block indices.
\<close>

definition plan_add :: "'d nand_env \<Rightarrow> plan \<Rightarrow> planBlock \<Rightarrow> plan" where
  "plan_add env p record =
     (let q = p\<lparr>Blocks := Blocks p @ [record]\<rparr> in
      if Changed record
      then q\<lparr>ChangedBlocks := ChangedBlocks p + 1,
             WriteOrder := (if \<not> p_HeaderLast (profile env) \<or> b_Index record \<noteq> 0
                            then WriteOrder p @ [b_Index record] else WriteOrder p)\<rparr>
      else q)"

fun plan_loop ::
  "'d nand_env \<Rightarrow> 'd artifactBundle \<Rightarrow> nat list \<Rightarrow> plan \<Rightarrow> byte list \<Rightarrow> byte list
     \<Rightarrow> ('d, plan \<times> byte list \<times> byte list) act" where
  "plan_loop env b [] p images originals = ret (p, images, originals)"
| "plan_loop env b (index # rest) p images originals =
     bindE (block env b index True) (\<lambda>original.
       bindE (block env b index False) (\<lambda>probe.
         plan_loop env b rest (plan_add env p (plan_block env index original probe))
           (images @ probe) (originals @ original)))"

definition empty_plan :: "profile \<Rightarrow> plan" where
  "empty_plan pf = \<lparr>pl_Start = p_Start pf, pl_End = EndByte pf, pl_Span = p_Span pf,
     pl_ImageSHA256 = [], pl_OriginalSHA256 = [], ChangedBlocks = 0, WriteOrder = [], Blocks = [],
     WriteAuthorized = False, pl_Profile = p_PlanProfileName pf,
     FilesystemSHA256 = p_FilesystemHash pf\<rparr>"

definition buildPlan :: "'d nand_env \<Rightarrow> 'd artifactBundle \<Rightarrow> ('d, 'd artifactBundle) act" where
  "buildPlan env b =
     bindE (plan_loop env b [0..<nBlocks (profile env)] (empty_plan (profile env)) [] [])
       (\<lambda>(p, images, originals).
         if p_HeaderLast (profile env) \<and> Blocks p = [] then fail (Panic ''index out of range'')
         else let q = (if p_HeaderLast (profile env) \<and> Changed (Blocks p ! 0)
                       then p\<lparr>WriteOrder := WriteOrder p @ [0]\<rparr> else p)
                    \<lparr>pl_ImageSHA256 := sha256 env images, pl_OriginalSHA256 := sha256 env originals\<rparr>
              in seqE (if b_files b \<noteq> [] then liftE (validatePlanHashes (profile env) q) else ret ())
                      (ret (b\<lparr>Plan := q\<rparr>)))"

text \<open>\<^verbatim>\<open>Close\<close> closes every file and returns the first error.\<close>

fun closeFiles :: "'d reader list \<Rightarrow> go_error option \<Rightarrow> ('d, unit) act" where
  "closeFiles [] first = (case first of None \<Rightarrow> ret () | Some e \<Rightarrow> fail e)"
| "closeFiles (file # rest) first =
     tryE (f_Close file) (\<lambda>r. closeFiles rest (case (r, first) of (Inl e, None) \<Rightarrow> Some e | _ \<Rightarrow> first))"

text \<open>
  \<open>openRegular\<close> is \<^verbatim>\<open>regularfile.Open\<close>. Whatever fails after a file was opened, the
  files opened so far are closed.
\<close>

fun load_inputs ::
  "'d nand_env \<Rightarrow> (string \<Rightarrow> ('d, 'd reader) act) \<Rightarrow> (string \<times> nat \<times> string) list \<Rightarrow> 'd reader list
     \<Rightarrow> ('d, 'd reader list) act" where
  "load_inputs env openRegular [] opened = ret opened"
| "load_inputs env openRegular ((path, bytes, digest) # rest) opened =
     tryE (openRegular path) (\<lambda>r. case r of
       Inl e \<Rightarrow> seqE (ignoreE (closeFiles opened None)) (fail e)
     | Inr file \<Rightarrow>
         tryE (checkFile env file bytes digest) (\<lambda>r. case r of
           Inl e \<Rightarrow> seqE (ignoreE (closeFiles (opened @ [file]) None)) (fail e)
         | Inr _ \<Rightarrow> load_inputs env openRegular rest (opened @ [file])))"

definition Load ::
  "'d nand_env \<Rightarrow> (string \<Rightarrow> ('d, 'd reader) act) \<Rightarrow> string \<Rightarrow> string \<Rightarrow> ('d, 'd artifactBundle) act" where
  "Load env openRegular imagePath originalPath =
     (let pf = profile env in
      bindE (load_inputs env openRegular
              [(imagePath, p_Span pf, p_ImageHash pf), (originalPath, p_Span pf, p_OriginalHash pf)] [])
        (\<lambda>opened. tryE (buildPlan env \<lparr>Plan = empty_plan pf, b_image = opened ! 0,
                          b_original = opened ! 1, b_files = opened\<rparr>) (\<lambda>r. case r of
           Inl e \<Rightarrow> seqE (ignoreE (closeFiles opened None)) (fail e)
         | Inr b \<Rightarrow> ret b)))"

subsection \<open>What a plan is\<close>

text \<open>
  \<open>plan_ok env p\<close>: one record per block of the extent, at its offset; unchanged blocks have
  equal digests; the write order is the changed blocks in ascending order, except that a
  profile with the filesystem header last writes a changed block 0 after all others.
\<close>

definition changed_indices :: "plan \<Rightarrow> nat list" where
  "changed_indices p = filter (\<lambda>i. Changed (Blocks p ! i)) [0..<length (Blocks p)]"

definition records_ok :: "'d nand_env \<Rightarrow> plan \<Rightarrow> bool" where
  "records_ok env p \<longleftrightarrow> (\<forall>i < length (Blocks p). let r = Blocks p ! i in
     b_Index r = i \<and> AbsoluteOffset r = p_Start (profile env) + i * EraseBytes \<and>
     (Changed r \<or> OriginalSHA256 r = ProbeSHA256 r))"

definition header_ok :: "'d nand_env \<Rightarrow> plan \<Rightarrow> bool" where
  "header_ok env p \<longleftrightarrow> pl_Start p = p_Start (profile env) \<and> pl_End p = EndByte (profile env) \<and>
     pl_Span p = p_Span (profile env) \<and> \<not> WriteAuthorized p \<and>
     pl_Profile p = p_PlanProfileName (profile env) \<and> FilesystemSHA256 p = p_FilesystemHash (profile env)"

definition plan_ok :: "'d nand_env \<Rightarrow> plan \<Rightarrow> bool" where
  "plan_ok env p \<longleftrightarrow> length (Blocks p) = nBlocks (profile env) \<and> records_ok env p \<and>
     header_ok env p \<and> ChangedBlocks p = length (changed_indices p) \<and>
     WriteOrder p =
       (if p_HeaderLast (profile env)
        then filter (\<lambda>i. i \<noteq> 0) (changed_indices p) @ filter (\<lambda>i. i = 0) (changed_indices p)
        else changed_indices p)"

definition loop_inv :: "'d nand_env \<Rightarrow> plan \<Rightarrow> bool" where
  "loop_inv env p \<longleftrightarrow> records_ok env p \<and> header_ok env p \<and> ChangedBlocks p = length (changed_indices p) \<and>
     WriteOrder p = filter (\<lambda>i. \<not> p_HeaderLast (profile env) \<or> i \<noteq> 0) (changed_indices p)"

lemma changed_append:
  "changed_indices (p\<lparr>Blocks := Blocks p @ [r]\<rparr>) =
     changed_indices p @ (if Changed r then [length (Blocks p)] else [])"
  unfolding changed_indices_def by (auto simp: nth_append intro: filter_cong)

lemma changed_cong: "Blocks p = Blocks q \<Longrightarrow> changed_indices p = changed_indices q"
  by (simp add: changed_indices_def)

lemma plan_add_inv:
  assumes "loop_inv env p" "b_Index r = length (Blocks p)"
    "AbsoluteOffset r = p_Start (profile env) + length (Blocks p) * EraseBytes"
    "Changed r \<or> OriginalSHA256 r = ProbeSHA256 r"
  shows "loop_inv env (plan_add env p r) \<and> Blocks (plan_add env p r) = Blocks p @ [r]"
proof -
  let ?p' = "plan_add env p r"
  have blocks: "Blocks ?p' = Blocks p @ [r]" by (simp add: plan_add_def Let_def)
  have changed: "changed_indices ?p' = changed_indices p @ (if Changed r then [length (Blocks p)] else [])"
    using changed_append [of p r] changed_cong [of ?p' "p\<lparr>Blocks := Blocks p @ [r]\<rparr>"] blocks by simp
  have "records_ok env ?p'"
    using assms unfolding records_ok_def loop_inv_def blocks
    by (auto simp: nth_append less_Suc_eq Let_def)
  moreover have "header_ok env ?p'"
    using assms(1) by (simp add: loop_inv_def header_ok_def plan_add_def Let_def)
  moreover have "ChangedBlocks ?p' = length (changed_indices ?p')"
    using assms(1) by (simp add: changed loop_inv_def) (simp add: plan_add_def Let_def)
  moreover have "WriteOrder ?p' = filter (\<lambda>i. \<not> p_HeaderLast (profile env) \<or> i \<noteq> 0) (changed_indices ?p')"
    using assms(1,2) by (simp add: changed loop_inv_def) (simp add: plan_add_def Let_def)
  ultimately show ?thesis using blocks by (simp add: loop_inv_def)
qed

lemma plan_loop_value:
  assumes "plan_loop env b [length (Blocks p)..<n] p images originals s = (Inr (p', i', o'), s')"
    and "length (Blocks p) \<le> n" "loop_inv env p"
  shows "loop_inv env p' \<and> length (Blocks p') = n"
  using assms
proof (induction "n - length (Blocks p)" arbitrary: p images originals s)
  case 0
  then show ?case by simp
next
  case (Suc k)
  then have split: "[length (Blocks p)..<n] = length (Blocks p) # [Suc (length (Blocks p))..<n]"
    by (simp add: upt_conv_Cons)
  from Suc.prems(1) obtain orig probe u where
    rest: "plan_loop env b [Suc (length (Blocks p))..<n]
      (plan_add env p (plan_block env (length (Blocks p)) orig probe)) (images @ probe) (originals @ orig) u
      = (Inr (p', i', o'), s')"
    unfolding split plan_loop.simps by (elim act_elims)
  let ?q = "plan_add env p (plan_block env (length (Blocks p)) orig probe)"
  have q: "loop_inv env ?q \<and> Blocks ?q = Blocks p @ [plan_block env (length (Blocks p)) orig probe]"
    by (rule plan_add_inv [OF Suc.prems(3)]) (simp_all add: plan_block_def)
  show ?case
    by (rule Suc.hyps(1) [of ?q "images @ probe" "originals @ orig" u]) (use Suc.hyps(2) q rest in auto)
qed

lemma header_split:
  assumes "ch = changed_indices p" "Blocks p \<noteq> []"
  shows "filter (\<lambda>i. i = 0) ch = (if Changed (Blocks p ! 0) then [0] else [])"
proof -
  have zero: "[0..<length (Blocks p)] = 0 # [Suc 0..<length (Blocks p)]"
    using assms(2) by (simp add: upt_conv_Cons)
  have "filter (\<lambda>i. Changed (Blocks p ! i) \<and> i = 0) [Suc 0..<length (Blocks p)] = []"
    by (rule filter_False) simp
  then show ?thesis by (simp add: assms(1) changed_indices_def zero conj_commute)
qed

lemma buildPlan_value:
  assumes "buildPlan env b s = (Inr b', s')"
  shows "plan_ok env (Plan b') \<and> (b_files b \<noteq> [] \<longrightarrow> validatePlanHashes (profile env) (Plan b') = Inr ()) \<and>
    b_image b' = b_image b \<and> b_original b' = b_original b \<and> b_files b' = b_files b"
proof -
  let ?pf = "profile env"
  from assms obtain p images originals u where
    loop: "plan_loop env b [0..<nBlocks ?pf] (empty_plan ?pf) [] [] s = (Inr (p, images, originals), u)"
    and rest: "(if p_HeaderLast ?pf \<and> Blocks p = [] then fail (Panic ''index out of range'')
      else let q = (if p_HeaderLast ?pf \<and> Changed (Blocks p ! 0)
                    then p\<lparr>WriteOrder := WriteOrder p @ [0]\<rparr> else p)
                 \<lparr>pl_ImageSHA256 := sha256 env images, pl_OriginalSHA256 := sha256 env originals\<rparr>
           in seqE (if b_files b \<noteq> [] then liftE (validatePlanHashes ?pf q) else ret ())
                   (ret (b\<lparr>Plan := q\<rparr>))) u = (Inr b', s')"
    unfolding buildPlan_def by (elim act_elims) (auto split: prod.splits)
  have "loop_inv env p \<and> length (Blocks p) = nBlocks ?pf"
    by (rule plan_loop_value [where s = s and p = "empty_plan ?pf" and images = "[]" and originals = "[]" and b = b])
       (use loop in \<open>simp_all add: empty_plan_def loop_inv_def records_ok_def changed_indices_def header_ok_def\<close>)
  then have p: "loop_inv env p" "length (Blocks p) = nBlocks ?pf" by simp_all
  define q where "q = (if p_HeaderLast ?pf \<and> Changed (Blocks p ! 0)
      then p\<lparr>WriteOrder := WriteOrder p @ [0]\<rparr> else p)
    \<lparr>pl_ImageSHA256 := sha256 env images, pl_OriginalSHA256 := sha256 env originals\<rparr>"
  have b': "\<not> (p_HeaderLast ?pf \<and> Blocks p = [])" "b' = b\<lparr>Plan := q\<rparr>"
    "b_files b \<noteq> [] \<longrightarrow> validatePlanHashes ?pf q = Inr ()"
    using rest by (auto simp: q_def [symmetric] Let_def elim!: act_elims split: if_splits)
  have blocks: "Blocks q = Blocks p" "ChangedBlocks q = ChangedBlocks p" by (simp_all add: q_def)
  have changed: "changed_indices q = changed_indices p" by (rule changed_cong) (simp add: blocks)
  have order: "WriteOrder q = (if p_HeaderLast ?pf
      then filter (\<lambda>i. i \<noteq> 0) (changed_indices p) @ filter (\<lambda>i. i = 0) (changed_indices p)
      else changed_indices p)"
    using p(1) b'(1) header_split [OF refl, of p] by (auto simp: q_def loop_inv_def)
  have "records_ok env q \<and> header_ok env q"
    using p(1) by (auto simp: records_ok_def header_ok_def loop_inv_def q_def)
  with p order changed blocks have "plan_ok env q" by (simp add: plan_ok_def loop_inv_def)
  with b' show ?thesis by simp
qed

lemma plan_ok_order:
  assumes "plan_ok env p"
  shows "distinct (WriteOrder p) \<and> set (WriteOrder p) = {i. i < length (Blocks p) \<and> Changed (Blocks p ! i)}"
  using assms by (auto simp: plan_ok_def changed_indices_def)

subsection \<open>Properties\<close>


definition fill_reader :: "byte \<Rightarrow> 'd reader" where
  "fill_reader v = \<lparr>f_id = None, f_Size = ret 0, f_ReadAt = (\<lambda>n off. ret (replicate n v)), f_Close = ret ()\<rparr>"

text \<open>A device that accepts everything, and an extent of two blocks with the header last.\<close>

definition idle_env :: "unit nand_env" where
  "idle_env = \<lparr>profile = profile_bsl\<lparr>p_Span := 2 * EraseBytes\<rparr>, sha256 = (\<lambda>bs. if hd bs = 1 then ''1'' else ''2''),
     device = \<lparr>Geometry = fail (Errorf ''none''), CheckIdentity = ret (), ReadAt = (\<lambda>n off. ret []),
       ReadOOB = (\<lambda>off. ret []), IsBad = (\<lambda>off. ret False), dev_Stats = ret \<lparr>Corrected = 0, Failed = 0, BadBlocks = 0, BBTBlocks = 0\<rparr>,
       EnableWrites = (\<lambda>b snap. ret snap), Erase = (\<lambda>off. ret ()), WriteAt = (\<lambda>data off. ret 0), Sync = ret ()\<rparr>,
     mtd_mode = (\<lambda>_ _ _. Inr ()), mtd_resume_ok = (\<lambda>_. True), Record = (\<lambda>_. ret ()), oobOutput = (\<lambda>_. ret ()),
     persistEvidence = ret (), cancelled = (\<lambda>_. None)\<rparr>"


end
