(* ===== verification/Nand_Read.thy ===== *)
theory Nand_Read
  imports Nand_Plan
begin

text \<open>
  The statistics tracker and the checked reads of the NAND writer (\<^verbatim>\<open>engine.go\<close> and the
  reading half of \<^verbatim>\<open>resume.go\<close>): every read is bracketed by checks of the ECC and
  bad-block counters, and a resumed operation bounds the corrections of every single page.
\<close>

definition on_dev :: "('d, 'a) act \<Rightarrow> ('d eng, 'a) act" where
  "on_dev m e = (case m (nand_world e) of (r, w) \<Rightarrow> (r, e\<lparr>nand_world := w\<rparr>))"

definition checkCtx :: "'d nand_env \<Rightarrow> ('d eng, unit) act" where
  "checkCtx env = bindE (readS (\<lambda>e. cancelled env (nand_world e)))
     (\<lambda>c. case c of None \<Rightarrow> ret () | Some err \<Rightarrow> fail err)"

definition journal :: "'d nand_env \<Rightarrow> event \<Rightarrow> ('d eng, unit) act" where
  "journal env ev = on_dev (Record env ev)"

definition event0 :: "string \<Rightarrow> int \<Rightarrow> event" where
  "event0 stage index = \<lparr>Stage = stage, ev_Block = index, ev_Absolute = 0, ev_Bytes = 0, ev_Detail = [],
     ev_Corrected = 0, ev_Failed = 0\<rparr>"

subsection \<open>Statistics\<close>

definition noStats :: nandStats where
  "noStats = \<lparr>Corrected = 0, Failed = 0, BadBlocks = 0, BBTBlocks = 0\<rparr>"

definition newStatsTracker :: "'d nand_env \<Rightarrow> ('d eng, unit) act" where
  "newStatsTracker env =
     bindE (on_dev (dev_Stats (device env))) (\<lambda>stats.
       updS (\<lambda>e. e\<lparr>tracker := \<lparr>t_initial = stats, t_last = stats, t_resume = False, t_journal = False\<rparr>\<rparr>))"

definition checkRead :: "'d nand_env \<Rightarrow> u32 \<Rightarrow> ('d eng, nandStats) act" where
  "checkRead env correctedLimit =
     bindE (on_dev (dev_Stats (device env))) (\<lambda>stats.
     bindE (readS tracker) (\<lambda>t.
       if BadBlocks stats \<noteq> BadBlocks (t_initial t) \<or> BBTBlocks stats \<noteq> BBTBlocks (t_initial t)
       then fail (Errorf ''bad-block/BBT inventory changed since operation start'')
       else if Corrected stats < Corrected (t_last t) \<or> Failed stats < Failed (t_last t)
       then fail (Errorf ''ECC statistics reset since previous operation check'')
       else if t_resume t \<and> (Failed stats \<noteq> Failed (t_initial t) \<or>
                 Corrected stats - Corrected (t_last t) > correctedLimit)
       then fail (Errorf ''resume ECC outside the bounded read allowance'')
       else seqE (updS (\<lambda>e. e\<lparr>tracker := (tracker e)\<lparr>t_last := stats\<rparr>\<rparr>)) (ret stats)))"

definition check :: "'d nand_env \<Rightarrow> ('d eng, nandStats) act" where
  "check env = checkRead env 0"

definition check_only :: "'d nand_env \<Rightarrow> ('d eng, unit) act" where
  "check_only env = bindE (check env) (\<lambda>_. ret ())"

definition checkedBlockStatus :: "'d nand_env \<Rightarrow> nat \<Rightarrow> ('d eng, unit) act" where
  "checkedBlockStatus env index =
     seqE (check_only env)
      (bindE (maskE ''bad/reserved block check'' (on_dev (IsBad (device env) (index * EraseBytes)))) (\<lambda>bad.
        seqE (checkE (\<not> bad) (Errorf ''bad/reserved block check'')) (check_only env)))"

definition checkGeometry :: "'d nand_env \<Rightarrow> ('d eng, unit) act" where
  "checkGeometry env =
     bindE (on_dev (Geometry (device env))) (\<lambda>actual.
       if actual \<noteq> \<lparr>g_DeviceBytes = DeviceBytes, g_Start = p_Start (profile env), g_Span = p_Span (profile env),
                    g_PageBytes = PageBytes, g_EraseBytes = EraseBytes, g_OOBBytes = 64\<rparr>
       then fail (Errorf ''unexpected MTD geometry'')
       else on_dev (CheckIdentity (device env)))"

subsection \<open>Checked reads\<close>

definition read_exactly :: "string \<Rightarrow> nat \<Rightarrow> ('d eng, byte list) act \<Rightarrow> ('d eng, byte list) act" where
  "read_exactly msg n m =
     bindE (maskE msg m) (\<lambda>data. if length data \<noteq> n then fail (Errorf msg) else ret data)"

fun read_oob :: "'d nand_env \<Rightarrow> nat \<Rightarrow> nat list \<Rightarrow> ('d eng, byte list) act" where
  "read_oob env index [] = ret []"
| "read_oob env index (page # pages) =
     bindE (read_exactly ''OOB read'' VisibleOOB
              (on_dev (ReadOOB (device env) (index * EraseBytes + page * PageBytes)))) (\<lambda>record.
       bindE (read_oob env index pages) (\<lambda>rest. ret (record @ rest)))"

definition checkedRead ::
  "'d nand_env \<Rightarrow> nat \<Rightarrow> bool \<Rightarrow> ('d eng, byte list \<times> byte list \<times> nandStats) act" where
  "checkedRead env index includeOOB =
     bindE (check env) (\<lambda>before.
     bindE (read_exactly ''read block'' EraseBytes
              (on_dev (ReadAt (device env) EraseBytes (index * EraseBytes)))) (\<lambda>data.
     bindE (if includeOOB then read_oob env index [0..<pagesPerBlock] else ret []) (\<lambda>oob.
     bindE (check env) (\<lambda>after.
       if Corrected after < Corrected before \<or> Failed after < Failed before \<or>
          BadBlocks after \<noteq> BadBlocks before \<or> BBTBlocks after \<noteq> BBTBlocks before
       then fail (Errorf ''ECC/BBT statistics reset or bad-block state changed'')
       else ret (data, oob, noStats\<lparr>Corrected := Corrected after - Corrected before,
                                    Failed := Failed after - Failed before\<rparr>)))))"

definition allFF :: "byte list \<Rightarrow> bool" where
  "allFF data \<longleftrightarrow> list_all (\<lambda>v. v = 0xff) data"

subsection \<open>Reads of a resumed operation\<close>

definition resumeLastCandidate :: nat where "resumeLastCandidate = 136"
definition resumeKnownPage :: nat where "resumeKnownPage = 62"

definition resumeCandidateBlock :: "nat \<Rightarrow> bool" where
  "resumeCandidateBlock index \<longleftrightarrow> 1 \<le> index \<and> index \<le> resumeLastCandidate"

definition resumeLimit :: "nat \<Rightarrow> bool \<Rightarrow> u32" where
  "resumeLimit index original = (if original \<and> \<not> resumeCandidateBlock index then NOT 0 else 1)"

definition resumeIO :: "'d nand_env \<Rightarrow> u32 \<Rightarrow> ('d eng, 'a) act \<Rightarrow> ('d eng, 'a \<times> nandStats) act" where
  "resumeIO env limit rd =
     bindE (readS (\<lambda>e. t_resume (tracker e))) (\<lambda>resuming.
       if \<not> resuming then fail (Errorf ''resume read requires its operation-wide tracker'')
       else bindE (check env) (\<lambda>before.
         tryE rd (\<lambda>r.
           bindE (checkRead env limit) (\<lambda>after.
             case r of Inl e \<Rightarrow> fail e
             | Inr x \<Rightarrow> ret (x, noStats\<lparr>Corrected := Corrected after - Corrected before\<rparr>)))))"

definition recordResumeRead ::
  "'d nand_env \<Rightarrow> nat \<Rightarrow> nat \<Rightarrow> bool \<Rightarrow> nandStats \<Rightarrow> u32 \<Rightarrow> ('d eng, unit) act" where
  "recordResumeRead env index page oob stats limit =
     bindE (readS (\<lambda>e. t_journal (tracker e))) (\<lambda>journaling.
       if Corrected stats = 0 \<or> \<not> journaling then ret ()
       else journal env \<lparr>Stage = (if oob then ''resume-page-oob'' else ''resume-page-main''),
              ev_Block = int index,
              ev_Absolute = p_Start (profile env) + index * EraseBytes + page * PageBytes,
              ev_Bytes = (if oob then VisibleOOB else PageBytes), 
              ev_Detail = ''one actual read; corrected limit='' @ decimal (unat limit) @ ''; failed=0'',
              ev_Corrected = Corrected stats, ev_Failed = 0\<rparr>)"

fun resume_main_pages ::
  "'d nand_env \<Rightarrow> (nat \<Rightarrow> nat \<Rightarrow> ('d, byte list) act) \<Rightarrow> nat \<Rightarrow> nat \<Rightarrow> bool \<Rightarrow> nat list \<Rightarrow> u32
     \<Rightarrow> ('d eng, byte list \<times> u32) act" where
  "resume_main_pages env readAt base index original [] acc = ret ([], acc)"
| "resume_main_pages env readAt base index original (page # pages) acc =
     seqE (checkCtx env)
      (bindE (wrapE ''resume main block'' (resumeIO env (resumeLimit index original)
                (read_exactly ''resume main read'' PageBytes
                  (on_dev (readAt PageBytes (base + index * EraseBytes + page * PageBytes)))))) (\<lambda>(part, stats).
       seqE (recordResumeRead env index page False stats (resumeLimit index original))
        (bindE (resume_main_pages env readAt base index original pages (acc + Corrected stats))
          (\<lambda>(rest, acc'). ret (part @ rest, acc')))))"

definition resumeReadMain ::
  "'d nand_env \<Rightarrow> (nat \<Rightarrow> nat \<Rightarrow> ('d, byte list) act) \<Rightarrow> nat \<Rightarrow> nat \<Rightarrow> bool \<Rightarrow> ('d eng, byte list \<times> u32) act" where
  "resumeReadMain env readAt base index original =
     (if nBlocks (profile env) \<le> index \<or> (base \<noteq> 0 \<and> base \<noteq> p_Start (profile env))
      then fail (Errorf ''resume read outside fixed target'')
      else resume_main_pages env readAt base index original [0..<pagesPerBlock] 0)"

fun resume_oob_pages ::
  "'d nand_env \<Rightarrow> nat \<Rightarrow> bool \<Rightarrow> nat list \<Rightarrow> u32 \<Rightarrow> ('d eng, byte list \<times> u32) act" where
  "resume_oob_pages env index original [] acc = ret ([], acc)"
| "resume_oob_pages env index original (page # pages) acc =
     seqE (checkCtx env)
      (bindE (wrapE ''resume OOB block'' (resumeIO env (resumeLimit index original)
                (bindE (read_exactly ''resume OOB read/metadata'' VisibleOOB
                         (on_dev (ReadOOB (device env) (index * EraseBytes + page * PageBytes)))) (\<lambda>record.
                  if allFF record then ret record else fail (Errorf ''resume OOB read/metadata''))))) (\<lambda>(record, delta).
       seqE (recordResumeRead env index page True delta (resumeLimit index original))
        (bindE (resume_oob_pages env index original pages (acc + Corrected delta))
          (\<lambda>(rest, acc'). ret (record @ rest, acc')))))"

definition checkedResumeRead ::
  "'d nand_env \<Rightarrow> nat \<Rightarrow> bool \<Rightarrow> ('d eng, byte list \<times> byte list \<times> nandStats) act" where
  "checkedResumeRead env index original =
     bindE (resumeReadMain env (ReadAt (device env)) 0 index original) (\<lambda>(data, corrected).
     bindE (resume_oob_pages env index original [0..<pagesPerBlock] corrected) (\<lambda>(oob, corrected').
       ret (data, oob, noStats\<lparr>Corrected := corrected'\<rparr>)))"

definition readForSnapshot ::
  "'d nand_env \<Rightarrow> nat \<Rightarrow> snapshot \<Rightarrow> bool \<Rightarrow> ('d eng, byte list \<times> byte list \<times> nandStats) act" where
  "readForSnapshot env index snap programmed =
     (if sn_resume snap
      then checkedResumeRead env index (\<not> programmed \<and> \<not> resumeCandidateBlock index)
      else checkedRead env index True)"

text \<open>\<^verbatim>\<open>context.Background()\<close>, which is never cancelled, in place of the caller's.\<close>

definition background :: "'d nand_env \<Rightarrow> 'd nand_env" where
  "background env = env\<lparr>cancelled := (\<lambda>_. None)\<rparr>"

end
