(* ===== verification/Nand_Engine.thy ===== *)
theory Nand_Engine
  imports Nand_Read
begin

text \<open>
  The NAND writer's engine (\<^verbatim>\<open>engine.go\<close>): the preflight, which reads and journals the
  whole extent, and the execution of a prepared plan, block by block in the write order, with
  a final pass over the extent.
\<close>

subsection \<open>Preflight\<close>

definition preflight_block ::
  "'d nand_env \<Rightarrow> 'd artifactBundle \<Rightarrow> bool \<Rightarrow> nat \<Rightarrow> ('d eng, string \<times> byte list \<times> nandStats) act" where
  "preflight_block env b restore index =
     seqE (checkCtx env)
      (seqE (checkedBlockStatus env index)
       (bindE (checkedRead env index True) (\<lambda>(data, oob, stats).
          if length (Blocks (Plan b)) \<le> index then fail (Panic ''index out of range'')
          else let record = Blocks (Plan b) ! index; hash = sha256 env data in
            seqE (if \<not> restore \<or> \<not> Changed record
                  then seqE (checkE (hash = OriginalSHA256 record)
                               (Errorf ''original data mismatch; no erase permitted''))
                            (checkE (Failed stats = 0 \<and> allFF oob)
                               (Errorf ''uncorrectable ECC or unexpected visible metadata''))
                  else ret ())
             (seqE (wrapE ''save visible OOB'' (on_dev (oobOutput env oob)))
               (seqE (journal env (event0 ''preflight-block'' (int index)
                        \<lparr>ev_Absolute := AbsoluteOffset record, ev_Detail := hash,
                         ev_Corrected := Corrected stats, ev_Failed := Failed stats\<rparr>))
                 (ret (hash, oob, stats)))))))"

fun preflight_loop ::
  "'d nand_env \<Rightarrow> 'd artifactBundle \<Rightarrow> bool \<Rightarrow> nat list \<Rightarrow> snapshot \<Rightarrow> byte list
     \<Rightarrow> ('d eng, snapshot \<times> byte list) act" where
  "preflight_loop env b restore [] snap oobs = ret (snap, oobs)"
| "preflight_loop env b restore (index # rest) snap oobs =
     bindE (preflight_block env b restore index) (\<lambda>(hash, oob, stats).
       preflight_loop env b restore rest
         (snap\<lparr>sn_Hashes := (sn_Hashes snap)[index := hash],
               sn_Corrected := sn_Corrected snap + ucast (Corrected stats),
               sn_Failed := sn_Failed snap + ucast (Failed stats)\<rparr>) (oobs @ oob))"

definition newSnapshot :: "profile \<Rightarrow> bool \<Rightarrow> bool \<Rightarrow> snapshot" where
  "newSnapshot pf restore resume = \<lparr>sn_Hashes = replicate (nBlocks pf) [], sn_Corrected = 0, sn_Failed = 0,
     sn_OOBHash = [], sn_restore = restore, sn_resume = resume, sn_complete = False\<rparr>"

definition preflight :: "'d nand_env \<Rightarrow> 'd artifactBundle \<Rightarrow> bool \<Rightarrow> ('d eng, snapshot) act" where
  "preflight env b restore =
     (let pf = profile env in
      if restore \<and> \<not> p_RestoreSupported pf
      then fail (Errorf ''restore is unsupported by this forward-only profile'')
      else seqE (newStatsTracker env) (seqE (checkGeometry env)
       (bindE (preflight_loop env b restore [0..<nBlocks pf] (newSnapshot pf restore False) [])
         (\<lambda>(snap, oobs).
            seqE (journal env (event0 ''preflight-complete'' (-1)
                    \<lparr>ev_Bytes := p_Span pf, ev_Detail := sha256 env oobs\<rparr>))
             (seqE (check_only env) (ret (snap\<lparr>sn_OOBHash := sha256 env oobs\<rparr>)))))))"

definition Prepare :: "'d nand_env \<Rightarrow> 'd artifactBundle \<Rightarrow> ('d eng, snapshot) act" where
  "Prepare env b = preflight env b False"

subsection \<open>Snapshots\<close>

definition validateSnapshot ::
  "'d nand_env \<Rightarrow> 'd artifactBundle \<Rightarrow> snapshot \<Rightarrow> ('d eng, unit) act" where
  "validateSnapshot env b snap =
     bindE (readS (\<lambda>e. (tracker e, nand_world e))) (\<lambda>(t, w).
       if length (sn_Hashes snap) \<noteq> nBlocks (profile env) \<or> length (Blocks (Plan b)) \<noteq> nBlocks (profile env) \<or>
          sn_Failed snap \<noteq> 0 \<and> \<not> sn_restore snap
       then fail (Errorf ''mapping requires the complete successful preflight of this device'')
       else if sn_resume snap \<noteq> t_resume t \<or>
          sn_resume snap \<and> (\<not> p_ResumeSupported (profile env) \<or> \<not> sn_complete snap \<or> sn_restore snap \<or>
             sn_Failed snap \<noteq> 0 \<or> Failed (t_last t) \<noteq> Failed (t_initial t))
       then fail (Errorf ''resume preflight mode or completeness mismatch'')
       else liftE (mtd_mode env w snap t))"

subsection \<open>Writing one block\<close>

definition block_offset :: "nat \<Rightarrow> nat" where "block_offset index = index * EraseBytes"

text \<open>A page of \<open>0xff\<close> is left as the erase left it.\<close>

fun programPages :: "'d nand_env \<Rightarrow> nat \<Rightarrow> byte list \<Rightarrow> nat list \<Rightarrow> ('d eng, unit) act" where
  "programPages env index target [] = ret ()"
| "programPages env index target (page # pages) =
     (let data = take PageBytes (drop (page * PageBytes) target) in
      if length target < (page + 1) * PageBytes then fail (Panic ''slice bounds out of range'')
      else seqE (if allFF data then ret ()
                 else bindE (maskE ''program page''
                        (on_dev (WriteAt (device env) data (block_offset index + page * PageBytes)))) (\<lambda>n.
                          seqE (checkE (n = PageBytes) (Errorf ''program page'')) (check_only env)))
           (programPages env index target pages))"

definition eraseVerified :: "'d nand_env \<Rightarrow> snapshot \<Rightarrow> nat \<Rightarrow> ('d eng, unit) act" where
  "eraseVerified env snap index =
     seqE (wrapE ''erase block failed; do not reboot automatically''
             (on_dev (Erase (device env) (block_offset index))))
      (bindE (readForSnapshot (background env) index snap True) (\<lambda>(blank, blankOOB, blankStats).
         checkE (allFF blank \<and> allFF blankOOB \<and> Failed blankStats = 0) (Errorf ''erase verification failed'')))"

definition verifyReadback :: "'d nand_env \<Rightarrow> snapshot \<Rightarrow> nat \<Rightarrow> byte list \<Rightarrow> ('d eng, unit) act" where
  "verifyReadback env snap index target =
     bindE (readForSnapshot (background env) index snap True) (\<lambda>(readback, readbackOOB, readbackStats).
       seqE (checkE (readback = target \<and> allFF readbackOOB \<and> Failed readbackStats = 0 \<and>
               (sn_resume snap \<or> Corrected readbackStats = 0)) (Errorf ''readback or ECC verification failed''))
         (journal env (event0 ''block-verified'' (int index)
            \<lparr>ev_Absolute := p_Start (profile env) + block_offset index, ev_Detail := sha256 env readback\<rparr>)))"

definition rewriteBlock :: "'d nand_env \<Rightarrow> snapshot \<Rightarrow> nat \<Rightarrow> byte list \<Rightarrow> ('d eng, unit) act" where
  "rewriteBlock env snap index target = blockE [
     journal env (event0 ''before-erase'' (int index)
       \<lparr>ev_Absolute := p_Start (profile env) + block_offset index\<rparr>),
     check_only env,
     wrapE ''stopped before erasing block'' (checkCtx env),
     eraseVerified env snap index,
     programPages env index target [0..<pagesPerBlock],
     on_dev (Sync (device env)),
     verifyReadback env snap index target]"

definition writeBlock ::
  "'d nand_env \<Rightarrow> 'd artifactBundle \<Rightarrow> snapshot \<Rightarrow> bool \<Rightarrow> nat \<Rightarrow> ('d eng, unit) act" where
  "writeBlock env b snap restore index =
     seqE (wrapE ''stopped between erase blocks'' (checkCtx env))
      (bindE (on_dev (verifiedBlock env b index restore)) (\<lambda>target.
       bindE (readForSnapshot env index snap False) (\<lambda>(current, oob, stats).
         if length (sn_Hashes snap) \<le> index then fail (Panic ''index out of range'')
         else seqE (checkE (sha256 env current = sn_Hashes snap ! index)
                      (Errorf ''NAND changed since preflight; stop''))
           (seqE (checkE (restore \<or> Failed stats = 0 \<and> allFF oob)
                    (Errorf ''ECC/metadata changed since preflight''))
            (seqE (checkedBlockStatus env index)
              (if current = target \<and> Failed stats = 0 \<and> allFF oob
               then journal env (event0 ''already-target'' (int index))
               else rewriteBlock env snap index target))))))"

text \<open>A resumed operation skips its candidate blocks, which already hold the image.\<close>

definition writeOrder :: "'d artifactBundle \<Rightarrow> snapshot \<Rightarrow> nat list" where
  "writeOrder b snap =
     filter (\<lambda>index. \<not> (sn_resume snap \<and> resumeCandidateBlock index)) (WriteOrder (Plan b))"

subsection \<open>The final pass\<close>

fun verifyExtent ::
  "'d nand_env \<Rightarrow> 'd artifactBundle \<Rightarrow> snapshot \<Rightarrow> bool \<Rightarrow> nat list \<Rightarrow> byte list \<Rightarrow> ('d eng, byte list) act" where
  "verifyExtent env b snap restore [] hashed = ret hashed"
| "verifyExtent env b snap restore (index # rest) hashed =
     seqE (checkCtx env) (seqE (checkedBlockStatus env index)
      (bindE (on_dev (verifiedBlock env b index restore)) (\<lambda>target.
       bindE (readForSnapshot env index snap True) (\<lambda>(data, oob, stats).
         seqE (checkE (data = target \<and> allFF oob \<and> Failed stats = 0) (Errorf ''final verification failed''))
          (verifyExtent env b snap restore rest (hashed @ data))))))"

definition finish :: "'d nand_env \<Rightarrow> 'd artifactBundle \<Rightarrow> snapshot \<Rightarrow> byte list \<Rightarrow> ('d eng, unit) act" where
  "finish env b snap hashed = blockE [
     checkE (\<not> sn_resume snap \<or> sha256 env hashed = pl_ImageSHA256 (Plan b))
       (Errorf ''resumed extent does not match the pinned payload''),
     wrapE ''post-write boundary/identity check'' (on_dev (CheckIdentity (device env))),
     on_dev (Sync (device env)),
     check_only env,
     journal env (event0 ''extent-verified-no-reboot'' (-1)
       \<lparr>ev_Bytes := p_Span (profile env), ev_Detail := sha256 env hashed\<rparr>),
     (if sn_resume snap then check_only env else ret ())]"

definition executePrepared ::
  "'d nand_env \<Rightarrow> 'd artifactBundle \<Rightarrow> snapshot \<Rightarrow> bool \<Rightarrow> ('d eng, unit) act" where
  "executePrepared env b snap restore =
     (if restore \<and> \<not> p_RestoreSupported (profile env)
      then fail (Errorf ''restore is unsupported by this forward-only profile'')
      else seqE (if sn_resume snap
                 then seqE (validateSnapshot env b snap)
                           (checkE (\<not> restore) (Errorf ''resume never uses recovery mode''))
                 else ret ())
       (seqE (wrapE ''persist preflight evidence'' (on_dev (persistEvidence env)))
       (seqE (checkCtx env) (seqE (on_dev (CheckIdentity (device env))) (seqE (check_only env)
       (bindE (EnableWrites (device env) b snap) (\<lambda>snap.
         seqE (check_only env)
         (seqE (forE (writeOrder b snap) (writeBlock env b snap restore))
         (bindE (verifyExtent env b snap restore [0..<nBlocks (profile env)] []) (finish env b snap))))))))))"

definition Execute ::
  "'d nand_env \<Rightarrow> 'd artifactBundle \<Rightarrow> bool \<Rightarrow> string \<Rightarrow> ('d eng, unit) act" where
  "Execute env b restore approval =
     (let pf = profile env in
      if restore \<and> \<not> p_RestoreSupported pf
      then fail (Errorf ''restore is unsupported by this forward-only profile'')
      else if approval \<noteq> (if restore then p_RestoreAck pf else p_InstallAck pf)
      then fail (Errorf ''explicit approval is required'')
      else bindE (preflight env b restore) (\<lambda>snap. executePrepared env b snap restore))"

end
