(* ===== verification/Nand_Resume.thy ===== *)
theory Nand_Resume
  imports Nand_Engine
begin

text \<open>
  The fixed resumption of the interrupted pilot (\<^verbatim>\<open>resume.go\<close>): blocks 1 to 136 already hold
  the image, block 0 and the rest the original data. The read-only preparation, the plan, the
  execution, and the two comparisons made while the partition is created.
\<close>

definition ResumeAck :: string where
  "ResumeAck = ''RESUME-rootfs-pilot-pty01-02920000-04fa0000-page-ecc1''"

definition ResumePreflightAck :: string where
  "ResumePreflightAck = ''READ-ONLY-RESUME-rootfs-pilot-pty01-02920000-04fa0000-page-ecc1''"

definition resumeKnownHash :: string where
  "resumeKnownHash = ''4c4df6cd8ad6f6f7e384ad3d54a760d36d6134539cdc2bbdeece9e783edb197c''"

definition checkResumeApproval :: "'d nand_env \<Rightarrow> string \<Rightarrow> string \<Rightarrow> go_error + unit" where
  "checkResumeApproval env approval want =
     (if \<not> p_ResumeSupported (profile env)
      then Inl (Errorf ''resume requires the explicit nandpilot build profile; no device accessed'')
      else if approval \<noteq> want then Inl (Errorf ''explicit approval is required; no device accessed'')
      else Inr ())"

text \<open>The checks of one record of the plan, and then of both of its artifacts.\<close>

definition resume_record_ok :: "'d nand_env \<Rightarrow> plan \<Rightarrow> nat \<Rightarrow> bool" where
  "resume_record_ok env p index \<longleftrightarrow>
     (let r = Blocks p ! index in
      b_Index r = index \<and> AbsoluteOffset r = p_Start (profile env) + index * EraseBytes \<and> Changed r \<and>
      WriteOrder p ! index = (index + 1) mod nBlocks (profile env))"

definition verify_only :: "'d nand_env \<Rightarrow> 'd artifactBundle \<Rightarrow> nat \<Rightarrow> bool \<Rightarrow> ('d, unit) act" where
  "verify_only env b index restore = bindE (verifiedBlock env b index restore) (\<lambda>_. ret ())"

definition validateResumeSources :: "'d nand_env \<Rightarrow> 'd artifactBundle \<Rightarrow> ('d, unit) act" where
  "validateResumeSources env b =
     (let pf = profile env; p = Plan b in blockE [
        checkE (p_ResumeSupported pf \<and> length (b_files b) = 2 \<and> p_Start pf = 0x02920000 \<and>
            EndByte pf = 0x04fa0000 \<and> nBlocks pf = 308)
          (Errorf ''resume requires the pinned PTY01 pilot source descriptors''),
        checkE (f_id (b_image b) \<noteq> None \<and> f_id (b_original b) \<noteq> None \<and>
            f_id (b_image b) = f_id (b_files b ! 0) \<and> f_id (b_original b) = f_id (b_files b ! 1))
          (Errorf ''resume source descriptor mismatch''),
        checkFile env (b_image b) (p_Span pf) (p_ImageHash pf),
        checkFile env (b_original b) (p_Span pf) (p_OriginalHash pf),
        checkE (header_ok env p \<and> ChangedBlocks p = nBlocks pf \<and> length (Blocks p) = nBlocks pf \<and>
            length (WriteOrder p) = nBlocks pf)
          (Errorf ''resume plan is not the complete pinned pilot''),
        liftE (validatePlanHashes pf p),
        forE [0..<length (Blocks p)] (\<lambda>index. blockE [
          checkE (resume_record_ok env p index) (Errorf ''resume plan geometry/order mismatch''),
          verify_only env b index False,
          verify_only env b index True]),
        checkE (ProbeSHA256 (Blocks p ! resumeLastCandidate) = resumeKnownHash)
          (Errorf ''resume block 136 candidate pin mismatch'')])"

record resumePlan =
  rp_Plan :: plan
  rp_WriteOrder :: "nat list"
  CandidateBlocks :: string
  OriginalBlocks :: string
  KnownAbsolutePage :: nat
  CorrectionScope :: string
  MainCorrectionLimit :: u32
  OOBCorrectionLimit :: u32
  rp_Approval :: string

definition PlanResume :: "'d nand_env \<Rightarrow> 'd artifactBundle \<Rightarrow> ('d, resumePlan) act" where
  "PlanResume env b =
     seqE (validateResumeSources env b)
       (ret \<lparr>rp_Plan = Plan b,
             rp_WriteOrder = [resumeLastCandidate + 1..<nBlocks (profile env)] @ [0],
             CandidateBlocks = ''1..136'', OriginalBlocks = ''0,137..307'',
             KnownAbsolutePage = (p_Start (profile env) + resumeLastCandidate * EraseBytes) div PageBytes
               + resumeKnownPage,
             CorrectionScope = ''every candidate page; original bytes retain the existing preflight policy'',
             MainCorrectionLimit = 1, OOBCorrectionLimit = 1, rp_Approval = ResumeAck\<rparr>)"

subsection \<open>Preparation\<close>

definition resume_block ::
  "'d nand_env \<Rightarrow> 'd artifactBundle \<Rightarrow> snapshot \<Rightarrow> nat \<Rightarrow> ('d eng, string \<times> byte list \<times> nandStats) act" where
  "resume_block env b snap index =
     seqE (checkCtx env) (seqE (checkedBlockStatus env index)
      (bindE (on_dev (verifiedBlock env b index (\<not> resumeCandidateBlock index))) (\<lambda>expected.
       bindE (readForSnapshot env index snap False) (\<lambda>(data, oob, stats).
         seqE (checkE (data = expected) (Errorf ''resume mixed-state mismatch; no erase permitted''))
          (seqE (on_dev (oobOutput env oob))
           (seqE (journal env (event0 ''resume-preflight-block'' (int index)
                    \<lparr>ev_Absolute := p_Start (profile env) + index * EraseBytes,
                     ev_Detail := sha256 env data, ev_Corrected := Corrected stats\<rparr>))
             (ret (sha256 env data, oob, stats))))))))"

fun resume_loop ::
  "'d nand_env \<Rightarrow> 'd artifactBundle \<Rightarrow> nat list \<Rightarrow> snapshot \<Rightarrow> byte list \<Rightarrow> ('d eng, snapshot \<times> byte list) act" where
  "resume_loop env b [] snap oobs = ret (snap, oobs)"
| "resume_loop env b (index # rest) snap oobs =
     bindE (resume_block env b snap index) (\<lambda>(hash, oob, stats).
       resume_loop env b rest
         (snap\<lparr>sn_Hashes := (sn_Hashes snap)[index := hash],
               sn_Corrected := sn_Corrected snap + ucast (Corrected stats)\<rparr>) (oobs @ oob))"

definition resumeStartDetail :: "nandStats \<Rightarrow> string" where
  "resumeStartDetail stats = ''immutable initial stats={Corrected:'' @ decimal (unat (Corrected stats)) @
     '' Failed:'' @ decimal (unat (Failed stats)) @ '' BadBlocks:'' @ decimal (unat (BadBlocks stats)) @
     '' BBTBlocks:'' @ decimal (unat (BBTBlocks stats)) @
     ''}; candidate=1..136 original=0,137..307; each candidate page main<=1 OOB<=1''"

definition prepareResume :: "'d nand_env \<Rightarrow> 'd artifactBundle \<Rightarrow> ('d eng, snapshot) act" where
  "prepareResume env b =
     (let pf = profile env in
      seqE (checkCtx env)
      (bindE (readS (\<lambda>e. mtd_resume_ok env (nand_world e))) (\<lambda>mode_ok.
       seqE (checkE mode_ok (Errorf ''resume requires a non-recovery resume MTD handle''))
      (seqE (newStatsTracker env)
      (seqE (updS (\<lambda>e. e\<lparr>tracker := (tracker e)\<lparr>t_resume := True, t_journal := True\<rparr>\<rparr>))
      (seqE (bindE (readS (\<lambda>e. t_initial (tracker e))) (\<lambda>initial.
         journal env (event0 ''resume-start'' (-1) \<lparr>ev_Detail := resumeStartDetail initial\<rparr>)))
      (seqE (checkGeometry env)
      (seqE (check_only env)
      (bindE (resume_loop env b [0..<nBlocks pf] (newSnapshot pf False True) []) (\<lambda>(snap, oobs).
        seqE (journal env (event0 ''resume-preflight-complete'' (-1)
                \<lparr>ev_Bytes := p_Span pf, ev_Detail := sha256 env oobs\<rparr>))
        (seqE (check_only env)
        (seqE (checkCtx env)
          (ret (snap\<lparr>sn_OOBHash := sha256 env oobs, sn_complete := True\<rparr>))))))))))))))"

definition PrepareResume :: "'d nand_env \<Rightarrow> 'd artifactBundle \<Rightarrow> string \<Rightarrow> ('d eng, snapshot) act" where
  "PrepareResume env b approval =
     seqE (liftE (checkResumeApproval env approval ResumePreflightAck))
      (seqE (on_dev (validateResumeSources env b)) (prepareResume env b))"

definition ExecuteResume :: "'d nand_env \<Rightarrow> 'd artifactBundle \<Rightarrow> string \<Rightarrow> ('d eng, unit) act" where
  "ExecuteResume env b approval =
     seqE (liftE (checkResumeApproval env approval ResumeAck))
      (seqE (on_dev (validateResumeSources env b))
       (bindE (prepareResume env b) (\<lambda>snap. executePrepared env b snap False)))"

subsection \<open>Comparisons while mapping\<close>

definition recheck_resume_block ::
  "'d nand_env \<Rightarrow> 'd artifactBundle \<Rightarrow> snapshot \<Rightarrow> nat \<Rightarrow> ('d eng, unit) act" where
  "recheck_resume_block env b snap index =
     seqE (checkCtx env)
      (bindE (on_dev (verifiedBlock env b index False)) (\<lambda>candidate.
       bindE (on_dev (verifiedBlock env b index True)) (\<lambda>original.
         let expected = (if resumeCandidateBlock index then candidate else original) in
         if length (sn_Hashes snap) \<le> index then fail (Panic ''index out of range'')
         else seqE (checkE (sha256 env expected = sn_Hashes snap ! index)
                      (Errorf ''resume mapping preflight hash mismatch''))
          (seqE (checkedBlockStatus env index)
           (bindE (readForSnapshot env index snap False) (\<lambda>(data, _, _).
             checkE (data = expected) (Errorf ''resume mapping mixed-state changed'')))))))"

definition recheckResumeMapping ::
  "'d nand_env \<Rightarrow> 'd artifactBundle \<Rightarrow> snapshot \<Rightarrow> ('d eng, unit) act" where
  "recheckResumeMapping env b snap =
     seqE (check_only env) (seqE (checkGeometry env)
      (seqE (forE [0..<nBlocks (profile env)] (recheck_resume_block env b snap)) (check_only env)))"

text \<open>\<open>master\<close> and \<open>part\<close> are the read operations of the two descriptors.\<close>

definition compareResumePartition ::
  "'d nand_env \<Rightarrow> 'd artifactBundle \<Rightarrow> snapshot \<Rightarrow> (nat \<Rightarrow> nat \<Rightarrow> ('d, byte list) act)
     \<Rightarrow> (nat \<Rightarrow> nat \<Rightarrow> ('d, byte list) act) \<Rightarrow> ('d eng, unit) act" where
  "compareResumePartition env b snap master part =
     seqE (maskE ''resume partition comparison requires a resume snapshot'' (validateSnapshot env b snap))
      (seqE (checkE (sn_resume snap) (Errorf ''resume partition comparison requires a resume snapshot''))
       (seqE (forE [0..<nBlocks (profile env)] (\<lambda>index.
          let original = (\<not> resumeCandidateBlock index) in
          seqE (checkedBlockStatus env index)
           (bindE (resumeReadMain env master (p_Start (profile env)) index original) (\<lambda>(main, _).
            bindE (resumeReadMain env part 0 index original) (\<lambda>(relative, _).
              if length (sn_Hashes snap) \<le> index then fail (Panic ''index out of range'')
              else checkE (main = relative \<and> sha256 env main = sn_Hashes snap ! index)
                     (Errorf ''resume partition mapping mismatch''))))))
        (checkCtx env)))"

end
