(* ===== verification/Nand_Flash.thy ===== *)
theory Nand_Flash
  imports Nand_Resume
begin

text \<open>
  What the engine relies on of a flash device, as a locale, and what it achieves on any such
  device. \<open>cells w i\<close> is the content of the \<open>i\<close>-th erase block of the extent. Only
  \<open>Erase\<close> and \<open>WriteAt\<close> touch it, each only in its own block, and a full read returns it.
\<close>

locale flash_reads =
  fixes env :: "'d nand_env" and b :: "'d artifactBundle" and cells :: "'d \<Rightarrow> nat \<Rightarrow> byte list"
  assumes cells_length: "length (cells w i) = EraseBytes"
    and quiet: "same cells (Geometry (device env))" "same cells (CheckIdentity (device env))"
      "same cells (ReadAt (device env) n off)" "same cells (ReadOOB (device env) off)"
      "same cells (IsBad (device env) off)" "same cells (dev_Stats (device env))"
      "same cells (Sync (device env))" "same cells (Record env ev)" "same cells (oobOutput env bs)"
      "same cells (persistEvidence env)"
      "same cells (f_ReadAt (b_image b) n off)" "same cells (f_ReadAt (b_original b) n off)"
      "same cells (f_Size (b_image b))" "same cells (f_Size (b_original b))"
    and read_cells: "ReadAt (device env) n off w = (Inr bs, w') \<Longrightarrow> length bs = n \<Longrightarrow>
      off mod EraseBytes + n \<le> EraseBytes \<Longrightarrow>
      bs = take n (drop (off mod EraseBytes) (cells w (off div EraseBytes)))"

text \<open>The writing operations, and the mapping of the partition before them.\<close>

locale flash = flash_reads env b cells
  for env :: "'d nand_env" and b :: "'d artifactBundle" and cells :: "'d \<Rightarrow> nat \<Rightarrow> byte list" +
  assumes enable_quiet: "same (\<lambda>e. cells (nand_world e)) (EnableWrites (device env) b snap)"
    and enable_snapshot: "EnableWrites (device env) b snap e = (Inr snap', e') \<Longrightarrow>
      sn_Hashes snap' = sn_Hashes snap \<and> sn_resume snap' = sn_resume snap"
    and erase_frame: "i \<noteq> off div EraseBytes \<Longrightarrow> cells (snd (Erase (device env) off w)) i = cells w i"
    and write_frame: "i \<noteq> off div EraseBytes \<Longrightarrow> cells (snd (WriteAt (device env) bs off w)) i = cells w i"

definition original_block ::
  "'d nand_env \<Rightarrow> 'd artifactBundle \<Rightarrow> bool \<Rightarrow> nat \<Rightarrow> (nat \<Rightarrow> byte list) \<Rightarrow> bool" where
  "original_block env b restore i c \<longleftrightarrow> \<not> restore \<or> \<not> Changed (Blocks (Plan b) ! i) \<longrightarrow>
     sha256 env (c i) = OriginalSHA256 (Blocks (Plan b) ! i)"

text \<open>A block that holds what the plan wants there.\<close>

definition target_block ::
  "'d nand_env \<Rightarrow> 'd artifactBundle \<Rightarrow> bool \<Rightarrow> nat \<Rightarrow> (nat \<Rightarrow> byte list) \<Rightarrow> bool" where
  "target_block env b restore i c \<longleftrightarrow> sha256 env (c i) = expectedSHA256 (Blocks (Plan b) ! i) restore"

text \<open>
  \<open>prefix_done \<dots> order k c0 c\<close>: the first \<open>k\<close> blocks of the order hold their targets, the
  block after them may be in between, and every other block is as it was in \<open>c0\<close>.
\<close>

definition prefix_done ::
  "'d nand_env \<Rightarrow> 'd artifactBundle \<Rightarrow> bool \<Rightarrow> nat list \<Rightarrow> nat \<Rightarrow> (nat \<Rightarrow> byte list) \<Rightarrow> (nat \<Rightarrow> byte list) \<Rightarrow> bool" where
  "prefix_done env b restore order k c0 c \<longleftrightarrow> k \<le> length order \<and>
     (\<forall>i \<in> set (take k order). target_block env b restore i c) \<and>
     (\<forall>i. i \<notin> set (take (Suc k) order) \<longrightarrow> c i = c0 i)"

lemma on_dev_same: "same f m \<Longrightarrow> keeps (\<lambda>e. P (f (nand_world e))) (on_dev m)"
  by (rule keepsI) (simp add: on_dev_def split_beta same_def)

lemma keeps_tracker: "keeps (\<lambda>e. P (nand_world e)) (updS (\<lambda>e. e\<lparr>tracker := g (tracker e)\<rparr>))"
  by (simp add: keeps_updS)

lemma background_simps [simp]:
  "device (background env) = device env" "profile (background env) = profile env"
  "sha256 (background env) = sha256 env" "Record (background env) = Record env"
  "oobOutput (background env) = oobOutput env" "persistEvidence (background env) = persistEvidence env"
  by (simp_all add: background_def)

context flash_reads begin

abbreviation held :: "((nat \<Rightarrow> byte list) \<Rightarrow> bool) \<Rightarrow> 'd eng \<Rightarrow> bool" where
  "held P e \<equiv> P (cells (nand_world e))"

lemmas dev_quiet = quiet [THEN on_dev_same]
lemmas cells_keeps = quiet [THEN same_keeps]

lemma background_flash: "flash_reads (background env) b cells"
  using flash_reads_axioms unfolding flash_reads_def by simp

lemma checkCtx_quiet: "keeps (held P) (checkCtx env)"
  unfolding checkCtx_def by (intro keeps_rules)

lemma journal_quiet: "keeps (held P) (journal env ev)"
  unfolding journal_def by (rule dev_quiet)

lemma checkRead_quiet: "keeps (held P) (checkRead env limit)"
  unfolding checkRead_def by (intro keeps_rules dev_quiet keeps_tracker)

lemma check_quiet: "keeps (held P) (check env)" "keeps (held P) (check_only env)"
  unfolding check_only_def check_def by (intro keeps_rules checkRead_quiet)+

lemma newStatsTracker_quiet: "keeps (held P) (newStatsTracker env)"
  unfolding newStatsTracker_def by (intro keeps_rules dev_quiet) (simp add: keeps_updS)

lemma status_quiet: "keeps (held P) (checkedBlockStatus env index)"
  unfolding checkedBlockStatus_def by (intro keeps_rules dev_quiet check_quiet)

lemma geometry_quiet: "keeps (held P) (checkGeometry env)"
  unfolding checkGeometry_def by (intro keeps_rules dev_quiet)

lemma record_quiet: "keeps (held P) (recordResumeRead env index page oob stats limit)"
  unfolding recordResumeRead_def by (intro keeps_rules journal_quiet)

lemma exactly_quiet: "keeps (held P) m \<Longrightarrow> keeps (held P) (read_exactly msg n m)"
  unfolding read_exactly_def by (intro keeps_rules)

lemma oob_quiet: "keeps (held P) (read_oob env index pages)"
proof (induction pages)
  case (Cons page pages)
  then show ?case unfolding read_oob.simps by (intro keeps_rules exactly_quiet dev_quiet)
qed (simp add: keeps_ret)

lemma resumeIO_quiet: "keeps (held P) m \<Longrightarrow> keeps (held P) (resumeIO env limit m)"
  unfolding resumeIO_def by (intro keeps_rules check_quiet checkRead_quiet)

lemma resume_oob_quiet: "keeps (held P) (resume_oob_pages env index original pages acc)"
proof (induction pages arbitrary: acc)
  case (Cons page pages)
  then show ?case
    unfolding resume_oob_pages.simps
    by (intro keeps_rules checkCtx_quiet resumeIO_quiet exactly_quiet dev_quiet record_quiet)
qed (simp add: keeps_ret)

text \<open>What a read returns is what the block holds.\<close>

lemma read_value:
  assumes "on_dev (ReadAt (device env) n off) e = (Inr bs, e')" "length bs = n"
    "off mod EraseBytes + n \<le> EraseBytes"
  shows "bs = take n (drop (off mod EraseBytes) (cells (nand_world e') (off div EraseBytes))) \<and>
    cells (nand_world e') = cells (nand_world e)"
proof -
  from assms(1) have r: "ReadAt (device env) n off (nand_world e) = (Inr bs, nand_world e')"
    by (auto simp: on_dev_def split: prod.splits)
  from sameD [OF quiet(3) r] read_cells [OF r assms(2,3)] show ?thesis by simp
qed

lemma exactly_value:
  assumes "off mod EraseBytes + n \<le> EraseBytes"
  shows "triple (held P) (read_exactly msg n (on_dev (ReadAt (device env) n off)))
    (\<lambda>bs. held (\<lambda>c. P c \<and> bs = take n (drop (off mod EraseBytes) (c (off div EraseBytes))))) (\<lambda>_. held P)"
proof (rule tripleI)
  fix e err e'
  assume "held P e" "read_exactly msg n (on_dev (ReadAt (device env) n off)) e = (Inl err, e')"
  then show "held P e'" by (rule tripleD_error [OF exactly_quiet [where P = P, OF dev_quiet(3)]])
next
  fix e bs e'
  assume "held P e" "read_exactly msg n (on_dev (ReadAt (device env) n off)) e = (Inr bs, e')"
  then show "held (\<lambda>c. P c \<and> bs = take n (drop (off mod EraseBytes) (c (off div EraseBytes)))) e'"
    unfolding read_exactly_def
    by (auto elim!: act_elims split: if_splits dest!: read_value [OF _ _ assms])
qed

lemma checkedRead_value:
  "triple (held P) (checkedRead env i oob)
    (\<lambda>(data, _, _). held (\<lambda>c. P c \<and> data = c i)) (\<lambda>_. held P)"
proof -
  have all: "bs = take EraseBytes (drop (i * EraseBytes mod EraseBytes) (cells w (i * EraseBytes div EraseBytes)))
      \<longleftrightarrow> bs = cells w i" for bs w
    using cells_length [of w i] by (simp add: EraseBytes_def)
  have data: "triple (held P) (read_exactly msg EraseBytes (on_dev (ReadAt (device env) EraseBytes (i * EraseBytes))))
      (\<lambda>data. held (\<lambda>c. P c \<and> data = c i)) (\<lambda>_. held P)" for msg
    by (rule triple_conseq [OF exactly_value]) (auto simp: EraseBytes_def cells_length)
  have rest: "triple (held (\<lambda>c. P c \<and> data = c i)) m (\<lambda>_. held (\<lambda>c. P c \<and> data = c i)) (\<lambda>_. held P)"
    if "keeps (held (\<lambda>c. P c \<and> data = c i)) m" for m :: "('d eng, 'x) act" and data
    by (rule triple_conseq [OF that]) simp_all
  show ?thesis
    unfolding checkedRead_def
    by (intro triple_bindE [OF check_quiet(1)] triple_bindE [OF data] triple_bindE [OF rest]
        rest check_quiet keeps_if oob_quiet keeps_ret triple_if triple_fail triple_ret) auto
qed

lemma resumeIO_value:
  fixes m :: "('d eng, 'x) act"
  assumes "triple (held P) m (\<lambda>x. held (Q x)) (\<lambda>_. held P)" and "\<And>x c. Q x c \<Longrightarrow> P c"
  shows "triple (held P) (resumeIO env limit m) (\<lambda>(x, _). held (Q x)) (\<lambda>_. held P)"
proof -
  have after: "triple (held (case_sum (\<lambda>_. P) Q r)) (checkRead env limit) (\<lambda>_. held (case_sum (\<lambda>_. P) Q r)) (\<lambda>_. held P)"
    for r :: "go_error + 'x"
    by (rule triple_conseq [OF checkRead_quiet [where P = "case_sum (\<lambda>_. P) Q r"]]) (cases r; use assms(2) in auto)+
  have m: "triple (held P) m (\<lambda>x. held (case_sum (\<lambda>_. P) Q (Inr x :: go_error + 'x)))
      (\<lambda>e. held (case_sum (\<lambda>_. P) Q (Inl e :: go_error + 'x)))"
    using assms(1) by simp
  show ?thesis
    unfolding resumeIO_def
    by (rule kept_readS triple_if triple_bindE [OF check_quiet(1)] triple_tryE [OF m] triple_bindE [OF after]
        triple_case_sum triple_fail triple_ret | simp)+
qed

lemma page_offset:
  "k < pagesPerBlock \<Longrightarrow> (i * EraseBytes + k * PageBytes) mod EraseBytes = k * PageBytes \<and>
     (i * EraseBytes + k * PageBytes) div EraseBytes = i \<and> k * PageBytes + PageBytes \<le> EraseBytes"
  by (simp add: pagesPerBlock_def PageBytes_def EraseBytes_def)

lemma main_pages_value:
  assumes "k \<le> pagesPerBlock"
  shows "triple (held P) (resume_main_pages env (ReadAt (device env)) 0 i original [k..<pagesPerBlock] acc)
    (\<lambda>(data, _). held (\<lambda>c. P c \<and> data = drop (k * PageBytes) (c i))) (\<lambda>_. held P)"
  using assms
proof (induction "pagesPerBlock - k" arbitrary: k acc P)
  case 0
  then have "k = pagesPerBlock" by simp
  then show ?case
    using cells_length by (auto simp: triple_def ret_def pagesPerBlock_def PageBytes_def EraseBytes_def)
next
  case (Suc n)
  then have k: "k < pagesPerBlock" and pages: "[k..<pagesPerBlock] = k # [Suc k..<pagesPerBlock]"
    by (simp_all add: upt_conv_Cons)
  let ?Q = "\<lambda>part c. P c \<and> part = take PageBytes (drop (k * PageBytes) (c i))"
  have part: "triple (held P) (read_exactly msg PageBytes
        (on_dev (ReadAt (device env) PageBytes (0 + i * EraseBytes + k * PageBytes)))) (\<lambda>x. held (?Q x)) (\<lambda>_. held P)" for msg
    by (rule triple_conseq [OF exactly_value]) (use page_offset [OF k, of i] in auto)
  have io: "triple (held P) (wrapE msg (resumeIO env limit (read_exactly msg' PageBytes
        (on_dev (ReadAt (device env) PageBytes (0 + i * EraseBytes + k * PageBytes))))))
      (\<lambda>(x, _). held (?Q x)) (\<lambda>_. held P)" for msg msg' limit
    by (rule triple_wrapE, rule resumeIO_value [OF part]) simp
  have log: "triple (held (?Q x)) (recordResumeRead env i k False st limit) (\<lambda>_. held (?Q x)) (\<lambda>_. held P)" for x st limit
    by (rule triple_conseq [OF record_quiet [where P = "?Q x"]]) simp_all
  have rest: "triple (held (?Q x)) (resume_main_pages env (ReadAt (device env)) 0 i original [Suc k..<pagesPerBlock] acc')
      (\<lambda>(data, _). held (\<lambda>c. ?Q x c \<and> data = drop (Suc k * PageBytes) (c i))) (\<lambda>_. held P)" for x acc'
    by (rule triple_conseq [OF Suc.hyps(1) [where P = "?Q x"]]) (use Suc.hyps(2) k in auto)
  have join: "take n (drop m l) @ drop (n + m) l = drop m l" for n m and l :: "byte list"
    by (metis append_take_drop_id drop_drop)
  show ?case
    unfolding pages resume_main_pages.simps
    by (rule triple_seqE [OF checkCtx_quiet], rule triple_bindE [OF io], simp only: split_beta,
        rule triple_seqE [OF log], rule triple_bindE [OF rest], rule triple_ret)
       (simp add: join split_beta)
qed

lemma checkedResumeRead_value:
  "triple (held P) (checkedResumeRead env i original)
    (\<lambda>(data, _, _). held (\<lambda>c. P c \<and> data = c i)) (\<lambda>_. held P)"
proof -
  have main: "triple (held P) (resumeReadMain env (ReadAt (device env)) 0 i original)
      (\<lambda>(data, _). held (\<lambda>c. P c \<and> data = c i)) (\<lambda>_. held P)"
    unfolding resumeReadMain_def
    by (rule triple_if, rule triple_fail, assumption, rule triple_conseq [OF main_pages_value [of 0]]) auto
  have oob: "triple (held (\<lambda>c. P c \<and> data = c i)) (resume_oob_pages env i original ps acc)
      (\<lambda>_. held (\<lambda>c. P c \<and> data = c i)) (\<lambda>_. held P)" for data ps acc
    by (rule triple_conseq [OF resume_oob_quiet [where P = "\<lambda>c. P c \<and> data = c i"]]) simp_all
  show ?thesis
    unfolding checkedResumeRead_def
    by (rule triple_bindE [OF main], simp only: split_beta, rule triple_bindE, rule oob,
        rule triple_case_prod, rule triple_ret) simp
qed

lemma readForSnapshot_value:
  "triple (held P) (readForSnapshot env i snap programmed)
    (\<lambda>(data, _, _). held (\<lambda>c. P c \<and> data = c i)) (\<lambda>_. held P)"
  unfolding readForSnapshot_def by (intro triple_if checkedRead_value checkedResumeRead_value)

lemma readForSnapshot_quiet: "keeps (held P) (readForSnapshot env i snap programmed)"
  by (rule triple_conseq [OF readForSnapshot_value]) auto

text \<open>The preflight keeps the extent, and a successful one has seen the original data.\<close>

lemma preflight_block_value:
  "triple (held P) (preflight_block env b restore i)
    (\<lambda>_. held (\<lambda>c. P c \<and> original_block env b restore i c)) (\<lambda>_. held P)"
proof -
  let ?R = "\<lambda>data c. P c \<and> data = c i"
  have test: "triple (held (?R data)) (if \<not> restore \<or> \<not> Changed (Blocks (Plan b) ! i)
        then seqE (checkE (sha256 env data = OriginalSHA256 (Blocks (Plan b) ! i)) e1) (checkE x e2)
        else ret ()) (\<lambda>_. held (\<lambda>c. P c \<and> original_block env b restore i c)) (\<lambda>_. held P)" for data e1 e2 x
    by (rule tripleI) (auto simp: checkE_def original_block_def elim!: act_elims split: if_splits)
  have later: "triple (held (\<lambda>c. P c \<and> original_block env b restore i c)) m
      (\<lambda>_. held (\<lambda>c. P c \<and> original_block env b restore i c)) (\<lambda>_. held P)"
    if "keeps (held (\<lambda>c. P c \<and> original_block env b restore i c)) m" for m :: "('d eng, 'x) act"
    by (rule triple_conseq [OF that]) simp_all
  note quiet_later = later [OF keeps_wrapE [OF dev_quiet(9)]] later [OF journal_quiet]
  show ?thesis
    unfolding preflight_block_def Let_def
    by (rule triple_seqE [OF checkCtx_quiet], rule triple_seqE [OF status_quiet],
        rule triple_bindE [OF checkedRead_value], simp only: split_beta,
        rule triple_if, rule triple_fail, simp, rule triple_seqE [OF test],
        rule triple_seqE [OF quiet_later(1)], rule triple_seqE [OF quiet_later(2)], rule triple_ret)
qed

lemma preflight_loop_value:
  "triple (held P) (preflight_loop env b restore is snap oobs)
    (\<lambda>_. held (\<lambda>c. P c \<and> (\<forall>i \<in> set is. original_block env b restore i c))) (\<lambda>_. held P)"
proof (induction "is" arbitrary: snap oobs P)
  case (Cons i "is")
  have rest: "triple (held (\<lambda>c. P c \<and> original_block env b restore i c)) (preflight_loop env b restore is snap oobs)
      (\<lambda>_. held (\<lambda>c. P c \<and> (\<forall>j \<in> set (i # is). original_block env b restore j c))) (\<lambda>_. held P)" for snap oobs
    by (rule triple_conseq [OF Cons [where P = "\<lambda>c. P c \<and> original_block env b restore i c"]]) auto
  show ?case
    unfolding preflight_loop.simps
    by (rule triple_bindE [OF preflight_block_value], rule triple_case_prod, rule triple_case_prod, rule rest)
qed (simp add: triple_ret)

lemma preflight_value:
  "triple (held P) (preflight env b restore)
    (\<lambda>_. held (\<lambda>c. P c \<and> (\<forall>i < nBlocks (profile env). original_block env b restore i c))) (\<lambda>_. held P)"
proof -
  let ?Q = "\<lambda>c. P c \<and> (\<forall>i < nBlocks (profile env). original_block env b restore i c)"
  have loop: "triple (held P) (preflight_loop env b restore [0..<nBlocks (profile env)] snap oobs)
      (\<lambda>_. held ?Q) (\<lambda>_. held P)" for snap oobs
    by (rule triple_conseq [OF preflight_loop_value]) auto
  have later: "triple (held ?Q) m (\<lambda>_. held ?Q) (\<lambda>_. held P)" if "keeps (held ?Q) m" for m :: "('d eng, 'x) act"
    by (rule triple_conseq [OF that]) simp_all
  show ?thesis
    unfolding preflight_def Let_def
    by (rule triple_if, rule triple_fail, assumption, rule triple_seqE [OF newStatsTracker_quiet],
        rule triple_seqE [OF geometry_quiet], rule triple_bindE [OF loop], rule triple_case_prod,
        rule triple_seqE [OF later [OF journal_quiet]], rule triple_seqE [OF later [OF check_quiet(2)]],
        rule triple_ret)
qed

lemma verifiedBlock_value:
  "triple (held P) (on_dev (verifiedBlock env b i restore))
    (\<lambda>data. held (\<lambda>c. P c \<and> sha256 env data = expectedSHA256 (Blocks (Plan b) ! i) restore)) (\<lambda>_. held P)"
proof (rule tripleI)
  have q: "same cells (verifiedBlock env b i restore)"
    unfolding verifiedBlock_def block_def
    by (rule keeps_same, intro keeps_rules) (cases restore; simp; rule cells_keeps [where P = "\<lambda>x. x = c" for c])
  show "held P e'" if "held P e" "on_dev (verifiedBlock env b i restore) e = (Inl err, e')" for e err e'
    by (rule tripleD_error [OF on_dev_same [OF q, where P = P] that])
  show "held (\<lambda>c. P c \<and> sha256 env data = expectedSHA256 (Blocks (Plan b) ! i) restore) e'"
    if "held P e" "on_dev (verifiedBlock env b i restore) e = (Inr data, e')" for e data e'
  proof
    show "held P e'" by (rule tripleD_value [OF on_dev_same [OF q, where P = P] that])
    from that(2) show "sha256 env data = expectedSHA256 (Blocks (Plan b) ! i) restore"
      by (auto simp: on_dev_def verifiedBlock_def elim!: act_elims split: prod.splits if_splits)
  qed
qed

lemmas background_quiet = flash_reads.readForSnapshot_quiet [OF background_flash, unfolded background_simps]
lemmas background_value = flash_reads.readForSnapshot_value [OF background_flash, unfolded background_simps]

lemma verifyExtent_value:
  "triple (held P) (verifyExtent env b snap restore is hashed)
    (\<lambda>_. held (\<lambda>c. P c \<and> (\<forall>i \<in> set is. target_block env b restore i c))) (\<lambda>_. held P)"
proof (induction "is" arbitrary: hashed P)
  case (Cons i "is")
  let ?T = "\<lambda>target. sha256 env target = expectedSHA256 (Blocks (Plan b) ! i) restore"
  let ?Q = "\<lambda>c. P c \<and> target_block env b restore i c"
  have read: "triple (held (\<lambda>c. P c \<and> ?T target)) (readForSnapshot env i snap True)
      (\<lambda>(data, _, _). held (\<lambda>c. (P c \<and> ?T target) \<and> data = c i)) (\<lambda>_. held P)" for target
    by (rule triple_conseq [OF readForSnapshot_value [where P = "\<lambda>c. P c \<and> ?T target"]]) auto
  have test: "triple (held (\<lambda>c. (P c \<and> ?T target) \<and> data = c i)) (checkE (data = target \<and> x) err)
      (\<lambda>_. held ?Q) (\<lambda>_. held P)" for target data x err
    by (rule triple_checkE) (auto simp: target_block_def)
  have rest: "triple (held ?Q) (verifyExtent env b snap restore is hashed)
      (\<lambda>_. held (\<lambda>c. P c \<and> (\<forall>j \<in> set (i # is). target_block env b restore j c))) (\<lambda>_. held P)" for hashed
    by (rule triple_conseq [OF Cons [where P = ?Q]]) auto
  show ?case
    unfolding verifyExtent.simps
    by (rule triple_seqE [OF checkCtx_quiet], rule triple_seqE [OF status_quiet],
        rule triple_bindE [OF verifiedBlock_value], rule triple_bindE [OF read], simp only: split_beta,
        rule triple_seqE [OF test], rule rest)
qed (simp add: triple_ret)

lemma finish_quiet: "keeps (held P) (finish env b snap hashed)"
  unfolding finish_def blockE.simps
  by (intro keeps_rules dev_quiet check_quiet journal_quiet)

lemma validateSnapshot_quiet: "keeps (held P) (validateSnapshot env b snap)"
  unfolding validateSnapshot_def by (intro keeps_rules)

text \<open>The resumption: its preparation keeps the extent and has seen the mixed state.\<close>

lemma resume_block_value:
  "triple (held P) (resume_block env b snap i)
    (\<lambda>_. held (\<lambda>c. P c \<and> target_block env b (\<not> resumeCandidateBlock i) i c)) (\<lambda>_. held P)"
proof -
  let ?T = "\<lambda>x. sha256 env x = expectedSHA256 (Blocks (Plan b) ! i) (\<not> resumeCandidateBlock i)"
  let ?Q = "\<lambda>c. P c \<and> target_block env b (\<not> resumeCandidateBlock i) i c"
  have read: "triple (held (\<lambda>c. P c \<and> ?T x)) (readForSnapshot env i snap False)
      (\<lambda>(data, _, _). held (\<lambda>c. (P c \<and> ?T x) \<and> data = c i)) (\<lambda>_. held P)" for x
    by (rule triple_conseq [OF readForSnapshot_value [where P = "\<lambda>c. P c \<and> ?T x"]]) auto
  have test: "triple (held (\<lambda>c. (P c \<and> ?T x) \<and> data = c i)) (checkE (data = x) err)
      (\<lambda>_. held ?Q) (\<lambda>_. held P)" for x data err
    by (rule triple_checkE) (auto simp: target_block_def)
  have later: "triple (held ?Q) m (\<lambda>_. held ?Q) (\<lambda>_. held P)" if "keeps (held ?Q) m" for m :: "('d eng, 'x) act"
    by (rule triple_conseq [OF that]) simp_all
  show ?thesis
    unfolding resume_block_def
    by (rule triple_seqE [OF checkCtx_quiet], rule triple_seqE [OF status_quiet],
        rule triple_bindE [OF verifiedBlock_value], rule triple_bindE [OF read], simp only: split_beta,
        rule triple_seqE [OF test], rule triple_seqE [OF later [OF dev_quiet(9)]],
        rule triple_seqE [OF later [OF journal_quiet]], rule triple_ret)
qed

lemma resume_loop_value:
  "triple (held P) (resume_loop env b is snap oobs)
    (\<lambda>(sn, _) e. sn_resume sn = sn_resume snap \<and>
       held (\<lambda>c. P c \<and> (\<forall>i \<in> set is. target_block env b (\<not> resumeCandidateBlock i) i c)) e) (\<lambda>_. held P)"
proof (induction "is" arbitrary: snap oobs P)
  case (Cons i "is")
  let ?P = "\<lambda>c. P c \<and> target_block env b (\<not> resumeCandidateBlock i) i c"
  have rest: "triple (held ?P) (resume_loop env b is snap' oobs)
      (\<lambda>(sn, _) e. sn_resume sn = sn_resume snap \<and>
         held (\<lambda>c. P c \<and> (\<forall>j \<in> set (i # is). target_block env b (\<not> resumeCandidateBlock j) j c)) e)
      (\<lambda>_. held P)" if "sn_resume snap' = sn_resume snap" for snap' oobs
    by (rule triple_conseq [OF Cons [where P = ?P]]) (use that in auto)
  show ?case
    unfolding resume_loop.simps
    by (rule triple_bindE [OF resume_block_value], rule triple_case_prod, rule triple_case_prod, rule rest) simp
qed (simp add: triple_ret)

lemma prepareResume_value:
  "triple (held P) (prepareResume env b)
    (\<lambda>sn e. sn_resume sn \<and>
       held (\<lambda>c. P c \<and> (\<forall>i < nBlocks (profile env). target_block env b (\<not> resumeCandidateBlock i) i c)) e)
    (\<lambda>_. held P)"
proof -
  let ?Q = "\<lambda>c. P c \<and> (\<forall>i < nBlocks (profile env). target_block env b (\<not> resumeCandidateBlock i) i c)"
  have loop: "triple (held P) (resume_loop env b [0..<nBlocks (profile env)] (newSnapshot (profile env) False True) [])
      (\<lambda>(sn, _) e. sn_resume sn \<and> held ?Q e) (\<lambda>_. held P)"
    by (rule triple_conseq [OF resume_loop_value]) (auto simp: newSnapshot_def)
  have later: "triple (held ?Q) m (\<lambda>_. held ?Q) (\<lambda>_. held P)" if "keeps (held ?Q) m" for m :: "('d eng, 'x) act"
    by (rule triple_conseq [OF that]) simp_all
  show ?thesis
    unfolding prepareResume_def Let_def
    by (rule triple_seqE [OF checkCtx_quiet], rule kept_readS, rule triple_seqE [OF keeps_checkE],
        rule triple_seqE [OF newStatsTracker_quiet], rule triple_seqE [where R = "held P"], simp add: keeps_updS,
        rule triple_seqE [OF kept_readS [OF journal_quiet]],
        rule triple_seqE [OF geometry_quiet], rule triple_seqE [OF check_quiet(2)],
        rule triple_bindE [OF loop], simp only: split_beta, rule triple_pure_conj,
        rule triple_seqE [OF later [OF journal_quiet]],
        rule triple_seqE [OF later [OF check_quiet(2)]], rule triple_seqE [OF later [OF checkCtx_quiet]],
        rule triple_ret) simp
qed

lemma order_distinct:
  assumes "length order = n" "\<forall>i < n. order ! i = (i + 1) mod n"
  shows "distinct order \<and> set order \<subseteq> {..<n}"
proof -
  have m: "(i + 1) mod n = (if i + 1 = n then 0 else i + 1)" if "i < n" for i
    using that by simp
  have "i = j" if "i < n" "j < n" "(i + 1) mod n = (j + 1) mod n" for i j
    using that(3) unfolding m [OF that(1)] m [OF that(2)] by (simp split: if_splits)
  with assms have "distinct order" by (metis distinct_conv_nth)
  moreover have "set order \<subseteq> {..<n}" using assms by (auto simp: in_set_conv_nth intro!: mod_less_divisor)
  ultimately show ?thesis ..
qed

lemma checkFile_quiet: "keeps (\<lambda>w. P (cells w)) (checkFile env (b_image b) n h)"
    "keeps (\<lambda>w. P (cells w)) (checkFile env (b_original b) n h)"
  unfolding checkFile_def by (intro keeps_rules cells_keeps)+

lemma verify_only_quiet: "keeps (\<lambda>w. P (cells w)) (verify_only env b i restore)"
  unfolding verify_only_def verifiedBlock_def block_def
  by (intro keeps_rules) (cases restore; simp; rule cells_keeps)

lemma sources_quiet: "same cells (validateResumeSources env b)"
  unfolding validateResumeSources_def Let_def
  by (rule keeps_same, simp only: blockE.simps)
     (intro keeps_rules checkFile_quiet [where P = "\<lambda>x. x = c" for c]
       verify_only_quiet [where P = "\<lambda>x. x = c" for c])

lemma sources_distinct:
  assumes "validateResumeSources env b w = (Inr (), w')"
  shows "distinct (WriteOrder (Plan b)) \<and> set (WriteOrder (Plan b)) \<subseteq> {..<nBlocks (profile env)}"
proof (rule order_distinct)
  note steps = blockE_nth [OF assms [unfolded validateResumeSources_def Let_def]]
  have lens: "length (Blocks (Plan b)) = nBlocks (profile env)" "length (WriteOrder (Plan b)) = nBlocks (profile env)"
    using steps [of 4] by (auto elim!: checkE_value)
  show "length (WriteOrder (Plan b)) = nBlocks (profile env)" by (rule lens(2))
  show "\<forall>i < nBlocks (profile env). WriteOrder (Plan b) ! i = (i + 1) mod nBlocks (profile env)"
  proof (intro allI impI)
    fix i assume i: "i < nBlocks (profile env)"
    obtain u y v where "forE [0..<length (Blocks (Plan b))] (\<lambda>index. blockE [
          checkE (resume_record_ok env (Plan b) index) (Errorf ''resume plan geometry/order mismatch''),
          verify_only env b index False, verify_only env b index True]) u = (Inr y, v)"
      using steps [of 6] by auto
    from forE_member [OF this, of i] i lens obtain u' y' v' where
      "blockE [checkE (resume_record_ok env (Plan b) i) (Errorf ''resume plan geometry/order mismatch''),
          verify_only env b i False, verify_only env b i True] u' = (Inr y', v')" by auto
    from blockE_nth [OF this, of 0] have "resume_record_ok env (Plan b) i" by (auto elim!: checkE_value)
    then show "WriteOrder (Plan b) ! i = (i + 1) mod nBlocks (profile env)"
      by (simp add: resume_record_ok_def Let_def)
  qed
qed

end

subsection \<open>Writing\<close>

context flash begin

text \<open>Writing a block touches no other block, and succeeds only with the target in place.\<close>

abbreviation others :: "nat \<Rightarrow> (nat \<Rightarrow> byte list) \<Rightarrow> (nat \<Rightarrow> byte list) \<Rightarrow> bool" where
  "others i c0 c \<equiv> \<forall>j. j \<noteq> i \<longrightarrow> c j = c0 j"

lemma erase_others: "keeps (held (others i c0)) (on_dev (Erase (device env) (block_offset i)))"
  by (rule keepsI) (simp add: on_dev_def split_beta erase_frame block_offset_def EraseBytes_def)

lemma write_others:
  assumes "page < pagesPerBlock"
  shows "keeps (held (others i c0)) (on_dev (WriteAt (device env) data (block_offset i + page * PageBytes)))"
  by (rule keepsI) (use page_offset [OF assms, of i] in \<open>simp add: on_dev_def split_beta write_frame block_offset_def\<close>)

lemma program_others:
  "set pages \<subseteq> {..<pagesPerBlock} \<Longrightarrow> keeps (held (others i c0)) (programPages env i target pages)"
proof (induction pages)
  case (Cons page pages)
  then have p: "page < pagesPerBlock" by simp
  show ?case
    unfolding programPages.simps Let_def
    by (intro keeps_rules write_others [OF p] check_quiet Cons.IH) (use Cons.prems in auto)
qed (simp add: keeps_ret)

lemma rewriteBlock_value:
  "triple (held (others i c0)) (rewriteBlock env snap i target)
    (\<lambda>_. held (\<lambda>c. others i c0 c \<and> c i = target)) (\<lambda>_. held (others i c0))"
proof -
  have erase: "keeps (held (others i c0)) (eraseVerified env snap i)"
    unfolding eraseVerified_def by (intro keeps_rules erase_others background_quiet)
  have check: "triple (held (\<lambda>c. others i c0 c \<and> data = c i))
      (seqE (checkE (data = target \<and> x) err) (journal env ev))
      (\<lambda>_. held (\<lambda>c. others i c0 c \<and> c i = target)) (\<lambda>_. held (others i c0))" for data x err ev
    by (rule triple_seqE [where R = "held (\<lambda>c. others i c0 c \<and> c i = target)"], rule triple_checkE,
        (auto)[2], rule triple_conseq [OF journal_quiet [where P = "\<lambda>c. others i c0 c \<and> c i = target"]]) auto
  have verify: "triple (held (others i c0)) (verifyReadback env snap i target)
      (\<lambda>_. held (\<lambda>c. others i c0 c \<and> c i = target)) (\<lambda>_. held (others i c0))"
    unfolding verifyReadback_def
    by (rule triple_bindE [OF background_value], simp only: split_beta, rule check)
  have program: "keeps (held (others i c0)) (programPages env i target [0..<pagesPerBlock])"
    by (rule program_others) auto
  show ?thesis
    unfolding rewriteBlock_def blockE.simps
    by (rule triple_seqE [OF journal_quiet], rule triple_seqE [OF check_quiet(2)],
        rule triple_seqE [OF keeps_wrapE [OF checkCtx_quiet]], rule triple_seqE [OF erase],
        rule triple_seqE [OF program], rule triple_seqE [OF dev_quiet(7)], rule triple_seqE [OF verify],
        rule triple_ret)
qed

lemma writeBlock_value:
  "triple (held (\<lambda>c. c = c0)) (writeBlock env b snap restore i)
    (\<lambda>_. held (\<lambda>c. others i c0 c \<and> target_block env b restore i c)) (\<lambda>_. held (others i c0))"
proof -
  let ?Q = "\<lambda>c. others i c0 c \<and> target_block env b restore i c"
  let ?T = "\<lambda>target. sha256 env target = expectedSHA256 (Blocks (Plan b) ! i) restore"
  let ?R = "\<lambda>target current c. (others i c0 c \<and> ?T target) \<and> current = c i"
  have start: "triple (held (\<lambda>c. c = c0)) m (\<lambda>_. held (others i c0)) (\<lambda>_. held (others i c0))"
    if "keeps (held (others i c0)) m" for m :: "('d eng, 'x) act"
    by (rule triple_conseq [OF that]) simp_all
  have final: "triple (held (?R target current))
      (if current = target \<and> x then journal env ev else rewriteBlock env snap i target)
      (\<lambda>_. held ?Q) (\<lambda>_. held (others i c0))" for target current x ev
  proof (rule triple_if)
    assume "current = target \<and> x"
    then show "triple (held (?R target current)) (journal env ev) (\<lambda>_. held ?Q) (\<lambda>_. held (others i c0))"
      by (intro triple_conseq [OF journal_quiet [where P = "?R target current"]])
         (auto simp: target_block_def)
  next
    show "triple (held (?R target current)) (rewriteBlock env snap i target) (\<lambda>_. held ?Q) (\<lambda>_. held (others i c0))"
    proof (cases "?T target")
      case True
      then show ?thesis
        by (intro triple_conseq [OF rewriteBlock_value [of i c0]]) (auto simp: target_block_def)
    qed (simp add: triple_def)
  qed
  have mid: "triple (held (?R target current)) m (\<lambda>_. held (?R target current)) (\<lambda>_. held (others i c0))"
    if "keeps (held (?R target current)) m" for m :: "('d eng, 'x) act" and target current
    by (rule triple_conseq [OF that]) simp_all
  have read: "triple (held (\<lambda>c. others i c0 c \<and> ?T target)) (readForSnapshot env i snap False)
      (\<lambda>(data, _, _). held (?R target data)) (\<lambda>_. held (others i c0))" for target
    by (rule triple_conseq [OF readForSnapshot_value [where P = "\<lambda>c. others i c0 c \<and> ?T target"]]) auto
  show ?thesis
    unfolding writeBlock_def
    by (rule triple_seqE [OF start [OF keeps_wrapE [OF checkCtx_quiet]]],
        rule triple_bindE [OF verifiedBlock_value], rule triple_bindE [OF read], simp only: split_beta,
        rule triple_if, rule triple_fail, simp, rule triple_seqE [OF mid [OF keeps_checkE]],
        rule triple_seqE [OF mid [OF keeps_checkE]], rule triple_seqE [OF mid [OF status_quiet]], rule final)
qed

lemma write_loop:
  assumes "forE order (writeBlock env b snap restore) e = (r, e')" "distinct order"
  shows "\<exists>k. prefix_done env b restore order k (cells (nand_world e)) (cells (nand_world e')) \<and>
    (r = Inr () \<longrightarrow> k = length order)"
  using assms
proof (induction order arbitrary: e)
  case Nil
  then show ?case by (simp add: prefix_done_def)
next
  case (Cons i order)
  let ?c0 = "cells (nand_world e)"
  obtain r1 u where w: "writeBlock env b snap restore i e = (r1, u)" by fastforce
  show ?case
  proof (cases r1)
    case (Inl err)
    with Cons.prems(1) w have "r = Inl err" "e' = u" by (auto simp: act_simps)
    with tripleD_error [OF writeBlock_value [of ?c0] refl, of snap restore i err u] w Inl
    show ?thesis by (intro exI [of _ 0]) (auto simp: prefix_done_def)
  next
    case (Inr x)
    with Cons.prems(1) w have l: "forE order (writeBlock env b snap restore) u = (r, e')"
      by (simp add: act_simps)
    from tripleD_value [OF writeBlock_value [of ?c0] refl, of snap restore i x u] w Inr
    have u: "others i ?c0 (cells (nand_world u))" "target_block env b restore i (cells (nand_world u))" by auto
    from Cons.IH [OF l] Cons.prems(2) obtain k where
      k: "prefix_done env b restore order k (cells (nand_world u)) (cells (nand_world e'))"
      "r = Inr () \<longrightarrow> k = length order" by auto
    have "i \<notin> set (take (Suc k) order)" using Cons.prems(2) by (auto dest: in_set_takeD)
    with k(1) have "cells (nand_world e') i = cells (nand_world u) i" by (simp add: prefix_done_def)
    with k u show ?thesis
      by (intro exI [of _ "Suc k"]) (auto simp: prefix_done_def target_block_def)
  qed
qed

lemma executePrepared_value:
  assumes "distinct (WriteOrder (Plan b))"
  shows "triple (held (\<lambda>c. c = c0)) (executePrepared env b snap restore)
    (\<lambda>_. held (\<lambda>c. (\<exists>k. prefix_done env b restore (writeOrder b snap) k c0 c) \<and>
       (\<forall>i < nBlocks (profile env). target_block env b restore i c)))
    (\<lambda>_. held (\<lambda>c. \<exists>k. prefix_done env b restore (writeOrder b snap) k c0 c))"
proof -
  let ?I = "\<lambda>c. c = c0" and ?pd = "\<lambda>c. \<exists>k. prefix_done env b restore (writeOrder b snap) k c0 c"
  let ?Q = "\<lambda>c. ?pd c \<and> (\<forall>i < nBlocks (profile env). target_block env b restore i c)"
  have none: "?pd c0" by (intro exI [of _ 0]) (simp add: prefix_done_def)
  have before: "triple (held ?I) m (\<lambda>_. held ?I) (\<lambda>_. held ?pd)" if "keeps (held ?I) m"
    for m :: "('d eng, 'x) act"
    by (rule triple_conseq [OF that]) (use none in simp_all)
  have after: "triple (held P) m (\<lambda>_. held P) (\<lambda>_. held ?pd)" if "keeps (held P) m" "\<And>c. P c \<Longrightarrow> ?pd c"
    for m :: "('d eng, 'x) act" and P
    by (rule triple_conseq [OF that(1)]) (use that(2) in simp_all)
  have enable: "triple (held ?I) (EnableWrites (device env) b snap)
      (\<lambda>sn e. writeOrder b sn = writeOrder b snap \<and> held ?I e) (\<lambda>_. held ?pd)"
  proof (rule tripleI)
    show "held ?pd e'" if "held ?I e" "EnableWrites (device env) b snap e = (Inl err, e')" for e err e'
      using that none sameD [OF enable_quiet that(2)] by simp
    show "writeOrder b sn = writeOrder b snap \<and> held ?I e'"
      if "held ?I e" "EnableWrites (device env) b snap e = (Inr sn, e')" for e sn e'
      using that sameD [OF enable_quiet that(2)] enable_snapshot [OF that(2)] by (simp add: writeOrder_def)
  qed
  have loop: "triple (held ?I) (forE (writeOrder b sn) (writeBlock env b sn restore)) (\<lambda>_. held ?pd) (\<lambda>_. held ?pd)"
    if "writeOrder b sn = writeOrder b snap" for sn
  proof -
    have d: "distinct (writeOrder b snap)" using assms by (simp add: writeOrder_def)
    show ?thesis unfolding that by (rule tripleI) (use write_loop [OF _ d] in blast)+
  qed
  have extent: "triple (held ?pd) (verifyExtent env b sn restore [0..<nBlocks (profile env)] [])
      (\<lambda>_. held ?Q) (\<lambda>_. held ?pd)" for sn
    by (rule triple_conseq [OF verifyExtent_value [where P = ?pd]]) auto
  show ?thesis
    unfolding executePrepared_def
    by (rule triple_if, rule triple_fail, use none in simp, rule triple_seqE [OF before [OF keeps_if]],
        rule keeps_seqE [OF validateSnapshot_quiet keeps_checkE], rule keeps_ret,
        rule triple_seqE [OF before [OF keeps_wrapE [OF dev_quiet(10)]]],
        rule triple_seqE [OF before [OF checkCtx_quiet]], rule triple_seqE [OF before [OF dev_quiet(2)]],
        rule triple_seqE [OF before [OF check_quiet(2)]], rule triple_bindE [OF enable], rule triple_pure_conj,
        rule triple_seqE [OF before [OF check_quiet(2)]], rule triple_seqE [OF loop], assumption,
        rule triple_bindE [OF extent], rule after [OF finish_quiet]) simp
qed

text \<open>Executing from scratch: nothing is touched unless every block passed the preflight.\<close>

lemma Execute_value:
  assumes "distinct (WriteOrder (Plan b))"
  shows "triple (held (\<lambda>c. c = c0)) (Execute env b restore approval)
    (\<lambda>_. held (\<lambda>c. (\<forall>i < nBlocks (profile env). original_block env b restore i c0) \<and>
       (\<forall>i < nBlocks (profile env). target_block env b restore i c)))
    (\<lambda>_. held (\<lambda>c. c = c0 \<or> (\<forall>i < nBlocks (profile env). original_block env b restore i c0)))"
proof -
  let ?o = "\<forall>i < nBlocks (profile env). original_block env b restore i c0"
  have pre: "triple (held (\<lambda>c. c = c0)) (preflight env b restore) (\<lambda>_ e. ?o \<and> held (\<lambda>c. c = c0) e)
      (\<lambda>_. held (\<lambda>c. c = c0 \<or> ?o))"
    by (rule triple_conseq [OF preflight_value [where P = "\<lambda>c. c = c0"]]) auto
  have exec: "triple (held (\<lambda>c. c = c0)) (executePrepared env b snap restore)
      (\<lambda>_. held (\<lambda>c. ?o \<and> (\<forall>i < nBlocks (profile env). target_block env b restore i c)))
      (\<lambda>_. held (\<lambda>c. c = c0 \<or> ?o))" if ?o for snap
    by (rule triple_conseq [OF executePrepared_value [OF assms]]) (use that in auto)
  show ?thesis
    unfolding Execute_def Let_def
    by (rule triple_if, rule triple_fail, simp, rule triple_if, rule triple_fail, simp,
        rule triple_bindE [OF pre], rule triple_pure_conj, rule exec)
qed

text \<open>
  Resuming: the blocks already written are never touched again, nothing is touched unless the
  extent was in the expected mixed state, and success means the image is in place.
\<close>

lemma ExecuteResume_value:
  "triple (held (\<lambda>c. c = c0)) (ExecuteResume env b approval)
    (\<lambda>_. held (\<lambda>c. (\<forall>i < nBlocks (profile env). target_block env b (\<not> resumeCandidateBlock i) i c0) \<and>
       (\<forall>i. resumeCandidateBlock i \<or> nBlocks (profile env) \<le> i \<longrightarrow> c i = c0 i) \<and>
       (\<forall>i < nBlocks (profile env). target_block env b False i c)))
    (\<lambda>_. held (\<lambda>c. c = c0 \<or> (\<forall>i < nBlocks (profile env). target_block env b (\<not> resumeCandidateBlock i) i c0) \<and>
       (\<forall>i. resumeCandidateBlock i \<or> nBlocks (profile env) \<le> i \<longrightarrow> c i = c0 i)))"
proof -
  let ?mixed = "\<forall>i < nBlocks (profile env). target_block env b (\<not> resumeCandidateBlock i) i c0"
  let ?ordered = "distinct (WriteOrder (Plan b)) \<and> set (WriteOrder (Plan b)) \<subseteq> {..<nBlocks (profile env)}"
  let ?E = "\<lambda>c. c = c0 \<or> ?mixed \<and> (\<forall>i. resumeCandidateBlock i \<or> nBlocks (profile env) \<le> i \<longrightarrow> c i = c0 i)"
  have sources: "triple (held (\<lambda>c. c = c0)) (on_dev (validateResumeSources env b))
      (\<lambda>_ e. ?ordered \<and> held (\<lambda>c. c = c0) e) (\<lambda>_. held ?E)"
  proof (rule tripleI)
    show "held ?E e'" if "held (\<lambda>c. c = c0) e" "on_dev (validateResumeSources env b) e = (Inl err, e')" for e err e'
      using tripleD_error [OF on_dev_same [OF sources_quiet, where P = "\<lambda>c. c = c0"] that] by simp
    show "?ordered \<and> held (\<lambda>c. c = c0) e'"
      if "held (\<lambda>c. c = c0) e" "on_dev (validateResumeSources env b) e = (Inr x, e')" for e x e'
    proof
      from that(2) show ?ordered
        by (auto simp: on_dev_def split: prod.splits dest!: sources_distinct)
      show "held (\<lambda>c. c = c0) e'"
        by (rule tripleD_value [OF on_dev_same [OF sources_quiet, where P = "\<lambda>c. c = c0"] that])
    qed
  qed
  have prepare: "triple (held (\<lambda>c. c = c0)) (prepareResume env b)
      (\<lambda>sn e. (sn_resume sn \<and> ?mixed) \<and> held (\<lambda>c. c = c0) e) (\<lambda>_. held ?E)"
    by (rule triple_conseq [OF prepareResume_value [where P = "\<lambda>c. c = c0"]]) auto
  have skipped: "c i = c0 i" if "sn_resume sn" ?ordered "resumeCandidateBlock i \<or> nBlocks (profile env) \<le> i"
    "prefix_done env b False (writeOrder b sn) k c0 c" for sn i k c
  proof -
    from that(1-3) have "i \<notin> set (writeOrder b sn)" by (auto simp: writeOrder_def)
    then have "i \<notin> set (take (Suc k) (writeOrder b sn))" by (meson in_set_takeD)
    with that(4) show ?thesis by (simp add: prefix_done_def)
  qed
  have exec: "triple (held (\<lambda>c. c = c0)) (executePrepared env b sn False)
      (\<lambda>_. held (\<lambda>c. ?mixed \<and> (\<forall>i. resumeCandidateBlock i \<or> nBlocks (profile env) \<le> i \<longrightarrow> c i = c0 i) \<and>
         (\<forall>i < nBlocks (profile env). target_block env b False i c))) (\<lambda>_. held ?E)"
    if "sn_resume sn \<and> ?mixed" ?ordered for sn
    by (rule triple_conseq [OF executePrepared_value [OF conjunct1 [OF that(2)], where snap = sn and restore = False]])
       (use that(1) skipped [OF _ that(2), of sn] in blast)+
  show ?thesis
    unfolding ExecuteResume_def
    by (rule triple_seqE [where R = "held (\<lambda>c. c = c0)"], rule triple_liftE, assumption, simp,
        rule triple_seqE [OF sources], rule triple_pure_conj, rule triple_bindE [OF prepare],
        rule triple_pure_conj, rule exec)
qed

end

end
