(* ===== verification/Nand_Mem.thy ===== *)
theory Nand_Mem
  imports Nand_Flash
begin

text \<open>
  A healthy NAND device in memory, on which the engine is shown to install its image: reading
  returns the blocks, programming only clears bits, nothing is ever corrected or bad. It is
  also an instance of the locale \<open>flash\<close>.
\<close>

record mem =
  mem_blocks :: "nat \<Rightarrow> byte list"
  mem_log :: "event list"

definition mem_cells :: "mem \<Rightarrow> nat \<Rightarrow> byte list" where
  "mem_cells w i = take EraseBytes (mem_blocks w i @ replicate EraseBytes 0xff)"

definition program_bytes :: "byte list \<Rightarrow> nat \<Rightarrow> byte list \<Rightarrow> byte list" where
  "program_bytes old a bs =
     take a old @ map2 and (take (length bs) (drop a old)) bs @ drop (a + length bs) old"

definition put_block :: "nat \<Rightarrow> byte list \<Rightarrow> mem \<Rightarrow> mem" where
  "put_block i bs w = w\<lparr>mem_blocks := (mem_blocks w)(i := bs)\<rparr>"

definition mem_device :: "profile \<Rightarrow> mem device" where
  "mem_device pf =
     \<lparr>Geometry = ret \<lparr>g_DeviceBytes = DeviceBytes, g_Start = p_Start pf, g_Span = p_Span pf,
                      g_PageBytes = PageBytes, g_EraseBytes = EraseBytes, g_OOBBytes = 64\<rparr>,
      CheckIdentity = ret (),
      ReadAt = (\<lambda>n off. readS (\<lambda>w. take n (drop (off mod EraseBytes) (mem_cells w (off div EraseBytes))))),
      ReadOOB = (\<lambda>off. ret (replicate VisibleOOB 0xff)), IsBad = (\<lambda>off. ret False),
      dev_Stats = ret noStats, EnableWrites = (\<lambda>b snap. ret snap),
      Erase = (\<lambda>off. updS (put_block (off div EraseBytes) (replicate EraseBytes 0xff))),
      WriteAt = (\<lambda>bs off. seqE (updS (\<lambda>w. put_block (off div EraseBytes)
        (program_bytes (mem_cells w (off div EraseBytes)) (off mod EraseBytes) bs) w)) (ret (length bs))),
      Sync = ret ()\<rparr>"

definition mem_env :: "profile \<Rightarrow> (byte list \<Rightarrow> string) \<Rightarrow> mem nand_env" where
  "mem_env pf sha =
     \<lparr>profile = pf, sha256 = sha, device = mem_device pf, mtd_mode = (\<lambda>_ _ _. Inr ()), mtd_resume_ok = (\<lambda>_. True),
      Record = (\<lambda>ev. updS (\<lambda>w. w\<lparr>mem_log := mem_log w @ [ev]\<rparr>)), oobOutput = (\<lambda>_. ret ()),
      persistEvidence = ret (), cancelled = (\<lambda>_. None)\<rparr>"

definition mem_reader :: "nat \<Rightarrow> byte list \<Rightarrow> mem reader" where
  "mem_reader k content = \<lparr>f_id = Some k, f_Size = ret (length content),
     f_ReadAt = (\<lambda>n off. ret (take n (drop off content))), f_Close = ret ()\<rparr>"

lemma mem_simps [simp]:
  "profile (mem_env pf sha) = pf" "sha256 (mem_env pf sha) = sha" "device (mem_env pf sha) = mem_device pf"
  "cancelled (mem_env pf sha) w = None" "background (mem_env pf sha) = mem_env pf sha"
  by (simp_all add: mem_env_def background_def)

lemma cells_put: "mem_cells (put_block i bs w) j =
    (if j = i then take EraseBytes (bs @ replicate EraseBytes 0xff) else mem_cells w j)"
  by (simp add: mem_cells_def put_block_def)

lemma cells_log [simp]: "mem_cells (w\<lparr>mem_log := l\<rparr>) = mem_cells w"
  by (simp add: mem_cells_def fun_eq_iff)

lemma cells_length [simp]: "length (mem_cells w i) = EraseBytes"
  by (simp add: mem_cells_def)

interpretation mem: flash "mem_env pf sha"
  "\<lparr>Plan = p, b_image = mem_reader 0 new, b_original = mem_reader 1 old, b_files = fs\<rparr>" mem_cells
  by unfold_locales
     (simp_all add: mem_env_def mem_device_def mem_reader_def same_def act_simps cells_put)

subsection \<open>Runs on the device\<close>

text \<open>The tracker of an operation on a device that corrects nothing.\<close>

definition idle :: "mem eng \<Rightarrow> bool" where
  "idle e \<longleftrightarrow> tracker e = \<lparr>t_initial = noStats, t_last = noStats, t_resume = False, t_journal = False\<rparr>"

definition nth_block :: "byte list \<Rightarrow> nat \<Rightarrow> byte list" where
  "nth_block content i = take EraseBytes (drop (i * EraseBytes) content)"

definition blank :: "byte list" where "blank = replicate EraseBytes 0xff"
definition blankOOB :: "byte list" where "blankOOB = replicate (pagesPerBlock * VisibleOOB) 0xff"

lemma dev_simps [simp]:
  "dev_Stats (mem_device pf) = ret noStats" "CheckIdentity (mem_device pf) = ret ()" "Sync (mem_device pf) = ret ()"
  "IsBad (mem_device pf) off = ret False" "ReadOOB (mem_device pf) off = ret (replicate VisibleOOB 0xff)"
  "EnableWrites (mem_device pf) b snap = ret snap" "persistEvidence (mem_env pf sha) = ret ()"
  "oobOutput (mem_env pf sha) bs = ret ()" "mtd_mode (mem_env pf sha) w snap t = Inr ()"
  by (simp_all add: mem_device_def mem_env_def)

lemma on_dev_ret [simp]: "on_dev (ret x) e = (Inr x, e)"
  by (simp add: on_dev_def ret_def)

lemma on_dev_upd [simp]: "on_dev (updS g) e = (Inr (), e\<lparr>nand_world := g (nand_world e)\<rparr>)"
  by (simp add: on_dev_def updS_def)

definition logged :: "event \<Rightarrow> mem eng \<Rightarrow> mem eng" where
  "logged ev e = e\<lparr>nand_world := (nand_world e)\<lparr>mem_log := mem_log (nand_world e) @ [ev]\<rparr>\<rparr>"

lemma logged_simps [simp]: "idle (logged ev e) = idle e"
  "mem_cells (nand_world (logged ev e)) = mem_cells (nand_world e)"
  by (simp_all add: logged_def idle_def)

lemma journal_run [simp]: "journal (mem_env pf sha) ev e = (Inr (), logged ev e)"
  by (simp add: journal_def mem_env_def logged_def)

lemma ctx_run [simp]: "checkCtx (mem_env pf sha) e = (Inr (), e)"
  by (simp add: checkCtx_def act_simps)

lemma checkRead_run: "idle e \<Longrightarrow> checkRead (mem_env pf sha) 0 e = (Inr noStats, e)"
  by (cases e) (simp add: checkRead_def idle_def act_simps noStats_def)

lemma check_run: "idle e \<Longrightarrow> check (mem_env pf sha) e = (Inr noStats, e)"
  by (simp add: check_def checkRead_run)

lemma check_only_run: "idle e \<Longrightarrow> check_only (mem_env pf sha) e = (Inr (), e)"
  by (simp add: check_only_def act_simps check_run)

lemma status_run: "idle e \<Longrightarrow> checkedBlockStatus (mem_env pf sha) i e = (Inr (), e)"
  by (simp add: checkedBlockStatus_def act_simps check_only_run)

lemma read_oob_run:
  "read_oob (mem_env pf sha) i pages e = (Inr (replicate (length pages * VisibleOOB) 0xff), e)"
proof (induction pages)
  case (Cons page pages)
  then show ?case
    by (simp add: read_exactly_def act_simps on_dev_def replicate_add [symmetric])
qed (simp add: ret_def)

lemma read_run: "ReadAt (mem_device pf) EraseBytes (i * EraseBytes) w = (Inr (mem_cells w i), w)"
  by (simp add: mem_device_def act_simps EraseBytes_def mem_cells_def)

lemma checkedRead_run:
  assumes "idle e"
  shows "checkedRead (mem_env pf sha) i True e = (Inr (mem_cells (nand_world e) i, blankOOB, noStats), e)"
proof -
  have "read_exactly ''read block'' EraseBytes (on_dev (ReadAt (mem_device pf) EraseBytes (i * EraseBytes))) e =
      (Inr (mem_cells (nand_world e) i), e)"
    by (simp add: read_exactly_def act_simps on_dev_def read_run)
  with assms show ?thesis
    by (simp add: checkedRead_def bindE_def check_run read_oob_run blankOOB_def noStats_def ret_def)
qed

lemma snapshot_run:
  "idle e \<Longrightarrow> \<not> sn_resume snap \<Longrightarrow>
   readForSnapshot (mem_env pf sha) i snap programmed e = (Inr (mem_cells (nand_world e) i, blankOOB, noStats), e)"
  by (simp add: readForSnapshot_def checkedRead_run)

lemma blank_ff: "allFF blank" "allFF blankOOB" "length blank = EraseBytes"
  by (simp_all add: allFF_def blank_def blankOOB_def list_all_length)

text \<open>
  \<open>runs m e x c\<close>: on \<open>e\<close> the action returns \<open>x\<close> and leaves the flash with content \<open>c\<close>.
\<close>

definition runs :: "(mem eng, 'a) act \<Rightarrow> mem eng \<Rightarrow> 'a \<Rightarrow> (nat \<Rightarrow> byte list) \<Rightarrow> bool" where
  "runs m e x c \<longleftrightarrow> (\<exists>e'. m e = (Inr x, e') \<and> idle e' \<and> mem_cells (nand_world e') = c)"

definition at :: "mem eng \<Rightarrow> (nat \<Rightarrow> byte list) \<Rightarrow> bool" where
  "at e c \<longleftrightarrow> idle e \<and> mem_cells (nand_world e) = c"

lemma runsI: "m e = (Inr x, e') \<Longrightarrow> at e' c \<Longrightarrow> runs m e x c"
  by (auto simp: runs_def at_def)

lemma runs_bind:
  assumes "runs m e x c" "\<And>e'. at e' c \<Longrightarrow> runs (f x) e' y d"
  shows "runs (bindE m f) e y d"
  using assms unfolding runs_def at_def by (fastforce simp: bindE_def)

lemma runs_seq: "runs m e x c \<Longrightarrow> (\<And>e'. at e' c \<Longrightarrow> runs k e' y d) \<Longrightarrow> runs (seqE m k) e y d"
  unfolding seqE_def by (rule runs_bind)

lemma runs_ret: "at e c \<Longrightarrow> runs (ret x) e x c"
  by (rule runsI) (simp_all add: ret_def)

lemma runs_check: "p \<Longrightarrow> at e c \<Longrightarrow> runs (checkE p err) e () c"
  by (simp add: checkE_def runs_ret)

lemma runs_wrap: "runs m e x c \<Longrightarrow> runs (wrapE msg m) e x c"
  by (auto simp: runs_def act_simps)

lemma runs_mask: "runs m e x c \<Longrightarrow> runs (maskE msg m) e x c"
  by (auto simp: runs_def act_simps)

lemma runs_if: "(p \<Longrightarrow> runs m e x c) \<Longrightarrow> (\<not> p \<Longrightarrow> runs k e x c) \<Longrightarrow> runs (if p then m else k) e x c"
  by simp

lemma runs_journal: "at e c \<Longrightarrow> runs (journal (mem_env pf sha) ev) e () c"
  by (rule runsI, rule journal_run) (simp add: at_def)

lemma runs_ctx: "at e c \<Longrightarrow> runs (checkCtx (mem_env pf sha)) e () c"
  by (rule runsI, rule ctx_run) (simp add: at_def)

lemma runs_stats: "at e c \<Longrightarrow> runs (check_only (mem_env pf sha)) e () c"
  by (rule runsI, rule check_only_run) (simp_all add: at_def)

lemma runs_status: "at e c \<Longrightarrow> runs (checkedBlockStatus (mem_env pf sha) i) e () c"
  by (rule runsI, rule status_run) (simp_all add: at_def)

lemma runs_read: "at e c \<Longrightarrow> runs (checkedRead (mem_env pf sha) i True) e (c i, blankOOB, noStats) c"
  by (rule runsI, rule checkedRead_run [THEN trans]) (auto simp: at_def)

lemma runs_snapshot: "at e c \<Longrightarrow> \<not> sn_resume snap \<Longrightarrow>
    runs (readForSnapshot (mem_env pf sha) i snap programmed) e (c i, blankOOB, noStats) c"
  by (simp add: readForSnapshot_def runs_read)

lemma runs_dev: "at e c \<Longrightarrow> runs (on_dev (ret x)) e x c"
  by (rule runsI, rule on_dev_ret) simp

lemmas runs_rules = runs_seq runs_bind runs_check runs_wrap runs_journal runs_ctx runs_stats runs_status runs_dev runs_ret

subsection \<open>Erasing and programming\<close>

definition stage :: "byte list \<Rightarrow> nat \<Rightarrow> byte list" where
  "stage target k = take (k * PageBytes) target @ replicate (EraseBytes - k * PageBytes) 0xff"

lemma clear_ones: "map2 and (replicate (length bs) (0xff :: byte)) bs = bs"
proof -
  have ones: "(0xff :: byte) = - 1" by simp
  have "and (0xff :: byte) v = v" for v by (subst ones) simp
  then show ?thesis by (induction bs) simp_all
qed

lemma allFF_replicate: "allFF bs \<Longrightarrow> bs = replicate (length bs) 0xff"
  by (simp add: allFF_def list_all_iff replicate_length_same)

lemma sizes: "EraseBytes = pagesPerBlock * PageBytes" "0 < PageBytes" "pagesPerBlock = 64" "0 < EraseBytes"
  by (simp_all add: EraseBytes_def PageBytes_def pagesPerBlock_def)

lemma stage_next:
  assumes "length target = EraseBytes" "k < pagesPerBlock"
  defines "data \<equiv> take PageBytes (drop (k * PageBytes) target)"
  shows "length data = PageBytes"
    and "stage target (Suc k) = take (k * PageBytes) target @ data @ replicate (EraseBytes - Suc k * PageBytes) 0xff"
    and "stage target k = take (k * PageBytes) target @ replicate PageBytes 0xff @ replicate (EraseBytes - Suc k * PageBytes) 0xff"
proof -
  have le: "Suc k * PageBytes \<le> EraseBytes"
    unfolding sizes(1) by (rule mult_le_mono1) (use assms(2) in simp)
  then show "length data = PageBytes" by (simp add: data_def assms(1))
  have "EraseBytes - k * PageBytes = PageBytes + (EraseBytes - Suc k * PageBytes)" using le by simp
  then show "stage target k = take (k * PageBytes) target @ replicate PageBytes 0xff @ replicate (EraseBytes - Suc k * PageBytes) 0xff"
    by (simp add: stage_def replicate_add [symmetric])
  have "take (Suc k * PageBytes) target = take (k * PageBytes) target @ data"
    using take_add [of "k * PageBytes" PageBytes target] by (simp add: data_def add.commute)
  then show "stage target (Suc k) = take (k * PageBytes) target @ data @ replicate (EraseBytes - Suc k * PageBytes) 0xff"
    by (simp add: stage_def)
qed

lemma program_stage:
  assumes "length target = EraseBytes" "k < pagesPerBlock"
  defines "data \<equiv> take PageBytes (drop (k * PageBytes) target)"
  shows "program_bytes (stage target k) (k * PageBytes) data = stage target (Suc k)"
proof -
  note n = stage_next [OF assms(1,2), folded data_def]
  have len: "length (take (k * PageBytes) target) = k * PageBytes"
    using assms(1,2) by (simp add: sizes(1))
  show ?thesis
    unfolding program_bytes_def n(2,3)
    using len n(1) clear_ones [of data] by simp
qed

lemma stage_skip:
  assumes "length target = EraseBytes" "k < pagesPerBlock" "allFF (take PageBytes (drop (k * PageBytes) target))"
  shows "stage target (Suc k) = stage target k"
  using stage_next [OF assms(1,2)] allFF_replicate [OF assms(3)] by simp

lemma page_place:
  assumes "k < pagesPerBlock"
  shows "(i * EraseBytes + k * PageBytes) div EraseBytes = i" "(i * EraseBytes + k * PageBytes) mod EraseBytes = k * PageBytes"
proof -
  have "k * PageBytes < EraseBytes" using assms by (simp add: sizes(1,2))
  then show "(i * EraseBytes + k * PageBytes) div EraseBytes = i" "(i * EraseBytes + k * PageBytes) mod EraseBytes = k * PageBytes"
    by simp_all
qed

lemma stage_length: "length target = EraseBytes \<Longrightarrow> k \<le> pagesPerBlock \<Longrightarrow> length (stage target k) = EraseBytes"
  by (simp add: stage_def sizes(1))

lemma write_run:
  assumes "at e c" "c i = stage target k" "length target = EraseBytes" "k < pagesPerBlock"
  shows "runs (on_dev (WriteAt (mem_device pf) (take PageBytes (drop (k * PageBytes) target))
      (block_offset i + k * PageBytes))) e PageBytes (c(i := stage target (Suc k)))"
proof (rule runsI)
  let ?data = "take PageBytes (drop (k * PageBytes) target)"
  show "on_dev (WriteAt (mem_device pf) ?data (block_offset i + k * PageBytes)) e =
      (Inr PageBytes, e\<lparr>nand_world := put_block i (stage target (Suc k)) (nand_world e)\<rparr>)"
    using assms stage_next(1) [OF assms(3,4)] program_stage [OF assms(3,4)]
    by (simp add: mem_device_def on_dev_def block_offset_def page_place page_place(2) [of k 0, simplified] act_simps at_def)
  show "at (e\<lparr>nand_world := put_block i (stage target (Suc k)) (nand_world e)\<rparr>) (c(i := stage target (Suc k)))"
    using assms stage_length [OF assms(3), of "Suc k"] by (simp add: at_def idle_def cells_put fun_eq_iff)
qed

lemma program_run:
  assumes "at e c" "c i = stage target k" "length target = EraseBytes" "k \<le> pagesPerBlock"
  shows "runs (programPages (mem_env pf sha) i target [k..<pagesPerBlock]) e () (c(i := target))"
  using assms
proof (induction "pagesPerBlock - k" arbitrary: k e c)
  case 0
  then have k: "k = pagesPerBlock" by simp
  have "stage target k = target" by (simp add: k stage_def sizes(1) 0(4))
  with 0(3) have "c i = target" by (rule trans)
  then have "c(i := target) = c" by (rule fun_upd_idem)
  with 0(2) show ?case unfolding k by (simp only: upt_conv_Nil [OF order_refl] programPages.simps runs_ret)
next
  case (Suc n)
  then have k: "k < pagesPerBlock" by simp
  let ?data = "take PageBytes (drop (k * PageBytes) target)"
  have room: "\<not> length target < (k + 1) * PageBytes"
    using k mult_le_mono1 [of "k + 1" pagesPerBlock PageBytes] by (simp add: Suc.prems(3) sizes(1))
  have page: "runs (if allFF ?data then ret ()
      else bindE (maskE ''program page'' (on_dev (WriteAt (device (mem_env pf sha)) ?data (block_offset i + k * PageBytes)))) (\<lambda>n.
        seqE (checkE (n = PageBytes) (Errorf ''program page'')) (check_only (mem_env pf sha)))) e ()
      (c(i := stage target (Suc k)))"
  proof (rule runs_if)
    assume "allFF ?data"
    then have "c i = stage target (Suc k)"
      using stage_skip [OF Suc.prems(3) k] Suc.prems(2) by (simp only:)
    then have "c(i := stage target (Suc k)) = c" by (rule fun_upd_idem)
    with Suc.prems(1) show "runs (ret ()) e () (c(i := stage target (Suc k)))" by (simp only: runs_ret)
  qed (rule runs_bind [OF runs_mask], simp only: mem_simps, rule write_run [OF Suc.prems(1,2,3) k],
       rule runs_seq [OF runs_check], rule refl, assumption, rule runs_stats)
  show ?case
    unfolding upt_conv_Cons [OF k] programPages.simps Let_def if_not_P [OF room]
    by (rule runs_seq [OF page], rule Suc.hyps(1) [where c = "c(i := stage target (Suc k))", simplified])
       (use Suc k in simp_all)
qed

lemma erase_run:
  assumes "at e c" "\<not> sn_resume snap"
  shows "runs (eraseVerified (mem_env pf sha) snap i) e () (c(i := blank))"
proof -
  have "on_dev (Erase (mem_device pf) (block_offset i)) e =
      (Inr (), e\<lparr>nand_world := put_block i blank (nand_world e)\<rparr>)"
    by (simp add: mem_device_def block_offset_def sizes blank_def)
  moreover have "at (e\<lparr>nand_world := put_block i blank (nand_world e)\<rparr>) (c(i := blank))"
    using assms(1) by (simp add: at_def idle_def cells_put fun_eq_iff blank_ff)
  ultimately have erased: "runs (on_dev (Erase (mem_device pf) (block_offset i))) e () (c(i := blank))"
    by (rule runsI)
  show ?thesis
    unfolding eraseVerified_def mem_simps
    by (rule runs_seq [OF runs_wrap [OF erased]], rule runs_bind [OF runs_snapshot], assumption, rule assms(2),
        simp only: prod.case, rule runs_check, simp add: blank_ff noStats_def)
qed

subsection \<open>Installing\<close>

definition mem_bundle :: "plan \<Rightarrow> byte list \<Rightarrow> byte list \<Rightarrow> mem reader list \<Rightarrow> mem artifactBundle" where
  "mem_bundle p new old fs = \<lparr>Plan = p, b_image = mem_reader 0 new, b_original = mem_reader 1 old, b_files = fs\<rparr>"

text \<open>The artifacts have the extent's size, and the plan records their blocks.\<close>

definition artifacts :: "profile \<Rightarrow> byte list \<Rightarrow> byte list \<Rightarrow> bool" where
  "artifacts pf new old \<longleftrightarrow> 0 < nBlocks pf \<and> p_Span pf = nBlocks pf * EraseBytes \<and>
     length new = p_Span pf \<and> length old = p_Span pf"

definition planned :: "profile \<Rightarrow> (byte list \<Rightarrow> string) \<Rightarrow> plan \<Rightarrow> byte list \<Rightarrow> byte list \<Rightarrow> bool" where
  "planned pf sha p new old \<longleftrightarrow>
     Blocks p = map (\<lambda>i. plan_block (mem_env pf sha) i (nth_block old i) (nth_block new i)) [0..<nBlocks pf]"

lemma nth_block_length: "length content = n * EraseBytes \<Longrightarrow> i < n \<Longrightarrow> length (nth_block content i) = EraseBytes"
  using mult_le_mono1 [of "Suc i" n EraseBytes] by (simp add: nth_block_def)

lemma block_run:
  assumes "artifacts pf new old" "i < nBlocks pf"
  shows "block (mem_env pf sha) (mem_bundle p new old fs) i restore w =
    (Inr (nth_block (if restore then old else new) i), w)"
proof -
  have "length (nth_block (if restore then old else new) i) = EraseBytes"
    by (rule nth_block_length [OF _ assms(2)]) (use assms(1) in \<open>simp add: artifacts_def\<close>)
  with assms(2) show ?thesis
    by (cases restore) (simp_all add: block_def mem_bundle_def mem_reader_def act_simps nth_block_def del: length_take)
qed

lemma verified_run:
  assumes "artifacts pf new old" "planned pf sha p new old" "i < nBlocks pf"
  shows "verifiedBlock (mem_env pf sha) (mem_bundle p new old fs) i restore w =
    (Inr (nth_block (if restore then old else new) i), w)"
proof -
  have "Plan (mem_bundle p new old fs) = p" by (simp add: mem_bundle_def)
  with assms show ?thesis
    by (simp add: verifiedBlock_def bindE_def block_run planned_def plan_block_def expectedSHA256_def ret_def)
qed

lemma runs_verified:
  assumes "artifacts pf new old" "planned pf sha p new old" "i < nBlocks pf" "at e c"
  shows "runs (on_dev (verifiedBlock (mem_env pf sha) (mem_bundle p new old fs) i False)) e (nth_block new i) c"
  by (rule runsI [OF _ assms(4)]) (simp add: on_dev_def verified_run [OF assms(1-3)])

lemma rewrite_run:
  assumes "at e c" "\<not> sn_resume snap" "length target = EraseBytes"
  shows "runs (rewriteBlock (mem_env pf sha) snap i target) e () (c(i := target))"
proof -
  have programmed: "runs (programPages (mem_env pf sha) i target [0..<pagesPerBlock]) e' () (c(i := target))"
    if "at e' (c(i := blank))" for e'
  proof -
    have "(c(i := blank)) i = stage target 0" by (simp add: stage_def blank_def)
    from program_run [where c = "c(i := blank)", OF that this assms(3)] show ?thesis by (simp only: fun_upd_upd)
  qed
  have readback: "runs (verifyReadback (mem_env pf sha) snap i target) e' () (c(i := target))"
    if "at e' (c(i := target))" for e'
    unfolding verifyReadback_def mem_simps
    by (rule runs_bind [OF runs_snapshot], rule that, rule assms(2), simp only: prod.case, rule runs_seq [OF runs_check])
       (simp add: blank_ff noStats_def, assumption, rule runs_journal)
  show ?thesis
    unfolding rewriteBlock_def blockE.simps mem_simps dev_simps
    by (rule runs_seq [OF runs_journal], rule assms(1), rule runs_seq [OF runs_stats], assumption,
        rule runs_seq [OF runs_wrap [OF runs_ctx]], assumption, rule runs_seq [OF erase_run], assumption, rule assms(2),
        rule runs_seq [OF programmed], assumption, rule runs_seq [OF runs_dev], assumption,
        rule runs_seq [OF readback], assumption, rule runs_ret)
qed

lemma write_block_run:
  assumes "artifacts pf new old" "planned pf sha p new old" "i < nBlocks pf" "at e c" "\<not> sn_resume snap"
    and "length (sn_Hashes snap) = nBlocks pf" "sn_Hashes snap ! i = sha (c i)"
  shows "runs (writeBlock (mem_env pf sha) (mem_bundle p new old fs) snap False i) e () (c(i := nth_block new i))"
proof -
  have len: "length (nth_block new i) = EraseBytes"
    by (rule nth_block_length [OF _ assms(3)]) (use assms(1) in \<open>simp add: artifacts_def\<close>)
  have idx: "\<not> length (sn_Hashes snap) \<le> i" using assms(3,6) by simp
  have step: "runs (if c i = nth_block new i \<and> Failed noStats = 0 \<and> allFF blankOOB
      then journal (mem_env pf sha) (event0 ''already-target'' (int i))
      else rewriteBlock (mem_env pf sha) snap i (nth_block new i)) e' () (c(i := nth_block new i))" if "at e' c" for e'
  proof (rule runs_if)
    assume "c i = nth_block new i \<and> Failed noStats = 0 \<and> allFF blankOOB"
    then have "c(i := nth_block new i) = c" by (intro fun_upd_idem) simp
    with that show "runs (journal (mem_env pf sha) (event0 ''already-target'' (int i))) e' () (c(i := nth_block new i))"
      by (simp only: runs_journal)
  qed (rule rewrite_run [OF that assms(5) len])
  show ?thesis
    unfolding writeBlock_def
    by (rule runs_seq [OF runs_wrap [OF runs_ctx]], rule assms(4), rule runs_bind [OF runs_verified [OF assms(1-3)]],
        assumption, rule runs_bind [OF runs_snapshot], assumption, rule assms(5),
        simp only: prod.case if_not_P [OF idx], rule runs_seq [OF runs_check], simp add: assms(7), assumption,
        rule runs_seq [OF runs_check], simp add: blank_ff noStats_def, assumption,
        rule runs_seq [OF runs_status], assumption, rule step)
qed

text \<open>The blocks of \<open>order\<close> hold the image, the others what they held.\<close>

definition written :: "byte list \<Rightarrow> nat list \<Rightarrow> (nat \<Rightarrow> byte list) \<Rightarrow> nat \<Rightarrow> byte list" where
  "written new order c i = (if i \<in> set order then nth_block new i else c i)"

lemma write_loop_run:
  assumes "artifacts pf new old" "planned pf sha p new old" "\<not> sn_resume snap" "length (sn_Hashes snap) = nBlocks pf"
    and "at e c" "distinct order" "\<forall>i \<in> set order. i < nBlocks pf \<and> sn_Hashes snap ! i = sha (c i)"
  shows "runs (forE order (writeBlock (mem_env pf sha) (mem_bundle p new old fs) snap False)) e () (written new order c)"
  using assms(5-7)
proof (induction order arbitrary: e c)
  case Nil
  have "written new [] c = c" by (simp add: written_def fun_eq_iff)
  with Nil(1) show ?case unfolding forE.simps by (simp only: runs_ret)
next
  case (Cons i order)
  have first: "runs (writeBlock (mem_env pf sha) (mem_bundle p new old fs) snap False i) e () (c(i := nth_block new i))"
    by (rule write_block_run [OF assms(1,2) _ Cons.prems(1) assms(3,4)]) (use Cons.prems(3) in simp_all)
  have eq: "written new order (c(i := nth_block new i)) = written new (i # order) c"
    using Cons.prems(2) by (auto simp: written_def fun_eq_iff)
  have rest: "runs (forE order (writeBlock (mem_env pf sha) (mem_bundle p new old fs) snap False)) e' ()
      (written new (i # order) c)" if "at e' (c(i := nth_block new i))" for e'
  proof -
    have "\<forall>j \<in> set order. j < nBlocks pf \<and> sn_Hashes snap ! j = sha ((c(i := nth_block new i)) j)"
      using Cons.prems(2,3) by auto
    from Cons.IH [OF that _ this] Cons.prems(2) show ?thesis unfolding eq by simp
  qed
  show ?case unfolding forE.simps by (rule runs_seq [OF first], rule rest)
qed

lemma verify_extent_run:
  assumes "artifacts pf new old" "planned pf sha p new old" "\<not> sn_resume snap" "\<forall>i < nBlocks pf. c i = nth_block new i"
    and "at e c" "\<forall>i \<in> set is. i < nBlocks pf"
  shows "runs (verifyExtent (mem_env pf sha) (mem_bundle p new old fs) snap False is hashed) e
    (hashed @ concat (map (nth_block new) is)) c"
  using assms(5,6)
proof (induction "is" arbitrary: e hashed)
  case Nil
  then show ?case by (simp add: runs_ret)
next
  case (Cons i "is")
  have i: "i < nBlocks pf" using Cons.prems(2) by simp
  with assms(4) have ci: "c i = nth_block new i" by simp
  have rest: "runs (verifyExtent (mem_env pf sha) (mem_bundle p new old fs) snap False is (hashed @ nth_block new i)) e'
      (hashed @ concat (map (nth_block new) (i # is))) c" if "at e' c" for e'
    using Cons.IH [OF that, of "hashed @ nth_block new i"] Cons.prems(2) by simp
  show ?case
    unfolding verifyExtent.simps
    by (rule runs_seq [OF runs_ctx], rule Cons.prems(1), rule runs_seq [OF runs_status], assumption,
        rule runs_bind [OF runs_verified [OF assms(1,2) i]], assumption, rule runs_bind [OF runs_snapshot],
        assumption, rule assms(3), simp only: prod.case ci, rule runs_seq [OF runs_check],
        simp add: blank_ff noStats_def, assumption, rule rest)
qed

lemma finish_run:
  assumes "at e c" "\<not> sn_resume snap"
  shows "runs (finish (mem_env pf sha) b snap hashed) e () c"
proof -
  have last: "runs (if sn_resume snap then check_only (mem_env pf sha) else ret ()) e' () c" if "at e' c" for e'
    using assms(2) that by (simp add: runs_ret)
  show ?thesis
    unfolding finish_def blockE.simps mem_simps dev_simps
    by (rule runs_seq [OF runs_check], simp add: assms(2), rule assms(1), rule runs_seq [OF runs_wrap [OF runs_dev]],
        assumption, rule runs_seq [OF runs_dev], assumption, rule runs_seq [OF runs_stats], assumption,
        rule runs_seq [OF runs_journal], assumption, rule runs_seq [OF last], assumption, rule runs_ret)
qed

text \<open>Blocks that are not in the write order are the same in both artifacts.\<close>

lemma execute_prepared_run:
  assumes "artifacts pf new old" "planned pf sha p new old" "\<not> sn_resume snap" "length (sn_Hashes snap) = nBlocks pf"
    and "at e c" "\<forall>i < nBlocks pf. sn_Hashes snap ! i = sha (c i) \<and> c i = nth_block old i"
    and "distinct (WriteOrder p)" "set (WriteOrder p) = {i. i < nBlocks pf \<and> Changed (Blocks p ! i)}"
  shows "runs (executePrepared (mem_env pf sha) (mem_bundle p new old fs) snap False) e ()
    (\<lambda>i. if i < nBlocks pf then nth_block new i else c i)"
proof -
  let ?c = "written new (WriteOrder p) c"
  have done_: "?c i = (if i < nBlocks pf then nth_block new i else c i)" for i
    using assms(2,6,8) by (auto simp: written_def planned_def plan_block_def)
  then have goal: "(\<lambda>i. if i < nBlocks pf then nth_block new i else c i) = ?c" by (simp add: fun_eq_iff)
  have order: "writeOrder (mem_bundle p new old fs) snap = WriteOrder p"
    using assms(3) by (simp add: writeOrder_def mem_bundle_def)
  have loop: "runs (forE (writeOrder (mem_bundle p new old fs) snap)
      (writeBlock (mem_env pf sha) (mem_bundle p new old fs) snap False)) e' () ?c" if "at e' c" for e'
    unfolding order by (rule write_loop_run [OF assms(1-4) that assms(7)]) (use assms(6,8) in simp)
  have final: "runs (verifyExtent (mem_env pf sha) (mem_bundle p new old fs) snap False [0..<nBlocks pf] []) e'
      (concat (map (nth_block new) [0..<nBlocks pf])) ?c" if "at e' ?c" for e'
    using verify_extent_run [OF assms(1-3) _ that, of "[0..<nBlocks pf]" fs "[]"] done_ by simp
  have resume: "(if sn_resume snap then m else k) = k" for m k :: "(mem eng, unit) act" using assms(3) by simp
  show ?thesis
    unfolding goal executePrepared_def mem_simps dev_simps resume simp_thms if_False
    by (rule runs_seq [OF runs_ret], rule assms(5), rule runs_seq [OF runs_wrap [OF runs_dev]], assumption,
        rule runs_seq [OF runs_ctx], assumption, rule runs_seq [OF runs_dev], assumption,
        rule runs_seq [OF runs_stats], assumption, rule runs_bind [OF runs_ret], assumption,
        rule runs_seq [OF runs_stats], assumption, rule runs_seq [OF loop], assumption,
        rule runs_bind [OF final], assumption, rule finish_run, assumption, rule assms(3))
qed

subsection \<open>Preflight\<close>

lemma preflight_block_run:
  assumes "planned pf sha p new old" "i < nBlocks pf" "at e c" "c i = nth_block old i"
  shows "runs (preflight_block (mem_env pf sha) (mem_bundle p new old fs) False i) e (sha (c i), blankOOB, noStats) c"
proof -
  have plan: "Plan (mem_bundle p new old fs) = p" "\<not> length (Blocks p) \<le> i"
    "OriginalSHA256 (Blocks p ! i) = sha (c i)"
    using assms by (simp_all add: mem_bundle_def planned_def plan_block_def)
  show ?thesis
    unfolding preflight_block_def plan(1) mem_simps dev_simps
    by (rule runs_seq [OF runs_ctx], rule assms(3), rule runs_seq [OF runs_status], assumption,
        rule runs_bind [OF runs_read], assumption, simp only: prod.case if_not_P [OF plan(2)] Let_def if_True simp_thms,
        rule runs_seq, rule runs_seq [OF runs_check], rule plan(3) [symmetric], assumption, rule runs_check,
        simp add: blank_ff noStats_def, assumption, rule runs_seq [OF runs_wrap [OF runs_dev]], assumption,
        rule runs_seq [OF runs_journal], assumption, rule runs_ret)
qed

lemma preflight_loop_run:
  assumes "planned pf sha p new old" "at e c" "\<forall>i < nBlocks pf. c i = nth_block old i"
    and "k \<le> nBlocks pf" "length (sn_Hashes snap) = nBlocks pf" "\<forall>i < k. sn_Hashes snap ! i = sha (c i)" "\<not> sn_resume snap"
  shows "\<exists>snap' oobs'. runs (preflight_loop (mem_env pf sha) (mem_bundle p new old fs) False [k..<nBlocks pf] snap oobs) e (snap', oobs') c \<and>
    length (sn_Hashes snap') = nBlocks pf \<and> (\<forall>i < nBlocks pf. sn_Hashes snap' ! i = sha (c i)) \<and> \<not> sn_resume snap'"
  using assms(2,4-7)
proof (induction "nBlocks pf - k" arbitrary: k e snap oobs)
  case 0
  then have "k = nBlocks pf" by simp
  with 0 show ?case by (auto intro: runs_ret)
next
  case (Suc m)
  then have k: "k < nBlocks pf" by simp
  let ?snap = "snap\<lparr>sn_Hashes := (sn_Hashes snap)[k := sha (c k)],
    sn_Corrected := sn_Corrected snap + ucast (Corrected noStats), sn_Failed := sn_Failed snap + ucast (Failed noStats)\<rparr>"
  have "c k = nth_block old k" using assms(3) k by simp
  note first = preflight_block_run [OF assms(1) k Suc.prems(1) this]
  have hashes: "\<forall>i < Suc k. sn_Hashes ?snap ! i = sha (c i)"
    using Suc.prems(3,4) k by (auto simp: less_Suc_eq)
  from first obtain e' where e': "preflight_block (mem_env pf sha) (mem_bundle p new old fs) False k e =
      (Inr (sha (c k), blankOOB, noStats), e')" "at e' c"
    by (auto simp: runs_def at_def)
  have side: "m = nBlocks pf - Suc k" "Suc k \<le> nBlocks pf" "length (sn_Hashes ?snap) = nBlocks pf" "\<not> sn_resume ?snap"
    using Suc.hyps(2) Suc.prems(3,5) k by simp_all
  from Suc.hyps(1) [OF side(1) e'(2) side(2,3) hashes side(4), of "oobs @ blankOOB"]
  obtain snap' oobs' where "runs (preflight_loop (mem_env pf sha) (mem_bundle p new old fs) False [Suc k..<nBlocks pf] ?snap
      (oobs @ blankOOB)) e' (snap', oobs') c" and rest: "length (sn_Hashes snap') = nBlocks pf"
      "\<forall>i < nBlocks pf. sn_Hashes snap' ! i = sha (c i)" "\<not> sn_resume snap'"
    by blast
  then have "runs (preflight_loop (mem_env pf sha) (mem_bundle p new old fs) False [k..<nBlocks pf] snap oobs) e (snap', oobs') c"
    unfolding upt_conv_Cons [OF k] preflight_loop.simps runs_def bindE_def e'(1) by simp
  with rest show ?case by blast
qed

lemma preflight_run:
  assumes "planned pf sha p new old" "mem_cells (nand_world e) = c" "\<forall>i < nBlocks pf. c i = nth_block old i"
  shows "\<exists>snap. runs (preflight (mem_env pf sha) (mem_bundle p new old fs) False) e snap c \<and>
    length (sn_Hashes snap) = nBlocks pf \<and> (\<forall>i < nBlocks pf. sn_Hashes snap ! i = sha (c i)) \<and> \<not> sn_resume snap"
proof -
  have tracking: "runs (newStatsTracker (mem_env pf sha)) e () c"
    unfolding newStatsTracker_def mem_simps dev_simps runs_def
    using assms(2) by (simp add: bindE_def updS_def idle_def)
  have geometry: "runs (checkGeometry (mem_env pf sha)) e' () c" if "at e' c" for e'
    by (rule runsI [OF _ that]) (simp add: checkGeometry_def bindE_def mem_device_def)
  from tracking obtain e1 where e1: "newStatsTracker (mem_env pf sha) e = (Inr (), e1)" "at e1 c"
    by (auto simp: runs_def at_def)
  from geometry [OF e1(2)] obtain e2 where e2: "checkGeometry (mem_env pf sha) e1 = (Inr (), e2)" "at e2 c"
    by (auto simp: runs_def at_def)
  from preflight_loop_run [OF assms(1) e2(2) assms(3), of 0 "newSnapshot pf False False" fs "[]"]
  obtain snap oobs where loop: "runs (preflight_loop (mem_env pf sha) (mem_bundle p new old fs) False [0..<nBlocks pf]
      (newSnapshot pf False False) []) e2 (snap, oobs) c" and snap: "length (sn_Hashes snap) = nBlocks pf"
      "\<forall>i < nBlocks pf. sn_Hashes snap ! i = sha (c i)" "\<not> sn_resume snap"
    by (auto simp: newSnapshot_def)
  have tail: "runs (bindE (preflight_loop (mem_env pf sha) (mem_bundle p new old fs) False [0..<nBlocks pf]
        (newSnapshot pf False False) []) (\<lambda>(snap, oobs).
          seqE (journal (mem_env pf sha) (event0 ''preflight-complete'' (-1) \<lparr>ev_Bytes := p_Span pf, ev_Detail := sha oobs\<rparr>))
           (seqE (check_only (mem_env pf sha)) (ret (snap\<lparr>sn_OOBHash := sha oobs\<rparr>))))) e2 (snap\<lparr>sn_OOBHash := sha oobs\<rparr>) c"
    by (rule runs_bind [OF loop], simp only: prod.case, rule runs_seq [OF runs_journal], assumption,
        rule runs_seq [OF runs_stats], assumption, rule runs_ret)
  then have "runs (preflight (mem_env pf sha) (mem_bundle p new old fs) False) e (snap\<lparr>sn_OOBHash := sha oobs\<rparr>) c"
    by (simp add: preflight_def runs_def seqE_def bindE_def e1(1) e2(1))
  with snap show ?thesis by (intro exI [of _ "snap\<lparr>sn_OOBHash := sha oobs\<rparr>"]) simp
qed

lemma execute_run:
  assumes "artifacts pf new old" "planned pf sha p new old" "\<forall>i < nBlocks pf. mem_cells (nand_world e) i = nth_block old i"
    and "distinct (WriteOrder p)" "set (WriteOrder p) = {i. i < nBlocks pf \<and> Changed (Blocks p ! i)}"
  shows "runs (Execute (mem_env pf sha) (mem_bundle p new old fs) False (p_InstallAck pf)) e ()
    (\<lambda>i. if i < nBlocks pf then nth_block new i else mem_cells (nand_world e) i)"
proof -
  from preflight_run [OF assms(2) refl assms(3)] obtain snap where
    pre: "runs (preflight (mem_env pf sha) (mem_bundle p new old fs) False) e snap (mem_cells (nand_world e))"
    and snap: "\<not> sn_resume snap" "length (sn_Hashes snap) = nBlocks pf"
      "\<forall>i < nBlocks pf. sn_Hashes snap ! i = sha (mem_cells (nand_world e) i) \<and> mem_cells (nand_world e) i = nth_block old i"
    using assms(3) by blast
  show ?thesis
    unfolding Execute_def Let_def mem_simps simp_thms if_False
    by (rule runs_bind [OF pre], rule execute_prepared_run [OF assms(1,2) snap(1,2) _ snap(3) assms(4,5)])
qed

subsection \<open>Planning\<close>

definition records :: "profile \<Rightarrow> (byte list \<Rightarrow> string) \<Rightarrow> byte list \<Rightarrow> byte list \<Rightarrow> nat \<Rightarrow> planBlock" where
  "records pf sha new old i = plan_block (mem_env pf sha) i (nth_block old i) (nth_block new i)"

lemma plan_loop_run:
  assumes "artifacts pf new old" "\<forall>i \<in> set is. i < nBlocks pf"
  shows "plan_loop (mem_env pf sha) (mem_bundle q new old fs) is p images originals w =
    (Inr (fold (\<lambda>i p. plan_add (mem_env pf sha) p (records pf sha new old i)) is p,
          images @ concat (map (nth_block new) is), originals @ concat (map (nth_block old) is)), w)"
  using assms(2)
proof (induction "is" arbitrary: p images originals)
  case Nil
  then show ?case by (simp add: ret_def)
next
  case (Cons i "is")
  then have i: "i < nBlocks pf" by simp
  show ?case
    using Cons by (simp add: bindE_def block_run [OF assms(1) i] records_def)
qed

lemma plan_add_blocks: "Blocks (plan_add env p r) = Blocks p @ [r]"
  by (simp add: plan_add_def Let_def)

lemma fold_blocks: "Blocks (fold (\<lambda>i p. plan_add env p (f i)) is p) = Blocks p @ map f is"
  by (induction "is" arbitrary: p) (simp_all add: plan_add_blocks)

lemma concat_blocks: "k * EraseBytes \<le> length content \<Longrightarrow> concat (map (nth_block content) [0..<k]) = take (k * EraseBytes) content"
proof (induction k)
  case (Suc k)
  then show ?case using take_add [of "k * EraseBytes" EraseBytes content] by (simp add: nth_block_def add.commute)
qed simp

lemma artifacts_concat:
  assumes "artifacts pf new old"
  shows "concat (map (nth_block new) [0..<nBlocks pf]) = new" "concat (map (nth_block old) [0..<nBlocks pf]) = old"
  using assms concat_blocks [of "nBlocks pf" new] concat_blocks [of "nBlocks pf" old] by (simp_all add: artifacts_def)

lemma buildPlan_run:
  assumes "artifacts pf new old" "sha new = p_ImageHash pf" "sha old = p_OriginalHash pf"
  shows "\<exists>p. buildPlan (mem_env pf sha) (mem_bundle q new old fs) w = (Inr (mem_bundle p new old fs), w) \<and>
    planned pf sha p new old"
proof -
  let ?r = "fold (\<lambda>i p. plan_add (mem_env pf sha) p (records pf sha new old i)) [0..<nBlocks pf] (empty_plan pf)"
  have loop: "plan_loop (mem_env pf sha) (mem_bundle q new old fs) [0..<nBlocks pf] (empty_plan pf) [] [] w =
      (Inr (?r, new, old), w)"
    using plan_loop_run [OF assms(1), of "[0..<nBlocks pf]" sha q fs "empty_plan pf" "[]" "[]" w] artifacts_concat [OF assms(1)] by simp
  have blocks: "Blocks ?r = map (records pf sha new old) [0..<nBlocks pf]"
    by (simp add: fold_blocks empty_plan_def)
  define p where "p = (if p_HeaderLast pf \<and> Changed (Blocks ?r ! 0) then ?r\<lparr>WriteOrder := WriteOrder ?r @ [0]\<rparr> else ?r)
      \<lparr>pl_ImageSHA256 := sha new, pl_OriginalSHA256 := sha old\<rparr>"
  have "Blocks ?r \<noteq> []" using assms(1) by (simp add: blocks artifacts_def)
  then have "buildPlan (mem_env pf sha) (mem_bundle q new old fs) w =
      seqE (if fs \<noteq> [] then liftE (validatePlanHashes pf p) else ret ()) (ret (mem_bundle p new old fs)) w"
    unfolding buildPlan_def mem_simps bindE_def loop by (simp add: p_def [symmetric] Let_def mem_bundle_def)
  moreover have "validatePlanHashes pf p = Inr ()" using assms(2,3) by (simp add: validatePlanHashes_def p_def)
  moreover have "planned pf sha p new old"
  proof -
    have "Blocks p = Blocks ?r" by (simp add: p_def)
    then show ?thesis unfolding planned_def blocks by (simp add: records_def)
  qed
  ultimately show ?thesis
    by (intro exI [of _ p]) (simp add: act_simps)
qed

lemma checkFile_run:
  "length content = n \<Longrightarrow> sha content = h \<Longrightarrow> checkFile (mem_env pf sha) (mem_reader k content) n h w = (Inr (), w)"
  by (simp add: checkFile_def mem_reader_def act_simps)

text \<open>\<open>mem_open\<close> finds the two artifacts under their paths.\<close>

definition mem_open :: "string \<Rightarrow> byte list \<Rightarrow> byte list \<Rightarrow> string \<Rightarrow> (mem, mem reader) act" where
  "mem_open imagePath new old path = ret (if path = imagePath then mem_reader 0 new else mem_reader 1 old)"

lemma Load_run:
  assumes "artifacts pf new old" "sha new = p_ImageHash pf" "sha old = p_OriginalHash pf" "ip \<noteq> op"
  shows "\<exists>p. Load (mem_env pf sha) (mem_open ip new old) ip op w =
      (Inr (mem_bundle p new old [mem_reader 0 new, mem_reader 1 old]), w) \<and> planned pf sha p new old \<and>
    plan_ok (mem_env pf sha) p"
proof -
  let ?fs = "[mem_reader 0 new, mem_reader 1 old]"
  have len: "length new = p_Span pf" "length old = p_Span pf" using assms(1) by (simp_all add: artifacts_def)
  have inputs: "load_inputs (mem_env pf sha) (mem_open ip new old)
      [(ip, p_Span pf, p_ImageHash pf), (op, p_Span pf, p_OriginalHash pf)] [] w = (Inr ?fs, w)"
    using assms(4) by (simp add: mem_open_def tryE_def ret_def checkFile_run len assms(2,3))
  from buildPlan_run [OF assms(1-3), of "empty_plan pf" ?fs w] obtain p where
    p: "buildPlan (mem_env pf sha) (mem_bundle (empty_plan pf) new old ?fs) w = (Inr (mem_bundle p new old ?fs), w)"
      "planned pf sha p new old"
    by blast
  have "Load (mem_env pf sha) (mem_open ip new old) ip op w = (Inr (mem_bundle p new old ?fs), w)"
    unfolding Load_def Let_def bindE_def mem_simps inputs using p(1) by (simp add: mem_bundle_def tryE_def ret_def)
  moreover have "plan_ok (mem_env pf sha) p" using buildPlan_value [OF p(1)] by (simp add: mem_bundle_def)
  ultimately show ?thesis using p(2) by blast
qed

subsection \<open>Properties\<close>

text \<open>(C8) On a healthy device the writer succeeds: loading two artifacts of the pinned size and
  digests gives a bundle, and executing it on an extent that holds the original, with the
  profile's approval, returns without error, with every block of the extent holding its block of
  the image and every other block as before.\<close>

theorem healthy_device_installs:
  assumes "artifacts pf new old" "sha new = p_ImageHash pf" "sha old = p_OriginalHash pf" "ip \<noteq> op"
    and "\<forall>i < nBlocks pf. mem_cells (nand_world e) i = nth_block old i"
  shows "\<exists>b e'. Load (mem_env pf sha) (mem_open ip new old) ip op (nand_world e) = (Inr b, nand_world e) \<and>
    Execute (mem_env pf sha) b False (p_InstallAck pf) e = (Inr (), e') \<and>
    (\<forall>i. mem_cells (nand_world e') i = (if i < nBlocks pf then nth_block new i else mem_cells (nand_world e) i))"
proof -
  from Load_run [OF assms(1-4), of "nand_world e"] obtain p where
    load: "Load (mem_env pf sha) (mem_open ip new old) ip op (nand_world e) =
        (Inr (mem_bundle p new old [mem_reader 0 new, mem_reader 1 old]), nand_world e)"
      and p: "planned pf sha p new old" "plan_ok (mem_env pf sha) p"
    by blast
  have "length (Blocks p) = nBlocks pf" using p(2) by (simp add: plan_ok_def)
  with plan_ok_order [OF p(2)] have order: "distinct (WriteOrder p)"
    "set (WriteOrder p) = {i. i < nBlocks pf \<and> Changed (Blocks p ! i)}" by simp_all
  from execute_run [OF assms(1) p(1) assms(5) order, of "[mem_reader 0 new, mem_reader 1 old]"]
  show ?thesis using load by (auto simp: runs_def fun_eq_iff)
qed

definition probe_old :: "byte list" where "probe_old = replicate (p_Span profile_bsl) 2"
definition probe_new :: "byte list" where "probe_new = replicate (p_Span profile_bsl) 1"

definition probe_sha :: "byte list \<Rightarrow> string" where
  "probe_sha bs = (if hd bs = 1 then p_ImageHash profile_bsl else p_OriginalHash profile_bsl)"

definition probe_flash :: "mem eng" where
  "probe_flash = \<lparr>tracker = \<lparr>t_initial = noStats, t_last = noStats, t_resume = False, t_journal = False\<rparr>,
     nand_world = \<lparr>mem_blocks = (\<lambda>i. replicate EraseBytes 2), mem_log = []\<rparr>\<rparr>"

lemma probe_setup:
  "artifacts profile_bsl probe_new probe_old" "probe_sha probe_new = p_ImageHash profile_bsl"
  "probe_sha probe_old = p_OriginalHash profile_bsl" "nBlocks profile_bsl = 40"
  "i < 40 \<Longrightarrow> nth_block probe_new i = replicate EraseBytes 1" "i < 40 \<Longrightarrow> nth_block probe_old i = replicate EraseBytes 2"
  "mem_cells (nand_world probe_flash) i = replicate EraseBytes 2"
proof -
  have span: "p_Span profile_bsl = 40 * EraseBytes" by (simp add: profile_bsl_def EraseBytes_def)
  then show n: "nBlocks profile_bsl = 40" by (simp add: nBlocks_def sizes)
  have ne: "p_Span profile_bsl \<noteq> 0" by (simp add: span sizes)
  have room: "min (40 * EraseBytes - i * EraseBytes) EraseBytes = EraseBytes" if "i < 40"
    using that by (auto simp: diff_mult_distrib [symmetric] min_def dest: le_less_trans)
  show "artifacts profile_bsl probe_new probe_old"
    by (simp add: artifacts_def n span probe_new_def probe_old_def)
  show "probe_sha probe_new = p_ImageHash profile_bsl" "probe_sha probe_old = p_OriginalHash profile_bsl"
    using ne by (simp_all add: probe_sha_def probe_new_def probe_old_def)
  show "i < 40 \<Longrightarrow> nth_block probe_new i = replicate EraseBytes 1" "i < 40 \<Longrightarrow> nth_block probe_old i = replicate EraseBytes 2"
    using room by (simp_all add: nth_block_def probe_new_def probe_old_def span)
  show "mem_cells (nand_world probe_flash) i = replicate EraseBytes 2"
    by (simp add: mem_cells_def probe_flash_def)
qed

theorem healthy_device_installs_witness:
  "\<exists>b e'. Load (mem_env profile_bsl probe_sha) (mem_open ''new'' probe_new probe_old) ''new'' ''old''
      (nand_world probe_flash) = (Inr b, nand_world probe_flash) \<and>
    Execute (mem_env profile_bsl probe_sha) b False (p_InstallAck profile_bsl) probe_flash = (Inr (), e') \<and>
    mem_cells (nand_world e') 1 = replicate EraseBytes 1 \<and> mem_cells (nand_world e') 40 = replicate EraseBytes 2"
proof -
  have original: "\<forall>i < nBlocks profile_bsl. mem_cells (nand_world probe_flash) i = nth_block probe_old i"
    by (simp add: probe_setup)
  from healthy_device_installs [OF probe_setup(1-3) _ original, of "''new''" "''old''"]
  obtain b e' where run: "Load (mem_env profile_bsl probe_sha) (mem_open ''new'' probe_new probe_old) ''new'' ''old''
      (nand_world probe_flash) = (Inr b, nand_world probe_flash)"
    "Execute (mem_env profile_bsl probe_sha) b False (p_InstallAck profile_bsl) probe_flash = (Inr (), e')"
    and cells: "\<forall>i. mem_cells (nand_world e') i =
      (if i < nBlocks profile_bsl then nth_block probe_new i else mem_cells (nand_world probe_flash) i)"
    by auto
  from cells have "mem_cells (nand_world e') 1 = replicate EraseBytes 1" "mem_cells (nand_world e') 40 = replicate EraseBytes 2"
    by (simp_all add: probe_setup)
  with run show ?thesis by blast
qed

end
