(* ===== verification/Nand_Mtd.thy ===== *)
theory Nand_Mtd
  imports Nand_Resume
begin

text \<open>
  The kernel's MTD device behind the engine (\<^verbatim>\<open>mtd_linux.go\<close>): the operations of
  \<^verbatim>\<open>MTD\<close> with their bounds, the identity checks, the temporary partition and its
  qualification before writes are enabled, and its removal. The system calls are the record
  \<open>mtd_kernel\<close>, actions over an arbitrary kernel state \<open>'k\<close>; a descriptor of the created
  partition is read-only or read-write.
\<close>

datatype fd = Master | PartitionRO | PartitionRW

record mtdInfo =
  i_Type :: nat
  i_Flags :: u32
  i_Size :: u32
  i_EraseSize :: u32
  i_WriteSize :: u32
  i_OOBSize :: u32

text \<open>
  \<open>k_add label start span\<close> and \<open>k_remove label index\<close> are the BLKPG requests; \<open>k_entries\<close>
  is \<^verbatim>\<open>mtdEntries\<close>, a map given by its entries with distinct indices, \<open>k_mounts\<close> the fields of each line of the mount table,
  \<open>k_users\<close> the check for other users, \<open>k_sysfs\<close> a trimmed attribute of the partition,
  \<open>k_nodes\<close> the removal of the device nodes.
\<close>

record 'k mtd_kernel =
  k_info :: "fd \<Rightarrow> ('k, mtdInfo) act"
  k_pread :: "fd \<Rightarrow> nat \<Rightarrow> nat \<Rightarrow> ('k, byte list) act"
  k_pwrite :: "fd \<Rightarrow> byte list \<Rightarrow> nat \<Rightarrow> ('k, nat) act"
  k_readoob :: "nat \<Rightarrow> nat \<Rightarrow> ('k, nat \<times> byte list) act"
  k_bad :: "nat \<Rightarrow> ('k, nat) act"
  k_eccstats :: "('k, nandStats) act"
  k_memerase :: "fd \<Rightarrow> u32 \<Rightarrow> u32 \<Rightarrow> ('k, unit) act"
  k_filemode :: "fd \<Rightarrow> ('k, unit) act"
  k_entries :: "('k, (nat \<times> string) list) act"
  k_mounts :: "('k, string list list) act"
  k_users :: "('k, unit) act"
  k_runtime :: "('k, unit) act"
  k_version :: "('k, string) act"
  k_arch :: string
  k_random :: "('k, string) act"
  k_add :: "string \<Rightarrow> nat \<Rightarrow> nat \<Rightarrow> ('k, unit) act"
  k_remove :: "string \<Rightarrow> nat \<Rightarrow> ('k, unit) act"
  k_sysfs :: "nat \<Rightarrow> string \<Rightarrow> ('k, string) act"
  k_mknod :: "fd \<Rightarrow> nat \<Rightarrow> ('k, unit) act"
  k_open :: "fd \<Rightarrow> nat \<Rightarrow> ('k, unit) act"
  k_close :: "fd \<Rightarrow> ('k, unit) act"
  k_close_lock :: "('k, unit) act"
  k_nodes :: "nat \<Rightarrow> ('k, unit) act"
  k_pause :: "('k, unit) act"

record 'k mtd =
  m_partition :: "fd option"
  m_label :: string
  m_createdIndex :: "nat option"
  m_partitionAdded :: bool
  m_writeEnabled :: bool
  m_recovery :: bool
  m_resume :: bool
  m_master :: bool
  m_lock :: bool
  m_kernel :: 'k

definition on_kernel :: "('k, 'a) act \<Rightarrow> ('k mtd, 'a) act" where
  "on_kernel a m = (case a (m_kernel m) of (r, k) \<Rightarrow> (r, m\<lparr>m_kernel := k\<rparr>))"

definition masterIndex :: nat where "masterIndex = 1"

definition mappingKernelBanner :: string where
  "mappingKernelBanner = ''Linux version 3.8.13-reinvoke-audio-sd8887 (reinvoke@reinvoke) (gcc version 4.9 20140827 (prerelease) (GCC) ) #1-mtd-cleanup SMP PREEMPT Thu Jan 1 00:00:00 UTC 1970''"

subsection \<open>Device operations\<close>

definition bounds :: "profile \<Rightarrow> nat \<Rightarrow> nat \<Rightarrow> nat \<Rightarrow> go_error + unit" where
  "bounds pf offset len alignment =
     (if offset > p_Span pf \<or> len > p_Span pf - offset \<or> len = 0 \<or> offset mod alignment \<noteq> 0
      then Inl (Errorf ''operation outside fixed extent or misaligned'') else Inr ())"

definition mtd_Geometry :: "profile \<Rightarrow> 'k mtd_kernel \<Rightarrow> ('k mtd, geometry) act" where
  "mtd_Geometry pf kern =
     bindE (on_kernel (k_info kern Master)) (\<lambda>value.
       if i_Type value \<noteq> 4 \<or> i_Flags value \<noteq> 0x400 then fail (Errorf ''unexpected NAND type/flags'')
       else ret \<lparr>g_DeviceBytes = unat (i_Size value), g_Start = p_Start pf, g_Span = p_Span pf,
                 g_PageBytes = unat (i_WriteSize value), g_EraseBytes = unat (i_EraseSize value),
                 g_OOBBytes = unat (i_OOBSize value)\<rparr>)"

definition mtd_ReadAt :: "profile \<Rightarrow> 'k mtd_kernel \<Rightarrow> nat \<Rightarrow> nat \<Rightarrow> ('k mtd, byte list) act" where
  "mtd_ReadAt pf kern n offset =
     seqE (liftE (bounds pf offset n PageBytes)) (on_kernel (k_pread kern Master n (p_Start pf + offset)))"

definition mtd_ReadOOB :: "profile \<Rightarrow> 'k mtd_kernel \<Rightarrow> nat \<Rightarrow> ('k mtd, byte list) act" where
  "mtd_ReadOOB pf kern offset =
     seqE (liftE (bounds pf offset PageBytes PageBytes))
      (bindE (on_kernel (k_readoob kern (p_Start pf + offset) VisibleOOB)) (\<lambda>(len, data).
         if len \<noteq> VisibleOOB then fail (Errorf ''short visible-OOB transfer'') else ret data))"

definition mtd_IsBad :: "profile \<Rightarrow> 'k mtd_kernel \<Rightarrow> nat \<Rightarrow> ('k mtd, bool) act" where
  "mtd_IsBad pf kern offset =
     seqE (liftE (bounds pf offset EraseBytes EraseBytes))
      (bindE (on_kernel (k_bad kern (p_Start pf + offset))) (\<lambda>result.
         if result > 1 then fail (Errorf ''unexpected bad-block query result'') else ret (result = 1)))"

definition mtd_Stats :: "'k mtd_kernel \<Rightarrow> ('k mtd, nandStats) act" where
  "mtd_Stats kern = on_kernel (k_eccstats kern)"

fun contains :: "string \<Rightarrow> string \<Rightarrow> bool" where
  "contains [] sub \<longleftrightarrow> sub = []"
| "contains (c # cs) sub \<longleftrightarrow> take (length sub) (c # cs) = sub \<or> contains cs sub"

definition mounted_nand :: "string list \<Rightarrow> bool" where
  "mounted_nand words \<longleftrightarrow> contains (words ! 0) ''mtd'' \<or> contains (words ! 0) ''ubi'' \<or>
     words ! 2 = ''yaffs2'' \<or> words ! 2 = ''jffs2'' \<or> words ! 2 = ''ubifs''"

definition check_mount :: "string list \<Rightarrow> ('k mtd, unit) act" where
  "check_mount words =
     (if length words < 3 then fail (Errorf ''invalid mount table line'')
      else checkE (\<not> mounted_nand words) (Errorf ''NAND filesystem mounted''))"

definition topology_ok :: "'k mtd \<Rightarrow> (nat \<times> string) list \<Rightarrow> bool" where
  "topology_ok m entries \<longleftrightarrow>
     length entries = (case m_createdIndex m of None \<Rightarrow> 1 | Some _ \<Rightarrow> 2) \<and>
     map_of entries masterIndex = Some ''mv_nand'' \<and>
     (case m_createdIndex m of None \<Rightarrow> True | Some i \<Rightarrow> map_of entries i = Some (m_label m))"

definition checkTopology :: "'k mtd_kernel \<Rightarrow> ('k mtd, unit) act" where
  "checkTopology kern =
     bindE (on_kernel (k_entries kern)) (\<lambda>entries.
     bindE (readS (\<lambda>m. topology_ok m entries)) (\<lambda>good.
     seqE (checkE good (Errorf ''unexpected MTD topology; do not delete or adopt unknown partitions''))
      (bindE (on_kernel (k_mounts kern)) (\<lambda>mounts.
        seqE (forE mounts check_mount) (on_kernel (k_users kern))))))"

text \<open>The blocks around the extent, and the eight bad-block tables: offset, size and digest.\<close>

definition sentinels :: "profile \<Rightarrow> (nat \<times> nat \<times> string) list" where
  "sentinels pf =
     [(p_Start pf - EraseBytes, EraseBytes, p_BeforeHash pf), (EndByte pf, EraseBytes, p_AfterHash pf)] @
     map (\<lambda>block. ((block + 1) * EraseBytes - 4096, 848, p_TableHash pf)) [1..<9]"

definition check_sentinel ::
  "(byte list \<Rightarrow> string) \<Rightarrow> 'k mtd_kernel \<Rightarrow> nat \<times> nat \<times> string \<Rightarrow> ('k mtd, unit) act" where
  "check_sentinel sha kern = (\<lambda>(offset, n, hash).
     bindE (mtd_Stats kern) (\<lambda>before.
     bindE (maskE ''identity/boundary mismatch'' (on_kernel (k_pread kern Master n offset))) (\<lambda>data.
     seqE (checkE (length data = n \<and> sha data = hash) (Errorf ''identity/boundary mismatch''))
     (bindE (mtd_Stats kern) (\<lambda>after.
       checkE (Failed after = Failed before \<and> \<not> Corrected after < Corrected before \<and>
           BadBlocks after = BadBlocks before \<and> BBTBlocks after = BBTBlocks before)
         (Errorf ''identity/boundary ECC error''))))))"

definition mtd_CheckIdentity ::
  "profile \<Rightarrow> (byte list \<Rightarrow> string) \<Rightarrow> 'k mtd_kernel \<Rightarrow> ('k mtd, unit) act" where
  "mtd_CheckIdentity pf sha kern =
     seqE (checkTopology kern) (forE (sentinels pf) (check_sentinel sha kern))"

definition mtd_Erase :: "profile \<Rightarrow> 'k mtd_kernel \<Rightarrow> nat \<Rightarrow> ('k mtd, unit) act" where
  "mtd_Erase pf kern offset =
     bindE (readS (\<lambda>m. if m_writeEnabled m then m_partition m else None)) (\<lambda>part. case part of
       None \<Rightarrow> fail (Errorf ''no writable partition'')
     | Some file \<Rightarrow>
         seqE (liftE (bounds pf offset EraseBytes EraseBytes))
           (on_kernel (k_memerase kern file (of_nat offset) (of_nat EraseBytes))))"

definition mtd_WriteAt :: "profile \<Rightarrow> 'k mtd_kernel \<Rightarrow> byte list \<Rightarrow> nat \<Rightarrow> ('k mtd, nat) act" where
  "mtd_WriteAt pf kern data offset =
     bindE (readS (\<lambda>m. if m_writeEnabled m \<and> length data = PageBytes then m_partition m else None))
       (\<lambda>part. case part of
          None \<Rightarrow> fail (Errorf ''no writable partition or not a full page'')
        | Some file \<Rightarrow>
            seqE (liftE (bounds pf offset (length data) PageBytes)) (on_kernel (k_pwrite kern file data offset)))"

definition mtd_Sync :: "profile \<Rightarrow> 'k mtd_kernel \<Rightarrow> ('k mtd, unit) act" where
  "mtd_Sync pf kern =
     bindE (readS m_partition) (\<lambda>part. case part of
       None \<Rightarrow> fail (Errorf ''no open partition'')
     | Some file \<Rightarrow>
         bindE (on_kernel (k_info kern file)) (\<lambda>value.
           checkE (i_Size value = of_nat (p_Span pf) \<and> i_Type value = 4) (Errorf ''partition identity changed'')))"

subsection \<open>Mapping checks\<close>

definition validateMappingStats :: "nandStats \<Rightarrow> nandStats \<Rightarrow> bool \<Rightarrow> go_error + unit" where
  "validateMappingStats before after recovery =
     (if Failed after < Failed before \<or> Corrected after < Corrected before \<or>
         BadBlocks after \<noteq> BadBlocks before \<or> BBTBlocks after \<noteq> BBTBlocks before
      then Inl (Errorf ''ECC state reset or bad-block inventory changed during mapping check'')
      else if \<not> recovery \<and> Failed after \<noteq> Failed before
      then Inl (Errorf ''uncorrectable ECC during mapping check'') else Inr ())"

definition mappingStats :: "'d nand_env \<Rightarrow> u64 \<Rightarrow> ('d eng, nandStats) act" where
  "mappingStats env allowedFailed =
     bindE (check env) (\<lambda>stats.
     bindE (readS tracker) (\<lambda>t.
       if (ucast (Failed stats) :: u64) \<noteq> ucast (Failed (t_initial t)) + allowedFailed
       then fail (Errorf ''uncorrectable ECC since operation start; no mapping qualification'')
       else ret stats))"

definition mapping_only :: "'d nand_env \<Rightarrow> u64 \<Rightarrow> ('d eng, unit) act" where
  "mapping_only env allowedFailed = bindE (mappingStats env allowedFailed) (\<lambda>_. ret ())"

definition recoverChanged :: "'d artifactBundle \<Rightarrow> snapshot \<Rightarrow> nat \<Rightarrow> bool" where
  "recoverChanged b snap index \<longleftrightarrow> sn_restore snap \<and> Changed (Blocks (Plan b) ! index)"

definition recheck_block ::
  "'d nand_env \<Rightarrow> 'd artifactBundle \<Rightarrow> snapshot \<Rightarrow> nat \<Rightarrow> ('d eng, snapshot) act" where
  "recheck_block env b snap index =
     seqE (checkCtx env)
      (bindE (on_dev (verifiedBlock env b index True)) (\<lambda>original.
       if length (sn_Hashes snap) \<le> index then fail (Panic ''index out of range'')
       else seqE (checkE (recoverChanged b snap index \<or> sn_Hashes snap ! index = sha256 env original)
                    (Errorf ''mapping requires an original-data preflight''))
        (seqE (checkedBlockStatus env index)
         (bindE (checkedRead env index True) (\<lambda>(data, oob, stats).
            seqE (checkE (sha256 env data = sn_Hashes snap ! index \<and>
                    (recoverChanged b snap index \<or> data = original \<and> allFF oob \<and> Failed stats = 0))
                   (Errorf ''mapping original data/ECC/OOB recheck failed''))
             (let snap' = snap\<lparr>sn_Failed := sn_Failed snap + ucast (Failed stats)\<rparr> in
              seqE (mapping_only env (sn_Failed snap')) (ret snap')))))))"

fun recheck_loop ::
  "'d nand_env \<Rightarrow> 'd artifactBundle \<Rightarrow> nat list \<Rightarrow> snapshot \<Rightarrow> ('d eng, snapshot) act" where
  "recheck_loop env b [] snap = ret snap"
| "recheck_loop env b (index # rest) snap = bindE (recheck_block env b snap index) (recheck_loop env b rest)"

definition recheckMappingState :: "'d nand_env \<Rightarrow> 'd artifactBundle \<Rightarrow> snapshot \<Rightarrow> ('d eng, snapshot) act" where
  "recheckMappingState env b snap =
     seqE (checkCtx env) (seqE (validateSnapshot env b snap)
      (if sn_resume snap then seqE (recheckResumeMapping env b snap) (ret snap)
       else seqE (mapping_only env (sn_Failed snap)) (seqE (checkGeometry env)
        (seqE (mapping_only env (sn_Failed snap))
         (bindE (recheck_loop env b [0..<nBlocks (profile env)] snap) (\<lambda>snap.
            seqE (checkCtx env) (ret snap)))))))"

definition qualifyReadOnlyMapping :: "string \<Rightarrow> string \<Rightarrow> bool \<Rightarrow> ('s, 'a) act \<Rightarrow> ('s, 'a) act" where
  "qualifyReadOnlyMapping arch banner recovery create =
     (if arch \<noteq> ''arm'' \<or> banner \<noteq> mappingKernelBanner \<or> recovery
      then fail (Errorf ''mapping qualification requires the exact cleanup-fixed ARM kernel and non-recovery mode'')
      else create)"

definition qualifyWriteKernel :: "string \<Rightarrow> string \<Rightarrow> ('s, 'a) act \<Rightarrow> ('s, 'a) act" where
  "qualifyWriteKernel arch banner enable =
     (if arch \<noteq> ''arm'' \<or> banner \<noteq> mappingKernelBanner
      then fail (Errorf ''write enablement requires the exact cleanup-fixed ARM kernel'') else enable)"

text \<open>
  The phase around the creation of the partition; \<open>create\<close> may update the snapshot, as every
  recheck may.
\<close>

definition checkPartitionPhase ::
  "'d nand_env \<Rightarrow> 'd artifactBundle \<Rightarrow> snapshot \<Rightarrow> (snapshot \<Rightarrow> ('d eng, snapshot) act) \<Rightarrow> ('d eng, snapshot) act" where
  "checkPartitionPhase env b snap create =
     (let ev = (\<lambda>stage. event0 stage (-1) \<lparr>ev_Absolute := p_Start (profile env),
                  ev_Bytes := p_Span (profile env), ev_Detail := ''read-only; cleanup pending''\<rparr>) in
      seqE (checkCtx env) (seqE (validateSnapshot env b snap) (seqE (journal env (ev ''mapping-requested''))
       (bindE (recheckMappingState env b snap) (\<lambda>snap.
        bindE (create snap) (\<lambda>snap.
        bindE (recheckMappingState env b snap) (\<lambda>snap.
          seqE (journal env (ev ''mapping-readback-verified''))
          (seqE (mapping_only env (sn_Failed snap)) (seqE (checkCtx env) (ret snap))))))))))"

definition checkMappingPhase ::
  "'d nand_env \<Rightarrow> 'd artifactBundle \<Rightarrow> snapshot \<Rightarrow> (snapshot \<Rightarrow> ('d eng, snapshot) act) \<Rightarrow> ('d eng, snapshot) act" where
  "checkMappingPhase env b snap create =
     (if sn_restore snap \<or> sn_resume snap
      then fail (Errorf ''check-map does not permit a recovery/resume preflight'')
      else checkPartitionPhase env b snap create)"

definition enableWritesPhase ::
  "'d nand_env \<Rightarrow> 'd artifactBundle \<Rightarrow> snapshot \<Rightarrow> (snapshot \<Rightarrow> ('d eng, snapshot) act) \<Rightarrow> ('d eng, snapshot) act" where
  "enableWritesPhase env b snap acquire =
     (let ev = (\<lambda>stage. event0 stage (-1) \<lparr>ev_Absolute := p_Start (profile env),
                  ev_Bytes := p_Span (profile env)\<rparr>) in
      seqE (validateSnapshot env b snap) (seqE (checkCtx env) (seqE (journal env (ev ''write-enable-requested''))
       (bindE (recheckMappingState env b snap) (\<lambda>snap.
        seqE (forE [0..<nBlocks (profile env)] (\<lambda>index. on_dev (verify_only env b index False)))
        (seqE (checkCtx env)
        (bindE (acquire snap) (\<lambda>snap.
        bindE (recheckMappingState env b snap) (\<lambda>snap.
          seqE (journal env (ev ''write-descriptor-verified''))
          (seqE (mapping_only env (sn_Failed snap)) (seqE (checkCtx env) (ret snap))))))))))))"

subsection \<open>The temporary partition\<close>

text \<open>The index found comes with the error, as the code stores it before looking at the error.\<close>

definition createdPartitionIndex :: "(nat \<times> string) list \<Rightarrow> string \<Rightarrow> nat option \<times> go_error option" where
  "createdPartitionIndex entries label =
     (case map fst (filter (\<lambda>(_, value). value = label) entries) of
        [] \<Rightarrow> (None, None)
      | [found] \<Rightarrow>
          if found = masterIndex
          then (None, Some (Errorf ''temporary label unexpectedly belongs to master''))
          else if found > 127
          then (Some found, Some (Errorf ''temporary partition minor exceeds supported range''))
          else (Some found, None)
      | _ \<Rightarrow> (None, Some (Errorf ''ambiguous temporary partition registration'')))"

fun discoverPartition :: "'k mtd_kernel \<Rightarrow> nat \<Rightarrow> ('k mtd, unit) act" where
  "discoverPartition kern 0 =
     fail (Errorf ''ADD returned success but no matching partition appeared; no retry'')"
| "discoverPartition kern (Suc attempts) =
     bindE (on_kernel (k_entries kern)) (\<lambda>current.
     bindE (readS m_label) (\<lambda>label.
       let (index, err) = createdPartitionIndex current label in
       seqE (updS (\<lambda>m. m\<lparr>m_createdIndex := index\<rparr>))
        (case err of Some e \<Rightarrow> fail e
         | None \<Rightarrow> if index \<noteq> None then ret ()
                   else seqE (on_kernel (k_pause kern)) (discoverPartition kern attempts))))"

definition addAndDiscoverPartition :: "('k mtd, unit) act \<Rightarrow> 'k mtd_kernel \<Rightarrow> ('k mtd, unit) act" where
  "addAndDiscoverPartition add kern =
     seqE (wrapE ''create temporary partition'' add)
      (seqE (updS (\<lambda>m. m\<lparr>m_partitionAdded := True, m_createdIndex := None\<rparr>))
        (discoverPartition kern 20))"

definition snapshotMode :: "profile \<Rightarrow> 'k mtd \<Rightarrow> snapshot \<Rightarrow> statsTracker \<Rightarrow> bool" where
  "snapshotMode pf m snap t \<longleftrightarrow> length (sn_Hashes snap) = nBlocks pf \<and> sn_restore snap = m_recovery m \<and>
     sn_resume snap = m_resume m \<and> sn_resume snap = t_resume t \<and>
     (sn_resume snap \<longrightarrow> sn_complete snap \<and> \<not> sn_restore snap \<and> p_ResumeSupported pf \<and>
        sn_Failed snap = 0 \<and> Failed (t_last t) = Failed (t_initial t))"

definition validateSnapshotMode :: "'k mtd nand_env \<Rightarrow> snapshot \<Rightarrow> ('k mtd eng, unit) act" where
  "validateSnapshotMode env snap =
     bindE (readS (\<lambda>e. snapshotMode (profile env) (nand_world e) snap (tracker e))) (\<lambda>good.
       checkE good (Errorf ''mapping requires a complete matching-mode preflight snapshot''))"

definition partition_info_ok :: "profile \<Rightarrow> mtdInfo \<Rightarrow> bool" where
  "partition_info_ok pf value \<longleftrightarrow> i_Type value = 4 \<and> i_Size value = of_nat (p_Span pf) \<and>
     i_EraseSize value = of_nat EraseBytes \<and> i_WriteSize value = of_nat PageBytes \<and>
     i_OOBSize value = 64 \<and> i_Flags value = 0x400"

definition qualify_fd :: "profile \<Rightarrow> 'k mtd_kernel \<Rightarrow> fd \<Rightarrow> ('k mtd, unit) act" where
  "qualify_fd pf kern file =
     seqE (bindE (maskE ''partition MEMGETINFO mismatch'' (on_kernel (k_info kern file))) (\<lambda>value.
            checkE (partition_info_ok pf value) (Errorf ''partition MEMGETINFO mismatch'')))
       (wrapE ''select normal hardware-ECC mode'' (on_kernel (k_filemode kern file)))"

definition sysfs_wanted :: "profile \<Rightarrow> string \<Rightarrow> nat \<Rightarrow> (string \<times> string) list" where
  "sysfs_wanted pf label index =
     [(''name'', label), (''size'', decimal (p_Span pf)), (''writesize'', ''2048''),
      (''erasesize'', ''131072''), (''oobsize'', ''64''), (''type'', ''nand''),
      (''dev'', ''90:'' @ decimal (index * 2))]"

definition check_sysfs :: "profile \<Rightarrow> 'k mtd_kernel \<Rightarrow> string \<Rightarrow> nat \<Rightarrow> ('k mtd, unit) act" where
  "check_sysfs pf kern label index =
     forE (sysfs_wanted pf label index) (\<lambda>(key, want).
       bindE (maskE ''temporary partition attribute mismatch'' (on_kernel (k_sysfs kern index key))) (\<lambda>got.
         checkE (got = want) (Errorf ''temporary partition attribute mismatch'')))"

definition openPartition :: "profile \<Rightarrow> 'k mtd_kernel \<Rightarrow> ('k mtd, unit) act" where
  "openPartition pf kern =
     bindE (readS (\<lambda>m. (m_label m, m_createdIndex m))) (\<lambda>(label, created).
       case created of None \<Rightarrow> fail (Panic ''negative index'')
       | Some index \<Rightarrow> blockE [
           check_sysfs pf kern label index,
           checkTopology kern,
           on_kernel (k_mknod kern PartitionRO (index * 2 + 1)),
           on_kernel (k_open kern PartitionRO (index * 2 + 1)),
           updS (\<lambda>m. m\<lparr>m_partition := Some PartitionRO\<rparr>),
           qualify_fd pf kern PartitionRO,
           updS (\<lambda>m. m\<lparr>m_writeEnabled := False\<rparr>)])"

definition makePartition ::
  "'k mtd nand_env \<Rightarrow> 'k mtd_kernel \<Rightarrow> bool \<Rightarrow> snapshot \<Rightarrow> ('k mtd eng, unit) act" where
  "makePartition env kern writable snap =
     (let pf = profile env in
      seqE (checkCtx env)
      (bindE (readS (\<lambda>e. writable \<or> m_writeEnabled (nand_world e))) (\<lambda>refused.
       seqE (checkE (\<not> refused) (Errorf ''partition creation is read-only; writable access requires separate qualification''))
       (seqE (validateSnapshotMode env snap)
       (bindE (readS (\<lambda>e. m_partition (nand_world e) \<noteq> None \<or> m_createdIndex (nand_world e) \<noteq> None \<or>
                          m_partitionAdded (nand_world e))) (\<lambda>made.
        seqE (checkE (\<not> made) (Errorf ''partition already created''))
        (seqE (on_dev (checkTopology kern))
        (bindE (on_dev (on_kernel (k_random kern))) (\<lambda>random.
         let label = ''reinvoke-probe-'' @ random in
         seqE (on_dev (updS (\<lambda>m. m\<lparr>m_label := label\<rparr>)))
         (seqE (mapping_only env (sn_Failed snap))
         (seqE (checkCtx env)
         (seqE (on_dev (addAndDiscoverPartition (on_kernel (k_add kern label (p_Start pf) (p_Span pf))) kern))
         (seqE (checkCtx env) (on_dev (openPartition pf kern)))))))))))))))"

definition compare_block ::
  "'k mtd nand_env \<Rightarrow> 'k mtd_kernel \<Rightarrow> fd \<Rightarrow> 'k mtd artifactBundle \<Rightarrow> nat \<Rightarrow> snapshot \<Rightarrow> ('k mtd eng, snapshot) act" where
  "compare_block env kern file b index snap =
     seqE (checkCtx env) (seqE (checkedBlockStatus env index)
      (bindE (mappingStats env (sn_Failed snap)) (\<lambda>before.
       tryE (on_dev (on_kernel (k_pread kern Master EraseBytes (p_Start (profile env) + index * EraseBytes)))) (\<lambda>r1.
       tryE (on_dev (on_kernel (k_pread kern file EraseBytes (index * EraseBytes)))) (\<lambda>r2.
         case (r1, r2) of
           (Inr main, Inr relative) \<Rightarrow>
             seqE (checkE (length main = EraseBytes \<and> length relative = EraseBytes \<and> main = relative \<and>
                      sha256 env main = sn_Hashes snap ! index)
                    (Errorf ''temporary partition mapping failed''))
              (bindE (check env) (\<lambda>after.
               seqE (wrapE ''mapping'' (liftE (validateMappingStats before after (recoverChanged b snap index))))
                (let snap' = snap\<lparr>sn_Failed := sn_Failed snap + ucast (Failed after - Failed before)\<rparr> in
                 seqE (mapping_only env (sn_Failed snap')) (ret snap'))))
         | _ \<Rightarrow> fail (Errorf ''temporary partition mapping failed''))))))"

fun compare_loop ::
  "'k mtd nand_env \<Rightarrow> 'k mtd_kernel \<Rightarrow> fd \<Rightarrow> 'k mtd artifactBundle \<Rightarrow> nat list \<Rightarrow> snapshot \<Rightarrow> ('k mtd eng, snapshot) act" where
  "compare_loop env kern file b [] snap = seqE (checkCtx env) (ret snap)"
| "compare_loop env kern file b (index # rest) snap =
     bindE (compare_block env kern file b index snap) (compare_loop env kern file b rest)"

definition comparePartition ::
  "'k mtd nand_env \<Rightarrow> 'k mtd_kernel \<Rightarrow> fd \<Rightarrow> 'k mtd artifactBundle \<Rightarrow> snapshot \<Rightarrow> ('k mtd eng, snapshot) act" where
  "comparePartition env kern file b snap =
     (if sn_resume snap
      then seqE (compareResumePartition env b snap (\<lambda>n off. on_kernel (k_pread kern Master n off))
                   (\<lambda>n off. on_kernel (k_pread kern file n off))) (ret snap)
      else compare_loop env kern file b [0..<nBlocks (profile env)] snap)"

subsection \<open>Enabling writes\<close>

text \<open>
  The read-write descriptor is closed again unless everything up to the comparison succeeded;
  then it replaces the read-only one.
\<close>

definition qualifyWritable ::
  "'k mtd nand_env \<Rightarrow> 'k mtd_kernel \<Rightarrow> 'k mtd artifactBundle \<Rightarrow> snapshot \<Rightarrow> ('k mtd eng, snapshot) act" where
  "qualifyWritable env kern b snap =
     seqE (on_dev (qualify_fd (profile env) kern PartitionRW)) (comparePartition env kern PartitionRW b snap)"

definition adoptWritable ::
  "'k mtd nand_env \<Rightarrow> 'k mtd_kernel \<Rightarrow> 'k mtd artifactBundle \<Rightarrow> snapshot \<Rightarrow> ('k mtd eng, snapshot) act" where
  "adoptWritable env kern b snap =
     tryE (qualifyWritable env kern b snap) (\<lambda>r. case r of
       Inl err \<Rightarrow> tryE (on_dev (on_kernel (k_close kern PartitionRW))) (\<lambda>r. case r of
           Inl closeErr \<Rightarrow> fail (Wrapf ''close unqualified RW descriptor'' closeErr)
         | Inr _ \<Rightarrow> fail err)
     | Inr snap' \<Rightarrow>
         seqE (on_dev (updS (\<lambda>m. m\<lparr>m_partition := Some PartitionRW\<rparr>)))
          (seqE (on_dev (on_kernel (k_close kern PartitionRO))) (ret snap')))"

definition ready_to_acquire :: "'k mtd \<Rightarrow> nat option" where
  "ready_to_acquire m =
     (case m_createdIndex m of
        None \<Rightarrow> None
      | Some i \<Rightarrow> if m_partitionAdded m \<and> i \<le> 127 \<and> i \<noteq> masterIndex \<and> m_partition m \<noteq> None \<and>
                     \<not> m_writeEnabled m then Some i else None)"

definition acquireWritablePartition ::
  "'k mtd nand_env \<Rightarrow> 'k mtd_kernel \<Rightarrow> 'k mtd artifactBundle \<Rightarrow> snapshot \<Rightarrow> ('k mtd eng, snapshot) act" where
  "acquireWritablePartition env kern b snap =
     bindE (readS (\<lambda>e. ready_to_acquire (nand_world e))) (\<lambda>created. case created of
       None \<Rightarrow> fail (Errorf ''no qualified read-only partition'')
     | Some index \<Rightarrow>
         seqE (on_dev (checkTopology kern)) (seqE (mapping_only env (sn_Failed snap)) (seqE (checkCtx env)
          (seqE (on_dev (on_kernel (k_mknod kern PartitionRW (index * 2))))
           (seqE (on_dev (on_kernel (k_open kern PartitionRW (index * 2))))
             (adoptWritable env kern b snap))))))"

definition createAndCompare ::
  "'k mtd nand_env \<Rightarrow> 'k mtd_kernel \<Rightarrow> 'k mtd artifactBundle \<Rightarrow> bool \<Rightarrow> snapshot \<Rightarrow> ('k mtd eng, snapshot) act" where
  "createAndCompare env kern b writable snap =
     seqE (makePartition env kern writable snap) (comparePartition env kern PartitionRO b snap)"

definition mtd_EnableWrites ::
  "'k mtd nand_env \<Rightarrow> 'k mtd_kernel \<Rightarrow> 'k mtd artifactBundle \<Rightarrow> snapshot \<Rightarrow> ('k mtd eng, snapshot) act" where
  "mtd_EnableWrites env kern b snap =
     seqE (checkCtx env) (seqE (on_dev (on_kernel (k_runtime kern)))
      (bindE (on_dev (on_kernel (k_version kern))) (\<lambda>banner.
        qualifyWriteKernel (k_arch kern) banner
         (seqE (validateSnapshotMode env snap)
          (bindE (checkPartitionPhase env b snap (createAndCompare env kern b False)) (\<lambda>snap.
           bindE (enableWritesPhase env b snap (acquireWritablePartition env kern b)) (\<lambda>snap.
             seqE (on_dev (updS (\<lambda>m. m\<lparr>m_writeEnabled := True\<rparr>))) (ret snap))))))))"

definition CheckMapping ::
  "'k mtd nand_env \<Rightarrow> 'k mtd_kernel \<Rightarrow> 'k mtd artifactBundle \<Rightarrow> snapshot \<Rightarrow> ('k mtd eng, snapshot) act" where
  "CheckMapping env kern b snap =
     seqE (checkCtx env) (seqE (on_dev (on_kernel (k_runtime kern)))
      (bindE (on_dev (on_kernel (k_version kern))) (\<lambda>banner.
       bindE (readS (\<lambda>e. m_recovery (nand_world e))) (\<lambda>recovering.
        qualifyReadOnlyMapping (k_arch kern) banner recovering
          (checkMappingPhase env b snap (createAndCompare env kern b False))))))"

subsection \<open>Removing the partition\<close>

definition removal_index :: "(nat \<times> string) list \<Rightarrow> 'k mtd \<Rightarrow> go_error + nat" where
  "removal_index current m =
     (if map_of current masterIndex \<noteq> Some ''mv_nand''
      then Inl (Errorf ''cannot establish master ownership for successful ADD cleanup'')
      else (case createdPartitionIndex current (m_label m) of
         (_, Some err) \<Rightarrow> Inl (Wrapf ''resolve owned partition for cleanup'' err)
       | (None, None) \<Rightarrow> Inl (Errorf ''ADD succeeded but no unique owned partition is visible; cleanup unconfirmed'')
       | (Some index, None) \<Rightarrow>
           if (case m_createdIndex m of None \<Rightarrow> False | Some created \<Rightarrow> index \<noteq> created)
           then Inl (Errorf ''owned partition index changed; refusing deletion'') else Inr index))"

definition removal_confirmed :: "(nat \<times> string) list \<Rightarrow> nat \<Rightarrow> string \<Rightarrow> go_error + unit" where
  "removal_confirmed current index label =
     (if map_of current masterIndex \<noteq> Some ''mv_nand''
      then Inl (Errorf ''master identity changed while verifying partition removal'')
      else if map_of current index \<noteq> None
      then Inl (Errorf ''partition index still listed after removal; nodes left untouched'')
      else if label \<in> snd ` set current
      then Inl (Errorf ''owned partition label still listed after removal; nodes left untouched'')
      else Inr ())"

definition removeAddedPartition :: "'k mtd_kernel \<Rightarrow> ('k mtd, unit) act" where
  "removeAddedPartition kern =
     bindE (readS m_partitionAdded) (\<lambda>added.
       if \<not> added then ret ()
       else bindE (readS (\<lambda>m. m_master m \<and> m_label m \<noteq> [])) (\<lambda>owned.
         seqE (checkE owned (Errorf ''ADD succeeded but its master handle or owned label is unavailable''))
         (bindE (wrapE ''resolve successful ADD before cleanup'' (on_kernel (k_entries kern))) (\<lambda>current.
          bindE (readS (removal_index current)) (\<lambda>found.
          bindE (liftE found) (\<lambda>index.
          bindE (readS m_label) (\<lambda>label.
            seqE (updS (\<lambda>m. m\<lparr>m_createdIndex := Some index\<rparr>))
            (seqE (wrapE ''remove temporary partition'' (on_kernel (k_remove kern label index)))
            (bindE (wrapE ''verify partition removal'' (on_kernel (k_entries kern))) (\<lambda>current.
              seqE (liftE (removal_confirmed current index label))
              (seqE (updS (\<lambda>m. m\<lparr>m_partitionAdded := False, m_createdIndex := None\<rparr>))
                (on_kernel (k_nodes kern index)))))))))))))"

text \<open>Every resource is released in turn, and the errors are gathered.\<close>

definition close_step :: "('k mtd \<Rightarrow> bool) \<Rightarrow> ('k mtd, unit) act \<Rightarrow> ('k mtd \<Rightarrow> 'k mtd) \<Rightarrow> ('k mtd, bool) act" where
  "close_step present a clear =
     bindE (readS present) (\<lambda>p.
       if \<not> p then ret True else tryE a (\<lambda>r. seqE (updS clear) (ret (\<not> isl r))))"

definition mtd_Close :: "'k mtd_kernel \<Rightarrow> ('k mtd, unit) act" where
  "mtd_Close kern =
     bindE (close_step (\<lambda>m. m_partition m \<noteq> None)
              (bindE (readS m_partition) (\<lambda>p. case p of None \<Rightarrow> ret () | Some file \<Rightarrow> on_kernel (k_close kern file)))
              (\<lambda>m. m\<lparr>m_partition := None\<rparr>)) (\<lambda>a.
     bindE (close_step (\<lambda>_. True) (removeAddedPartition kern) (\<lambda>m. m)) (\<lambda>b.
     bindE (close_step m_master (on_kernel (k_close kern Master)) (\<lambda>m. m\<lparr>m_master := False\<rparr>)) (\<lambda>c.
     bindE (close_step m_lock (on_kernel (k_close_lock kern)) (\<lambda>m. m\<lparr>m_lock := False\<rparr>)) (\<lambda>d.
       checkE (a \<and> b \<and> c \<and> d) (Errorf ''cleanup incomplete'')))))"

subsection \<open>The device and its environment\<close>

text \<open>
  \<open>readers\<close> is the device whose \<open>EnableWrites\<close> is not used: the checks inside
  \<open>EnableWrites\<close> only read.
\<close>

definition mtd_device ::
  "profile \<Rightarrow> (byte list \<Rightarrow> string) \<Rightarrow> 'k mtd_kernel
     \<Rightarrow> ('k mtd artifactBundle \<Rightarrow> snapshot \<Rightarrow> ('k mtd eng, snapshot) act) \<Rightarrow> 'k mtd device" where
  "mtd_device pf sha kern enable =
     \<lparr>Geometry = mtd_Geometry pf kern, CheckIdentity = mtd_CheckIdentity pf sha kern,
      ReadAt = mtd_ReadAt pf kern, ReadOOB = mtd_ReadOOB pf kern, IsBad = mtd_IsBad pf kern,
      dev_Stats = mtd_Stats kern, EnableWrites = enable, Erase = mtd_Erase pf kern,
      WriteAt = mtd_WriteAt pf kern, Sync = mtd_Sync pf kern\<rparr>"

definition mtd_readers :: "'k mtd nand_env \<Rightarrow> 'k mtd_kernel \<Rightarrow> 'k mtd nand_env" where
  "mtd_readers base kern =
     base\<lparr>device := mtd_device (profile base) (sha256 base) kern (\<lambda>_ _. fail (Errorf ''unused'')),
          mtd_mode := (\<lambda>m snap t. if snapshotMode (profile base) m snap t then Inr ()
             else Inl (Errorf ''mapping requires a complete matching-mode preflight snapshot'')),
          mtd_resume_ok := (\<lambda>m. m_resume m \<and> \<not> m_recovery m)\<rparr>"

definition mtd_env :: "'k mtd nand_env \<Rightarrow> 'k mtd_kernel \<Rightarrow> 'k mtd nand_env" where
  "mtd_env base kern =
     (mtd_readers base kern)\<lparr>device :=
        mtd_device (profile base) (sha256 base) kern (mtd_EnableWrites (mtd_readers base kern) kern)\<rparr>"

end
