(* ===== verification/Nand_Mtd_Flash.thy ===== *)
theory Nand_Mtd_Flash
  imports Nand_Mtd Nand_Flash
begin

text \<open>
  The kernel's device is a flash as the engine wants it: from the laws of the system calls
  (locale \<open>nand_kernel\<close>) the operations of \<^verbatim>\<open>MTD\<close> satisfy the locale \<open>flash\<close>, whose
  block numbers are extended past the extent so that they cover the whole chip. What is proved
  of the engine then speaks of every block of the chip.
\<close>

subsection \<open>Blocks of the chip\<close>

definition aligned :: "profile \<Rightarrow> bool" where
  "aligned pf \<longleftrightarrow> p_Start pf mod EraseBytes = 0 \<and> p_Span pf mod EraseBytes = 0 \<and> EndByte pf < 2 ^ 32"

definition first_block :: "profile \<Rightarrow> nat" where "first_block pf = p_Start pf div EraseBytes"

text \<open>
  \<open>chip_block pf i\<close>: the blocks of the extent come first, then the blocks below it, then those
  above it.
\<close>

definition chip_block :: "profile \<Rightarrow> nat \<Rightarrow> nat" where
  "chip_block pf i =
     (if i < nBlocks pf then first_block pf + i
      else if i < nBlocks pf + first_block pf then i - nBlocks pf else i)"

lemma chip_block_inj: "chip_block pf i = chip_block pf j \<Longrightarrow> i = j"
  unfolding chip_block_def by (simp split: if_splits)

lemma chip_block_onto: "\<exists>i. chip_block pf i = j \<and> (i < nBlocks pf \<longleftrightarrow> first_block pf \<le> j \<and> j < first_block pf + nBlocks pf)"
proof -
  consider "j < first_block pf" | "first_block pf \<le> j" "j < first_block pf + nBlocks pf"
    | "first_block pf + nBlocks pf \<le> j" by linarith
  then show ?thesis
  proof cases
    case 1
    then show ?thesis by (intro exI [of _ "j + nBlocks pf"]) (simp add: chip_block_def)
  next
    case 2
    then show ?thesis by (intro exI [of _ "j - first_block pf"]) (auto simp: chip_block_def)
  next
    case 3
    then show ?thesis by (intro exI [of _ j]) (simp add: chip_block_def)
  qed
qed

lemma profiles_aligned:
  "aligned profile_pilot" "aligned profile_bsl" "aligned profile_bsl_compact" "aligned profile_twoblock"
  by (simp_all add: aligned_def EndByte_def EraseBytes_def profile_pilot_def profile_bsl_def
      profile_bsl_compact_def profile_twoblock_def)

lemma bounds_value:
  "bounds pf off n a = Inr () \<longleftrightarrow> off + n \<le> p_Span pf \<and> n \<noteq> 0 \<and> off mod a = 0"
  by (auto simp: bounds_def)

lemma inside:
  assumes "aligned pf" "off + n \<le> p_Span pf" "n \<noteq> 0"
  shows "off div EraseBytes < nBlocks pf" "(p_Start pf + off) div EraseBytes = chip_block pf (off div EraseBytes)"
    "(p_Start pf + off) mod EraseBytes = off mod EraseBytes" "off < 2 ^ 32"
proof -
  from assms(1) obtain s m where sm: "p_Start pf = EraseBytes * s" "p_Span pf = EraseBytes * m"
    by (auto simp: aligned_def mod_eq_0_iff_dvd elim!: dvdE)
  have pos: "0 < EraseBytes" by (simp add: EraseBytes_def)
  have "off < EraseBytes * m" using assms(2,3) sm(2) by simp
  then show b: "off div EraseBytes < nBlocks pf"
    using pos by (simp add: nBlocks_def sm(2) less_mult_imp_div_less mult.commute)
  show "(p_Start pf + off) div EraseBytes = chip_block pf (off div EraseBytes)"
    using b pos by (simp add: chip_block_def first_block_def sm(1))
  show "(p_Start pf + off) mod EraseBytes = off mod EraseBytes" by (simp add: sm(1))
  show "off < 2 ^ 32" using assms by (simp add: aligned_def EndByte_def)
qed

subsection \<open>Rechecks only read\<close>

text \<open>
  \<open>keeps_snapshot I snap m\<close>: the action keeps \<open>I\<close>, and the snapshot it returns has the digests and
  the mode of the one it was given.
\<close>

definition same_mode :: "snapshot \<Rightarrow> snapshot \<Rightarrow> bool" where
  "same_mode snap sn \<longleftrightarrow> sn_Hashes sn = sn_Hashes snap \<and> sn_resume sn = sn_resume snap"

abbreviation keeps_snapshot :: "('s \<Rightarrow> bool) \<Rightarrow> snapshot \<Rightarrow> ('s, snapshot) act \<Rightarrow> bool" where
  "keeps_snapshot I snap m \<equiv> triple I m (\<lambda>sn s. same_mode snap sn \<and> I s) (\<lambda>_. I)"

lemma mode_refl [simp]: "same_mode snap snap"
  by (simp add: same_mode_def)

lemma snapshot_ret: "same_mode snap sn \<Longrightarrow> keeps_snapshot I snap (ret sn)"
  by (simp add: triple_ret)

lemma snapshot_fail: "keeps_snapshot I snap (fail e)"
  by (simp add: triple_fail)

lemma snapshot_seq: "keeps I m \<Longrightarrow> keeps_snapshot I snap k \<Longrightarrow> keeps_snapshot I snap (seqE m k)"
  by (rule triple_seqE)

lemma snapshot_bind: "keeps I m \<Longrightarrow> (\<And>x. keeps_snapshot I snap (f x)) \<Longrightarrow> keeps_snapshot I snap (bindE m f)"
  by (rule triple_bindE)

lemma snapshot_then:
  assumes "keeps_snapshot I snap m" "\<And>sn. same_mode snap sn \<Longrightarrow> keeps_snapshot I sn (f sn)"
  shows "keeps_snapshot I snap (bindE m f)"
proof (rule triple_bindE [OF assms(1)], rule triple_pure_conj)
  fix sn assume s: "same_mode snap sn"
  show "triple I (f sn) (\<lambda>sn' s. same_mode snap sn' \<and> I s) (\<lambda>_. I)"
    by (rule triple_conseq [OF assms(2) [OF s]]) (use s in \<open>simp_all add: same_mode_def\<close>)
qed

lemma snapshot_if:
  "(c \<Longrightarrow> keeps_snapshot I snap m) \<Longrightarrow> (\<not> c \<Longrightarrow> keeps_snapshot I snap k) \<Longrightarrow>
   keeps_snapshot I snap (if c then m else k)"
  by simp

lemma snapshot_prod: "(\<And>x y. keeps_snapshot I snap (f x y)) \<Longrightarrow> keeps_snapshot I snap (case p of (x, y) \<Rightarrow> f x y)"
  by (cases p) simp

lemmas snapshot_rules = snapshot_seq snapshot_bind snapshot_if snapshot_prod snapshot_fail

context flash_reads begin

lemma mapping_quiet: "keeps (held P) (mappingStats env allowed)" "keeps (held P) (mapping_only env allowed)"
  unfolding mapping_only_def mappingStats_def by (intro keeps_rules check_quiet)+

lemma verified_quiet: "keeps (held P) (on_dev (verifiedBlock env b i restore))"
  by (rule triple_conseq [OF verifiedBlock_value]) simp_all

lemma verify_dev_quiet: "keeps (held P) (on_dev (verify_only env b i restore))"
  using verify_only_quiet by (rule on_dev_same [OF keeps_same])

lemma checkedRead_quiet: "keeps (held P) (checkedRead env i oob)"
  by (rule triple_conseq [OF checkedRead_value]) auto

lemma recheck_block_kept: "keeps_snapshot (held P) snap (recheck_block env b snap i)"
  unfolding recheck_block_def Let_def
  by (intro snapshot_rules checkCtx_quiet verified_quiet keeps_checkE status_quiet checkedRead_quiet
      mapping_quiet snapshot_ret) (simp add: same_mode_def)

lemma recheck_loop_kept: "keeps_snapshot (held P) snap (recheck_loop env b is snap)"
proof (induction "is" arbitrary: snap)
  case (Cons i "is")
  show ?case unfolding recheck_loop.simps by (rule snapshot_then [OF recheck_block_kept Cons])
qed (simp add: triple_ret)

lemma recheckResume_quiet: "keeps (held P) (recheckResumeMapping env b snap)"
  unfolding recheckResumeMapping_def recheck_resume_block_def Let_def
  by (intro keeps_rules check_quiet geometry_quiet checkCtx_quiet verified_quiet status_quiet readForSnapshot_quiet)

lemma recheckMapping_kept: "keeps_snapshot (held P) snap (recheckMappingState env b snap)"
  unfolding recheckMappingState_def
  by (intro snapshot_rules checkCtx_quiet validateSnapshot_quiet recheckResume_quiet mapping_quiet geometry_quiet
      snapshot_ret snapshot_then [OF recheck_loop_kept]) simp_all

lemma partitionPhase_kept:
  assumes "\<And>sn. keeps_snapshot (held P) sn (create sn)"
  shows "keeps_snapshot (held P) snap (checkPartitionPhase env b snap create)"
  unfolding checkPartitionPhase_def Let_def
  by (intro snapshot_seq snapshot_then [OF recheckMapping_kept] snapshot_then [OF assms] checkCtx_quiet
      validateSnapshot_quiet journal_quiet mapping_quiet snapshot_ret) simp

lemma enablePhase_kept:
  assumes "\<And>sn. keeps_snapshot (held P) sn (acquire sn)"
  shows "keeps_snapshot (held P) snap (enableWritesPhase env b snap acquire)"
  unfolding enableWritesPhase_def Let_def
  by (intro snapshot_seq snapshot_then [OF recheckMapping_kept] snapshot_then [OF assms] checkCtx_quiet
      validateSnapshot_quiet journal_quiet mapping_quiet keeps_forE verify_dev_quiet snapshot_ret) simp

lemma resume_main_quiet:
  assumes "\<And>n off. keeps (held P) (on_dev (readAt n off))"
  shows "keeps (held P) (resumeReadMain env readAt base i original)"
proof -
  have "keeps (held P) (resume_main_pages env readAt base i original pages acc)" for pages acc
  proof (induction pages arbitrary: acc)
    case (Cons page pages)
    then show ?case
      unfolding resume_main_pages.simps
      by (intro keeps_rules checkCtx_quiet resumeIO_quiet exactly_quiet assms record_quiet)
  qed (simp add: keeps_ret)
  then show ?thesis unfolding resumeReadMain_def by (intro keeps_rules)
qed

lemma compareResume_quiet:
  assumes "\<And>n off. keeps (held P) (on_dev (master n off))" "\<And>n off. keeps (held P) (on_dev (part n off))"
  shows "keeps (held P) (compareResumePartition env b snap master part)"
  unfolding compareResumePartition_def Let_def
  by (intro keeps_rules validateSnapshot_quiet status_quiet checkCtx_quiet resume_main_quiet assms)

end

subsection \<open>The kernel's contract\<close>

text \<open>
  \<open>chip k j\<close> is the content of the \<open>j\<close>-th erase block of the chip. Only the erase request and
  the page write touch it, on a descriptor of the partition at the extent's start, each in its
  own block; the master descriptor is read-only, so these fail on it. A full read of the master
  returns the content. The journal, the outputs and the artifact files are other files.
\<close>

locale nand_kernel =
  fixes base :: "'k mtd nand_env" and kern :: "'k mtd_kernel" and b :: "'k mtd artifactBundle"
    and chip :: "'k \<Rightarrow> nat \<Rightarrow> byte list"
  assumes extent: "aligned (profile base)"
    and chip_length: "length (chip k j) = EraseBytes"
    and kernel_quiet: "same chip (k_info kern file)" "same chip (k_pread kern file n off)"
      "same chip (k_readoob kern off n)" "same chip (k_bad kern off)" "same chip (k_eccstats kern)"
      "same chip (k_filemode kern file)" "same chip (k_entries kern)" "same chip (k_mounts kern)"
      "same chip (k_users kern)" "same chip (k_runtime kern)" "same chip (k_version kern)"
      "same chip (k_random kern)" "same chip (k_add kern label start span)"
      "same chip (k_sysfs kern index key)" "same chip (k_mknod kern file minor)"
      "same chip (k_open kern file minor)" "same chip (k_close kern file)" "same chip (k_pause kern)"
    and base_quiet: "same (\<lambda>m. chip (m_kernel m)) (Record base ev)"
      "same (\<lambda>m. chip (m_kernel m)) (oobOutput base bs)" "same (\<lambda>m. chip (m_kernel m)) (persistEvidence base)"
      "same (\<lambda>m. chip (m_kernel m)) (f_ReadAt (b_image b) n off)"
      "same (\<lambda>m. chip (m_kernel m)) (f_ReadAt (b_original b) n off)"
      "same (\<lambda>m. chip (m_kernel m)) (f_Size (b_image b))" "same (\<lambda>m. chip (m_kernel m)) (f_Size (b_original b))"
    and pread_chip: "k_pread kern Master n off k = (Inr bs, k') \<Longrightarrow> length bs = n \<Longrightarrow>
      off mod EraseBytes + n \<le> EraseBytes \<Longrightarrow> bs = take n (drop (off mod EraseBytes) (chip k (off div EraseBytes)))"
    and memerase_frame: "off < 2 ^ 32 \<Longrightarrow> off mod EraseBytes = 0 \<Longrightarrow>
      j \<noteq> (p_Start (profile base) + off) div EraseBytes \<Longrightarrow>
      chip (snd (k_memerase kern file (of_nat off) (of_nat EraseBytes) k)) j = chip k j"
    and pwrite_frame: "length bs = PageBytes \<Longrightarrow> off mod PageBytes = 0 \<Longrightarrow>
      j \<noteq> (p_Start (profile base) + off) div EraseBytes \<Longrightarrow>
      chip (snd (k_pwrite kern file bs off k)) j = chip k j"

context nand_kernel begin

abbreviation view :: "'k mtd \<Rightarrow> nat \<Rightarrow> byte list" where
  "view m i \<equiv> chip (m_kernel m) (chip_block (profile base) i)"

abbreviation chip_of :: "'k mtd \<Rightarrow> nat \<Rightarrow> byte list" where
  "chip_of m \<equiv> chip (m_kernel m)"

lemma on_kernel_quiet: "same chip a \<Longrightarrow> keeps (\<lambda>m. P (chip_of m)) (on_kernel a)"
  by (rule keepsI) (simp add: on_kernel_def split_beta same_def)

lemmas kernel_keeps = kernel_quiet [THEN on_kernel_quiet]

lemma device_keeps:
  "keeps (\<lambda>m. P (chip_of m)) (mtd_Geometry pf kern)" "keeps (\<lambda>m. P (chip_of m)) (mtd_ReadAt pf kern n off)"
  "keeps (\<lambda>m. P (chip_of m)) (mtd_ReadOOB pf kern off)" "keeps (\<lambda>m. P (chip_of m)) (mtd_IsBad pf kern off)"
  "keeps (\<lambda>m. P (chip_of m)) (mtd_Stats kern)" "keeps (\<lambda>m. P (chip_of m)) (mtd_Sync pf kern)"
  unfolding mtd_Geometry_def mtd_ReadAt_def mtd_ReadOOB_def mtd_IsBad_def mtd_Stats_def mtd_Sync_def
  by (intro keeps_rules kernel_keeps)+

lemma checkTopology_keeps: "keeps (\<lambda>m. P (chip_of m)) (checkTopology kern)"
  unfolding checkTopology_def check_mount_def by (intro keeps_rules kernel_keeps)

lemma identity_keeps: "keeps (\<lambda>m. P (chip_of m)) (mtd_CheckIdentity pf sha kern)"
  unfolding mtd_CheckIdentity_def check_sentinel_def
  by (intro keeps_rules kernel_keeps checkTopology_keeps device_keeps)

lemma base_view: "same chip_of a \<Longrightarrow> same view a"
  by (simp add: same_def)

lemma same_view:
  assumes "\<And>P. keeps (\<lambda>m. P (chip_of m)) a"
  shows "same view a"
  by (rule base_view, rule keeps_same) (rule assms)

lemma readers_flash: "flash_reads (mtd_readers base kern) b view"
proof unfold_locales
  fix n off m bs m'
  assume "ReadAt (device (mtd_readers base kern)) n off m = (Inr bs, m')" "length bs = n"
    and fits: "off mod EraseBytes + n \<le> EraseBytes"
  then have "bounds (profile base) off n PageBytes = Inr ()"
    and r: "k_pread kern Master n (p_Start (profile base) + off) (m_kernel m) = (Inr bs, m_kernel m')"
    by (auto simp: mtd_readers_def mtd_device_def mtd_ReadAt_def on_kernel_def elim!: act_elims split: prod.splits)
  then have "off + n \<le> p_Span (profile base)" "n \<noteq> 0" by (simp_all add: bounds_value)
  note i = inside [OF extent this]
  from pread_chip [OF r \<open>length bs = n\<close>] fits
  show "bs = take n (drop (off mod EraseBytes) (view m (off div EraseBytes)))" by (simp add: i)
qed (simp_all add: chip_length mtd_readers_def mtd_device_def same_view device_keeps identity_keeps
    base_view base_quiet)

abbreviation "readers \<equiv> mtd_readers base kern"

abbreviation seen :: "((nat \<Rightarrow> byte list) \<Rightarrow> bool) \<Rightarrow> 'k mtd eng \<Rightarrow> bool" where
  "seen P e \<equiv> P (view (nand_world e))"

lemmas readers_check = flash_reads.check_quiet [OF readers_flash] flash_reads.checkCtx_quiet [OF readers_flash]
  flash_reads.mapping_quiet [OF readers_flash] flash_reads.status_quiet [OF readers_flash]

lemma on_dev_seen: "(\<And>P. keeps (\<lambda>m. P (chip_of m)) a) \<Longrightarrow> keeps (seen P) (on_dev a)"
  by (rule on_dev_same [OF same_view])

lemma kernel_seen: "same chip a \<Longrightarrow> keeps (seen P) (on_dev (on_kernel a))"
  by (rule on_dev_seen) (rule on_kernel_quiet)

lemmas kernel_ops_seen = kernel_quiet [THEN kernel_seen]

lemma upd_keeps: "(\<And>m. m_kernel (g m) = m_kernel m) \<Longrightarrow> keeps (\<lambda>m. P (chip_of m)) (updS g)"
  by (simp add: keeps_updS)

lemma discover_keeps: "keeps (\<lambda>m. P (chip_of m)) (discoverPartition kern attempts)"
proof (induction attempts)
  case (Suc attempts)
  show ?case
    unfolding discoverPartition.simps Let_def
    by (intro keeps_rules kernel_keeps upd_keeps Suc) simp
qed (simp add: keeps_fail)

lemma qualify_keeps: "keeps (\<lambda>m. P (chip_of m)) (qualify_fd pf kern file)"
  unfolding qualify_fd_def by (intro keeps_rules kernel_keeps)

lemma sysfs_keeps: "keeps (\<lambda>m. P (chip_of m)) (check_sysfs pf kern label index)"
  unfolding check_sysfs_def by (intro keeps_rules kernel_keeps)

lemma openPartition_keeps: "keeps (\<lambda>m. P (chip_of m)) (openPartition pf kern)"
  unfolding openPartition_def blockE.simps
  by (intro keeps_rules kernel_keeps checkTopology_keeps qualify_keeps sysfs_keeps upd_keeps) simp_all

lemma addAndDiscover_keeps:
  "keeps (\<lambda>m. P (chip_of m)) (addAndDiscoverPartition (on_kernel (k_add kern label start span)) kern)"
  unfolding addAndDiscoverPartition_def
  by (intro keeps_rules kernel_keeps discover_keeps upd_keeps) simp

lemma mode_seen: "keeps (seen P) (validateSnapshotMode env snap)"
  unfolding validateSnapshotMode_def by (intro keeps_rules)

lemma makePartition_seen: "keeps (seen P) (makePartition readers kern writable snap)"
  unfolding makePartition_def Let_def
  by (intro keeps_rules readers_check mode_seen kernel_ops_seen on_dev_seen checkTopology_keeps
      addAndDiscover_keeps openPartition_keeps upd_keeps) simp

lemma compare_block_kept: "keeps_snapshot (seen P) snap (compare_block readers kern file b i snap)"
proof -
  have pair: "keeps_snapshot (seen P) snap (case (r1, r2) of (Inr x, Inr y) \<Rightarrow> f x y | _ \<Rightarrow> fail e)"
    if "\<And>x y. keeps_snapshot (seen P) snap (f x y)" for r1 r2 :: "go_error + byte list" and f e
    using that by (cases r1; cases r2) (simp_all add: snapshot_fail)
  have kept_try: "keeps (seen P) m \<Longrightarrow> (\<And>r. keeps_snapshot (seen P) snap (g r)) \<Longrightarrow>
      keeps_snapshot (seen P) snap (tryE m g)" for m :: "('k mtd eng, 'x) act" and g
    by (rule kept_tryE)
  show ?thesis
    unfolding compare_block_def Let_def
    by (intro snapshot_seq snapshot_bind kept_try pair readers_check kernel_ops_seen keeps_rules snapshot_ret)
       (simp add: same_mode_def)
qed

lemma compare_loop_kept: "keeps_snapshot (seen P) snap (compare_loop readers kern file b is snap)"
proof (induction "is" arbitrary: snap)
  case Nil
  show ?case by (simp only: compare_loop.simps) (intro snapshot_seq readers_check snapshot_ret mode_refl)
next
  case (Cons i "is")
  show ?case unfolding compare_loop.simps by (rule snapshot_then [OF compare_block_kept Cons])
qed

lemma comparePartition_kept: "keeps_snapshot (seen P) snap (comparePartition readers kern file b snap)"
  unfolding comparePartition_def
  by (intro snapshot_if snapshot_seq flash_reads.compareResume_quiet [OF readers_flash] kernel_ops_seen
      compare_loop_kept snapshot_ret mode_refl)

lemma createAndCompare_kept: "keeps_snapshot (seen P) snap (createAndCompare readers kern b writable snap)"
  unfolding createAndCompare_def by (intro snapshot_seq makePartition_seen comparePartition_kept)

lemma adoptWritable_kept: "keeps_snapshot (seen P) snap (adoptWritable readers kern b snap)"
proof -
  have q: "keeps_snapshot (seen P) snap (qualifyWritable readers kern b snap)"
    unfolding qualifyWritable_def by (intro snapshot_seq on_dev_seen qualify_keeps comparePartition_kept)
  have close: "triple (seen P) (tryE (on_dev (on_kernel (k_close kern PartitionRW))) (\<lambda>r. case r of
       Inl closeErr \<Rightarrow> fail (Wrapf msg closeErr) | Inr _ \<Rightarrow> fail err))
       (\<lambda>sn s. same_mode snap sn \<and> seen P s) (\<lambda>_. seen P)" for msg err
    by (rule kept_tryE [OF kernel_seen [OF kernel_quiet(17)]], rule triple_case_sum; rule snapshot_fail)
  have adopt: "keeps_snapshot (seen P) snap (seqE (on_dev (updS (\<lambda>m. m\<lparr>m_partition := Some PartitionRW\<rparr>)))
          (seqE (on_dev (on_kernel (k_close kern PartitionRO))) (ret sn)))" if "same_mode snap sn" for sn
    by (intro snapshot_seq on_dev_seen upd_keeps kernel_ops_seen snapshot_ret that) simp
  show ?thesis
    unfolding adoptWritable_def
  proof (rule triple_tryE [where R = "\<lambda>r e. (\<forall>sn. r = Inr sn \<longrightarrow> same_mode snap sn) \<and> seen P e"])
    show "triple (seen P) (qualifyWritable readers kern b snap)
        (\<lambda>x e. (\<forall>sn. (Inr x :: go_error + snapshot) = Inr sn \<longrightarrow> same_mode snap sn) \<and> seen P e)
        (\<lambda>x e. (\<forall>sn. Inl x = Inr sn \<longrightarrow> same_mode snap sn) \<and> seen P e)"
      by (rule triple_conseq [OF q]) simp_all
  qed (rule triple_pure_conj, rule triple_case_sum, rule close, rule adopt, simp)
qed

lemma acquire_kept: "keeps_snapshot (seen P) snap (acquireWritablePartition readers kern b snap)"
proof -
  have opt: "keeps_snapshot (seen P) snap (case x of None \<Rightarrow> fail e | Some i \<Rightarrow> f i)"
    if "\<And>i. keeps_snapshot (seen P) snap (f i)" for x :: "nat option" and f e
    using that by (cases x) (simp_all add: snapshot_fail)
  show ?thesis
    unfolding acquireWritablePartition_def
    by (intro snapshot_bind opt snapshot_seq keeps_readS on_dev_seen checkTopology_keeps readers_check
        kernel_ops_seen adoptWritable_kept)
qed

lemma EnableWrites_kept: "keeps_snapshot (seen P) snap (mtd_EnableWrites readers kern b snap)"
  unfolding mtd_EnableWrites_def qualifyWriteKernel_def
  by (intro snapshot_seq snapshot_bind snapshot_if snapshot_fail readers_check kernel_ops_seen mode_seen
      snapshot_then [OF flash_reads.partitionPhase_kept [OF readers_flash]] createAndCompare_kept
      snapshot_then [OF flash_reads.enablePhase_kept [OF readers_flash]] acquire_kept on_dev_seen upd_keeps
      snapshot_ret) simp_all

lemma writes_frame:
  assumes "i \<noteq> off div EraseBytes"
  shows "view (snd (mtd_Erase (profile base) kern off m)) i = view m i"
    and "view (snd (mtd_WriteAt (profile base) kern bs off m)) i = view m i"
proof -
  have other: "chip_block (profile base) i \<noteq> (p_Start (profile base) + off) div EraseBytes"
    if "bounds (profile base) off n a = Inr ()" for n a
  proof -
    from that have "off + n \<le> p_Span (profile base)" "n \<noteq> 0" by (simp_all add: bounds_value)
    from inside [OF extent this] assms chip_block_inj show ?thesis by metis
  qed
  show "view (snd (mtd_Erase (profile base) kern off m)) i = view m i"
  proof (cases "\<exists>file. m_writeEnabled m \<and> m_partition m = Some file \<and>
      bounds (profile base) off EraseBytes EraseBytes = Inr ()")
    case True
    then obtain fd where f: "m_writeEnabled m" "m_partition m = Some fd"
      and bd: "bounds (profile base) off EraseBytes EraseBytes = Inr ()" by blast
    from bd have s: "off + EraseBytes \<le> p_Span (profile base)" "EraseBytes \<noteq> 0" "off mod EraseBytes = 0"
      by (simp_all add: bounds_value)
    from memerase_frame [OF inside(4) [OF extent s(1,2)] s(3) other [OF bd]]
    show ?thesis using f bd by (simp add: mtd_Erase_def act_simps on_kernel_def split_beta)
  qed (auto simp: mtd_Erase_def act_simps split: option.splits sum.splits)
  show "view (snd (mtd_WriteAt (profile base) kern bs off m)) i = view m i"
  proof (cases "\<exists>file. m_writeEnabled m \<and> length bs = PageBytes \<and> m_partition m = Some file \<and>
      bounds (profile base) off (length bs) PageBytes = Inr ()")
    case True
    then obtain fd where f: "m_writeEnabled m" "length bs = PageBytes" "m_partition m = Some fd"
      and bd: "bounds (profile base) off (length bs) PageBytes = Inr ()" by blast
    from bd have "off mod PageBytes = 0" by (simp add: bounds_value)
    from pwrite_frame [OF f(2) this other [OF bd]]
    show ?thesis using f bd by (simp add: mtd_WriteAt_def act_simps on_kernel_def split_beta)
  qed (auto simp: mtd_WriteAt_def act_simps split: option.splits sum.splits)
qed

end

sublocale nand_kernel \<subseteq> flash "mtd_env base kern" b view
proof -
  have fields: "device (mtd_env base kern) = (device (mtd_readers base kern))
      \<lparr>EnableWrites := mtd_EnableWrites (mtd_readers base kern) kern\<rparr>"
    "Record (mtd_env base kern) = Record (mtd_readers base kern)"
    "oobOutput (mtd_env base kern) = oobOutput (mtd_readers base kern)"
    "persistEvidence (mtd_env base kern) = persistEvidence (mtd_readers base kern)"
    by (simp_all add: mtd_env_def mtd_readers_def mtd_device_def)
  have reads: "flash_reads (mtd_env base kern) b view"
    using readers_flash unfolding flash_reads_def fields by simp
  have writes: "flash_axioms (mtd_env base kern) b view"
  proof
    have "keeps (\<lambda>e. view (nand_world e) = c) (mtd_EnableWrites (mtd_readers base kern) kern b snap)" for c snap
      by (rule triple_conseq [OF EnableWrites_kept [where P = "\<lambda>x. x = c"]]) simp_all
    then have "same (\<lambda>e. view (nand_world e)) (mtd_EnableWrites (mtd_readers base kern) kern b snap)" for snap
      by (rule keeps_same)
    then show "same (\<lambda>e. view (nand_world e)) (EnableWrites (device (mtd_env base kern)) b snap)" for snap
      by (simp add: fields)
    show "sn_Hashes snap' = sn_Hashes snap \<and> sn_resume snap' = sn_resume snap"
      if "EnableWrites (device (mtd_env base kern)) b snap e = (Inr snap', e')" for snap e snap' e'
      using tripleD_value [OF EnableWrites_kept [where P = "\<lambda>_. True" and snap = snap], of e snap' e'] that
      by (simp add: fields same_mode_def)
  qed (simp_all add: fields mtd_readers_def mtd_device_def writes_frame)
  from reads writes show "flash (mtd_env base kern) b view" by (rule flash.intro)
qed

context nand_kernel begin

lemma view_flash: "flash (mtd_env base kern) b view"
  by unfold_locales

end

end
