(* ===== verification/Nand_Props.thy ===== *)
theory Nand_Props
  imports Nand_Mem Nand_Mtd_Flash
begin

text \<open>
  What the NAND writer guarantees whatever its device answers: how far an interrupted write
  has come, that nothing is touched before everything was read, and what success means; and,
  through \<^verbatim>\<open>MTD\<close>, which blocks of the chip it may touch at all.
\<close>

subsection \<open>Executing\<close>

lemma preflight_loop_mode:
  "preflight_loop env b restore is snap oobs e = (Inr (snap', oobs'), e') \<Longrightarrow> sn_resume snap' = sn_resume snap"
proof (induction "is" arbitrary: snap oobs e)
  case (Cons i "is")
  from Cons.prems obtain hash oob u and stats :: nandStats where
    "preflight_loop env b restore is (snap\<lparr>sn_Hashes := (sn_Hashes snap)[i := hash],
        sn_Corrected := sn_Corrected snap + ucast (Corrected stats),
        sn_Failed := sn_Failed snap + ucast (Failed stats)\<rparr>) (oobs @ oob) u = (Inr (snap', oobs'), e')"
    unfolding preflight_loop.simps by (auto elim!: bindE_value split: prod.splits)
  from Cons.IH [OF this] show ?case by simp
qed simp

lemma preflight_mode:
  assumes "preflight env b restore e = (Inr snap, e')"
  shows "\<not> sn_resume snap"
proof -
  from assms obtain u where rest: "seqE (newStatsTracker env) (seqE (checkGeometry env)
       (bindE (preflight_loop env b restore [0..<nBlocks (profile env)] (newSnapshot (profile env) restore False) [])
         (\<lambda>(snap, oobs).
            seqE (journal env (event0 ''preflight-complete'' (-1)
                    \<lparr>ev_Bytes := p_Span (profile env), ev_Detail := sha256 env oobs\<rparr>))
             (seqE (check_only env) (ret (snap\<lparr>sn_OOBHash := sha256 env oobs\<rparr>)))))) e = (Inr snap, u)"
    unfolding preflight_def Let_def by (auto split: if_splits)
  then obtain snap0 oobs v w where loop: "preflight_loop env b restore [0..<nBlocks (profile env)]
      (newSnapshot (profile env) restore False) [] v = (Inr (snap0, oobs), w)"
    and snap: "snap = snap0\<lparr>sn_OOBHash := sha256 env oobs\<rparr>"
    by (elim seqE_value bindE_value) (auto elim!: seqE_value)
  from preflight_loop_mode [OF loop] show ?thesis by (simp add: snap newSnapshot_def)
qed

context flash begin

lemma Execute_prefix:
  assumes "distinct (WriteOrder (Plan b))" "Execute env b restore approval e = (r, e')"
  shows "\<exists>k. prefix_done env b restore (WriteOrder (Plan b)) k (cells (nand_world e)) (cells (nand_world e'))"
proof -
  let ?c0 = "cells (nand_world e)"
  let ?pd = "\<lambda>c. \<exists>k. prefix_done env b restore (WriteOrder (Plan b)) k ?c0 c"
  have none: "?pd ?c0" by (intro exI [of _ 0]) (simp add: prefix_done_def)
  have pre: "triple (held (\<lambda>c. c = ?c0)) (preflight env b restore)
      (\<lambda>sn e. writeOrder b sn = WriteOrder (Plan b) \<and> held (\<lambda>c. c = ?c0) e) (\<lambda>_. held ?pd)"
  proof (rule tripleI)
    fix u sn v assume u: "held (\<lambda>c. c = ?c0) u" and run: "preflight env b restore u = (Inr sn, v)"
    from tripleD_value [OF preflight_value [where P = "\<lambda>c. c = ?c0"] u run] preflight_mode [OF run]
    show "writeOrder b sn = WriteOrder (Plan b) \<and> held (\<lambda>c. c = ?c0) v" by (simp add: writeOrder_def)
  next
    fix u err v assume u: "held (\<lambda>c. c = ?c0) u" and run: "preflight env b restore u = (Inl err, v)"
    from tripleD_error [OF preflight_value [where P = "\<lambda>c. c = ?c0"] u run] none show "held ?pd v" by simp
  qed
  have exec: "triple (held (\<lambda>c. c = ?c0)) (executePrepared env b sn restore) (\<lambda>_. held ?pd) (\<lambda>_. held ?pd)"
    if "writeOrder b sn = WriteOrder (Plan b)" for sn
    by (rule triple_conseq [OF executePrepared_value [OF assms(1), where snap = sn]]) (use that in auto)
  have all: "triple (held (\<lambda>c. c = ?c0)) (Execute env b restore approval) (\<lambda>_. held ?pd) (\<lambda>_. held ?pd)"
    unfolding Execute_def Let_def
    by (rule triple_if, rule triple_fail, use none in simp, rule triple_if, rule triple_fail, use none in simp,
        rule triple_bindE [OF pre], rule triple_pure_conj, rule exec)
  show ?thesis
  proof (cases r)
    case (Inl err)
    from tripleD_error [OF all _ assms(2) [unfolded Inl]] show ?thesis by simp
  next
    case (Inr x)
    from tripleD_value [OF all _ assms(2) [unfolded Inr]] show ?thesis by simp
  qed
qed

lemma Execute_outcome:
  assumes "distinct (WriteOrder (Plan b))" "Execute env b restore approval e = (r, e')"
  shows "cells (nand_world e') = cells (nand_world e) \<and> r \<noteq> Inr () \<or>
    (\<forall>i < nBlocks (profile env). original_block env b restore i (cells (nand_world e))) \<and>
    (r = Inr () \<longrightarrow> (\<forall>i < nBlocks (profile env). target_block env b restore i (cells (nand_world e'))))"
proof (cases r)
  case (Inl err)
  from tripleD_error [OF Execute_value [OF assms(1)] refl assms(2) [unfolded Inl]] show ?thesis by (auto simp: Inl)
next
  case (Inr x)
  from tripleD_value [OF Execute_value [OF assms(1)] refl assms(2) [unfolded Inr]] show ?thesis by simp
qed

end

context flash begin

lemma ExecuteResume_outcome:
  assumes "ExecuteResume env b approval e = (r, e')"
  shows "(\<forall>i. resumeCandidateBlock i \<or> nBlocks (profile env) \<le> i \<longrightarrow> cells (nand_world e') i = cells (nand_world e) i) \<and>
    (cells (nand_world e') \<noteq> cells (nand_world e) \<longrightarrow>
       (\<forall>i < nBlocks (profile env). target_block env b (\<not> resumeCandidateBlock i) i (cells (nand_world e)))) \<and>
    (r = Inr () \<longrightarrow> (\<forall>i < nBlocks (profile env). target_block env b False i (cells (nand_world e'))))"
proof (cases r)
  case (Inl err)
  from tripleD_error [OF ExecuteResume_value refl assms [unfolded Inl]] show ?thesis by (auto simp: Inl)
next
  case (Inr x)
  from tripleD_value [OF ExecuteResume_value refl assms [unfolded Inr]] show ?thesis by (auto simp: Inr)
qed

end

subsection \<open>A run to instantiate the properties at\<close>

lemma mem_flash: "flash (mem_env pf sha) (mem_bundle p new old fs) mem_cells"
  unfolding mem_bundle_def by (rule mem.flash_axioms)

lemma mem_plan: "Plan (mem_bundle p new old fs) = p"
  by (simp add: mem_bundle_def)

lemma probe_run:
  "\<exists>p e'. plan_ok (mem_env profile_bsl probe_sha) p \<and> planned profile_bsl probe_sha p probe_new probe_old \<and>
    Execute (mem_env profile_bsl probe_sha) (mem_bundle p probe_new probe_old []) False
      (p_InstallAck profile_bsl) probe_flash = (Inr (), e') \<and>
    (\<forall>i. mem_cells (nand_world e') i = (if i < 40 then replicate EraseBytes 1 else replicate EraseBytes 2))"
proof -
  from Load_run [OF probe_setup(1-3), of "''new''" "''old''" "nand_world probe_flash"] obtain p where
    p: "planned profile_bsl probe_sha p probe_new probe_old" "plan_ok (mem_env profile_bsl probe_sha) p" by auto
  have original: "\<forall>i < nBlocks profile_bsl. mem_cells (nand_world probe_flash) i = nth_block probe_old i"
    by (simp add: probe_setup)
  have "length (Blocks p) = nBlocks profile_bsl" using p(2) by (simp add: plan_ok_def)
  with plan_ok_order [OF p(2)] have order: "distinct (WriteOrder p)"
    "set (WriteOrder p) = {i. i < nBlocks profile_bsl \<and> Changed (Blocks p ! i)}" by simp_all
  from execute_run [OF probe_setup(1) p(1) original order, of "[]"] p
  show ?thesis by (auto simp: runs_def fun_eq_iff probe_setup)
qed

lemma blocks_differ: "replicate EraseBytes 1 \<noteq> replicate EraseBytes (2 :: byte)"
  by (simp add: EraseBytes_def)

subsection \<open>A kernel in memory\<close>

text \<open>The same device behind the system calls, at the extent's place on the chip.\<close>

definition mem_kernel :: "profile \<Rightarrow> mem mtd_kernel" where
  "mem_kernel pf =
     \<lparr>k_info = (\<lambda>file. ret \<lparr>i_Type = 4, i_Flags = 0x400, i_Size = of_nat DeviceBytes, i_EraseSize = of_nat EraseBytes,
                              i_WriteSize = of_nat PageBytes, i_OOBSize = 64\<rparr>),
      k_pread = (\<lambda>file n off. readS (\<lambda>w. let at = (if file = Master then off else p_Start pf + off) in
        take n (drop (at mod EraseBytes) (mem_cells w (at div EraseBytes))))),
      k_pwrite = (\<lambda>file bs off. if file \<noteq> PartitionRW then fail (Errorf ''read-only'')
        else seqE (updS (\<lambda>w. let at = p_Start pf + off in put_block (at div EraseBytes)
          (program_bytes (mem_cells w (at div EraseBytes)) (at mod EraseBytes) bs) w)) (ret (length bs))),
      k_readoob = (\<lambda>off n. ret (n, replicate n 0xff)), k_bad = (\<lambda>off. ret 0), k_eccstats = ret noStats,
      k_memerase = (\<lambda>file off len. if file \<noteq> PartitionRW then fail (Errorf ''read-only'')
        else updS (put_block ((p_Start pf + unat off) div EraseBytes) blank)),
      k_filemode = (\<lambda>file. ret ()), k_entries = ret [(masterIndex, ''mv_nand'')], k_mounts = ret [], k_users = ret (),
      k_runtime = ret (), k_version = ret mappingKernelBanner, k_arch = ''arm'', k_random = ret ''0'',
      k_add = (\<lambda>label start span. ret ()), k_remove = (\<lambda>label index. ret ()), k_sysfs = (\<lambda>index key. ret []),
      k_mknod = (\<lambda>file minor. ret ()), k_open = (\<lambda>file minor. ret ()), k_close = (\<lambda>file. ret ()),
      k_close_lock = ret (), k_nodes = (\<lambda>index. ret ()), k_pause = ret ()\<rparr>"

definition kernel_reader :: "nat \<Rightarrow> byte list \<Rightarrow> mem mtd reader" where
  "kernel_reader k content = \<lparr>f_id = Some k, f_Size = ret (length content),
     f_ReadAt = (\<lambda>n off. ret (take n (drop off content))), f_Close = ret ()\<rparr>"

definition kernel_bundle :: "plan \<Rightarrow> byte list \<Rightarrow> byte list \<Rightarrow> mem mtd artifactBundle" where
  "kernel_bundle p new old = \<lparr>Plan = p, b_image = kernel_reader 0 new, b_original = kernel_reader 1 old, b_files = []\<rparr>"

definition kernel_base :: "profile \<Rightarrow> (byte list \<Rightarrow> string) \<Rightarrow> mem mtd nand_env" where
  "kernel_base pf sha =
     \<lparr>profile = pf, sha256 = sha, device = mtd_device pf sha (mem_kernel pf) (\<lambda>_ _. fail (Errorf ''unused'')),
      mtd_mode = (\<lambda>_ _ _. Inr ()), mtd_resume_ok = (\<lambda>_. True), Record = (\<lambda>ev. ret ()), oobOutput = (\<lambda>_. ret ()),
      persistEvidence = ret (), cancelled = (\<lambda>_. None)\<rparr>"

definition kernel_start :: "mem mtd eng" where
  "kernel_start = \<lparr>tracker = tracker probe_flash,
     nand_world = \<lparr>m_partition = None, m_label = [], m_createdIndex = None, m_partitionAdded = False,
       m_writeEnabled = False, m_recovery = False, m_resume = False, m_master = True, m_lock = True,
       m_kernel = nand_world probe_flash\<rparr>\<rparr>"

interpretation chip: nand_kernel "kernel_base profile_bsl sha" "mem_kernel profile_bsl" "kernel_bundle p new old" mem_cells
proof
  show "aligned (profile (kernel_base profile_bsl sha))" by (simp add: kernel_base_def profiles_aligned)
  show "mem_cells (snd (k_memerase (mem_kernel profile_bsl) f (of_nat off) (of_nat EraseBytes) k)) j = mem_cells k j"
    if "off < 2 ^ 32" "j \<noteq> (p_Start (profile (kernel_base profile_bsl sha)) + off) div EraseBytes" for off f k j
  proof -
    have "unat (of_nat off :: u32) = off" using that(1) by (simp add: unat_of_nat take_bit_nat_eq_self)
    with that(2) show ?thesis by (auto simp: mem_kernel_def kernel_base_def act_simps cells_put)
  qed
qed (auto simp: mem_kernel_def kernel_base_def kernel_bundle_def kernel_reader_def same_def act_simps cells_put Let_def)

subsection \<open>Properties\<close>

text \<open>(C1) Crash consistency: however an execution ends, with success, an error or a cancellation at
  any point, the blocks of some prefix of the write order hold their targets, at most the one
  block after them is in between, and every other block, inside or outside the extent, is as it
  was.\<close>

theorem interrupted_write_is_a_prefix:
  assumes "flash env b cells" "plan_ok env (Plan b)" "Execute env b restore approval e = (r, e')"
  shows "\<exists>k. prefix_done env b restore (WriteOrder (Plan b)) k (cells (nand_world e)) (cells (nand_world e'))"
  by (rule flash.Execute_prefix [OF assms(1) _ assms(3)]) (use plan_ok_order [OF assms(2)] in simp)

theorem interrupted_write_is_a_prefix_witness:
  "\<exists>p e' k. Execute (mem_env profile_bsl probe_sha) (mem_bundle p probe_new probe_old []) False
      (p_InstallAck profile_bsl) probe_flash = (Inr (), e') \<and>
    prefix_done (mem_env profile_bsl probe_sha) (mem_bundle p probe_new probe_old []) False (WriteOrder p) k
      (mem_cells (nand_world probe_flash)) (mem_cells (nand_world e'))"
proof -
  from probe_run obtain p e' where p: "plan_ok (mem_env profile_bsl probe_sha) p"
    and run: "Execute (mem_env profile_bsl probe_sha) (mem_bundle p probe_new probe_old []) False
      (p_InstallAck profile_bsl) probe_flash = (Inr (), e')" by blast
  from interrupted_write_is_a_prefix [OF mem_flash _ run, unfolded mem_plan, OF p] run show ?thesis by blast
qed

text \<open>(C6) Where the profile asks for the filesystem header last, block 0 is not touched before every
  other changed block holds its target: an interrupted write leaves the old header or a complete
  image behind it.\<close>

theorem header_block_written_last:
  assumes "flash env b cells" "plan_ok env (Plan b)" "p_HeaderLast (profile env)"
    and "Execute env b restore approval e = (r, e')" "cells (nand_world e') 0 \<noteq> cells (nand_world e) 0"
  shows "\<forall>i < nBlocks (profile env). i \<noteq> 0 \<and> Changed (Blocks (Plan b) ! i) \<longrightarrow>
    target_block env b restore i (cells (nand_world e'))"
proof -
  let ?ch = "changed_indices (Plan b)"
  have distinct: "distinct (WriteOrder (Plan b))" using plan_ok_order [OF assms(2)] by simp
  from flash.Execute_prefix [OF assms(1) distinct assms(4)] obtain k where
    pd: "prefix_done env b restore (WriteOrder (Plan b)) k (cells (nand_world e)) (cells (nand_world e'))" ..
  have ch: "?ch = filter (\<lambda>i. Changed (Blocks (Plan b) ! i)) [0..<nBlocks (profile env)]"
    using assms(2) by (simp add: changed_indices_def plan_ok_def)
  from pd assms(5) have "0 \<in> set (take (Suc k) (WriteOrder (Plan b)))" by (auto simp: prefix_done_def)
  moreover have order: "WriteOrder (Plan b) = filter (\<lambda>i. i \<noteq> 0) ?ch @ filter (\<lambda>i. i = 0) ?ch"
    using assms(2,3) by (simp add: plan_ok_def)
  ultimately have "length (filter (\<lambda>i. i \<noteq> 0) ?ch) < Suc k"
    by (rule_tac ccontr) (auto simp: dest!: in_set_takeD)
  then have "set (filter (\<lambda>i. i \<noteq> 0) ?ch) \<subseteq> set (take k (WriteOrder (Plan b)))" by (simp add: order)
  with pd have "\<forall>i \<in> set (filter (\<lambda>i. i \<noteq> 0) ?ch). target_block env b restore i (cells (nand_world e'))"
    by (auto simp: prefix_done_def)
  then show ?thesis by (simp add: ch)
qed

theorem header_block_written_last_witness:
  "\<exists>p (e' :: mem eng). mem_cells (nand_world e') 0 \<noteq> mem_cells (nand_world probe_flash) 0 \<and>
    target_block (mem_env profile_bsl probe_sha) (mem_bundle p probe_new probe_old []) False 1 (mem_cells (nand_world e'))"
proof -
  from probe_run obtain p e' where p: "plan_ok (mem_env profile_bsl probe_sha) p"
      "planned profile_bsl probe_sha p probe_new probe_old"
    and run: "Execute (mem_env profile_bsl probe_sha) (mem_bundle p probe_new probe_old []) False
      (p_InstallAck profile_bsl) probe_flash = (Inr (), e')"
    and cells: "\<forall>i. mem_cells (nand_world e') i = (if i < 40 then replicate EraseBytes 1 else replicate EraseBytes 2)" by blast
  have touched: "mem_cells (nand_world e') 0 \<noteq> mem_cells (nand_world probe_flash) 0"
    using cells blocks_differ by (simp add: probe_setup)
  have header: "p_HeaderLast (profile (mem_env profile_bsl probe_sha))" by (simp add: profile_bsl_def)
  have "Changed (Blocks p ! 1)"
    using p(2) blocks_differ by (simp add: planned_def plan_block_def probe_setup)
  with header_block_written_last [OF mem_flash _ header run touched, unfolded mem_plan, OF p(1)]
  have "target_block (mem_env profile_bsl probe_sha) (mem_bundle p probe_new probe_old []) False 1 (mem_cells (nand_world e'))"
    by (simp add: probe_setup)
  with touched show ?thesis by blast
qed

text \<open>(C12) Nothing is touched unless the whole extent was read first: if any block differs afterwards,
  the profile's approval was given, and every block had the digest its plan records for the
  original (for a recovery, every block the plan does not change).\<close>

theorem nothing_touched_before_preflight:
  assumes "flash env b cells" "plan_ok env (Plan b)"
    and "Execute env b restore approval e = (r, e')" "cells (nand_world e') \<noteq> cells (nand_world e)"
  shows "approval = (if restore then p_RestoreAck (profile env) else p_InstallAck (profile env)) \<and>
    (\<not> restore \<or> p_RestoreSupported (profile env)) \<and>
    (\<forall>i < nBlocks (profile env). original_block env b restore i (cells (nand_world e)))"
proof -
  have distinct: "distinct (WriteOrder (Plan b))" using plan_ok_order [OF assms(2)] by simp
  from flash.Execute_outcome [OF assms(1) distinct assms(3)] assms(4)
  have "\<forall>i < nBlocks (profile env). original_block env b restore i (cells (nand_world e))" by blast
  with assms(3,4) show ?thesis by (auto simp: Execute_def Let_def split: if_splits)
qed

theorem nothing_touched_before_preflight_witness:
  "\<exists>p (e' :: mem eng). mem_cells (nand_world e') \<noteq> mem_cells (nand_world probe_flash) \<and>
    original_block (mem_env profile_bsl probe_sha) (mem_bundle p probe_new probe_old []) False 39
      (mem_cells (nand_world probe_flash))"
proof -
  from probe_run obtain p e' where p: "plan_ok (mem_env profile_bsl probe_sha) p"
    and run: "Execute (mem_env profile_bsl probe_sha) (mem_bundle p probe_new probe_old []) False
      (p_InstallAck profile_bsl) probe_flash = (Inr (), e')"
    and cells: "\<forall>i. mem_cells (nand_world e') i = (if i < 40 then replicate EraseBytes 1 else replicate EraseBytes 2)" by blast
  have touched: "mem_cells (nand_world e') \<noteq> mem_cells (nand_world probe_flash)"
  proof
    assume "mem_cells (nand_world e') = mem_cells (nand_world probe_flash)"
    then have "mem_cells (nand_world e') 0 = mem_cells (nand_world probe_flash) 0" by (rule fun_cong)
    with cells blocks_differ show False by (simp add: probe_setup)
  qed
  have "(39 :: nat) < nBlocks (profile (mem_env profile_bsl probe_sha))" by (simp add: probe_setup)
  with nothing_touched_before_preflight [OF mem_flash _ run touched, unfolded mem_plan, OF p] touched
  show ?thesis by blast
qed

text \<open>(C13) Success means the extent is complete: an execution that returns without error leaves every
  block of the extent with the digest its plan records, and touches no block outside the plan's
  write order.\<close>

theorem successful_write_is_complete:
  assumes "flash env b cells" "plan_ok env (Plan b)" "Execute env b restore approval e = (Inr (), e')"
  shows "(\<forall>i < nBlocks (profile env). target_block env b restore i (cells (nand_world e'))) \<and>
    (\<forall>i. i \<notin> set (WriteOrder (Plan b)) \<longrightarrow> cells (nand_world e') i = cells (nand_world e) i)"
proof -
  have distinct: "distinct (WriteOrder (Plan b))" using plan_ok_order [OF assms(2)] by simp
  from flash.Execute_outcome [OF assms(1) distinct assms(3)] flash.Execute_prefix [OF assms(1) distinct assms(3)]
  show ?thesis by (auto simp: prefix_done_def dest: in_set_takeD)
qed

theorem successful_write_is_complete_witness:
  "\<exists>p e'. Execute (mem_env profile_bsl probe_sha) (mem_bundle p probe_new probe_old []) False
      (p_InstallAck profile_bsl) probe_flash = (Inr (), e') \<and>
    target_block (mem_env profile_bsl probe_sha) (mem_bundle p probe_new probe_old []) False 0 (mem_cells (nand_world e'))"
proof -
  from probe_run obtain p e' where p: "plan_ok (mem_env profile_bsl probe_sha) p"
    and run: "Execute (mem_env profile_bsl probe_sha) (mem_bundle p probe_new probe_old []) False
      (p_InstallAck profile_bsl) probe_flash = (Inr (), e')" by blast
  have "0 < nBlocks (profile (mem_env profile_bsl probe_sha))" by (simp add: probe_setup)
  with successful_write_is_complete [OF mem_flash _ run, unfolded mem_plan, OF p] run show ?thesis by blast
qed

text \<open>(C16) A resumption never touches blocks 1 to 136, which already hold the image, nor
  any block outside the extent; it touches nothing
  at all unless those blocks held the image and all others the original; and when it succeeds
  every block holds the image.\<close>

theorem resume_finishes_the_interrupted_write:
  assumes "flash env b cells" "ExecuteResume env b approval e = (r, e')"
  shows "(\<forall>i. resumeCandidateBlock i \<or> nBlocks (profile env) \<le> i \<longrightarrow> cells (nand_world e') i = cells (nand_world e) i) \<and>
    (cells (nand_world e') \<noteq> cells (nand_world e) \<longrightarrow>
       (\<forall>i < nBlocks (profile env). target_block env b (\<not> resumeCandidateBlock i) i (cells (nand_world e)))) \<and>
    (r = Inr () \<longrightarrow> (\<forall>i < nBlocks (profile env). target_block env b False i (cells (nand_world e'))))"
  by (rule flash.ExecuteResume_outcome [OF assms])

theorem resume_finishes_the_interrupted_write_witness:
  "\<exists>r e'. ExecuteResume (mem_env profile_pilot probe_sha) (mem_bundle (empty_plan profile_pilot) probe_new probe_old [])
      ResumeAck probe_flash = (r, e') \<and>
    mem_cells (nand_world e') 136 = mem_cells (nand_world probe_flash) 136"
proof -
  obtain r e' where run: "ExecuteResume (mem_env profile_pilot probe_sha)
      (mem_bundle (empty_plan profile_pilot) probe_new probe_old []) ResumeAck probe_flash = (r, e')"
    by (rule prod.exhaust)
  have "resumeCandidateBlock 136" by (simp add: resumeCandidateBlock_def resumeLastCandidate_def)
  with resume_finishes_the_interrupted_write [OF mem_flash run] run show ?thesis by blast
qed





end
