(* ===== verification/Mcu_Outputs.thy ===== *)
theory Mcu_Outputs
  imports Dsp_Backend
begin

text \<open>
  The outputs of the speaker (\<^verbatim>\<open>tools/mcu-interface/controller.go\<close>): the mute bits of the
  amplifier and of the DAC in one register of the IO expander, which the DSP service also
  writes. The controller's mutex makes every operation atomic among the controller's own;
  other processes may write the register between any two accesses.
\<close>

subsection \<open>Hardware and state\<close>

record 'w mcu_hardware =
  hw_Write :: "byte \<Rightarrow> byte \<Rightarrow> byte \<Rightarrow> ('w, unit) act"
  hw_Update :: "byte \<Rightarrow> byte \<Rightarrow> (byte \<Rightarrow> byte) \<Rightarrow> ('w, unit) act"
  hw_sleep :: "nat \<Rightarrow> 'w \<Rightarrow> 'w"

record 'w controller =
  c_initialized :: bool
  c_ampMuted :: bool
  c_dacMuted :: bool
  c_world :: 'w

definition dacAddress :: byte where "dacAddress = 0x4c"
definition ampMuteMask :: byte where "ampMuteMask = 0x02"
definition dacMuteMask :: byte where "dacMuteMask = 0x04"

definition dacInitialization :: "(byte \<times> byte) list" where
  "dacInitialization = [(0x00, 0x00), (0x01, 0x11), (0x0d, 0x10), (0x25, 0x08), (0x41, 0x04),
     (0x41, 0x07), (0x08, 0x3f), (0x28, 0x00), (0x3d, 0x30), (0x3e, 0x30)]"

definition newController :: "'w \<Rightarrow> 'w controller" where
  "newController w = \<lparr>c_initialized = False, c_ampMuted = True, c_dacMuted = True, c_world = w\<rparr>"

definition on_hw :: "('w, 'a) act \<Rightarrow> ('w controller, 'a) act" where
  "on_hw m c = (case m (c_world c) of (r, w) \<Rightarrow> (r, c\<lparr>c_world := w\<rparr>))"

text \<open>Durations are in milliseconds.\<close>

definition outputSettleDelay :: nat where "outputSettleDelay = 1000"

definition hwSleep :: "'w mcu_hardware \<Rightarrow> nat \<Rightarrow> ('w controller, unit) act" where
  "hwSleep hw d = on_hw (updS (hw_sleep hw d))"

subsection \<open>Mute bits\<close>

definition updateExpander :: "'w mcu_hardware \<Rightarrow> (byte \<Rightarrow> byte) \<Rightarrow> ('w controller, unit) act" where
  "updateExpander hw f = on_hw (hw_Update hw expanderAddress expanderOutput f)"

definition unmuteAllowed :: "('w controller, unit) act" where
  "unmuteAllowed = bindE (readS c_initialized)
     (\<lambda>initialized. checkE initialized (Errorf ''audio path is not initialized''))"

text \<open>
  The two writers call each other: unmuting the amplifier first unmutes the DAC, muting the DAC
  first mutes the amplifier. The inner call never calls back.
\<close>

function writeAmpMute :: "'w mcu_hardware \<Rightarrow> bool \<Rightarrow> ('w controller, unit) act"
  and writeDACMute :: "'w mcu_hardware \<Rightarrow> bool \<Rightarrow> ('w controller, unit) act"
where
  "writeAmpMute hw muted =
     bindE (readS c_dacMuted) (\<lambda>dacMuted.
       seqE (if \<not> muted \<and> dacMuted
             then wrapE ''unmute DAC before amplifier'' (writeDACMute hw False) else ret ())
        (seqE (updateExpander hw (\<lambda>v. if muted then v OR ampMuteMask else v AND NOT ampMuteMask))
           (updS (\<lambda>c. c\<lparr>c_ampMuted := muted\<rparr>))))"
| "writeDACMute hw muted =
     bindE (readS c_ampMuted) (\<lambda>ampMuted.
       seqE (if muted \<and> \<not> ampMuted
             then wrapE ''mute amplifier before DAC'' (writeAmpMute hw True) else ret ())
        (seqE (updateExpander hw (\<lambda>v. if muted then v AND NOT dacMuteMask else v OR dacMuteMask))
           (updS (\<lambda>c. c\<lparr>c_dacMuted := muted\<rparr>))))"
  by pat_completeness auto
termination
  by (relation "measure (case_sum (\<lambda>(_, muted). if muted then 0 else 3) (\<lambda>(_, muted). if muted then 1 else 2))") auto

declare writeAmpMute.simps [simp del] writeDACMute.simps [simp del]

definition setAmpMuteLocked :: "'w mcu_hardware \<Rightarrow> bool \<Rightarrow> ('w controller, unit) act" where
  "setAmpMuteLocked hw muted = seqE (if \<not> muted then unmuteAllowed else ret ()) (writeAmpMute hw muted)"

definition setDACMuteLocked :: "'w mcu_hardware \<Rightarrow> bool \<Rightarrow> ('w controller, unit) act" where
  "setDACMuteLocked hw muted = seqE (if \<not> muted then unmuteAllowed else ret ()) (writeDACMute hw muted)"

text \<open>\<open>cancelled\<close> is \<^verbatim>\<open>ctx.Err()\<close> once the mutex is held.\<close>

definition setAmpMuteContext :: "'w mcu_hardware \<Rightarrow> go_error option \<Rightarrow> bool \<Rightarrow> ('w controller, unit) act" where
  "setAmpMuteContext hw cancelled muted =
     (case cancelled of Some err \<Rightarrow> fail err | None \<Rightarrow> setAmpMuteLocked hw muted)"

definition setDACMuteContext :: "'w mcu_hardware \<Rightarrow> go_error option \<Rightarrow> bool \<Rightarrow> ('w controller, unit) act" where
  "setDACMuteContext hw cancelled muted =
     (case cancelled of Some err \<Rightarrow> fail err | None \<Rightarrow> setDACMuteLocked hw muted)"

definition muteAll :: "'w mcu_hardware \<Rightarrow> ('w controller, unit) act" where
  "muteAll hw =
     tryE (setAmpMuteLocked hw True) (\<lambda>amp.
     tryE (setDACMuteLocked hw True) (\<lambda>dac.
       case amp of Inl err \<Rightarrow> fail (Wrapf ''mute amplifier'' err)
       | Inr _ \<Rightarrow> (case dac of Inl err \<Rightarrow> fail (Wrapf ''mute DAC'' err) | Inr _ \<Rightarrow> ret ())))"

definition OpenOutputs :: "'w mcu_hardware \<Rightarrow> ('w controller, unit) act" where
  "OpenOutputs hw = blockE [
     hwSleep hw outputSettleDelay,
     wrapE ''unmute DAC'' (setDACMuteLocked hw False),
     wrapE ''unmute amplifier'' (setAmpMuteLocked hw False)]"

definition initDAC :: "'w mcu_hardware \<Rightarrow> byte \<times> byte \<Rightarrow> ('w controller, unit) act" where
  "initDAC hw setting =
     tryE (on_hw (hw_Write hw dacAddress (fst setting) (snd setting))) (\<lambda>r. case r of
       Inl err \<Rightarrow> seqE (ignoreE (setAmpMuteLocked hw True))
                   (seqE (ignoreE (setDACMuteLocked hw True)) (fail (Wrapf ''initialize DAC register'' err)))
     | Inr _ \<Rightarrow> ret ())"

definition initialize :: "'w mcu_hardware \<Rightarrow> ('w controller, unit) act" where
  "initialize hw = blockE [
     wrapE ''configure IO expander'' (on_hw (hw_Update hw expanderAddress expanderConfig (\<lambda>_. 0))),
     wrapE ''mute amplifier'' (setAmpMuteLocked hw True),
     wrapE ''mute DAC'' (setDACMuteLocked hw True),
     forE [0x10, 0x08] (\<lambda>mask. wrapE ''configure DSP power rails'' (updateExpander hw (\<lambda>v. v OR mask))),
     forE dacInitialization (initDAC hw),
     hwSleep hw 2000,
     updS (\<lambda>c. c\<lparr>c_initialized := True\<rparr>)]"

subsection \<open>The register's contract\<close>

text \<open>
  \<open>out w\<close> is the content of the output register and \<open>written w\<close> what this controller has
  written to it so far, each write with the value its update function was given. Other
  processes may write the register whenever it is not locked by an update, so any operation may
  see it change; they leave the two mute bits alone. The update function is given a value that
  was in the register while it was locked.
\<close>

abbreviation output_reg :: "byte \<times> byte" where
  "output_reg \<equiv> (expanderAddress, expanderOutput)"

definition same_mute :: "byte \<Rightarrow> byte \<Rightarrow> bool" where
  "same_mute u v \<longleftrightarrow> (\<forall>n \<in> {1, 2}. bit u n = bit v n)"

locale output_bus =
  fixes hw :: "'w mcu_hardware" and out :: "'w \<Rightarrow> byte" and written :: "'w \<Rightarrow> (byte \<times> byte) list"
  assumes write_elsewhere: "a \<noteq> expanderAddress \<Longrightarrow>
      same_mute (out (snd (hw_Write hw a r v w))) (out w) \<and> written (snd (hw_Write hw a r v w)) = written w"
    and update_elsewhere: "(a, r) \<noteq> output_reg \<Longrightarrow>
      same_mute (out (snd (hw_Update hw a r f w))) (out w) \<and> written (snd (hw_Update hw a r f w)) = written w"
    and update_value: "hw_Update hw expanderAddress expanderOutput f w = (Inr (), w') \<Longrightarrow>
      \<exists>v. same_mute v (out w) \<and> written w' = written w @ [(v, f v)] \<and> same_mute (out w') (f v)"
    and update_error: "hw_Update hw expanderAddress expanderOutput f w = (Inl e, w') \<Longrightarrow>
      same_mute (out w') (out w) \<and> written w' = written w"
    and sleep_quiet: "same_mute (out (hw_sleep hw d w)) (out w) \<and> written (hw_sleep hw d w) = written w"

lemma mute_mask_bits:
  "bit (ampMuteMask :: byte) n = (n = 1)" "bit (dacMuteMask :: byte) n = (n = 2)"
  "bit (0x10 :: byte) n = (n = 4)" "bit (0x08 :: byte) n = (n = 3)"
proof -
  have p: "bit ((2 :: byte) ^ k) n = (n = k)" if "k < 8" for k using that by (auto simp: bit_exp_iff)
  show "bit (ampMuteMask :: byte) n = (n = 1)" "bit (dacMuteMask :: byte) n = (n = 2)"
    "bit (0x10 :: byte) n = (n = 4)" "bit (0x08 :: byte) n = (n = 3)"
    using p [of 1] p [of 2] p [of 4] p [of 3] by (simp_all add: ampMuteMask_def dacMuteMask_def)
qed

lemma clear_bits:
  "bit (v AND NOT ampMuteMask) n = (bit v n \<and> n \<noteq> 1)" "bit (v AND NOT dacMuteMask) n = (bit v n \<and> n \<noteq> 2)"
  for v :: byte
  using bit_imp_le_length [of v n] by (auto simp: bit_simps mute_mask_bits)

text \<open>
  A write is quiet when it leaves the amplifier muted or the DAC driving it, and tidy when it
  changes no bit but the two mute bits and the two power rails; bit 0 is the reset of the DSP.
\<close>

definition quiet_write :: "byte \<times> byte \<Rightarrow> bool" where
  "quiet_write p \<longleftrightarrow> bit (snd p) 1 \<or> bit (snd p) 2"

definition tidy_write :: "byte \<times> byte \<Rightarrow> bool" where
  "tidy_write p \<longleftrightarrow> (\<forall>n. n \<notin> {1, 2, 3, 4} \<longrightarrow> bit (snd p) n = bit (fst p) n)"

definition good_write :: "byte \<times> byte \<Rightarrow> bool" where
  "good_write p \<longleftrightarrow> quiet_write p \<and> tidy_write p"

definition good_log :: "(byte \<times> byte) list \<Rightarrow> (byte \<times> byte) list \<Rightarrow> bool" where
  "good_log L l \<longleftrightarrow> (\<exists>ps. l = L @ ps \<and> list_all good_write ps)"

text \<open>The controller's flags and the register agree, and the amplifier is not live before the DAC.\<close>

definition synced :: "byte \<Rightarrow> bool \<Rightarrow> bool \<Rightarrow> bool" where
  "synced v amp dac \<longleftrightarrow> bit v 1 = amp \<and> bit v 2 = (\<not> dac) \<and> (amp \<or> \<not> dac)"

lemma good_log_refl [simp]: "good_log L L"
  by (simp add: good_log_def)

lemma good_log_append: "good_log L l \<Longrightarrow> good_write p \<Longrightarrow> good_log L (l @ [p])"
  by (auto simp: good_log_def)

lemma synced_mute: "same_mute u v \<Longrightarrow> synced u amp dac = synced v amp dac"
  by (simp add: same_mute_def synced_def)

context output_bus begin

definition ok :: "(byte \<times> byte) list \<Rightarrow> 'w controller \<Rightarrow> bool" where
  "ok L c \<longleftrightarrow> good_log L (written (c_world c)) \<and> synced (out (c_world c)) (c_ampMuted c) (c_dacMuted c)"

lemma updateExpander_cases:
  assumes "updateExpander hw f c = (r, c')"
  obtains (wrote) w' v where "r = Inr ()" "c' = c\<lparr>c_world := w'\<rparr>" "same_mute v (out (c_world c))"
      "same_mute (out w') (f v)" "written w' = written (c_world c) @ [(v, f v)]"
  | (failed) e w' where "r = Inl e" "c' = c\<lparr>c_world := w'\<rparr>" "same_mute (out w') (out (c_world c))"
      "written w' = written (c_world c)"
proof -
  obtain q w' where u: "hw_Update hw expanderAddress expanderOutput f (c_world c) = (q, w')" by (rule prod.exhaust)
  with assms have r: "r = q" "c' = c\<lparr>c_world := w'\<rparr>" by (simp_all add: updateExpander_def on_hw_def)
  show ?thesis
  proof (cases q)
    case (Inl e)
    with u r that(2) update_error [of f "c_world c" e w'] show ?thesis by simp
  next
    case (Inr x)
    with u have "hw_Update hw expanderAddress expanderOutput f (c_world c) = (Inr (), w')" by simp
    from update_value [OF this] r Inr that(1) show ?thesis by auto
  qed
qed

text \<open>One write of the register keeps the invariant when the flag follows it.\<close>

lemma expander_step:
  assumes "\<And>c v. synced v (c_ampMuted c) (c_dacMuted c) \<Longrightarrow> P c \<Longrightarrow>
      synced (f v) (c_ampMuted (g c)) (c_dacMuted (g c)) \<and> tidy_write (v, f v) \<and> Q (g c)"
    and "\<And>c w. c_ampMuted (g (c\<lparr>c_world := w\<rparr>)) = c_ampMuted (g c)" "\<And>c w. c_dacMuted (g (c\<lparr>c_world := w\<rparr>)) = c_dacMuted (g c)"
    and "\<And>c. c_world (g c) = c_world c" "\<And>c w. Q (g (c\<lparr>c_world := w\<rparr>)) = Q (g c)"
  shows "triple (\<lambda>c. ok L c \<and> P c) (seqE (updateExpander hw f) (updS g)) (\<lambda>_ c. ok L c \<and> Q c) (\<lambda>_. ok L)"
proof (rule tripleI)
  fix c c' x assume c: "ok L c \<and> P c" and run: "seqE (updateExpander hw f) (updS g) c = (Inr x, c')"
  from run obtain y u where "updateExpander hw f c = (Inr y, u)" and c': "c' = g u" by (auto elim: seqE_value)
  then obtain w' v where w': "u = c\<lparr>c_world := w'\<rparr>" "same_mute v (out (c_world c))" "same_mute (out w') (f v)"
      "written w' = written (c_world c) @ [(v, f v)]"
    by (rule_tac updateExpander_cases [of f c "Inr y" u]) auto
  have "synced v (c_ampMuted c) (c_dacMuted c)" using c synced_mute [OF w'(2)] by (simp add: ok_def)
  from assms(1) [OF this] c have s: "synced (f v) (c_ampMuted (g c)) (c_dacMuted (g c))" "tidy_write (v, f v)" "Q (g c)" by auto
  then have "good_write (v, f v)" by (auto simp: good_write_def quiet_write_def synced_def)
  with c s show "ok L c' \<and> Q c'"
    by (simp add: c' w' assms(2-5) ok_def good_log_append synced_mute [OF w'(3)])
next
  fix c c' e assume c: "ok L c \<and> P c" and run: "seqE (updateExpander hw f) (updS g) c = (Inl e, c')"
  then have "updateExpander hw f c = (Inl e, c')" by (auto elim: seqE_error)
  then obtain w' where "c' = c\<lparr>c_world := w'\<rparr>" "same_mute (out w') (out (c_world c))" "written w' = written (c_world c)"
    by (rule_tac updateExpander_cases [of f c "Inl e" c']) auto
  with c show "ok L c'" by (simp add: ok_def synced_mute)
qed

lemma amp_mute_step:
  "triple (ok L) (seqE (updateExpander hw (\<lambda>v. v OR ampMuteMask)) (updS (\<lambda>c. c\<lparr>c_ampMuted := True\<rparr>)))
    (\<lambda>_ c. ok L c \<and> c_ampMuted c) (\<lambda>_. ok L)"
  by (rule triple_conseq [OF expander_step [where P = "\<lambda>_. True" and Q = c_ampMuted]])
     (auto simp: ok_def synced_def tidy_write_def bit_or_iff mute_mask_bits)

lemma amp_unmute_step:
  "triple (\<lambda>c. ok L c \<and> \<not> c_dacMuted c)
    (seqE (updateExpander hw (\<lambda>v. v AND NOT ampMuteMask)) (updS (\<lambda>c. c\<lparr>c_ampMuted := False\<rparr>)))
    (\<lambda>_ c. ok L c \<and> \<not> c_dacMuted c) (\<lambda>_. ok L)"
  by (rule triple_conseq [OF expander_step [where P = "\<lambda>c. \<not> c_dacMuted c" and Q = "\<lambda>c. \<not> c_dacMuted c"]])
     (auto simp: ok_def synced_def tidy_write_def clear_bits)

lemma dac_mute_step:
  "triple (\<lambda>c. ok L c \<and> c_ampMuted c)
    (seqE (updateExpander hw (\<lambda>v. v AND NOT dacMuteMask)) (updS (\<lambda>c. c\<lparr>c_dacMuted := True\<rparr>)))
    (\<lambda>_ c. ok L c) (\<lambda>_. ok L)"
  by (rule triple_conseq [OF expander_step [where P = c_ampMuted and Q = "\<lambda>_. True"]])
     (auto simp: ok_def synced_def tidy_write_def clear_bits)

lemma dac_unmute_step:
  "triple (ok L) (seqE (updateExpander hw (\<lambda>v. v OR dacMuteMask)) (updS (\<lambda>c. c\<lparr>c_dacMuted := False\<rparr>)))
    (\<lambda>_ c. ok L c \<and> \<not> c_dacMuted c) (\<lambda>_. ok L)"
  by (rule triple_conseq [OF expander_step [where P = "\<lambda>_. True" and Q = "\<lambda>c. \<not> c_dacMuted c"]])
     (auto simp: ok_def synced_def tidy_write_def bit_or_iff mute_mask_bits)

lemma ampMute_ok: "triple (ok L) (writeAmpMute hw True) (\<lambda>_ c. ok L c \<and> c_ampMuted c) (\<lambda>_. ok L)"
  unfolding writeAmpMute.simps [of hw True] if_True simp_thms if_False
  by (rule kept_readS, rule triple_seqE [OF keeps_ret], rule amp_mute_step)

lemma dacUnmute_ok: "triple (ok L) (writeDACMute hw False) (\<lambda>_ c. ok L c \<and> \<not> c_dacMuted c) (\<lambda>_. ok L)"
  unfolding writeDACMute.simps [of hw False] if_False simp_thms
  by (rule kept_readS, rule triple_seqE [OF keeps_ret], rule dac_unmute_step)

lemma ampUnmute_ok: "keeps (ok L) (writeAmpMute hw False)"
  unfolding writeAmpMute.simps [of hw False] if_False simp_thms
proof (rule triple_bindE [where R = "\<lambda>d c. ok L c \<and> c_dacMuted c = d"])
  show "triple (ok L) (readS c_dacMuted) (\<lambda>d c. ok L c \<and> c_dacMuted c = d) (\<lambda>_. ok L)" by (rule triple_readS) simp
  fix d
  have first: "triple (\<lambda>c. ok L c \<and> c_dacMuted c = d)
      (if d then wrapE ''unmute DAC before amplifier'' (writeDACMute hw False) else ret ())
      (\<lambda>_ c. ok L c \<and> \<not> c_dacMuted c) (\<lambda>_. ok L)"
  proof (rule triple_if)
    assume d
    show "triple (\<lambda>c. ok L c \<and> c_dacMuted c = d) (wrapE ''unmute DAC before amplifier'' (writeDACMute hw False))
        (\<lambda>_ c. ok L c \<and> \<not> c_dacMuted c) (\<lambda>_. ok L)"
      by (rule triple_wrapE, rule triple_conseq [OF dacUnmute_ok]) simp_all
  next
    assume "\<not> d"
    then show "triple (\<lambda>c. ok L c \<and> c_dacMuted c = d) (ret ()) (\<lambda>_ c. ok L c \<and> \<not> c_dacMuted c) (\<lambda>_. ok L)"
      by (simp add: triple_ret)
  qed
  show "triple (\<lambda>c. ok L c \<and> c_dacMuted c = d)
      (seqE (if d then wrapE ''unmute DAC before amplifier'' (writeDACMute hw False) else ret ())
        (seqE (updateExpander hw (\<lambda>v. v AND NOT ampMuteMask)) (updS (\<lambda>c. c\<lparr>c_ampMuted := False\<rparr>))))
      (\<lambda>_. ok L) (\<lambda>_. ok L)"
    by (rule triple_seqE [OF first], rule triple_conseq [OF amp_unmute_step]) simp_all
qed

lemma dacMute_ok: "keeps (ok L) (writeDACMute hw True)"
  unfolding writeDACMute.simps [of hw True] if_True simp_thms
proof (rule triple_bindE [where R = "\<lambda>a c. ok L c \<and> c_ampMuted c = a"])
  show "triple (ok L) (readS c_ampMuted) (\<lambda>a c. ok L c \<and> c_ampMuted c = a) (\<lambda>_. ok L)" by (rule triple_readS) simp
  fix a
  have first: "triple (\<lambda>c. ok L c \<and> c_ampMuted c = a)
      (if \<not> a then wrapE ''mute amplifier before DAC'' (writeAmpMute hw True) else ret ())
      (\<lambda>_ c. ok L c \<and> c_ampMuted c) (\<lambda>_. ok L)"
  proof (rule triple_if)
    assume "\<not> a"
    show "triple (\<lambda>c. ok L c \<and> c_ampMuted c = a) (wrapE ''mute amplifier before DAC'' (writeAmpMute hw True))
        (\<lambda>_ c. ok L c \<and> c_ampMuted c) (\<lambda>_. ok L)"
      by (rule triple_wrapE, rule triple_conseq [OF ampMute_ok]) simp_all
  next
    assume "\<not> \<not> a"
    then show "triple (\<lambda>c. ok L c \<and> c_ampMuted c = a) (ret ()) (\<lambda>_ c. ok L c \<and> c_ampMuted c) (\<lambda>_. ok L)"
      by (simp add: triple_ret)
  qed
  show "triple (\<lambda>c. ok L c \<and> c_ampMuted c = a)
      (seqE (if \<not> a then wrapE ''mute amplifier before DAC'' (writeAmpMute hw True) else ret ())
        (seqE (updateExpander hw (\<lambda>v. v AND NOT dacMuteMask)) (updS (\<lambda>c. c\<lparr>c_dacMuted := True\<rparr>))))
      (\<lambda>_. ok L) (\<lambda>_. ok L)"
    by (rule triple_seqE [OF first], rule triple_conseq [OF dac_mute_step]) simp_all
qed

lemma set_ok: "keeps (ok L) (setAmpMuteLocked hw muted)" "keeps (ok L) (setDACMuteLocked hw muted)"
proof -
  have amp: "keeps (ok L) (writeAmpMute hw muted)"
    by (cases muted) (simp_all add: ampUnmute_ok triple_conseq [OF ampMute_ok])
  have dac: "keeps (ok L) (writeDACMute hw muted)"
    by (cases muted) (simp_all add: dacMute_ok triple_conseq [OF dacUnmute_ok])
  show "keeps (ok L) (setAmpMuteLocked hw muted)" "keeps (ok L) (setDACMuteLocked hw muted)"
    unfolding setAmpMuteLocked_def setDACMuteLocked_def unmuteAllowed_def by (intro keeps_rules amp dac)+
qed

lemma sleep_ok: "keeps (ok L) (hwSleep hw d)"
  by (rule keepsI) (simp add: hwSleep_def on_hw_def updS_def ok_def sleep_quiet synced_mute [OF sleep_quiet [THEN conjunct1]])

lemma operations_ok: "keeps (ok L) (setAmpMuteContext hw cancelled muted)" "keeps (ok L) (setDACMuteContext hw cancelled muted)"
    "keeps (ok L) (muteAll hw)" "keeps (ok L) (OpenOutputs hw)"
  unfolding setAmpMuteContext_def setDACMuteContext_def muteAll_def OpenOutputs_def blockE.simps
  by (intro keeps_rules set_ok sleep_ok)+

text \<open>
  Initialisation starts from any register content: nothing is known of the amplifier before
  it was muted.
\<close>

definition fresh :: "(byte \<times> byte) list \<Rightarrow> 'w controller \<Rightarrow> bool" where
  "fresh L c \<longleftrightarrow> good_log L (written (c_world c)) \<and> c_ampMuted c \<and> c_dacMuted c"

definition amp_off :: "(byte \<times> byte) list \<Rightarrow> 'w controller \<Rightarrow> bool" where
  "amp_off L c \<longleftrightarrow> fresh L c \<and> bit (out (c_world c)) 1"

lemma fresh_amp: "triple (fresh L) (setAmpMuteLocked hw True) (\<lambda>_. amp_off L) (\<lambda>_. fresh L)"
proof -
  have step: "triple (fresh L) (seqE (updateExpander hw (\<lambda>v. v OR ampMuteMask)) (updS (\<lambda>c. c\<lparr>c_ampMuted := True\<rparr>)))
      (\<lambda>_. amp_off L) (\<lambda>_. fresh L)"
  proof (rule tripleI)
    fix c c' x assume c: "fresh L c" and run: "seqE (updateExpander hw (\<lambda>v. v OR ampMuteMask)) (updS (\<lambda>c. c\<lparr>c_ampMuted := True\<rparr>)) c = (Inr x, c')"
    from run obtain y u where u: "updateExpander hw (\<lambda>v. v OR ampMuteMask) c = (Inr y, u)" "c' = u\<lparr>c_ampMuted := True\<rparr>"
      by (auto elim: seqE_value)
    show "amp_off L c'"
      by (rule updateExpander_cases [OF u(1)])
         (use c in \<open>auto simp: u(2) same_mute_def amp_off_def fresh_def good_write_def quiet_write_def tidy_write_def bit_or_iff mute_mask_bits
           intro!: good_log_append\<close>)
  next
    fix c c' e assume c: "fresh L c" and run: "seqE (updateExpander hw (\<lambda>v. v OR ampMuteMask)) (updS (\<lambda>c. c\<lparr>c_ampMuted := True\<rparr>)) c = (Inl e, c')"
    then have "updateExpander hw (\<lambda>v. v OR ampMuteMask) c = (Inl e, c')" by (auto elim: seqE_error)
    with c show "fresh L c'" by (auto elim!: updateExpander_cases simp: fresh_def)
  qed
  show ?thesis
    unfolding setAmpMuteLocked_def writeAmpMute.simps [of hw True] simp_thms if_True if_False
    by (rule triple_seqE [OF keeps_ret], rule kept_readS, rule triple_seqE [OF keeps_ret], rule step)
qed

lemma fresh_dac: "triple (amp_off L) (setDACMuteLocked hw True) (\<lambda>_. ok L) (\<lambda>_. fresh L)"
proof (rule tripleI)
  have inner: "writeDACMute hw True c = seqE (updateExpander hw (\<lambda>v. v AND NOT dacMuteMask)) (updS (\<lambda>c. c\<lparr>c_dacMuted := True\<rparr>)) c"
    if "amp_off L c" for c
    using that by (simp add: writeDACMute.simps [of hw True] bindE_def seqE_def readS_def ret_def amp_off_def fresh_def)
  have same_run: "setDACMuteLocked hw True c = writeDACMute hw True c" for c
    by (simp add: setDACMuteLocked_def seqE_def bindE_def ret_def)
  fix c c' x assume c: "amp_off L c" and run: "setDACMuteLocked hw True c = (Inr x, c')"
  from run obtain y u where u: "updateExpander hw (\<lambda>v. v AND NOT dacMuteMask) c = (Inr y, u)" "c' = u\<lparr>c_dacMuted := True\<rparr>"
    unfolding same_run inner [OF c] by (auto elim: seqE_value)
  show "ok L c'"
    by (rule updateExpander_cases [OF u(1)])
       (use c in \<open>auto simp: u(2) same_mute_def amp_off_def fresh_def ok_def synced_def good_write_def quiet_write_def tidy_write_def clear_bits
         intro!: good_log_append\<close>)
next
  fix c c' e assume c: "amp_off L c" and run: "setDACMuteLocked hw True c = (Inl e, c')"
  then have "seqE (updateExpander hw (\<lambda>v. v AND NOT dacMuteMask)) (updS (\<lambda>c. c\<lparr>c_dacMuted := True\<rparr>)) c = (Inl e, c')"
    by (simp add: setDACMuteLocked_def writeDACMute.simps [of hw True] bindE_def seqE_def readS_def ret_def amp_off_def fresh_def)
  then have "updateExpander hw (\<lambda>v. v AND NOT dacMuteMask) c = (Inl e, c')" by (auto elim: seqE_error)
  with c show "fresh L c'" by (auto elim!: updateExpander_cases simp: amp_off_def fresh_def)
qed

lemma rail_ok:
  assumes "rail \<in> {0x10, 0x08}"
  shows "keeps (ok L) (updateExpander hw (\<lambda>v. v OR rail))"
proof (rule keepsI)
  from assms have "rail = 0x10 \<or> rail = 0x08" by simp
  then have bits: "bit rail n \<Longrightarrow> n = 3 \<or> n = 4" for n using mute_mask_bits(3,4) by metis
  have same_bits: "n \<notin> {3, 4} \<Longrightarrow> bit (v OR rail) n = bit v n" for v n
    using bits [of n] by (auto simp only: bit_or_iff insert_iff empty_iff)
  have synced_or: "synced (v OR rail) amp dac = synced v amp dac" for v amp dac
    by (simp add: synced_def same_bits)
  have good: "good_write (v, v OR rail)" if "synced v amp dac" for v amp dac
    using that by (auto simp: good_write_def quiet_write_def tidy_write_def same_bits synced_def)
  fix c assume c: "ok L c"
  obtain r c' where run: "updateExpander hw (\<lambda>v. v OR rail) c = (r, c')" by (rule prod.exhaust)
  then have "ok L c'"
  proof (cases rule: updateExpander_cases)
    case (wrote w' v)
    have v: "synced v (c_ampMuted c) (c_dacMuted c)" using c synced_mute [OF wrote(3)] by (simp add: ok_def)
    with wrote c show ?thesis
      by (simp add: ok_def synced_mute [OF wrote(4)] synced_or good_log_append good [OF v])
  next
    case (failed e w')
    with c show ?thesis by (simp add: ok_def synced_mute)
  qed
  with run show "ok L (snd (updateExpander hw (\<lambda>v. v OR rail) c))" by simp
qed

lemma write_elsewhere_keeps: "keeps (ok L) (on_hw (hw_Write hw dacAddress a b))"
proof (rule keepsI)
  fix c assume "ok L c"
  moreover have "dacAddress \<noteq> expanderAddress" by (simp add: dacAddress_def expanderAddress_def)
  note write_elsewhere [OF this, of a b "c_world c"]
  ultimately show "ok L (snd (on_hw (hw_Write hw dacAddress a b) c))"
    by (auto simp: on_hw_def split_beta ok_def synced_mute)
qed

lemma config_fresh: "keeps (fresh L) (on_hw (hw_Update hw expanderAddress expanderConfig f))"
proof (rule keepsI)
  fix c assume "fresh L c"
  moreover have "(expanderAddress, expanderConfig) \<noteq> output_reg" by (simp add: expanderConfig_def expanderOutput_def)
  note update_elsewhere [OF this, of f "c_world c"]
  ultimately show "fresh L (snd (on_hw (hw_Update hw expanderAddress expanderConfig f) c))"
    by (simp add: on_hw_def split_beta fresh_def)
qed

definition logged :: "(byte \<times> byte) list \<Rightarrow> 'w controller \<Rightarrow> bool" where
  "logged L c \<longleftrightarrow> good_log L (written (c_world c))"

lemma initialize_ok:
  "triple (fresh L) (initialize hw) (\<lambda>_. ok L) (\<lambda>_. logged L)"
proof -
  have weaken: "ok L c \<Longrightarrow> logged L c" "fresh L c \<Longrightarrow> logged L c" for c
    by (simp_all add: ok_def fresh_def logged_def)
  have later: "triple (ok L) m (\<lambda>_. ok L) (\<lambda>_. logged L)" if "keeps (ok L) m" for m :: "('w controller, 'a) act"
    by (rule triple_conseq [OF that]) (simp_all add: weaken)
  have rails: "keeps (ok L) (forE [0x10, 0x08] (\<lambda>mask. wrapE ''configure DSP power rails'' (updateExpander hw (\<lambda>v. v OR mask))))"
    by (rule keeps_forE) (rule keeps_wrapE, rule rail_ok, simp)
  have dac: "keeps (ok L) (forE dacInitialization (initDAC hw))"
    unfolding initDAC_def by (intro keeps_rules write_elsewhere_keeps set_ok)
  have flag: "keeps (ok L) (updS (\<lambda>c. c\<lparr>c_initialized := True\<rparr>))" by (rule keeps_updS) (simp add: ok_def)
  show ?thesis
    unfolding initialize_def blockE.simps
    by (rule triple_seqE [OF triple_conseq [OF keeps_wrapE [OF config_fresh]]], assumption, assumption, rule weaken, assumption,
        rule triple_seqE [OF triple_conseq [OF triple_wrapE [OF fresh_amp]]], assumption, assumption, rule weaken, assumption,
        rule triple_seqE [OF triple_conseq [OF triple_wrapE [OF fresh_dac]]], assumption, assumption, rule weaken, assumption,
        rule triple_seqE [OF later [OF rails]], rule triple_seqE [OF later [OF dac]], rule triple_seqE [OF later [OF sleep_ok]],
        rule triple_seqE [OF later [OF flag]], rule triple_ret)
qed

end

subsection \<open>Runs\<close>

text \<open>
  The operations of a started service, and its runs: the service starts from any content of the
  register, and between two operations the world may change in any way that leaves the mute bits
  and this controller's own record of writes alone. A failed initialisation ends the service.
\<close>

datatype output_op =
    SetAmpMute "go_error option" bool
  | SetDACMute "go_error option" bool
  | MuteAll
  | OpenOutputsOp

primrec run_op :: "'w mcu_hardware \<Rightarrow> output_op \<Rightarrow> ('w controller, unit) act" where
  "run_op hw (SetAmpMute cancelled muted) = setAmpMuteContext hw cancelled muted"
| "run_op hw (SetDACMute cancelled muted) = setDACMuteContext hw cancelled muted"
| "run_op hw MuteAll = muteAll hw"
| "run_op hw OpenOutputsOp = OpenOutputs hw"

inductive outputs_run :: "'w mcu_hardware \<Rightarrow> ('w \<Rightarrow> byte) \<Rightarrow> ('w \<Rightarrow> (byte \<times> byte) list) \<Rightarrow> 'w \<Rightarrow> 'w controller \<Rightarrow> bool"
  for hw out written w where
  run_start: "initialize hw (newController w) = (Inr (), c) \<Longrightarrow> outputs_run hw out written w c"
| run_operation: "outputs_run hw out written w c \<Longrightarrow> run_op hw op c = (r, c') \<Longrightarrow> outputs_run hw out written w c'"
| run_others: "outputs_run hw out written w c \<Longrightarrow> same_mute (out w') (out (c_world c)) \<Longrightarrow>
    written w' = written (c_world c) \<Longrightarrow> outputs_run hw out written w (c\<lparr>c_world := w'\<rparr>)"

context output_bus begin

lemma start_fresh: "fresh (written w) (newController w)"
  by (simp add: fresh_def newController_def)

lemma run_ok: "outputs_run hw out written w c \<Longrightarrow> ok (written w) c"
proof (induction rule: outputs_run.induct)
  case (run_start c)
  then show ?case by (rule tripleD_value [OF initialize_ok start_fresh])
next
  case (run_operation c op r c')
  have "keeps (ok (written w)) (run_op hw op)"
    by (cases op) (simp_all add: operations_ok)
  from keepsD [OF this run_operation.IH] run_operation.hyps(2) show ?case by simp
next
  case (run_others c w')
  then show ?case by (simp add: ok_def synced_mute)
qed

lemma failed_start_logs:
  "initialize hw (newController w) = (Inl e, c) \<Longrightarrow> good_log (written w) (written (c_world c))"
  using tripleD_error [OF initialize_ok start_fresh] by (simp add: logged_def)

text \<open>Written out: what the log of a run holds, and what the flags say of the register.\<close>

lemma run_facts:
  assumes "outputs_run hw out written w c"
  shows "\<exists>ps. written (c_world c) = written w @ ps \<and>
      (\<forall>(v, v') \<in> set ps. (bit v' 1 \<or> bit v' 2) \<and> (\<forall>n. n \<notin> {1, 2, 3, 4} \<longrightarrow> bit v' n = bit v n))"
    and "c_ampMuted c = bit (out (c_world c)) 1" "c_dacMuted c = (\<not> bit (out (c_world c)) 2)"
    and "c_ampMuted c \<or> \<not> c_dacMuted c"
  using run_ok [OF assms]
  by (simp_all add: ok_def synced_def good_log_def list_all_iff good_write_def quiet_write_def tidy_write_def split_beta
      del: One_nat_def)

end

end
