(* ===== verification/Mcu_I2c.thy ===== *)
theory Mcu_I2c
  imports Mcu_Outputs
begin

text \<open>
  The I2C bus of the MCU service (\<^verbatim>\<open>tools/mcu-interface/i2c_linux.go\<close>): register accesses as
  \<^verbatim>\<open>I2C_RDWR\<close> ioctls with a bounded number of retries, and the read-modify-write of a shared
  register under a file lock. The kernel is a parameter; what the code relies on is the locale
  \<open>i2c_chip\<close>, and the bus built on it is an \<open>output_bus\<close>.
\<close>

subsection \<open>The kernel's interface\<close>

datatype errno = EAGAIN | EBUSY | EREMOTEIO | ENXIO | ETIMEDOUT | OtherErrno nat

text \<open>A message's buffer is the data sent, or for a read the bytes the driver fills; its length is the \<^verbatim>\<open>Length\<close> field.\<close>

record i2cMessage =
  Address :: u16
  Flags :: u16
  Buffer :: "byte list"

text \<open>
  An ioctl returns an error number or the number of messages transferred, and the messages with
  the buffers as the driver left them. \<open>k_flock\<close> takes the exclusive lock (\<open>True\<close>) or releases it.
\<close>

record 'w i2c_kernel =
  k_ioctl :: "i2cMessage list \<Rightarrow> 'w \<Rightarrow> (errno + nat) \<times> i2cMessage list \<times> 'w"
  k_flock :: "bool \<Rightarrow> ('w, unit) act"
  k_sleep :: "nat \<Rightarrow> 'w \<Rightarrow> 'w"

definition i2cRead :: u16 where "i2cRead = 0x0001"
definition i2cRetryCount :: nat where "i2cRetryCount = 5"
definition i2cRetryDelay :: nat where "i2cRetryDelay = 20"

fun transient :: "errno \<Rightarrow> bool" where
  "transient (OtherErrno n) = False"
| "transient _ = True"

subsection \<open>Transfers\<close>

text \<open>\<open>n\<close> attempts are left; there is no pause after the last one.\<close>

fun transfer_attempts :: "'w i2c_kernel \<Rightarrow> nat \<Rightarrow> i2cMessage list \<Rightarrow> ('w, i2cMessage list) act" where
  "transfer_attempts K 0 ms w = (Inl (Errorf ''I2C_RDWR transient failure retries exhausted''), w)"
| "transfer_attempts K (Suc n) ms w = (case k_ioctl K ms w of
     (Inr count, ms', w') \<Rightarrow>
       (if count \<noteq> length ms then Inl (Errorf ''I2C_RDWR transferred too few messages'') else Inr ms', w')
   | (Inl err, ms', w') \<Rightarrow>
       if \<not> transient err then (Inl (Errorf ''I2C_RDWR''), w')
       else transfer_attempts K n ms' (if 0 < n then k_sleep K i2cRetryDelay w' else w'))"

declare transfer_attempts.simps(2) [simp del]

definition i2c_transfer :: "'w i2c_kernel \<Rightarrow> i2cMessage list \<Rightarrow> ('w, i2cMessage list) act" where
  "i2c_transfer K = transfer_attempts K i2cRetryCount"

definition i2c_ReadRegister :: "'w i2c_kernel \<Rightarrow> byte \<Rightarrow> byte \<Rightarrow> ('w, byte) act" where
  "i2c_ReadRegister K address register =
     bindE (i2c_transfer K
       [\<lparr>Address = ucast address, Flags = 0, Buffer = [register]\<rparr>,
        \<lparr>Address = ucast address, Flags = i2cRead, Buffer = [0]\<rparr>])
     (\<lambda>ms. ret (hd (Buffer (ms ! 1))))"

definition i2c_WriteRegister :: "'w i2c_kernel \<Rightarrow> byte \<Rightarrow> byte \<Rightarrow> byte \<Rightarrow> ('w, unit) act" where
  "i2c_WriteRegister K address register v =
     bindE (i2c_transfer K [\<lparr>Address = ucast address, Flags = 0, Buffer = [register, v]\<rparr>]) (\<lambda>_. ret ())"

definition ReadMCUEvent :: "'w i2c_kernel \<Rightarrow> ('w, byte list) act" where
  "ReadMCUEvent K =
     bindE (i2c_transfer K [\<lparr>Address = 0x36, Flags = i2cRead, Buffer = replicate 6 0\<rparr>]) (\<lambda>ms. ret (Buffer (ms ! 0)))"

definition WriteMCUCommand :: "'w i2c_kernel \<Rightarrow> byte list \<Rightarrow> ('w, unit) act" where
  "WriteMCUCommand K frame =
     bindE (i2c_transfer K [\<lparr>Address = 0x36, Flags = 0, Buffer = frame\<rparr>]) (\<lambda>_. ret ())"

definition WriteMCUData :: "'w i2c_kernel \<Rightarrow> byte list \<Rightarrow> ('w, unit) act" where
  "WriteMCUData K data = (
     if length data = 0 \<or> length data > 392 then fail (Errorf ''MCU data length must be from 1 through 392'')
     else bindE (i2c_transfer K [\<lparr>Address = 0x36, Flags = 0, Buffer = data\<rparr>]) (\<lambda>_. ret ()))"

definition i2c_UpdateRegister :: "'w i2c_kernel \<Rightarrow> byte \<Rightarrow> byte \<Rightarrow> (byte \<Rightarrow> byte) \<Rightarrow> ('w, unit) act" where
  "i2c_UpdateRegister K address register update =
     seqE (wrapE ''lock expander'' (k_flock K True))
       (finallyE
         (bindE (i2c_ReadRegister K address register) (\<lambda>current.
            i2c_WriteRegister K address register (update current)))
         (k_flock K False))"

definition linuxI2C :: "'w i2c_kernel \<Rightarrow> 'w mcu_hardware" where
  "linuxI2C K = \<lparr>hw_Write = i2c_WriteRegister K, hw_Update = i2c_UpdateRegister K, hw_sleep = k_sleep K\<rparr>"

subsection \<open>What the code relies on\<close>

text \<open>
  \<open>out\<close>, \<open>written\<close> as for \<open>output_bus\<close>; \<open>locked\<close> says that this process holds the lock.
  The driver keeps what is sent and the length of what is read; a write that is not
  acknowledged is not applied; a read returns the register. The output register moves under
  the lock by this process's writes only, and otherwise by other processes, which leave the
  mute bits alone.
\<close>

definition writes_output :: "byte \<Rightarrow> i2cMessage \<Rightarrow> bool" where
  "writes_output v m \<longleftrightarrow> m = \<lparr>Address = ucast expanderAddress, Flags = 0, Buffer = [expanderOutput, v]\<rparr>"

definition same_shape :: "i2cMessage \<Rightarrow> i2cMessage \<Rightarrow> bool" where
  "same_shape m m' \<longleftrightarrow> Address m' = Address m \<and> Flags m' = Flags m \<and> length (Buffer m') = length (Buffer m) \<and>
     (Flags m = 0 \<longrightarrow> m' = m)"

locale i2c_chip =
  fixes K :: "'w i2c_kernel" and out :: "'w \<Rightarrow> byte" and written :: "'w \<Rightarrow> (byte \<times> byte) list"
    and locked :: "'w \<Rightarrow> bool"
  assumes ioctl_shape: "k_ioctl K ms w = (r, ms', w') \<Longrightarrow> list_all2 same_shape ms ms'"
    and ioctl_quiet: "k_ioctl K ms w = (r, ms', w') \<Longrightarrow> (\<forall>v. \<forall>m \<in> set ms. \<not> writes_output v m) \<or> r \<noteq> Inr (length ms) \<Longrightarrow>
      written w' = written w \<and> locked w' = locked w \<and> same_mute (out w') (out w) \<and> (locked w \<longrightarrow> out w' = out w)"
    and ioctl_write: "k_ioctl K [m] w = (Inr 1, ms', w') \<Longrightarrow> writes_output v m \<Longrightarrow> locked w \<Longrightarrow>
      written w' = written w @ [(out w, v)] \<and> out w' = v"
    and ioctl_read: "k_ioctl K [\<lparr>Address = ucast expanderAddress, Flags = 0, Buffer = [expanderOutput]\<rparr>,
        \<lparr>Address = ucast expanderAddress, Flags = i2cRead, Buffer = [b]\<rparr>] w = (Inr 2, ms', w') \<Longrightarrow> locked w \<Longrightarrow>
      Buffer (ms' ! 1) = [out w']"
    and flock: "k_flock K acquire w = (q, w') \<Longrightarrow> written w' = written w \<and> same_mute (out w') (out w) \<and>
      (acquire \<and> q = Inr () \<longrightarrow> locked w')"
    and sleep: "written (k_sleep K d w) = written w \<and> locked (k_sleep K d w) = locked w \<and>
      same_mute (out (k_sleep K d w)) (out w) \<and> (locked w \<longrightarrow> out (k_sleep K d w) = out w)"

lemma same_mute_refl [simp]: "same_mute u u"
  by (simp add: same_mute_def)

lemma same_mute_trans: "same_mute u v \<Longrightarrow> same_mute v x \<Longrightarrow> same_mute u x"
  by (simp add: same_mute_def)

lemma ucast_byte_inject: "(ucast a :: u16) = ucast b \<Longrightarrow> a = b" for a b :: byte
  by transfer (simp add: take_bit_take_bit)

abbreviation read_messages :: "byte \<Rightarrow> i2cMessage list" where
  "read_messages b \<equiv> [\<lparr>Address = ucast expanderAddress, Flags = 0, Buffer = [expanderOutput]\<rparr>,
     \<lparr>Address = ucast expanderAddress, Flags = i2cRead, Buffer = [b]\<rparr>]"

lemma read_messages_quiet: "\<forall>v. \<forall>m \<in> set (read_messages b). \<not> writes_output v m"
  by (simp add: writes_output_def)

lemma shape_read: "list_all2 same_shape (read_messages b) ms' \<Longrightarrow> \<exists>b'. ms' = read_messages b'"
proof -
  assume "list_all2 same_shape (read_messages b) ms'"
  then obtain z y where z: "ms' = [\<lparr>Address = ucast expanderAddress, Flags = 0, Buffer = [expanderOutput]\<rparr>, z]"
      "Address z = ucast expanderAddress" "Flags z = i2cRead" "Buffer z = [y]"
    by (auto simp: list_all2_Cons1 same_shape_def length_Suc_conv)
  then have "z = \<lparr>Address = ucast expanderAddress, Flags = i2cRead, Buffer = [y]\<rparr>" by (cases z) simp
  with z show ?thesis by blast
qed

lemma shape_quiet: "list_all2 same_shape ms ms' \<Longrightarrow> \<forall>v. \<forall>m \<in> set ms. \<not> writes_output v m \<Longrightarrow>
    \<forall>v. \<forall>m \<in> set ms'. \<not> writes_output v m"
proof (intro allI ballI notI)
  fix v m' assume all: "list_all2 same_shape ms ms'" "\<forall>v. \<forall>m \<in> set ms. \<not> writes_output v m"
    and m': "m' \<in> set ms'" "writes_output v m'"
  from all(1) m'(1) obtain m where "m \<in> set ms" "same_shape m m'" by (metis list_all2_conv_all_nth in_set_conv_nth)
  with m'(2) have "m = m'" by (auto simp: same_shape_def writes_output_def)
  with \<open>m \<in> set ms\<close> m'(2) all(2) show False by simp
qed

context i2c_chip begin

text \<open>\<open>settled w w'\<close>: nothing of this process's doing happened between the two.\<close>

definition settled :: "'w \<Rightarrow> 'w \<Rightarrow> bool" where
  "settled w w' \<longleftrightarrow> written w' = written w \<and> locked w' = locked w \<and> same_mute (out w') (out w) \<and>
     (locked w \<longrightarrow> out w' = out w)"

lemma settled_refl [simp]: "settled w w"
  by (simp add: settled_def)

lemma settled_trans [trans]: "settled w u \<Longrightarrow> settled u w' \<Longrightarrow> settled w w'"
  by (auto simp: settled_def intro: same_mute_trans)

lemma sleep_settled: "settled w (if c then k_sleep K d w else w)"
  using sleep by (simp add: settled_def)

lemma ioctl_settled:
  "k_ioctl K ms w = (r, ms', w') \<Longrightarrow> (\<forall>v. \<forall>m \<in> set ms. \<not> writes_output v m) \<or> r \<noteq> Inr (length ms) \<Longrightarrow> settled w w'"
  using ioctl_quiet by (simp add: settled_def)

text \<open>A failed attempt leaves the messages fit for the next one.\<close>

lemma attempts_induct :
  assumes run: "transfer_attempts K n ms w = (r, w')"
    and none: "\<And>ms w. I ms w \<Longrightarrow> Q w (Inl (Errorf ''I2C_RDWR transient failure retries exhausted'')) w"
    and finished: "\<And>ms w ms' w'. I ms w \<Longrightarrow> k_ioctl K ms w = (Inr (length ms), ms', w') \<Longrightarrow> Q w (Inr ms') w'"
    and failed: "\<And>w e w'. settled w w' \<Longrightarrow> Q w (Inl e) w'"
    and again: "\<And>ms w ms' w'. I ms w \<Longrightarrow> list_all2 same_shape ms ms' \<Longrightarrow> settled w w' \<Longrightarrow> I ms' w'"
    and chain: "\<And>w u r w'. settled w u \<Longrightarrow> Q u r w' \<Longrightarrow> Q w r w'"
    and start: "I ms w"
  shows "Q w r w'"
  using run start
proof (induction n arbitrary: ms w)
  case 0
  then show ?case using none by simp
next
  case (Suc n)
  obtain q ms' u where io: "k_ioctl K ms w = (q, ms', u)" by (metis prod_cases3)
  show ?case
  proof (cases q)
    case (Inr count)
    show ?thesis
    proof (cases "count = length ms")
      case True
      with io Inr Suc.prems finished [of ms w ms' u] show ?thesis by (simp add: transfer_attempts.simps(2))
    next
      case False
      with io Inr Suc.prems(1) failed [of w u] ioctl_settled [OF io] show ?thesis
        by (auto simp: transfer_attempts.simps(2))
    qed
  next
    case (Inl err)
    with ioctl_settled [OF io] have q: "settled w u" by simp
    show ?thesis
    proof (cases "transient err")
      case False
      with io Inl Suc.prems(1) failed [OF q] show ?thesis by (auto simp: transfer_attempts.simps(2))
    next
      case True
      let ?u = "if 0 < n then k_sleep K i2cRetryDelay u else u"
      have s: "settled w ?u" by (rule settled_trans [OF q sleep_settled])
      from True io Inl Suc.prems(1) have "transfer_attempts K n ms' ?u = (r, w')"
        by (simp add: transfer_attempts.simps(2))
      from Suc.IH [OF this again [OF Suc.prems(2) ioctl_shape [OF io] s]] show ?thesis by (rule chain [OF s])
    qed
  qed
qed

lemma transfer_quiet:
  assumes run: "i2c_transfer K ms w = (r, w')" and quiet: "\<forall>v. \<forall>m \<in> set ms. \<not> writes_output v m"
  shows "settled w w'"
proof (rule attempts_induct [OF run [unfolded i2c_transfer_def],
      where Q = "\<lambda>w _. settled w" and I = "\<lambda>ms _. \<forall>v. \<forall>m \<in> set ms. \<not> writes_output v m"])
  show "settled w w'" if "\<forall>v. \<forall>m \<in> set ms. \<not> writes_output v m" "k_ioctl K ms w = (Inr (length ms), ms', w')" for ms w ms' w'
    using ioctl_settled [OF that(2)] that(1) by simp
  show "\<forall>v. \<forall>m \<in> set ms'. \<not> writes_output v m"
    if "\<forall>v. \<forall>m \<in> set ms. \<not> writes_output v m" "list_all2 same_shape ms ms'" for ms ms'
    using shape_quiet [OF that(2,1)] .
qed (simp_all add: quiet settled_trans)

definition write_outcome :: "byte \<Rightarrow> 'w \<Rightarrow> go_error + 'a \<Rightarrow> 'w \<Rightarrow> bool" where
  "write_outcome v w r w' \<longleftrightarrow> locked w \<longrightarrow>
     (case r of Inl e \<Rightarrow> settled w w' | Inr x \<Rightarrow> written w' = written w @ [(out w, v)] \<and> out w' = v)"

lemma transfer_write:
  assumes run: "i2c_transfer K [m] w = (r, w')" and m: "writes_output v m" and w: "locked w"
  shows "write_outcome v w r w'"
proof (rule attempts_induct [OF run [unfolded i2c_transfer_def],
      where Q = "write_outcome v" and I = "\<lambda>ms w. ms = [m] \<and> locked w"])
  show "write_outcome v w (Inr ms') w'" if "ms = [m] \<and> locked w" "k_ioctl K ms w = (Inr (length ms), ms', w')" for ms w ms' w'
    using ioctl_write [of m w ms' w' v] that m by (simp add: write_outcome_def)
  show "ms' = [m] \<and> locked w'" if "ms = [m] \<and> locked w" "list_all2 same_shape ms ms'" "settled w w'" for ms w ms' w'
    using that m by (auto simp: list_all2_Cons1 same_shape_def settled_def writes_output_def)
  show "write_outcome v w r w'" if "settled w u" "write_outcome v u r w'" for w u r w'
    using that settled_trans [OF that(1)] by (auto simp: write_outcome_def settled_def split: sum.splits)
qed (simp_all add: w write_outcome_def)

definition read_outcome :: "'w \<Rightarrow> go_error + i2cMessage list \<Rightarrow> 'w \<Rightarrow> bool" where
  "read_outcome w r w' \<longleftrightarrow> settled w w' \<and> (locked w \<longrightarrow> (\<forall>ms. r = Inr ms \<longrightarrow> Buffer (ms ! 1) = [out w]))"

lemma transfer_read:
  assumes run: "i2c_transfer K (read_messages b) w = (r, w')"
  shows "read_outcome w r w'"
proof (rule attempts_induct [OF run [unfolded i2c_transfer_def],
      where Q = read_outcome and I = "\<lambda>ms w. \<exists>b. ms = read_messages b"])
  show "read_outcome w (Inr ms') w'" if "\<exists>b. ms = read_messages b" "k_ioctl K ms w = (Inr (length ms), ms', w')" for ms w ms' w'
  proof -
    from that obtain b where io: "k_ioctl K (read_messages b) w = (Inr 2, ms', w')" by (auto simp: numeral_2_eq_2)
    have s: "settled w w'" by (rule ioctl_settled [OF io disjI1 [OF read_messages_quiet]])
    with ioctl_read [OF io] show ?thesis by (simp add: read_outcome_def settled_def)
  qed
  show "\<exists>b. ms' = read_messages b" if "\<exists>b. ms = read_messages b" "list_all2 same_shape ms ms'" for ms ms'
    using that shape_read by blast
  show "read_outcome w r w'" if "settled w u" "read_outcome u r w'" for w u r w'
    using that settled_trans [OF that(1)] by (auto simp: read_outcome_def settled_def)
qed (auto simp: read_outcome_def)

text \<open>Both halves of an update happen under the lock, so the value written is computed from the one it replaces.\<close>

lemma transfer_value: "bindE (i2c_transfer K ms) f w = (r, w') \<Longrightarrow> (\<And>ms. \<exists>x. f ms = ret x) \<Longrightarrow>
    \<exists>q. i2c_transfer K ms w = (q, w') \<and> (\<forall>e. r = Inl e \<longleftrightarrow> q = Inl e) \<and> (\<forall>ms'. q = Inr ms' \<longrightarrow> (r, w') = f ms' w')"
proof -
  assume run: "bindE (i2c_transfer K ms) f w = (r, w')" and f: "\<And>ms. \<exists>x. f ms = ret x"
  obtain q u where q: "i2c_transfer K ms w = (q, u)" by (rule prod.exhaust)
  show ?thesis
  proof (cases q)
    case (Inl e)
    with q run show ?thesis by (auto simp: bindE_def)
  next
    case (Inr ms')
    obtain x where "f ms' = ret x" using f by blast
    with q run Inr show ?thesis by (auto simp: bindE_def ret_def)
  qed
qed

lemma register_quiet:
  "i2c_ReadRegister K a r w = (q, w') \<Longrightarrow> settled w w'"
  "(a, r) \<noteq> output_reg \<Longrightarrow> i2c_WriteRegister K a r v w = (q', w') \<Longrightarrow> settled w w'"
proof -
  assume "i2c_ReadRegister K a r w = (q, w')"
  from transfer_value [OF this [unfolded i2c_ReadRegister_def]] obtain q' where
    "i2c_transfer K [\<lparr>Address = ucast a, Flags = 0, Buffer = [r]\<rparr>,
       \<lparr>Address = ucast a, Flags = i2cRead, Buffer = [0]\<rparr>] w = (q', w')" by auto
  then show "settled w w'" by (rule transfer_quiet) (simp add: writes_output_def)
next
  assume a: "(a, r) \<noteq> output_reg" and "i2c_WriteRegister K a r v w = (q', w')"
  from transfer_value [OF this(2) [unfolded i2c_WriteRegister_def]] obtain q where
    "i2c_transfer K [\<lparr>Address = ucast a, Flags = 0, Buffer = [r, v]\<rparr>] w = (q, w')" by auto
  moreover have "(ucast a :: u16) = ucast expanderAddress \<Longrightarrow> a = expanderAddress"
    by (rule ucast_byte_inject)
  ultimately show "settled w w'" by (rule_tac transfer_quiet) (use a in \<open>auto simp: writes_output_def\<close>)
qed

lemma read_locked:
  assumes "i2c_ReadRegister K expanderAddress expanderOutput w = (Inr v, w')" "locked w"
  shows "v = out w"
proof -
  from transfer_value [OF assms(1) [unfolded i2c_ReadRegister_def]] obtain q where
    q: "i2c_transfer K (read_messages 0) w = (q, w')" "\<forall>e. q \<noteq> Inl e" "\<forall>ms'. q = Inr ms' \<longrightarrow> v = hd (Buffer (ms' ! 1))"
    by (auto simp: ret_def)
  then show ?thesis
    using transfer_read [OF q(1)] assms(2) by (cases q) (auto simp: read_outcome_def)
qed

lemma write_locked:
  assumes "i2c_WriteRegister K expanderAddress expanderOutput v w = (r, w')" "locked w"
  shows "write_outcome v w r w'"
proof -
  from transfer_value [OF assms(1) [unfolded i2c_WriteRegister_def]] obtain q where
    q: "i2c_transfer K [\<lparr>Address = ucast expanderAddress, Flags = 0, Buffer = [expanderOutput, v]\<rparr>] w = (q, w')"
      "\<forall>e. r = Inl e \<longleftrightarrow> q = Inl e"
    by auto
  have "write_outcome v w q w'" by (rule transfer_write [OF q(1) _ assms(2)]) (simp add: writes_output_def)
  then show ?thesis using q(2) by (cases q; cases r) (auto simp: write_outcome_def)
qed

lemma unlock: "k_flock K False w = (q, w') \<Longrightarrow> written w' = written w \<and> same_mute (out w') (out w)"
  using flock by simp

lemma update_shape:
  assumes "i2c_UpdateRegister K a r f w = (q, w')"
  obtains (unlocked) e where "k_flock K True w = (Inl e, w')" "q = Inl (Wrapf ''lock expander'' e)"
  | (held) u x u' where "k_flock K True w = (Inr (), u)"
      "bindE (i2c_ReadRegister K a r) (\<lambda>current. i2c_WriteRegister K a r (f current)) u = (q, u')"
      "k_flock K False u' = (x, w')"
proof -
  obtain l u where l: "k_flock K True w = (l, u)" by (rule prod.exhaust)
  show ?thesis
  proof (cases l)
    case (Inl e)
    with l assms show ?thesis by (intro unlocked) (auto simp: i2c_UpdateRegister_def act_simps)
  next
    case (Inr x)
    obtain b u' where b: "bindE (i2c_ReadRegister K a r) (\<lambda>current. i2c_WriteRegister K a r (f current)) u = (b, u')"
      by (rule prod.exhaust)
    obtain x' w2 where x: "k_flock K False u' = (x', w2)" by (rule prod.exhaust)
    have lock: "wrapE ''lock expander'' (k_flock K True) w = (Inr (), u)"
      using l Inr by (simp add: wrapE_def tryE_def ret_def)
    have "finallyE (bindE (i2c_ReadRegister K a r) (\<lambda>current. i2c_WriteRegister K a r (f current))) (k_flock K False) u = (b, w2)"
      by (simp add: finallyE_def b x)
    then have "i2c_UpdateRegister K a r f w = (b, w2)"
      unfolding i2c_UpdateRegister_def seqE_def bindE_def [of "wrapE _ _"] lock by simp
    with assms l Inr b x show ?thesis by (intro held) simp_all
  qed
qed

lemma update_elsewhere_settled:
  assumes "(a, r) \<noteq> output_reg" "i2c_UpdateRegister K a r f w = (q, w')"
  shows "written w' = written w \<and> same_mute (out w') (out w)"
  using assms(2)
proof (cases rule: update_shape)
  case (unlocked e)
  then show ?thesis using flock by simp
next
  case (held u x u')
  obtain v u2 where rd: "i2c_ReadRegister K a r u = (v, u2)" by (rule prod.exhaust)
  have "settled u2 u'"
  proof (cases v)
    case (Inl e)
    with held(2) rd show ?thesis by (simp add: bindE_def)
  next
    case (Inr y)
    with held(2) rd have "i2c_WriteRegister K a r (f y) u2 = (q, u')" by (simp add: bindE_def)
    then show ?thesis by (rule register_quiet(2) [OF assms(1)])
  qed
  with register_quiet(1) [OF rd] have "settled u u'" by (rule settled_trans)
  with flock [OF held(1)] unlock [OF held(3)] show ?thesis
    by (auto simp: settled_def intro: same_mute_trans)
qed

lemma update_output:
  assumes "i2c_UpdateRegister K expanderAddress expanderOutput f w = (q, w')"
  shows "(\<exists>e. q = Inl e) \<and> same_mute (out w') (out w) \<and> written w' = written w \<or>
    (\<exists>v. q = Inr () \<and> same_mute v (out w) \<and> written w' = written w @ [(v, f v)] \<and> same_mute (out w') (f v))"
  using assms
proof (cases rule: update_shape)
  case (unlocked e)
  then show ?thesis using flock by simp
next
  case (held u x u')
  note fl = flock [OF held(1)] and un = unlock [OF held(3)]
  obtain v u2 where rd: "i2c_ReadRegister K expanderAddress expanderOutput u = (v, u2)" by (rule prod.exhaust)
  note s = register_quiet(1) [OF rd]
  show ?thesis
  proof (cases v)
    case (Inl e)
    with held(2) rd have "q = Inl e" "u' = u2" by (simp_all add: bindE_def)
    with s fl un show ?thesis by (auto simp: settled_def intro: same_mute_trans)
  next
    case (Inr y)
    have y: "y = out u" "out u = out u2" "locked u2"
      using read_locked [of u y u2] rd Inr fl s by (simp_all add: settled_def)
    from held(2) rd Inr have wr: "i2c_WriteRegister K expanderAddress expanderOutput (f y) u2 = (q, u')" by (simp add: bindE_def)
    from write_locked [OF wr y(3)] show ?thesis
    proof (cases q)
      case (Inl e)
      with write_locked [OF wr y(3)] y(3) have "settled u2 u'" by (simp add: write_outcome_def)
      with s have "settled u u'" by (rule settled_trans)
      with Inl fl un show ?thesis by (auto simp: settled_def intro: same_mute_trans)
    next
      case (Inr z)
      with write_locked [OF wr y(3)] y fl un s show ?thesis
        by (auto simp: write_outcome_def settled_def intro: same_mute_trans)
    qed
  qed
qed

end

sublocale i2c_chip \<subseteq> bus: output_bus "linuxI2C K" out written
proof unfold_locales
  show "same_mute (out (snd (hw_Write (linuxI2C K) a r v w))) (out w) \<and> written (snd (hw_Write (linuxI2C K) a r v w)) = written w"
    if "a \<noteq> expanderAddress" for a r v w
    using register_quiet(2) [of a r v w] that
    by (cases "i2c_WriteRegister K a r v w") (auto simp: linuxI2C_def settled_def)
  show "same_mute (out (snd (hw_Update (linuxI2C K) a r f w))) (out w) \<and> written (snd (hw_Update (linuxI2C K) a r f w)) = written w"
    if "(a, r) \<noteq> output_reg" for a r f w
    using update_elsewhere_settled [OF that, of f w] by (cases "i2c_UpdateRegister K a r f w") (simp add: linuxI2C_def)
  show "\<exists>v. same_mute v (out w) \<and> written w' = written w @ [(v, f v)] \<and> same_mute (out w') (f v)"
    if "hw_Update (linuxI2C K) expanderAddress expanderOutput f w = (Inr (), w')" for f w w'
    using update_output [of f w "Inr ()" w'] that by (simp add: linuxI2C_def)
  show "same_mute (out w') (out w) \<and> written w' = written w"
    if "hw_Update (linuxI2C K) expanderAddress expanderOutput f w = (Inl e, w')" for f w e w'
    using update_output [of f w "Inl e" w'] that by (simp add: linuxI2C_def)
  show "same_mute (out (hw_sleep (linuxI2C K) d w)) (out w) \<and> written (hw_sleep (linuxI2C K) d w) = written w" for d w
    using sleep by (simp add: linuxI2C_def)
qed

context i2c_chip begin

lemma chip_bus: "output_bus (linuxI2C K) out written"
  by (rule bus.output_bus_axioms)

end

subsection \<open>A bus in memory\<close>

text \<open>
  An executable kernel: registers behind a register pointer, a script of failing ioctls, and a
  script of values the other process writes outside the mute bits whenever the lock is free.
\<close>

record speaker_bus =
  sb_regs :: "u16 \<times> byte \<Rightarrow> byte"
  sb_pointer :: byte
  sb_locked :: bool
  sb_written :: "(byte \<times> byte) list"
  sb_faults :: "errno option list"
  sb_others :: "byte list"

abbreviation sb_out :: "speaker_bus \<Rightarrow> byte" where
  "sb_out b \<equiv> sb_regs b (ucast expanderAddress, expanderOutput)"

definition interfere :: "speaker_bus \<Rightarrow> speaker_bus" where
  "interfere b = (if sb_locked b then b else (case sb_others b of
       [] \<Rightarrow> b
     | v # vs \<Rightarrow> b\<lparr>sb_others := vs, sb_regs := (sb_regs b)((ucast expanderAddress, expanderOutput) := (sb_out b AND (ampMuteMask OR dacMuteMask)) OR (v AND NOT (ampMuteMask OR dacMuteMask)))\<rparr>))"

definition sb_message :: "i2cMessage \<Rightarrow> speaker_bus \<Rightarrow> i2cMessage \<times> speaker_bus" where
  "sb_message m b = (let a = Address m in
     if Flags m = 0 then (case Buffer m of
         [r] \<Rightarrow> (m, b\<lparr>sb_pointer := r\<rparr>)
       | [r, v] \<Rightarrow> (m, b\<lparr>sb_regs := (sb_regs b)((a, r) := v),
           sb_written := sb_written b @ (if (a, r) = (ucast expanderAddress, expanderOutput) then [(sb_out b, v)] else [])\<rparr>)
       | _ \<Rightarrow> (m, b))
     else (m\<lparr>Buffer := replicate (length (Buffer m)) (sb_regs b (a, sb_pointer b))\<rparr>, b))"

fun sb_messages :: "i2cMessage list \<Rightarrow> speaker_bus \<Rightarrow> i2cMessage list \<times> speaker_bus" where
  "sb_messages [] b = ([], b)"
| "sb_messages (m # ms) b = (case sb_message m b of (m', b1) \<Rightarrow>
     (case sb_messages ms b1 of (ms', b2) \<Rightarrow> (m' # ms', b2)))"

definition sb_ioctl :: "i2cMessage list \<Rightarrow> speaker_bus \<Rightarrow> (errno + nat) \<times> i2cMessage list \<times> speaker_bus" where
  "sb_ioctl ms b = (case sb_faults b of
       Some err # fs \<Rightarrow> (Inl err, ms, b\<lparr>sb_faults := fs\<rparr>)
     | fs \<Rightarrow> (case sb_messages ms (b\<lparr>sb_faults := tl fs\<rparr>) of (ms', b') \<Rightarrow> (Inr (length ms), ms', b')))"

definition speaker_kernel :: "speaker_bus i2c_kernel" where
  "speaker_kernel = \<lparr>k_ioctl = sb_ioctl,
     k_flock = (\<lambda>acquire. updS (\<lambda>b. (interfere b)\<lparr>sb_locked := acquire\<rparr>)),
     k_sleep = (\<lambda>_. interfere)\<rparr>"

definition new_speaker_bus :: "byte \<Rightarrow> errno option list \<Rightarrow> byte list \<Rightarrow> speaker_bus" where
  "new_speaker_bus v faults others = \<lparr>sb_regs = (\<lambda>_. 0)((ucast expanderAddress, expanderOutput) := v), sb_pointer = 0, sb_locked = False,
     sb_written = [], sb_faults = faults, sb_others = others\<rparr>"

lemma interfere_facts: "sb_written (interfere b) = sb_written b" "sb_locked (interfere b) = sb_locked b"
    "same_mute (sb_out (interfere b)) (sb_out b)" "sb_locked b \<Longrightarrow> sb_out (interfere b) = sb_out b"
  by (auto simp: interfere_def same_mute_def bit_simps mute_mask_bits split: list.splits)

lemma sb_message_facts:
  "same_shape m (fst (sb_message m b))" "sb_locked (snd (sb_message m b)) = sb_locked b"
  "\<forall>v. \<not> writes_output v m \<Longrightarrow> sb_out (snd (sb_message m b)) = sb_out b \<and> sb_written (snd (sb_message m b)) = sb_written b"
  by (cases m, auto simp: sb_message_def same_shape_def writes_output_def Let_def split: list.splits)+

lemma sb_messages_facts:
  "list_all2 same_shape ms (fst (sb_messages ms b)) \<and> sb_locked (snd (sb_messages ms b)) = sb_locked b \<and>
   ((\<forall>v. \<forall>m \<in> set ms. \<not> writes_output v m) \<longrightarrow>
      sb_out (snd (sb_messages ms b)) = sb_out b \<and> sb_written (snd (sb_messages ms b)) = sb_written b)"
proof (induction ms arbitrary: b)
  case (Cons m ms)
  obtain m' b1 where m: "sb_message m b = (m', b1)" by (rule prod.exhaust)
  obtain ms' b2 where ms: "sb_messages ms b1 = (ms', b2)" by (rule prod.exhaust)
  show ?case using Cons.IH [of b1] sb_message_facts [of m b] m ms by auto
qed simp

lemma sb_ioctl_cases:
  assumes "sb_ioctl ms b = (r, ms', b')"
  obtains (fault) err fs where "r = Inl err" "ms' = ms" "b' = b\<lparr>sb_faults := fs\<rparr>"
  | (served) fs where "r = Inr (length ms)" "sb_messages ms (b\<lparr>sb_faults := fs\<rparr>) = (ms', b')"
  using assms by (auto simp: sb_ioctl_def split: list.splits option.splits prod.splits)

lemma same_shape_refl: "list_all2 same_shape ms ms"
  by (simp add: list_all2_same same_shape_def)

interpretation speaker: i2c_chip speaker_kernel sb_out sb_written sb_locked
proof unfold_locales
  fix ms ms' :: "i2cMessage list" and b b' :: speaker_bus and r
  assume "k_ioctl speaker_kernel ms b = (r, ms', b')"
  then have io: "sb_ioctl ms b = (r, ms', b')" by (simp add: speaker_kernel_def)
  then show "list_all2 same_shape ms ms'"
  proof (cases rule: sb_ioctl_cases)
    case (served fs)
    then show ?thesis using sb_messages_facts [of ms "b\<lparr>sb_faults := fs\<rparr>"] by simp
  qed (simp add: same_shape_refl)
  assume "(\<forall>v. \<forall>m \<in> set ms. \<not> writes_output v m) \<or> r \<noteq> Inr (length ms)"
  with io show "sb_written b' = sb_written b \<and> sb_locked b' = sb_locked b \<and> same_mute (sb_out b') (sb_out b) \<and>
      (sb_locked b \<longrightarrow> sb_out b' = sb_out b)"
  proof (cases rule: sb_ioctl_cases)
    case (served fs)
    with \<open>_ \<or> r \<noteq> _\<close> show ?thesis using sb_messages_facts [of ms "b\<lparr>sb_faults := fs\<rparr>"] by simp
  qed simp
next
  fix m v ms' b b' assume "k_ioctl speaker_kernel [m] b = (Inr 1, ms', b')" and m: "writes_output v m"
  then have "sb_ioctl [m] b = (Inr 1, ms', b')" by (simp add: speaker_kernel_def)
  then show "sb_written b' = sb_written b @ [(sb_out b, v)] \<and> sb_out b' = v"
    by (cases rule: sb_ioctl_cases) (use m in \<open>auto simp: writes_output_def sb_message_def Let_def\<close>)
next
  fix x ms' b b'
  assume "k_ioctl speaker_kernel (read_messages x) b = (Inr 2, ms', b')"
  then have "sb_ioctl (read_messages x) b = (Inr 2, ms', b')" by (simp add: speaker_kernel_def)
  then show "Buffer (ms' ! 1) = [sb_out b']"
    by (cases rule: sb_ioctl_cases) (auto simp: sb_message_def Let_def i2cRead_def split: prod.splits)
qed (auto simp: speaker_kernel_def updS_def interfere_facts)

subsection \<open>Properties\<close>

text \<open>(C2) Whatever sequence of mute requests, cancelled or not, runs after a successful start, with any bus
  faults and any writes of the other process outside the mute bits in between: every value this
  service ever wrote to the shared output register leaves the amplifier muted or the DAC driving
  it, and differs from the value it replaced in bits 1 to 4 at most, so the DSP's reset in bit 0
  is never touched; the service's two flags tell the register's mute bits.\<close>

theorem outputs_never_thump:
  assumes "i2c_chip K out written locked" and "outputs_run (linuxI2C K) out written w c"
  shows "(\<exists>ps. written (c_world c) = written w @ ps \<and>
      (\<forall>(v, v') \<in> set ps. (bit v' 1 \<or> bit v' 2) \<and> (\<forall>n. n \<notin> {1, 2, 3, 4} \<longrightarrow> bit v' n = bit v n)))
    \<and> c_ampMuted c = bit (out (c_world c)) 1 \<and> c_dacMuted c = (\<not> bit (out (c_world c)) 2)
    \<and> (c_ampMuted c \<or> \<not> c_dacMuted c)"
  using output_bus.run_facts [OF i2c_chip.chip_bus [OF assms(1)] assms(2)] by blast

theorem outputs_never_thump_witness:
  "\<exists>c :: speaker_bus controller. sb_written (c_world c) \<noteq> [] \<and> \<not> c_ampMuted c \<and> bit (sb_out (c_world c)) 2"
proof -
  let ?w = "new_speaker_bus 0 [Some EAGAIN] [0xff, 0]"
  let ?hw = "linuxI2C speaker_kernel"
  let ?c = "snd (initialize ?hw (newController ?w))"
  have "fst (initialize ?hw (newController ?w)) = Inr ()" by code_simp
  then have "initialize ?hw (newController ?w) = (Inr (), ?c)" by (simp add: prod_eq_iff)
  then have "outputs_run ?hw sb_out sb_written ?w ?c" by (rule run_start)
  then have run: "outputs_run ?hw sb_out sb_written ?w (snd (OpenOutputs ?hw ?c))"
    using run_operation [of ?hw sb_out sb_written ?w ?c OpenOutputsOp "fst (OpenOutputs ?hw ?c)"] by simp
  define d where "d = snd (OpenOutputs ?hw ?c)"
  have amp: "\<not> c_ampMuted d" and six: "length (sb_written (c_world d)) = 6"
    unfolding d_def by code_simp+
  from outputs_never_thump [OF speaker.i2c_chip_axioms run [folded d_def]] amp
  have "bit (sb_out (c_world d)) 2" by auto
  moreover from six have "sb_written (c_world d) \<noteq> []" by auto
  ultimately show ?thesis using amp by blast
qed

end
