(* ===== verification/Go_Text.thy ===== *)
theory Go_Text
  imports Prelude
begin

text \<open>
  The functions on text of Go's standard library that the services use. A Go string, like a
  byte slice holding text, is a list of characters, one for each byte; where a function of Go
  looks at runes it is defined on their UTF-8 encodings.
\<close>

abbreviation code :: "char \<Rightarrow> nat" where
  "code c \<equiv> of_char c"

definition newline :: char where "newline = CHR 0x0A"

type_synonym 'a outcome = "go_error + 'a"

subsection \<open>Splitting\<close>

text \<open>\<^verbatim>\<open>strings.Split\<close> by one character.\<close>

fun split_on :: "char \<Rightarrow> string \<Rightarrow> string list" where
  "split_on sep [] = [[]]"
| "split_on sep (c # cs) = (case split_on sep cs of
     [] \<Rightarrow> [[c]]
   | w # ws \<Rightarrow> if c = sep then [] # w # ws else (c # w) # ws)"

text \<open>\<^verbatim>\<open>strings.Cut\<close> by one character: the parts before and after its first occurrence.\<close>

fun Cut :: "char \<Rightarrow> string \<Rightarrow> (string \<times> string) option" where
  "Cut sep [] = None"
| "Cut sep (c # cs) = (if c = sep then Some ([], cs)
     else map_option (\<lambda>(a, b). (c # a, b)) (Cut sep cs))"

definition HasPrefix :: "string \<Rightarrow> string \<Rightarrow> bool" where
  "HasPrefix s p \<longleftrightarrow> take (length p) s = p"

definition HasSuffix :: "string \<Rightarrow> string \<Rightarrow> bool" where
  "HasSuffix s p \<longleftrightarrow> length p \<le> length s \<and> drop (length s - length p) s = p"

definition TrimPrefix :: "string \<Rightarrow> string \<Rightarrow> string" where
  "TrimPrefix s p = (if HasPrefix s p then drop (length p) s else s)"

definition TrimSuffix :: "string \<Rightarrow> string \<Rightarrow> string" where
  "TrimSuffix s p = (if HasSuffix s p then take (length s - length p) s else s)"

text \<open>\<^verbatim>\<open>strings.Contains\<close>.\<close>

fun Contains :: "string \<Rightarrow> string \<Rightarrow> bool" where
  "Contains [] p = (p = [])"
| "Contains (c # cs) p = (HasPrefix (c # cs) p \<or> Contains cs p)"

subsection \<open>White space\<close>

text \<open>The encodings of the runes that \<^verbatim>\<open>unicode.IsSpace\<close> accepts.\<close>

definition space_runes :: "string list" where
  "space_runes =
     [[CHR 0x09], [CHR 0x0A], [CHR 0x0B], [CHR 0x0C], [CHR 0x0D], '' '',
      [CHR 0xC2, CHR 0x85], [CHR 0xC2, CHR 0xA0], [CHR 0xE1, CHR 0x9A, CHR 0x80],
      [CHR 0xE2, CHR 0x80, CHR 0x80], [CHR 0xE2, CHR 0x80, CHR 0x81], [CHR 0xE2, CHR 0x80, CHR 0x82],
      [CHR 0xE2, CHR 0x80, CHR 0x83], [CHR 0xE2, CHR 0x80, CHR 0x84], [CHR 0xE2, CHR 0x80, CHR 0x85],
      [CHR 0xE2, CHR 0x80, CHR 0x86], [CHR 0xE2, CHR 0x80, CHR 0x87], [CHR 0xE2, CHR 0x80, CHR 0x88],
      [CHR 0xE2, CHR 0x80, CHR 0x89], [CHR 0xE2, CHR 0x80, CHR 0x8A], [CHR 0xE2, CHR 0x80, CHR 0xA8],
      [CHR 0xE2, CHR 0x80, CHR 0xA9], [CHR 0xE2, CHR 0x80, CHR 0xAF], [CHR 0xE2, CHR 0x81, CHR 0x9F],
      [CHR 0xE3, CHR 0x80, CHR 0x80]]"

text \<open>\<open>k\<close> bounds the number of runes removed; the length of the text is enough.\<close>

fun trim_left :: "string list \<Rightarrow> nat \<Rightarrow> string \<Rightarrow> string" where
  "trim_left rs 0 s = s"
| "trim_left rs (Suc k) s = (case List.find (HasPrefix s) rs of
     None \<Rightarrow> s
   | Some r \<Rightarrow> trim_left rs k (drop (length r) s))"

definition TrimSpace :: "string \<Rightarrow> string" where
  "TrimSpace s = (let t = trim_left space_runes (length s) s in
     rev (trim_left (List.map rev space_runes) (length t) (rev t)))"

text \<open>\<^verbatim>\<open>strings.Fields\<close>, on text whose white space is ASCII.\<close>

definition is_space :: "char \<Rightarrow> bool" where
  "is_space c \<longleftrightarrow> [c] \<in> set space_runes"

fun Fields :: "string \<Rightarrow> string list" where
  "Fields [] = []"
| "Fields (c # cs) = (
     if is_space c then Fields cs
     else (case cs of
       [] \<Rightarrow> [[c]]
     | d # ds \<Rightarrow> if is_space d then [c] # Fields cs
         else (case Fields cs of [] \<Rightarrow> [[c]] | w # ws \<Rightarrow> (c # w) # ws)))"

definition ToLower :: "string \<Rightarrow> string" where
  "ToLower s = List.map (\<lambda>c. if 65 \<le> code c \<and> code c \<le> 90 then char_of (code c + 32) else c) s"

subsection \<open>Numbers\<close>

definition is_digit :: "char \<Rightarrow> bool" where
  "is_digit c \<longleftrightarrow> 48 \<le> code c \<and> code c \<le> 57"

definition digits_value :: "string \<Rightarrow> nat" where
  "digits_value s = foldl (\<lambda>n c. 10 * n + (code c - 48)) 0 s"

text \<open>
  \<^verbatim>\<open>strconv.Atoi\<close> up to its range check: an optional sign and at least one digit. Every use
  compares the value with a small bound, so a value out of Go's range is refused as well.
\<close>

definition Atoi :: "string \<Rightarrow> int option" where
  "Atoi s = (case s of
     [] \<Rightarrow> None
   | c # cs \<Rightarrow>
       let ds = (if c = CHR ''-'' \<or> c = CHR ''+'' then cs else s) in
       if ds = [] \<or> \<not> list_all is_digit ds then None
       else Some (if c = CHR ''-'' then - int (digits_value ds) else int (digits_value ds)))"

definition Itoa :: "int \<Rightarrow> string" where
  "Itoa n = (if n < 0 then CHR ''-'' # decimal (nat (- n)) else decimal (nat n))"

text \<open>\<^verbatim>\<open>hex.DecodeString\<close>: the bytes, or none for an odd length or a character that is no digit.\<close>

definition hex_value :: "char \<Rightarrow> nat option" where
  "hex_value c = (
     if is_digit c then Some (code c - 48)
     else if 97 \<le> code c \<and> code c \<le> 102 then Some (code c - 87)
     else if 65 \<le> code c \<and> code c \<le> 70 then Some (code c - 55)
     else None)"

definition is_hex :: "char \<Rightarrow> bool" where
  "is_hex c \<longleftrightarrow> hex_value c \<noteq> None"

fun hex_decode :: "string \<Rightarrow> byte list option" where
  "hex_decode [] = Some []"
| "hex_decode [c] = None"
| "hex_decode (c # d # cs) = (case (hex_value c, hex_value d, hex_decode cs) of
     (Some a, Some b, Some bs) \<Rightarrow> Some (of_nat (16 * a + b) # bs)
   | _ \<Rightarrow> None)"

definition hex_char :: "nat \<Rightarrow> char" where
  "hex_char n = char_of (if n < 10 then 48 + n else 87 + n)"

definition hex_encode :: "byte list \<Rightarrow> string" where
  "hex_encode bs = concat (List.map (\<lambda>b. [hex_char (unat b div 16), hex_char (unat b mod 16)]) bs)"

subsection \<open>UTF-8\<close>

text \<open>\<^verbatim>\<open>utf8.Valid\<close>: no overlong form, no surrogate, nothing beyond U+10FFFF.\<close>

definition continuation :: "char \<Rightarrow> bool" where
  "continuation c \<longleftrightarrow> 0x80 \<le> code c \<and> code c \<le> 0xBF"

fun utf8_valid :: "string \<Rightarrow> bool" where
  "utf8_valid [] = True"
| "utf8_valid (a # s) = (
     if code a < 0x80 then utf8_valid s
     else (case s of
       [] \<Rightarrow> False
     | b # s1 \<Rightarrow>
       if 0xC2 \<le> code a \<and> code a \<le> 0xDF then continuation b \<and> utf8_valid s1
       else (case s1 of
         [] \<Rightarrow> False
       | c # s2 \<Rightarrow>
         if 0xE0 \<le> code a \<and> code a \<le> 0xEF then
           continuation b \<and> (code a = 0xE0 \<longrightarrow> 0xA0 \<le> code b) \<and> (code a = 0xED \<longrightarrow> code b \<le> 0x9F) \<and>
           continuation c \<and> utf8_valid s2
         else (case s2 of
           [] \<Rightarrow> False
         | d # s3 \<Rightarrow>
             0xF0 \<le> code a \<and> code a \<le> 0xF4 \<and> continuation b \<and> (code a = 0xF0 \<longrightarrow> 0x90 \<le> code b) \<and>
             (code a = 0xF4 \<longrightarrow> code b \<le> 0x8F) \<and> continuation c \<and> continuation d \<and> utf8_valid s3))))"

end
