(* ===== verification/Mcu_Volume.thy ===== *)
theory Mcu_Volume
  imports Complex_Main Go_Text "HOL-Library.AList"
begin

text \<open>
  The volume of the speaker (\<^verbatim>\<open>tools/mcu-interface/volume.go\<close> and the state file of
  \<^verbatim>\<open>music_state.go\<close>): the dial's level, mute and duck requests behind one mutex, the curve that
  maps the dial to a gain of the DSP, and the worker that keeps the DSP at the level. Every
  operation holds the mutex from start to end, so the operations are atomic; the worker takes
  it for single reads only, and its loop is a step relation.
\<close>

subsection \<open>State\<close>

datatype duckState = duckNone | duckSoft | duckHard

text \<open>Go's \<^verbatim>\<open>int\<close> on the device's 32-bit processor.\<close>

definition go_int :: "int \<Rightarrow> int" where
  "go_int n = (n + 2 ^ 31) mod 2 ^ 32 - 2 ^ 31"

text \<open>Ducks are compared by strength, in the order of their declaration.\<close>

fun duck_rank :: "duckState \<Rightarrow> nat" where
  "duck_rank duckNone = 0"
| "duck_rank duckSoft = 1"
| "duck_rank duckHard = 2"

lemma duck_rank_inject: "duck_rank a = duck_rank b \<longleftrightarrow> a = b"
  by (cases a; cases b) simp_all

instantiation duckState :: linorder
begin

definition less_eq_duckState :: "duckState \<Rightarrow> duckState \<Rightarrow> bool" where
  "less_eq_duckState a b \<longleftrightarrow> duck_rank a \<le> duck_rank b"

definition less_duckState :: "duckState \<Rightarrow> duckState \<Rightarrow> bool" where
  "less_duckState a b \<longleftrightarrow> duck_rank a < duck_rank b"

instance
proof
  show "a \<le> b \<Longrightarrow> b \<le> a \<Longrightarrow> a = b" for a b :: duckState
    by (metis duck_rank_inject le_antisym less_eq_duckState_def)
qed (auto simp: less_eq_duckState_def less_duckState_def)

end

fun duckScale :: "duckState \<Rightarrow> int" where
  "duckScale duckNone = 100"
| "duckScale duckSoft = 40"
| "duckScale duckHard = 10"

definition parseDuckState :: "string \<Rightarrow> go_error + duckState" where
  "parseDuckState name = (let s = ToLower (TrimSpace name) in
     if s \<in> {'''', ''none'', ''off''} then Inr duckNone
     else if s = ''soft'' then Inr duckSoft
     else if s = ''hard'' then Inr duckHard
     else Inl (Errorf ''unknown duck state''))"

fun duckString :: "duckState \<Rightarrow> string" where
  "duckString duckSoft = ''soft''"
| "duckString duckHard = ''hard''"
| "duckString duckNone = ''none''"

record volumeSnapshot =
  snap_Volume :: int
  snap_Muted :: bool
  snap_Duck :: string

text \<open>
  \<open>v_notify\<close> says that the one entry of the wake-up channel is taken; the nil map of ducks is
  the empty list. \<open>v_world\<close> is everything outside.
\<close>

record 'w volume_ctl =
  v_volume :: int
  v_muted :: bool
  v_ducks :: "(string \<times> duckState) list"
  v_notify :: bool
  v_savedVolume :: int
  v_hasSavedVolume :: bool
  v_applied :: bool
  v_world :: 'w

text \<open>
  What the controller is wired to: the state file (\<^verbatim>\<open>None\<close> when no path is set), the cue for the
  top of the range, the sender of a level to the DSP, the ring of lights, the softvol control
  (its reader and writer), the cancellation of the service and the pause of a fade, which
  returns the context's error when it is cancelled meanwhile.
\<close>

record 'w vol_env =
  ve_persist :: "(int \<Rightarrow> ('w, unit) act) option"
  ve_atMax :: "('w \<Rightarrow> 'w) option"
  ve_push :: "int \<Rightarrow> ('w, unit) act"
  ve_ring :: "(int \<Rightarrow> ('w, unit) act) option"
  ve_softvol :: "(('w, int) act \<times> (int \<Rightarrow> ('w, unit) act)) option"
  ve_ctx :: "'w \<Rightarrow> go_error option"
  ve_pause :: "nat \<Rightarrow> ('w, unit) act"

definition defaultVolume :: int where "defaultVolume = 40"
definition maxVolume :: int where "maxVolume = 100"
definition volumeFadeInterval :: nat where "volumeFadeInterval = 20"
definition volumeFadeStep :: int where "volumeFadeStep = 6"

definition newDSPVolumeController :: "string \<Rightarrow> 'w \<Rightarrow> go_error + 'w volume_ctl" where
  "newDSPVolumeController socket w = (
     if socket = '''' then Inl (Errorf ''DSP control socket is required for volume'')
     else Inr \<lparr>v_volume = defaultVolume, v_muted = False, v_ducks = [], v_notify = False,
       v_savedVolume = 0, v_hasSavedVolume = False, v_applied = False, v_world = w\<rparr>)"

definition in_world :: "('w, 'a) act \<Rightarrow> ('w volume_ctl, 'a) act" where
  "in_world m c = (case m (v_world c) of (r, w) \<Rightarrow> (r, c\<lparr>v_world := w\<rparr>))"

subsection \<open>Operations\<close>

definition clampVolume :: "int \<Rightarrow> int" where
  "clampVolume percent = (if percent < 0 then 0 else if percent > 100 then 100 else percent)"

definition rememberMusicVolume :: "'w vol_env \<Rightarrow> int \<Rightarrow> ('w volume_ctl, unit) act" where
  "rememberMusicVolume E percent = (case ve_persist E of
     None \<Rightarrow> ret ()
   | Some persist \<Rightarrow>
       seqE (maskE ''music volume RAM state write failed'' (in_world (persist percent)))
         (updS (\<lambda>c. c\<lparr>v_savedVolume := percent, v_hasSavedVolume := True\<rparr>)))"

definition requestPush :: "('w volume_ctl, unit) act" where
  "requestPush = updS (\<lambda>c. c\<lparr>v_notify := True\<rparr>)"

definition applyLocked :: "'w vol_env \<Rightarrow> ('w volume_ctl, unit) act" where
  "applyLocked E = bindE (readS v_volume) (\<lambda>volume.
     tryE (rememberMusicVolume E volume) (\<lambda>err. seqE requestPush (liftE err)))"

definition strongestDuck :: "'w volume_ctl \<Rightarrow> duckState" where
  "strongestDuck c = fold (\<lambda>state strongest. if state > strongest then state else strongest)
     (List.map snd (v_ducks c)) duckNone"

definition effectiveLevel :: "'w volume_ctl \<Rightarrow> int" where
  "effectiveLevel c = (if v_muted c then 0 else v_volume c * duckScale (strongestDuck c) div 100)"

definition displayLevel :: "'w volume_ctl \<Rightarrow> int" where
  "displayLevel c = (if v_muted c then 0 else v_volume c)"

definition vol_snapshot :: "'w volume_ctl \<Rightarrow> volumeSnapshot" where
  "vol_snapshot c = \<lparr>snap_Volume = v_volume c, snap_Muted = v_muted c, snap_Duck = duckString (strongestDuck c)\<rparr>"

definition apply_snapshot :: "'w vol_env \<Rightarrow> ('w volume_ctl, volumeSnapshot) act" where
  "apply_snapshot E = seqE (applyLocked E) (readS vol_snapshot)"

definition Snapshot :: "('w volume_ctl, volumeSnapshot) act" where
  "Snapshot = readS vol_snapshot"

definition SetVolume :: "'w vol_env \<Rightarrow> int \<Rightarrow> ('w volume_ctl, volumeSnapshot) act" where
  "SetVolume E percent = seqE (updS (\<lambda>c. c\<lparr>v_volume := clampVolume percent\<rparr>)) (apply_snapshot E)"

definition AdjustVolume :: "'w vol_env \<Rightarrow> int \<Rightarrow> ('w volume_ctl, volumeSnapshot) act" where
  "AdjustVolume E delta =
     bindE (readS v_volume) (\<lambda>was.
     seqE (updS (\<lambda>c. c\<lparr>v_volume := clampVolume (go_int (v_volume c + delta))\<rparr>))
    (bindE (readS v_volume) (\<lambda>volume.
     seqE (case ve_atMax E of
             Some atMax \<Rightarrow> if volume = maxVolume \<and> was \<noteq> maxVolume then in_world (updS atMax) else ret ()
           | None \<Rightarrow> ret ())
       (apply_snapshot E))))"

definition SetMuted :: "'w vol_env \<Rightarrow> bool \<Rightarrow> ('w volume_ctl, volumeSnapshot) act" where
  "SetMuted E muted = seqE (updS (\<lambda>c. c\<lparr>v_muted := muted\<rparr>)) (apply_snapshot E)"

definition ToggleMuted :: "'w vol_env \<Rightarrow> ('w volume_ctl, volumeSnapshot) act" where
  "ToggleMuted E = seqE (updS (\<lambda>c. c\<lparr>v_muted := \<not> v_muted c\<rparr>)) (apply_snapshot E)"

definition SetDuck :: "'w vol_env \<Rightarrow> string \<Rightarrow> duckState \<Rightarrow> ('w volume_ctl, volumeSnapshot) act" where
  "SetDuck E name state = (let name = TrimSpace name in
     if name = '''' then fail (Errorf ''duck name is required'')
     else seqE (updS (\<lambda>c. c\<lparr>v_ducks := if state = duckNone then AList.delete name (v_ducks c)
                                  else AList.update name state (v_ducks c)\<rparr>))
            (apply_snapshot E))"

text \<open>
  The rotary control. \<open>atoi\<close> is \<^verbatim>\<open>strconv.Atoi\<close> of the event's step, \<open>None\<close> for an error.
\<close>

definition vol_Apply :: "'w vol_env \<Rightarrow> string \<Rightarrow> int option \<Rightarrow> ('w volume_ctl, unit) act" where
  "vol_Apply E name atoi = (
     if name \<noteq> ''volumeup'' \<and> name \<noteq> ''volumedown'' then ret ()
     else (case atoi of
       None \<Rightarrow> fail (Errorf ''invalid rotary step'')
     | Some delta \<Rightarrow>
         if delta < 1 \<or> delta > 100 then fail (Errorf ''invalid rotary step'')
         else seqE (AdjustVolume E (if name = ''volumedown'' then - delta else delta)) (ret ())))"

subsection \<open>The curve\<close>

text \<open>
  The curve of the dial, with Go's floating-point numbers read as reals; \<open>math_Round\<close> rounds
  halves away from zero. The level is 38 dB below the loudest gain at the bottom of the dial.
\<close>

definition dspMaxByte :: real where "dspMaxByte = 90"

definition math_Round :: "real \<Rightarrow> int" where
  "math_Round x = (if 0 \<le> x then \<lfloor>x + 1 / 2\<rfloor> else \<lceil>x - 1 / 2\<rceil>)"

definition dial_amplitude :: "int \<Rightarrow> real" where
  "dial_amplitude percent = 10 powr ((- 38 + 38 * of_int percent / 100) / 20)"

definition dspByteForPercent :: "int \<Rightarrow> int" where
  "dspByteForPercent percent = (
     if percent \<le> 0 then 0
     else let p = (if percent > 100 then 100 else percent);
              level = math_Round (dial_amplitude p * dspMaxByte)
          in if level < 1 then 1 else level)"

definition dialAmplitude :: "int \<Rightarrow> real" where
  "dialAmplitude percent = (
     if percent \<le> 0 then 0 else dial_amplitude (if percent > 100 then 100 else percent))"

text \<open>The softvol control's value between two gains of the DSP: 255 steps over 51 dB.\<close>

definition softvolMax :: int where "softvolMax = 255"
definition softvolRangeDB :: real where "softvolRangeDB = 51"

definition softvolForPercent :: "int \<Rightarrow> int" where
  "softvolForPercent percent = (
     if percent \<le> 0 then 0
     else let wanted = dialAmplitude percent * dspMaxByte; byteSent = of_int (dspByteForPercent percent) in
       if byteSent \<le> 0 \<or> wanted \<le> 0 then softvolMax
       else if byteSent \<le> wanted then softvolMax
       else let trimDB = 20 * log 10 (wanted / byteSent);
                trimDB = (if trimDB < - softvolRangeDB then - softvolRangeDB else trimDB);
                v = math_Round ((softvolRangeDB + trimDB) * of_int softvolMax / softvolRangeDB)
            in if (if v < 0 then 0 else v) > softvolMax then softvolMax else (if v < 0 then 0 else v))"

lemma dial_amplitude_mono: "p \<le> q \<Longrightarrow> dial_amplitude p \<le> dial_amplitude q"
  by (simp add: dial_amplitude_def)

lemma dial_amplitude_pos: "0 < dial_amplitude p"
  by (simp add: dial_amplitude_def)

lemma dial_amplitude_top: "dial_amplitude 100 = 1"
  by (simp add: dial_amplitude_def)

lemma math_Round_mono: "x \<le> y \<Longrightarrow> math_Round x \<le> math_Round y"
proof -
  assume le: "x \<le> y"
  show ?thesis
  proof (cases "0 \<le> x \<longleftrightarrow> 0 \<le> y")
    case True
    with le show ?thesis by (auto simp: math_Round_def intro: floor_mono ceiling_mono)
  next
    case False
    with le have "x < 0" "0 \<le> y" by auto
    then have "\<lceil>x - 1 / 2\<rceil> \<le> 0" "0 \<le> \<lfloor>y + 1 / 2\<rfloor>" by (auto simp: ceiling_le_iff)
    then have "\<lceil>x - 1 / 2\<rceil> \<le> \<lfloor>y + 1 / 2\<rfloor>" by (rule order_trans)
    with \<open>x < 0\<close> \<open>0 \<le> y\<close> show ?thesis by (simp add: math_Round_def)
  qed
qed

lemma math_Round_of_int [simp]: "math_Round (of_int n) = n"
  by (simp add: math_Round_def floor_eq_iff ceiling_eq_iff)

text \<open>The comfortable level, dial 34, is 25.08 dB below the top: between 4.5 and 5.5 parts of 90.\<close>

lemma dial_34: "4.5 \<le> dial_amplitude 34 * 90" "dial_amplitude 34 * 90 < 5.5"
proof -
  have exponent: "dial_amplitude 34 = 10 powr (- 1.254)" by (simp add: dial_amplitude_def)
  have lower: "(1 / 20 :: real) ^ 10 \<le> (10 powr (- 1.3)) ^ (10 :: nat)"
    by (simp add: powr_power powr_minus_divide powr_numeral power_divide)
  then have "1 / 20 \<le> 10 powr (- 1.3 :: real)"
    using power_mono_iff [of "1 / 20" "10 powr (- 1.3 :: real)" 10] by simp
  also have "\<dots> \<le> dial_amplitude 34" by (simp add: exponent)
  finally show "4.5 \<le> dial_amplitude 34 * 90" by simp
  have "(10 powr (- 1.25)) ^ (4 :: nat) < (11 / 180 :: real) ^ 4"
    by (simp add: powr_power powr_minus_divide powr_numeral power_divide)
  then have "10 powr (- 1.25 :: real) < 11 / 180"
    using power_less_imp_less_base by fastforce
  moreover have "dial_amplitude 34 \<le> 10 powr (- 1.25)" by (simp add: exponent)
  ultimately show "dial_amplitude 34 * 90 < 5.5" by simp
qed

text \<open>(C22) The curve: a dial at zero is silent, any other position sends a gain from 1 to 90, turning the dial
  up never lowers the gain, and it meets its two measured points, gain 5 at 34 and 90 at 100.\<close>

theorem dial_curve:
  "(\<forall>p. 0 \<le> dspByteForPercent p \<and> dspByteForPercent p \<le> 90 \<and> (dspByteForPercent p = 0 \<longleftrightarrow> p \<le> 0))
   \<and> mono dspByteForPercent \<and> dspByteForPercent 34 = 5 \<and> dspByteForPercent 100 = 90"
proof -
  have upper: "math_Round (dial_amplitude p * dspMaxByte) \<le> 90" if "p \<le> 100" for p
    using math_Round_mono [of "dial_amplitude p * dspMaxByte" "of_int 90"] dial_amplitude_mono [OF that]
    unfolding math_Round_of_int by (simp add: dspMaxByte_def dial_amplitude_top)
  have range: "0 \<le> dspByteForPercent p \<and> dspByteForPercent p \<le> 90 \<and> (dspByteForPercent p = 0 \<longleftrightarrow> p \<le> 0)" for p
    using upper by (simp add: dspByteForPercent_def Let_def)
  have "dspByteForPercent p \<le> dspByteForPercent q" if "p \<le> q" for p q
  proof (cases "p \<le> 0")
    case True
    then show ?thesis using range [of q] by (simp add: dspByteForPercent_def)
  next
    case False
    define r where "r x = (if x > 100 then 100 else x :: int)" for x
    have "math_Round (dial_amplitude (r p) * dspMaxByte) \<le> math_Round (dial_amplitude (r q) * dspMaxByte)"
      using that by (intro math_Round_mono mult_right_mono dial_amplitude_mono) (auto simp: r_def dspMaxByte_def)
    with False that show ?thesis by (simp add: dspByteForPercent_def Let_def r_def)
  qed
  then have "mono dspByteForPercent" by (rule monoI)
  moreover have "math_Round (dial_amplitude 34 * 90) = 5"
    using dial_34 by (simp add: math_Round_def floor_eq_iff)
  moreover have "math_Round (dial_amplitude 100 * 90) = 90"
    using math_Round_of_int [of 90] by (simp add: dial_amplitude_top)
  ultimately show ?thesis
    using range by (simp add: dspByteForPercent_def Let_def dspMaxByte_def)
qed

end
