(* ===== verification/Mcu_Volume_Run.thy ===== *)
theory Mcu_Volume_Run
  imports Mcu_Volume
begin

text \<open>
  The worker of \<^verbatim>\<open>tools/mcu-interface/volume.go\<close>: the fade of the softvol control, the loop that
  pushes the level to the DSP, and its interleaving with the operations. The loop is cut where
  it takes or releases the mutex or waits; an operation can run between any two of its steps.
\<close>

subsection \<open>The fade\<close>

definition fade_next :: "int \<Rightarrow> int \<Rightarrow> int" where
  "fade_next current target = (
     if current < target then (let n = current + volumeFadeStep in if n > target then target else n)
     else (let n = current - volumeFadeStep in if n < target then target else n))"

lemma fade_next_closer: "current \<noteq> target \<Longrightarrow> \<bar>target - fade_next current target\<bar> < \<bar>target - current\<bar>"
  by (auto simp: fade_next_def volumeFadeStep_def Let_def)

function fade_loop :: "'w vol_env \<Rightarrow> (int \<Rightarrow> ('w, unit) act) \<Rightarrow> int \<Rightarrow> int \<Rightarrow> ('w, unit) act" where
  "fade_loop E write current target w = (
     if current = target then (Inr (), w)
     else (case ve_ctx E w of Some err \<Rightarrow> (Inl err, w) | None \<Rightarrow>
       let n = fade_next current target in
       (case write n w of
          (Inl err, w) \<Rightarrow> (Inl err, w)
        | (Inr _, w) \<Rightarrow>
            if n = target then (Inr (), w)
            else (case ve_pause E volumeFadeInterval w of
                    (Inl err, w) \<Rightarrow> (Inl err, w)
                  | (Inr _, w) \<Rightarrow> fade_loop E write n target w))))"
  by pat_completeness auto
termination
  by (relation "measure (\<lambda>(E, write, current, target, w). nat \<bar>target - current\<bar>)")
     (use fade_next_closer in fastforce)+

declare fade_loop.simps [simp del]

definition fadeToTarget :: "'w vol_env \<Rightarrow> int \<Rightarrow> ('w, unit) act" where
  "fadeToTarget E target = (case ve_softvol E of
     None \<Rightarrow> ret ()
   | Some (read, write) \<Rightarrow> bindE read (\<lambda>current. fade_loop E write current target))"

text \<open>The values of an undisturbed fade.\<close>

function fade_values :: "int \<Rightarrow> int \<Rightarrow> int list" where
  "fade_values current target =
     (if current = target then [] else fade_next current target # fade_values (fade_next current target) target)"
  by pat_completeness auto
termination
  by (relation "measure (\<lambda>(current, target). nat \<bar>target - current\<bar>)") (use fade_next_closer in fastforce)+

declare fade_values.simps [simp del]

subsection \<open>The worker\<close>

text \<open>
  \<open>NotStarted\<close> and \<open>Starting\<close> are the two steps before the loop; \<open>Selecting\<close> waits in the
  \<^verbatim>\<open>select\<close>; \<open>Woken\<close> has been woken and has not read the level; \<open>Sending level\<close> holds a level it
  read; \<open>Sent\<close> has been accepted by the DSP. \<open>vw_retry\<close> says that a retry timer is armed.
\<close>

datatype run_phase = NotStarted | Starting | Selecting | Woken | Sending int | Sent | Stopped

record 'w vol_system =
  vs_ctl :: "'w volume_ctl"
  vs_phase :: run_phase
  vs_retry :: bool
  vs_drawn :: int
  vs_pending :: nat

definition vs_world :: "'w vol_system \<Rightarrow> 'w" where
  "vs_world s = v_world (vs_ctl s)"

definition vs_run :: "('w volume_ctl, 'a) act \<Rightarrow> 'w vol_system \<Rightarrow> (go_error + 'a) \<times> 'w vol_system" where
  "vs_run m s = (case m (vs_ctl s) of (r, c) \<Rightarrow> (r, s\<lparr>vs_ctl := c\<rparr>))"

definition new_system :: "'w volume_ctl \<Rightarrow> 'w vol_system" where
  "new_system c = \<lparr>vs_ctl = c, vs_phase = NotStarted, vs_retry = False, vs_drawn = 0, vs_pending = 0\<rparr>"

definition run_begin :: "'w vol_system \<Rightarrow> 'w vol_system" where
  "run_begin s = s\<lparr>vs_ctl := snd (requestPush (vs_ctl s)), vs_phase := Starting\<rparr>"

definition run_seed :: "'w vol_system \<Rightarrow> 'w vol_system" where
  "run_seed s = s\<lparr>vs_drawn := displayLevel (vs_ctl s), vs_phase := Selecting\<rparr>"

definition run_notified :: "'w vol_system \<Rightarrow> 'w vol_system" where
  "run_notified s = s\<lparr>vs_ctl := (vs_ctl s)\<lparr>v_notify := False\<rparr>, vs_phase := Woken\<rparr>"

definition run_retried :: "'w vol_system \<Rightarrow> 'w vol_system" where
  "run_retried s = s\<lparr>vs_retry := False, vs_phase := Woken\<rparr>"

definition run_read :: "'w vol_env \<Rightarrow> 'w vol_system \<Rightarrow> 'w vol_system" where
  "run_read E s = (
     if ve_ctx E (vs_world s) \<noteq> None then s\<lparr>vs_phase := Stopped\<rparr>
     else s\<lparr>vs_retry := False, vs_phase := Sending (effectiveLevel (vs_ctl s))\<rparr>)"

definition run_send :: "'w vol_env \<Rightarrow> int \<Rightarrow> 'w vol_system \<Rightarrow> 'w vol_system" where
  "run_send E level s = (case vs_run (in_world (fadeToTarget E (softvolForPercent level))) s of (faded, s) \<Rightarrow>
     if (\<exists>err. faded = Inl err) \<and> ve_ctx E (vs_world s) \<noteq> None then s\<lparr>vs_phase := Stopped\<rparr>
     else (case vs_run (in_world (ve_push E level)) s of
       (Inr _, s) \<Rightarrow> s\<lparr>vs_phase := Sent\<rparr>
     | (Inl _, s) \<Rightarrow>
         if ve_ctx E (vs_world s) \<noteq> None then s\<lparr>vs_phase := Stopped\<rparr>
         else s\<lparr>vs_pending := vs_pending s + 1, vs_retry := True, vs_phase := Selecting\<rparr>))"

definition run_draw :: "'w vol_env \<Rightarrow> 'w vol_system \<Rightarrow> 'w vol_system" where
  "run_draw E s = (let shown = displayLevel (vs_ctl s);
       s = (if shown = vs_drawn s then s
            else (case ve_ring E of None \<Rightarrow> s | Some ring \<Rightarrow> snd (vs_run (in_world (ring shown)) s))\<lparr>vs_drawn := shown\<rparr>)
     in s\<lparr>vs_ctl := (vs_ctl s)\<lparr>v_applied := True\<rparr>, vs_pending := 0, vs_phase := Selecting\<rparr>)"

text \<open>
  The worker's step relation. In the \<^verbatim>\<open>select\<close> any ready branch may be taken.
\<close>

inductive worker_step :: "'w vol_env \<Rightarrow> 'w vol_system \<Rightarrow> 'w vol_system \<Rightarrow> bool" for E where
  w_begin: "vs_phase s = NotStarted \<Longrightarrow> worker_step E s (run_begin s)"
| w_seed: "vs_phase s = Starting \<Longrightarrow> worker_step E s (run_seed s)"
| w_done: "vs_phase s = Selecting \<Longrightarrow> ve_ctx E (vs_world s) \<noteq> None \<Longrightarrow> worker_step E s (s\<lparr>vs_phase := Stopped\<rparr>)"
| w_notified: "vs_phase s = Selecting \<Longrightarrow> v_notify (vs_ctl s) \<Longrightarrow> worker_step E s (run_notified s)"
| w_retried: "vs_phase s = Selecting \<Longrightarrow> vs_retry s \<Longrightarrow> worker_step E s (run_retried s)"
| w_read: "vs_phase s = Woken \<Longrightarrow> worker_step E s (run_read E s)"
| w_send: "vs_phase s = Sending level \<Longrightarrow> worker_step E s (run_send E level s)"
| w_draw: "vs_phase s = Sent \<Longrightarrow> worker_step E s (run_draw E s)"

subsection \<open>Operations in between\<close>

datatype vol_op =
    OpSetVolume int
  | OpAdjustVolume int
  | OpSetMuted bool
  | OpToggleMuted
  | OpSetDuck string duckState
  | OpApply string "int option"
  | OpRequestPush

primrec run_vol_op :: "'w vol_env \<Rightarrow> vol_op \<Rightarrow> ('w volume_ctl, unit) act" where
  "run_vol_op E (OpSetVolume percent) = seqE (SetVolume E percent) (ret ())"
| "run_vol_op E (OpAdjustVolume delta) = seqE (AdjustVolume E delta) (ret ())"
| "run_vol_op E (OpSetMuted muted) = seqE (SetMuted E muted) (ret ())"
| "run_vol_op E OpToggleMuted = seqE (ToggleMuted E) (ret ())"
| "run_vol_op E (OpSetDuck name state) = seqE (SetDuck E name state) (ret ())"
| "run_vol_op E (OpApply name step) = vol_Apply E name step"
| "run_vol_op E OpRequestPush = requestPush"

text \<open>
  The system runs from a started controller, whose level is valid; the world may change on its
  own as long as the DSP keeps the level it was given.
\<close>

inductive vol_reach :: "'w vol_env \<Rightarrow> ('w \<Rightarrow> int) \<Rightarrow> 'w vol_system \<Rightarrow> bool" for E dsp where
  vr_start: "0 \<le> v_volume c \<Longrightarrow> v_volume c \<le> 100 \<Longrightarrow> v_ducks c = [] \<Longrightarrow> vol_reach E dsp (new_system c)"
| vr_worker: "vol_reach E dsp s \<Longrightarrow> worker_step E s s' \<Longrightarrow> vol_reach E dsp s'"
| vr_op: "vol_reach E dsp s \<Longrightarrow> vol_reach E dsp (snd (vs_run (run_vol_op E op) s))"
| vr_world: "vol_reach E dsp s \<Longrightarrow> dsp w = dsp (vs_world s) \<Longrightarrow>
    vol_reach E dsp (s\<lparr>vs_ctl := (vs_ctl s)\<lparr>v_world := w\<rparr>\<rparr>)"

subsection \<open>Well-formedness\<close>

text \<open>The level is on the dial, no duck has two entries and none is a request for no duck.\<close>

definition vol_wf :: "'w volume_ctl \<Rightarrow> bool" where
  "vol_wf c \<longleftrightarrow> 0 \<le> v_volume c \<and> v_volume c \<le> 100 \<and> distinct (List.map fst (v_ducks c)) \<and>
     duckNone \<notin> snd ` set (v_ducks c)"

lemma clampVolume_range [simp]: "0 \<le> clampVolume p" "clampVolume p \<le> 100"
  by (simp_all add: clampVolume_def)

lemma vol_wf_update [simp]: "vol_wf (c\<lparr>v_world := w\<rparr>) = vol_wf c" "vol_wf (c\<lparr>v_notify := b\<rparr>) = vol_wf c"
    "vol_wf (c\<lparr>v_applied := b\<rparr>) = vol_wf c" "vol_wf (c\<lparr>v_savedVolume := p, v_hasSavedVolume := h\<rparr>) = vol_wf c"
    "vol_wf (c\<lparr>v_muted := b\<rparr>) = vol_wf c"
  by (simp_all add: vol_wf_def)

lemma duckScale_range: "10 \<le> duckScale d" "duckScale d \<le> 100"
  by (cases d; simp)+

lemma strongest_fold: "fold (\<lambda>s m. if s > m then s else m) ds m = Max (insert m (set ds))" for m :: "'a::linorder"
proof (induction ds arbitrary: m)
  case (Cons d ds)
  have "(if d > m then d else m) = max d m" by (auto simp: max_def)
  then show ?case by (simp add: Cons.IH insert_commute) (cases "ds = []"; simp add: max.left_commute max.commute)
qed simp

lemma strongestDuck_Max: "strongestDuck c = Max (insert duckNone (snd ` set (v_ducks c)))"
  by (simp add: strongestDuck_def strongest_fold)

lemma effectiveLevel_range: "vol_wf c \<Longrightarrow> 0 \<le> effectiveLevel c \<and> effectiveLevel c \<le> displayLevel c"
proof -
  assume c: "vol_wf c"
  let ?s = "duckScale (strongestDuck c)"
  have "v_volume c * ?s \<le> v_volume c * 100" using c duckScale_range(2) by (intro mult_left_mono) (auto simp: vol_wf_def)
  then have "v_volume c * ?s div 100 \<le> v_volume c" by simp
  moreover have "0 \<le> v_volume c * ?s div 100" using c duckScale_range(1) [of "strongestDuck c"]
    by (simp add: vol_wf_def pos_imp_zdiv_nonneg_iff)
  ultimately show ?thesis by (simp add: effectiveLevel_def displayLevel_def)
qed

subsection \<open>What the worker relies on\<close>

text \<open>
  \<open>dsp w\<close> is the level the DSP has: an accepted push sets it, a refused one may or may not have,
  and nothing else of the controller's environment changes it.
\<close>

locale dsp_sink =
  fixes E :: "'w vol_env" and dsp :: "'w \<Rightarrow> int"
  assumes push_level: "ve_push E level w = (Inr (), w') \<Longrightarrow> dsp w' = level"
    and persist_keeps: "ve_persist E = Some persist \<Longrightarrow> same dsp (persist n)"
    and atMax_keeps: "ve_atMax E = Some atMax \<Longrightarrow> dsp (atMax w) = dsp w"
    and ring_keeps: "ve_ring E = Some ring \<Longrightarrow> same dsp (ring n)"
    and softvol_keeps: "ve_softvol E = Some (read, write) \<Longrightarrow> same dsp read \<and> same dsp (write n)"
    and pause_keeps: "same dsp (ve_pause E t)"
begin

definition calm :: "int \<Rightarrow> 'w volume_ctl \<Rightarrow> bool" where
  "calm d c \<longleftrightarrow> dsp (v_world c) = d \<and> vol_wf c"

definition touched :: "int \<Rightarrow> 'w volume_ctl \<Rightarrow> bool" where
  "touched d c \<longleftrightarrow> calm d c \<and> v_notify c"

lemma in_world_calm: "same dsp m \<Longrightarrow> keeps (calm d) (in_world m)"
  by (rule keepsI) (simp add: in_world_def calm_def same_def split_beta)

lemma apply_touched: "triple (calm d) (apply_snapshot E) (\<lambda>_. touched d) (\<lambda>_. touched d)"
proof -
  have r: "keeps (calm d) (rememberMusicVolume E p)" for p
    unfolding rememberMusicVolume_def
    by (cases "ve_persist E")
       (auto intro!: keeps_rules keeps_updS in_world_calm persist_keeps simp: calm_def)
  have p: "triple (calm d) requestPush (\<lambda>_. touched d) (\<lambda>_. touched d)"
    unfolding requestPush_def by (rule triple_updS) (simp add: touched_def calm_def)
  have l: "keeps (touched d) (liftE e)" for e :: "go_error + unit" by (rule keeps_liftE)
  have a: "triple (calm d) (applyLocked E) (\<lambda>_. touched d) (\<lambda>_. touched d)"
    unfolding applyLocked_def
  proof (rule kept_readS)
    fix v
    show "triple (calm d) (tryE (rememberMusicVolume E v) (\<lambda>err. seqE requestPush (liftE err))) (\<lambda>_. touched d) (\<lambda>_. touched d)"
      by (rule kept_tryE [OF r], rule triple_seqE [OF p], rule l)
  qed
  show ?thesis unfolding apply_snapshot_def by (rule triple_seqE [OF a]) (rule keeps_readS)
qed

lemma upd_touched:
  "(\<And>c. calm d c \<Longrightarrow> calm d (g c)) \<Longrightarrow> triple (calm d) (seqE (updS g) (apply_snapshot E)) (\<lambda>_. touched d) (\<lambda>_. touched d)"
  by (rule triple_seqE [OF triple_updS apply_touched])

end

context dsp_sink begin

lemma adjust_touched: "triple (calm d) (AdjustVolume E n) (\<lambda>_. touched d) (\<lambda>_. touched d)"
  unfolding AdjustVolume_def
proof (rule kept_readS, rule triple_seqE, rule triple_updS)
  show "calm d c \<Longrightarrow> calm d (c\<lparr>v_volume := clampVolume (go_int (v_volume c + n))\<rparr>)" for c
    by (simp add: calm_def vol_wf_def)
  fix was
  show "triple (calm d) (bindE (readS v_volume) (\<lambda>volume.
      seqE (case ve_atMax E of
             Some atMax \<Rightarrow> if volume = maxVolume \<and> was \<noteq> maxVolume then in_world (updS atMax) else ret ()
           | None \<Rightarrow> ret ()) (apply_snapshot E))) (\<lambda>_. touched d) (\<lambda>_. touched d)"
  proof (rule kept_readS, rule triple_seqE [OF _ apply_touched])
    fix volume
    have "triple (calm d) (in_world (updS atMax)) (\<lambda>_. calm d) (\<lambda>_. touched d)" if "ve_atMax E = Some atMax" for atMax
      using atMax_keeps [OF that] by (intro tripleI) (auto simp: in_world_def updS_def calm_def)
    then show "triple (calm d) (case ve_atMax E of
             Some atMax \<Rightarrow> if volume = maxVolume \<and> was \<noteq> maxVolume then in_world (updS atMax) else ret ()
           | None \<Rightarrow> ret ()) (\<lambda>_. calm d) (\<lambda>_. touched d)"
      by (cases "ve_atMax E") (auto intro!: triple_ret)
  qed
qed

lemma ducks_wf: "vol_wf c \<Longrightarrow> vol_wf (c\<lparr>v_ducks := if state = duckNone then AList.delete name (v_ducks c)
    else AList.update name state (v_ducks c)\<rparr>)"
proof -
  assume c: "vol_wf c"
  have del: "snd ` set (AList.delete name ds) \<subseteq> snd ` set ds" for ds :: "(string \<times> duckState) list"
    by (induction ds) auto
  have upd: "snd ` set (AList.update name state ds) \<subseteq> insert state (snd ` set ds)" for ds :: "(string \<times> duckState) list"
    by (induction ds) auto
  show ?thesis
  proof (cases "state = duckNone")
    case True
    with c show ?thesis using del [of "v_ducks c"] by (simp add: vol_wf_def distinct_delete) blast
  next
    case False
    with c show ?thesis using upd [of "v_ducks c"] by (simp add: vol_wf_def distinct_update) blast
  qed
qed

text \<open>Every operation leaves the controller as it is or asks for a push.\<close>

lemma op_calm:
  assumes "calm d c"
  shows "snd (run_vol_op E op c) = c \<or> touched d (snd (run_vol_op E op c))"
proof -
  have run: "touched d (snd (seqE m (ret ()) c))"
    if "triple (calm d) m (\<lambda>_. touched d) (\<lambda>_. touched d)" for m :: "('w volume_ctl, volumeSnapshot) act"
  proof -
    have "triple (calm d) (seqE m (ret ())) (\<lambda>_. touched d) (\<lambda>_. touched d)"
      by (rule triple_seqE [OF that]) (rule keeps_ret)
    then show ?thesis using assms
      by (cases "seqE m (ret ()) c") (auto simp: triple_def split: sum.splits dest!: spec [of _ c])
  qed
  show ?thesis
  proof (cases op)
    case (OpSetVolume p)
    then show ?thesis by (simp add: SetVolume_def) (rule disjI2, rule run, rule upd_touched, simp add: calm_def vol_wf_def)
  next
    case (OpAdjustVolume n)
    then show ?thesis by (simp add: run adjust_touched)
  next
    case (OpSetMuted b)
    then show ?thesis by (simp add: SetMuted_def) (rule disjI2, rule run, rule upd_touched, simp add: calm_def)
  next
    case OpToggleMuted
    then show ?thesis by (simp add: ToggleMuted_def) (rule disjI2, rule run, rule upd_touched, simp add: calm_def)
  next
    case (OpSetDuck name state)
    show ?thesis
    proof (cases "TrimSpace name = []")
      case True
      with OpSetDuck show ?thesis by (simp add: SetDuck_def seqE_def bindE_def fail_def)
    next
      case False
      then show ?thesis using OpSetDuck
        by (simp add: SetDuck_def Let_def) (rule disjI2, rule run, rule upd_touched, simp only: calm_def, simp add: ducks_wf)
    qed
  next
    case (OpApply name step)
    then show ?thesis
      by (auto simp: vol_Apply_def fail_def ret_def [of _ c] run adjust_touched split: option.splits)
  next
    case OpRequestPush
    then show ?thesis using assms by (simp add: requestPush_def updS_def touched_def calm_def)
  qed
qed

end

subsection \<open>The worker's promise\<close>

text \<open>
  Unless a wake-up is pending, a retry armed or a level on its way, the DSP has the level the
  controller wants it to have.
\<close>

lemma levels_update [simp]:
  "effectiveLevel (c\<lparr>v_world := w\<rparr>) = effectiveLevel c" "effectiveLevel (c\<lparr>v_notify := b\<rparr>) = effectiveLevel c"
  "effectiveLevel (c\<lparr>v_applied := b\<rparr>) = effectiveLevel c"
  by (simp_all add: effectiveLevel_def strongestDuck_def)

lemma vs_run_in_world: "vs_run (in_world m) s =
    (fst (m (vs_world s)), s\<lparr>vs_ctl := (vs_ctl s)\<lparr>v_world := snd (m (vs_world s))\<rparr>\<rparr>)"
  by (simp add: vs_run_def in_world_def vs_world_def split_beta)

lemma vs_world_simps [simp]: "vs_world (s\<lparr>vs_ctl := c\<rparr>) = v_world c" "vs_world (s\<lparr>vs_phase := p\<rparr>) = vs_world s"
    "vs_world (s\<lparr>vs_retry := b\<rparr>) = vs_world s" "vs_world (s\<lparr>vs_pending := n\<rparr>) = vs_world s"
    "vs_world (s\<lparr>vs_drawn := k\<rparr>) = vs_world s"
  by (simp_all add: vs_world_def)

definition settled_system :: "'w vol_system \<Rightarrow> bool" where
  "settled_system s \<longleftrightarrow> vs_phase s = Selecting \<and> \<not> v_notify (vs_ctl s) \<and> \<not> vs_retry s"

lemma fade_loop_keeps:
  assumes "\<And>n w. f (snd (wr n w)) = f w" "\<And>w. f (snd (ve_pause E volumeFadeInterval w)) = f w"
  shows "f (snd (fade_loop E wr current target w)) = f w"
  using assms
proof (induction E wr current target w rule: fade_loop.induct)
  case (1 E wr current target w)
  show ?case
  proof (cases "current = target \<or> ve_ctx E w \<noteq> None")
    case True
    then show ?thesis by (subst fade_loop.simps) auto
  next
    case False
    let ?n = "fade_next current target"
    obtain r w1 where r: "wr ?n w = (r, w1)" by (rule prod.exhaust)
    obtain q w2 where q: "ve_pause E volumeFadeInterval w1 = (q, w2)" by (rule prod.exhaust)
    have kept: "f w1 = f w" "f w2 = f w" using 1(2) [of ?n w] 1(3) [of w1] r q by simp_all
    show ?thesis
    proof (cases "(\<exists>u. r = Inr u) \<and> ?n \<noteq> target \<and> (\<exists>u. q = Inr u)")
      case True
      then have "f (snd (fade_loop E wr ?n target w2)) = f w2"
        using False r q 1(2,3) by (auto intro!: 1(1))
      then show ?thesis using True False r q kept by (subst fade_loop.simps) (auto simp: Let_def)
    next
      case stop: False
      then show ?thesis using False r q kept
        by (subst fade_loop.simps) (auto simp: Let_def split: sum.splits)
    qed
  qed
qed

context dsp_sink begin

definition promise :: "'w vol_system \<Rightarrow> bool" where
  "promise s \<longleftrightarrow> vol_wf (vs_ctl s) \<and> (v_notify (vs_ctl s) \<or> (case vs_phase s of
       Starting \<Rightarrow> False
     | Selecting \<Rightarrow> vs_retry s \<or> dsp (vs_world s) = effectiveLevel (vs_ctl s)
     | Sending level \<Rightarrow> level = effectiveLevel (vs_ctl s)
     | Sent \<Rightarrow> dsp (vs_world s) = effectiveLevel (vs_ctl s)
     | _ \<Rightarrow> True))"

lemma fade_keeps: "same dsp (fadeToTarget E target)"
proof (cases "ve_softvol E")
  case None
  then show ?thesis by (simp add: fadeToTarget_def same_def ret_def)
next
  case (Some rw)
  obtain rd wr where rw: "rw = (rd, wr)" by (cases rw)
  have w: "dsp (snd (wr n w)) = dsp w" and r: "dsp (snd (rd w)) = dsp w" for n w
    using softvol_keeps [of rd wr] Some rw by (simp_all add: same_def)
  have p: "dsp (snd (ve_pause E t w)) = dsp w" for t w using pause_keeps by (simp add: same_def)
  have loop: "dsp (snd (fade_loop E wr current target w)) = dsp w" for current w
    by (rule fade_loop_keeps) (simp_all add: w p)
  have r': "rd w = (q, w') \<Longrightarrow> dsp w' = dsp w" for w q w' using r [of w] by simp
  show ?thesis
    using Some rw loop by (auto simp: fadeToTarget_def same_def bindE_def split: prod.splits sum.splits dest: r')
qed

end

context dsp_sink begin

lemma send_cases:
  obtains (sent) w where "run_send E level s = s\<lparr>vs_ctl := (vs_ctl s)\<lparr>v_world := w\<rparr>, vs_phase := Sent\<rparr>" "dsp w = level"
  | (stopped) w where "run_send E level s = s\<lparr>vs_ctl := (vs_ctl s)\<lparr>v_world := w\<rparr>, vs_phase := Stopped\<rparr>"
      "ve_ctx E w \<noteq> None"
  | (refused) w e w0 where "run_send E level s = s\<lparr>vs_ctl := (vs_ctl s)\<lparr>v_world := w\<rparr>, vs_phase := Selecting, vs_retry := True,
        vs_pending := vs_pending s + 1\<rparr>" "ve_push E level w0 = (Inl e, w)"
proof -
  obtain f w1 where f: "fadeToTarget E (softvolForPercent level) (vs_world s) = (f, w1)" by (rule prod.exhaust)
  obtain q w2 where q: "ve_push E level w1 = (q, w2)" by (rule prod.exhaust)
  show ?thesis
  proof (cases "(\<exists>err. f = Inl err) \<and> ve_ctx E w1 \<noteq> None")
    case True
    with f have "run_send E level s = s\<lparr>vs_ctl := (vs_ctl s)\<lparr>v_world := w1\<rparr>, vs_phase := Stopped\<rparr>"
      by (simp add: run_send_def vs_run_in_world)
    with True show ?thesis by (intro stopped) auto
  next
    case go: False
    show ?thesis
    proof (cases q)
      case (Inr u)
      with q have "dsp w2 = level" using push_level by simp
      moreover from go Inr f q have "run_send E level s = s\<lparr>vs_ctl := (vs_ctl s)\<lparr>v_world := w2\<rparr>, vs_phase := Sent\<rparr>"
        by (auto simp: run_send_def vs_run_in_world)
      ultimately show ?thesis by (intro sent)
    next
      case (Inl e)
      show ?thesis
      proof (cases "ve_ctx E w2")
        case None
        with go Inl f q have "run_send E level s = s\<lparr>vs_ctl := (vs_ctl s)\<lparr>v_world := w2\<rparr>, vs_phase := Selecting, vs_retry := True,
            vs_pending := vs_pending s + 1\<rparr>"
          by (auto simp: run_send_def vs_run_in_world)
        with q Inl show ?thesis by (intro refused) auto
      next
        case (Some x)
        with go Inl f q have "run_send E level s = s\<lparr>vs_ctl := (vs_ctl s)\<lparr>v_world := w2\<rparr>, vs_phase := Stopped\<rparr>"
          by (auto simp: run_send_def vs_run_in_world)
        with Some show ?thesis by (intro stopped) auto
      qed
    qed
  qed
qed

lemma draw_facts: "dsp (vs_world (run_draw E s)) = dsp (vs_world s)" "vol_wf (vs_ctl (run_draw E s)) = vol_wf (vs_ctl s)"
    "effectiveLevel (vs_ctl (run_draw E s)) = effectiveLevel (vs_ctl s)" "vs_phase (run_draw E s) = Selecting"
    "v_notify (vs_ctl (run_draw E s)) = v_notify (vs_ctl s)" "vs_retry (run_draw E s) = vs_retry s"
proof -
  have ring: "dsp (snd (ring n w)) = dsp w" if "ve_ring E = Some ring" for ring n w
    using ring_keeps [OF that] by (simp add: same_def)
  show "dsp (vs_world (run_draw E s)) = dsp (vs_world s)"
    by (simp add: run_draw_def Let_def vs_run_in_world ring vs_world_def split: option.split)
qed (simp_all add: run_draw_def Let_def vs_run_in_world split: option.split)

lemma worker_promise:
  assumes "promise s" "worker_step E s s'"
  shows "promise s'"
  using assms(2)
proof cases
  case w_begin
  then show ?thesis using assms(1) by (simp add: promise_def run_begin_def requestPush_def updS_def)
next
  case w_seed
  then show ?thesis using assms(1) by (simp add: promise_def run_seed_def)
next
  case w_done
  then show ?thesis using assms(1) by (simp add: promise_def)
next
  case w_notified
  then show ?thesis using assms(1) by (simp add: promise_def run_notified_def)
next
  case w_retried
  then show ?thesis using assms(1) by (simp add: promise_def run_retried_def)
next
  case w_read
  then show ?thesis using assms(1) by (simp add: promise_def run_read_def)
next
  case (w_send level)
  show ?thesis
    by (rule send_cases [of level s]) (use assms(1) w_send in \<open>auto simp: promise_def\<close>)
next
  case w_draw
  then show ?thesis using assms(1) by (auto simp: promise_def draw_facts)
qed

lemma reach_promise: "vol_reach E dsp s \<Longrightarrow> promise s"
proof (induction rule: vol_reach.induct)
  case (vr_start c)
  then show ?case by (simp add: promise_def new_system_def vol_wf_def)
next
  case (vr_worker s s')
  then show ?case by (blast intro: worker_promise)
next
  case (vr_op s op)
  obtain r c where c: "run_vol_op E op (vs_ctl s) = (r, c)" by (rule prod.exhaust)
  have "calm (dsp (vs_world s)) (vs_ctl s)" using vr_op.IH by (simp add: calm_def promise_def vs_world_def)
  from op_calm [OF this, of op] c have "c = vs_ctl s \<or> touched (dsp (vs_world s)) c" by simp
  then show ?case
  proof
    assume "c = vs_ctl s"
    then show ?thesis using vr_op.IH c by (simp add: vs_run_def)
  next
    assume "touched (dsp (vs_world s)) c"
    then show ?thesis using c by (simp add: vs_run_def promise_def touched_def calm_def)
  qed
next
  case (vr_world s w)
  then show ?case by (cases "vs_phase s") (auto simp: promise_def vs_world_def)
qed

end

text \<open>With a DSP that accepts pushes and no cancellation, the worker alone settles.\<close>

definition accepting :: "'w vol_env \<Rightarrow> bool" where
  "accepting E \<longleftrightarrow> (\<forall>w. ve_ctx E w = None) \<and> (\<forall>level w. \<exists>w'. ve_push E level w = (Inr (), w'))"

context dsp_sink begin

lemma worker_level:
  assumes "worker_step E s s'"
  shows "effectiveLevel (vs_ctl s') = effectiveLevel (vs_ctl s)"
  using assms
proof cases
  case (w_send level)
  show ?thesis by (rule send_cases [of level s]) (simp_all add: w_send)
qed (auto simp: run_begin_def requestPush_def updS_def run_seed_def run_notified_def run_retried_def run_read_def draw_facts)

lemma push_chain:
  assumes E: "accepting E" and s: "vs_phase s = Woken"
  shows "\<exists>s'. (worker_step E)\<^sup>*\<^sup>* s s' \<and> vs_phase s' = Selecting \<and> \<not> vs_retry s' \<and> v_notify (vs_ctl s') = v_notify (vs_ctl s)"
proof -
  define s1 where "s1 = run_read E s"
  have s1: "vs_phase s1 = Sending (effectiveLevel (vs_ctl s))" "\<not> vs_retry s1" "v_notify (vs_ctl s1) = v_notify (vs_ctl s)"
    using E by (simp_all add: s1_def run_read_def accepting_def)
  define s2 where "s2 = run_send E (effectiveLevel (vs_ctl s)) s1"
  have "vs_phase s2 = Sent \<and> \<not> vs_retry s2 \<and> v_notify (vs_ctl s2) = v_notify (vs_ctl s)"
  proof (rule send_cases [of "effectiveLevel (vs_ctl s)" s1])
    show ?thesis if "run_send E (effectiveLevel (vs_ctl s)) s1 = s1\<lparr>vs_ctl := (vs_ctl s1)\<lparr>v_world := w\<rparr>, vs_phase := Sent\<rparr>" for w
      using s1 by (simp add: s2_def that)
    show ?thesis if "ve_ctx E w \<noteq> None" for w using E that by (simp add: accepting_def)
    show ?thesis if "ve_push E (effectiveLevel (vs_ctl s)) w0 = (Inl e, w)" for w e w0
      using E that by (metis Inl_Inr_False accepting_def prod.inject)
  qed
  then have s2: "vs_phase s2 = Sent" "\<not> vs_retry s2" "v_notify (vs_ctl s2) = v_notify (vs_ctl s)" by simp_all
  have "worker_step E s s1" unfolding s1_def by (rule w_read [OF s])
  moreover have "worker_step E s1 s2" unfolding s2_def by (rule w_send [OF s1(1)])
  moreover have "worker_step E s2 (run_draw E s2)" by (rule w_draw [OF s2(1)])
  ultimately have "(worker_step E)\<^sup>*\<^sup>* s (run_draw E s2)" by (meson converse_rtranclp_into_rtranclp rtranclp.rtrancl_refl)
  with s2 show ?thesis by (intro exI [of _ "run_draw E s2"]) (simp add: draw_facts)
qed

lemma selecting_settles:
  assumes E: "accepting E" and s: "vs_phase s = Selecting"
  shows "\<exists>s'. (worker_step E)\<^sup>*\<^sup>* s s' \<and> settled_system s'"
proof -
  have one: "\<exists>s'. (worker_step E)\<^sup>*\<^sup>* t s' \<and> settled_system s'"
    if t: "worker_step E t u" "vs_phase u = Woken" "\<not> v_notify (vs_ctl u)" for t u
    using push_chain [OF E t(2)] t by (auto simp: settled_system_def intro: converse_rtranclp_into_rtranclp)
  show ?thesis
  proof (cases "v_notify (vs_ctl s)")
    case True
    then show ?thesis by (intro one [OF w_notified [OF s]]) (simp_all add: run_notified_def)
  next
    case no: False
    show ?thesis
    proof (cases "vs_retry s")
      case True
      with no show ?thesis by (intro one [OF w_retried [OF s]]) (simp_all add: run_retried_def)
    next
      case False
      with s no show ?thesis by (auto simp: settled_system_def)
    qed
  qed
qed

lemma running_settles:
  assumes E: "accepting E" and s: "vs_phase s \<noteq> Stopped"
  shows "\<exists>s'. (worker_step E)\<^sup>*\<^sup>* s s' \<and> settled_system s'"
proof -
  have via: "\<exists>s'. (worker_step E)\<^sup>*\<^sup>* t s' \<and> settled_system s'"
    if "(worker_step E)\<^sup>*\<^sup>* t u" "vs_phase u = Selecting" for t u
    using selecting_settles [OF E that(2)] that(1) by (meson rtranclp_trans)
  show ?thesis
  proof (cases "vs_phase s")
    case NotStarted
    then have "worker_step E s (run_begin s)" by (rule w_begin)
    moreover have "worker_step E (run_begin s) (run_seed (run_begin s))" by (rule w_seed) (simp add: run_begin_def)
    ultimately show ?thesis by (intro via [of s "run_seed (run_begin s)"]) (auto simp: run_seed_def)
  next
    case Starting
    then have "worker_step E s (run_seed s)" by (rule w_seed)
    then show ?thesis by (intro via [of s "run_seed s"]) (auto simp: run_seed_def)
  next
    case Selecting
    then show ?thesis by (rule selecting_settles [OF E])
  next
    case Woken
    from push_chain [OF E this] show ?thesis using via by blast
  next
    case (Sending level)
    show ?thesis
    proof (rule send_cases [of level s])
      fix w assume r: "run_send E level s = s\<lparr>vs_ctl := (vs_ctl s)\<lparr>v_world := w\<rparr>, vs_phase := Sent\<rparr>"
      have "worker_step E s (run_send E level s)" by (rule w_send [OF Sending])
      moreover have "worker_step E (run_send E level s) (run_draw E (run_send E level s))" by (rule w_draw) (simp add: r)
      ultimately show ?thesis by (intro via [of s "run_draw E (run_send E level s)"]) (auto simp: draw_facts)
    next
      fix w assume "ve_ctx E w \<noteq> None"
      then show ?thesis using E by (simp add: accepting_def)
    next
      fix w e w0 assume "ve_push E level w0 = (Inl e, w)"
      then show ?thesis using E by (metis Inl_Inr_False accepting_def prod.inject)
    qed
  next
    case Sent
    then have "worker_step E s (run_draw E s)" by (rule w_draw)
    then show ?thesis by (intro via [of s "run_draw E s"]) (auto simp: draw_facts)
  next
    case Stopped
    with s show ?thesis by simp
  qed
qed

lemma run_reaches: "(worker_step E)\<^sup>*\<^sup>* s s' \<Longrightarrow> vol_reach E dsp s \<Longrightarrow>
    vol_reach E dsp s' \<and> effectiveLevel (vs_ctl s') = effectiveLevel (vs_ctl s)"
  by (induction rule: rtranclp_induct) (auto intro: vr_worker simp: worker_level)

lemma settled_level: "vol_reach E dsp s \<Longrightarrow> settled_system s \<Longrightarrow> dsp (vs_world s) = effectiveLevel (vs_ctl s)"
  using reach_promise [of s] by (auto simp: promise_def settled_system_def)

end

subsection \<open>The undisturbed fade\<close>

text \<open>Each value lies on the way, at most a step from the one before it, and the last is the target.\<close>

fun on_the_way :: "int \<Rightarrow> int \<Rightarrow> int list \<Rightarrow> bool" where
  "on_the_way current target [] = (current = target)"
| "on_the_way current target (v # vs) \<longleftrightarrow>
     (current < v \<and> v \<le> target \<or> target \<le> v \<and> v < current) \<and> \<bar>v - current\<bar> \<le> 6 \<and> on_the_way v target vs"

lemma fade_values_on_the_way: "on_the_way current target (fade_values current target)"
proof (induction current target rule: fade_values.induct)
  case (1 current target)
  show ?case
    using 1 by (subst fade_values.simps)
      (auto simp: fade_next_def volumeFadeStep_def Let_def split: if_splits)
qed

lemma fade_values_length: "length (fade_values current target) = nat ((\<bar>target - current\<bar> + 5) div 6)"
proof (induction current target rule: fade_values.induct)
  case (1 current target)
  show ?case
  proof (cases "current = target")
    case False
    have "nat ((\<bar>target - current\<bar> + 5) div 6) = Suc (nat ((\<bar>target - fade_next current target\<bar> + 5) div 6))"
      using False by (auto simp: fade_next_def volumeFadeStep_def Let_def)
    with 1 False show ?thesis by (simp add: fade_values.simps [of current target])
  qed (simp add: fade_values.simps)
qed

lemma fade_loop_log:
  assumes "\<And>w. ve_ctx E w = None" "\<And>n w. \<exists>w'. wr n w = (Inr (), w') \<and> lg w' = lg w @ [n]"
    "\<And>w. \<exists>w'. ve_pause E volumeFadeInterval w = (Inr (), w') \<and> lg w' = lg w"
  shows "\<exists>w'. fade_loop E wr current target w = (Inr (), w') \<and> lg w' = lg w @ fade_values current target"
proof (induction current target arbitrary: w rule: fade_values.induct)
  case (1 current target)
  show ?case
  proof (cases "current = target")
    case True
    then show ?thesis by (simp add: fade_loop.simps fade_values.simps)
  next
    case False
    let ?n = "fade_next current target"
    obtain w1 where w1: "wr ?n w = (Inr (), w1)" "lg w1 = lg w @ [?n]" using assms(2) by blast
    obtain w2 where w2: "ve_pause E volumeFadeInterval w1 = (Inr (), w2)" "lg w2 = lg w1" using assms(3) by blast
    obtain w3 where w3: "fade_loop E wr ?n target w2 = (Inr (), w3)" "lg w3 = lg w2 @ fade_values ?n target"
      using 1 [OF False] by blast
    show ?thesis
    proof (cases "?n = target")
      case True
      then show ?thesis using False w1 assms(1)
        by (simp add: fade_loop.simps [of E wr current] fade_values.simps [of current] fade_values.simps [of target] Let_def)
    next
      case more: False
      then show ?thesis using False w1 w2 w3 assms(1)
        by (simp add: fade_loop.simps [of E wr current] fade_values.simps [of current] Let_def)
    qed
  qed
qed

subsection \<open>A speaker in memory\<close>

text \<open>The DSP refuses the first \<open>vm_refusals\<close> pushes, as it does before it has registered its procedures.\<close>

record volume_world =
  vm_dsp :: int
  vm_refusals :: nat
  vm_softvol :: int
  vm_writes :: "int list"
  vm_saved :: "int list"
  vm_ring :: "int list"
  vm_cues :: nat

definition volume_memory :: "volume_world vol_env" where
  "volume_memory = \<lparr>ve_persist = Some (\<lambda>n. updS (\<lambda>w. w\<lparr>vm_saved := vm_saved w @ [n]\<rparr>)),
     ve_atMax = Some (\<lambda>w. w\<lparr>vm_cues := vm_cues w + 1\<rparr>),
     ve_push = (\<lambda>level w. if vm_refusals w = 0 then (Inr (), w\<lparr>vm_dsp := level\<rparr>)
       else (Inl (Errorf ''no such procedure''), w\<lparr>vm_refusals := vm_refusals w - 1\<rparr>)),
     ve_ring = Some (\<lambda>n. updS (\<lambda>w. w\<lparr>vm_ring := vm_ring w @ [n]\<rparr>)),
     ve_softvol = Some (readS vm_softvol, \<lambda>n. updS (\<lambda>w. w\<lparr>vm_softvol := n, vm_writes := vm_writes w @ [n]\<rparr>)),
     ve_ctx = (\<lambda>_. None), ve_pause = (\<lambda>_. ret ())\<rparr>"

definition new_volume_world :: "nat \<Rightarrow> volume_world" where
  "new_volume_world n = \<lparr>vm_dsp = 100, vm_refusals = n, vm_softvol = 255, vm_writes = [], vm_saved = [], vm_ring = [], vm_cues = 0\<rparr>"

interpretation volmem: dsp_sink volume_memory vm_dsp
  by unfold_locales (auto simp: volume_memory_def same_def act_simps split: if_splits)

text \<open>The same once the DSP has registered.\<close>

definition ready_memory :: "volume_world vol_env" where
  "ready_memory = volume_memory\<lparr>ve_push := (\<lambda>level w. (Inr (), w\<lparr>vm_dsp := level\<rparr>))\<rparr>"

interpretation readymem: dsp_sink ready_memory vm_dsp
  by unfold_locales (auto simp: ready_memory_def volume_memory_def same_def act_simps)

subsection \<open>Properties\<close>

text \<open>(C4) The DSP gets the last word: in every interleaving of the worker with volume, mute and duck
  operations, with pushes refused and retried in between, a worker that waits with no wake-up pending
  and no retry armed has left the DSP at the level the controller now wants; and from any point of a
  run, once the DSP accepts pushes and no further operation comes, the worker alone gets there.\<close>

theorem dsp_gets_the_last_word:
  assumes "dsp_sink E dsp" and "vol_reach E dsp s"
  shows "(settled_system s \<longrightarrow> dsp (vs_world s) = effectiveLevel (vs_ctl s))
    \<and> (accepting E \<and> vs_phase s \<noteq> Stopped \<longrightarrow>
        (\<exists>s'. (worker_step E)\<^sup>*\<^sup>* s s' \<and> settled_system s' \<and> dsp (vs_world s') = effectiveLevel (vs_ctl s)))"
proof (intro conjI impI)
  show "dsp (vs_world s) = effectiveLevel (vs_ctl s)" if "settled_system s"
    by (rule dsp_sink.settled_level [OF assms that])
  assume "accepting E \<and> vs_phase s \<noteq> Stopped"
  then obtain s' where s': "(worker_step E)\<^sup>*\<^sup>* s s'" "settled_system s'"
    using dsp_sink.running_settles [OF assms(1)] by blast
  with dsp_sink.run_reaches [OF assms(1) s'(1) assms(2)] dsp_sink.settled_level [OF assms(1)]
  show "\<exists>s'. (worker_step E)\<^sup>*\<^sup>* s s' \<and> settled_system s' \<and> dsp (vs_world s') = effectiveLevel (vs_ctl s)"
    by (intro exI [of _ s']) simp
qed

theorem dsp_gets_the_last_word_witness:
  "\<exists>s' :: volume_world vol_system. settled_system s' \<and> vm_dsp (vs_world s') = 28"
proof -
  define c where "c = (case newDSPVolumeController ''/run/dsp.sock'' (new_volume_world 0) of Inr c \<Rightarrow> c)"
  define s1 where "s1 = snd (vs_run (run_vol_op ready_memory (OpSetVolume 70)) (new_system c))"
  define s where "s = snd (vs_run (run_vol_op ready_memory (OpSetDuck ''voice'' duckSoft)) s1)"
  have "vol_reach ready_memory vm_dsp (new_system c)"
    by (rule vr_start) (simp_all add: c_def newDSPVolumeController_def defaultVolume_def)
  then have "vol_reach ready_memory vm_dsp s" unfolding s_def s1_def by (intro vr_op)
  from dsp_gets_the_last_word [OF readymem.dsp_sink_axioms this]
  have "accepting ready_memory \<and> vs_phase s \<noteq> Stopped \<longrightarrow>
      (\<exists>s' :: volume_world vol_system. settled_system s' \<and> vm_dsp (vs_world s') = effectiveLevel (vs_ctl s))" by blast
  moreover have "accepting ready_memory" by (simp add: accepting_def ready_memory_def volume_memory_def)
  moreover have "effectiveLevel (vs_ctl s) = 28" and "vs_phase s \<noteq> Stopped"
    unfolding s_def s1_def c_def by code_simp+
  ultimately show ?thesis by metis
qed

text \<open>(C20) A reachable controller is well-formed whatever is asked of it: the level stays on the dial, every
  duck has one entry and asks for some ducking, the DSP is never driven above the displayed level,
  and the strongest duck decides, so that releasing one keeps the level down while another holds.\<close>

theorem volume_state_well_typed:
  assumes "dsp_sink E dsp" and "vol_reach E dsp s"
  shows "0 \<le> v_volume (vs_ctl s) \<and> v_volume (vs_ctl s) \<le> 100
    \<and> distinct (List.map fst (v_ducks (vs_ctl s))) \<and> duckNone \<notin> snd ` set (v_ducks (vs_ctl s))
    \<and> 0 \<le> effectiveLevel (vs_ctl s) \<and> effectiveLevel (vs_ctl s) \<le> displayLevel (vs_ctl s)
    \<and> strongestDuck (vs_ctl s) = Max (insert duckNone (snd ` set (v_ducks (vs_ctl s))))"
proof -
  have wf: "vol_wf (vs_ctl s)"
    using dsp_sink.reach_promise [OF assms] by (simp add: dsp_sink.promise_def [OF assms(1)])
  then show ?thesis using effectiveLevel_range [OF wf] by (simp add: vol_wf_def strongestDuck_Max)
qed

theorem volume_state_well_typed_witness:
  "let s = snd (vs_run (run_vol_op volume_memory (OpAdjustVolume (- 1000)))
       (new_system (case newDSPVolumeController ''/run/dsp.sock'' (new_volume_world 3) of Inr c \<Rightarrow> c)))
   in 0 \<le> v_volume (vs_ctl s) \<and> v_volume (vs_ctl s) \<le> 100"
proof -
  have "vol_reach volume_memory vm_dsp
      (new_system (case newDSPVolumeController ''/run/dsp.sock'' (new_volume_world 3) of Inr c \<Rightarrow> c))"
    by (rule vr_start) (simp_all add: newDSPVolumeController_def defaultVolume_def)
  from volume_state_well_typed [OF volmem.dsp_sink_axioms vr_op [OF this, of "OpAdjustVolume (- 1000)"]]
  show ?thesis by (simp add: Let_def)
qed

text \<open>(C21) A fade that is not cancelled and whose writes succeed terminates with the control at its target, and
  the values written approach it monotonically in steps of at most six, as few as that allows:
  it never overshoots, and so never passes through silence on its way to a level.\<close>

theorem fade_reaches_the_target:
  assumes "ve_softvol E = Some (rd, wr)" and "rd w = (Inr current, w0)" and "\<And>w. ve_ctx E w = None"
    and "\<And>n w. \<exists>w'. wr n w = (Inr (), w') \<and> written w' = written w @ [n]"
    and "\<And>w. \<exists>w'. ve_pause E volumeFadeInterval w = (Inr (), w') \<and> written w' = written w"
  shows "\<exists>w' vs. fadeToTarget E target w = (Inr (), w') \<and> written w' = written w0 @ vs
    \<and> on_the_way current target vs \<and> length vs = nat ((\<bar>target - current\<bar> + 5) div 6)"
  using fade_loop_log [of E wr written current target w0] assms fade_values_on_the_way fade_values_length
  by (fastforce simp: fadeToTarget_def bindE_def)

theorem fade_reaches_the_target_witness:
  "\<exists>w' vs. fadeToTarget volume_memory 100 (new_volume_world 0) = (Inr (), w') \<and> vm_writes w' = vs \<and> length vs = 26"
proof -
  have "\<exists>w' vs. fadeToTarget volume_memory 100 (new_volume_world 0) = (Inr (), w')
      \<and> vm_writes w' = vm_writes (new_volume_world 0) @ vs \<and> on_the_way 255 100 vs \<and> length vs = nat ((\<bar>100 - 255\<bar> + 5) div 6)"
    by (rule fade_reaches_the_target [where rd = "readS vm_softvol" and
          wr = "\<lambda>n. updS (\<lambda>w. w\<lparr>vm_softvol := n, vm_writes := vm_writes w @ [n]\<rparr>)"])
       (simp_all add: volume_memory_def new_volume_world_def updS_def readS_def ret_def)
  then show ?thesis by (auto simp: new_volume_world_def)
qed

text \<open>
  The sum of the dial's level and a caller's delta is not checked: the largest delta a caller
  can send, meant to turn the volume up, wraps around and silences the speaker.
\<close>

lemma AdjustVolume_wraps:
  "v_volume (snd (AdjustVolume volume_memory (2 ^ 31 - 1)
     (case newDSPVolumeController ''/run/dsp.sock'' (new_volume_world 0) of Inr c \<Rightarrow> c))) = 0"
  by code_simp

end
