(* ===== verification/Persist_State.thy ===== *)
theory Persist_State
  imports Go_Text
begin

text \<open>
  The settings the speaker keeps across a power cut, and what makes them valid
  (\<^verbatim>\<open>tools/nand-pilot/persistence/state.go\<close>): a Wi-Fi profile and a bounded set of small files.
  Every error is one of the program's codes.
\<close>

definition maxSnapshot :: nat where "maxSnapshot = 2 * 1024 * 1024"
definition maxFile :: nat where "maxFile = 64 * 1024"
definition maxFiles :: nat where "maxFiles = 128"

record wifi_profile =
  SSID :: string
  PSK :: string
  Security :: string
  Hidden :: bool

text \<open>
  The files are listed in the order in which Go's map happens to be visited, one entry for each
  name; \<open>None\<close> is the nil map. A file's content is a string of bytes.
\<close>

record state_snapshot =
  Version :: int
  WiFi :: "wifi_profile option"
  Files :: "(string \<times> string) list option"

subsection \<open>Validation\<close>

definition validateProfile :: "wifi_profile \<Rightarrow> unit outcome" where
  "validateProfile p = (
     if length (SSID p) < 1 \<or> 32 < length (SSID p) \<or> \<not> utf8_valid (SSID p) \<or>
        (\<exists>c \<in> {CHR 0x00, CHR 0x0D, CHR 0x0A}. c \<in> set (SSID p)) \<or> Security p \<noteq> ''wpa2-psk''
     then Inl (Errorf ''PERSIST_PROFILE_INVALID'')
     else (case hex_decode (PSK p) of
       None \<Rightarrow> Inl (Errorf ''PERSIST_PROFILE_INVALID'')
     | Some key \<Rightarrow>
         if length key \<noteq> 32 \<or> length (PSK p) \<noteq> 64 then Inl (Errorf ''PERSIST_PROFILE_INVALID'')
         else Inr ()))"

definition address_digit :: "char \<Rightarrow> bool" where
  "address_digit c \<longleftrightarrow> is_digit c \<or> 65 \<le> code c \<and> code c \<le> 70"

text \<open>\<^verbatim>\<open>^[0-9A-F]{2}(:[0-9A-F]{2}){5}$\<close>\<close>

definition addressPattern :: "string \<Rightarrow> bool" where
  "addressPattern s \<longleftrightarrow> (let ws = split_on CHR '':'' s in
     length ws = 6 \<and> list_all (\<lambda>w. length w = 2 \<and> list_all address_digit w) ws)"

text \<open>The state of the scan over the lines of a bond: the section, whether \<^verbatim>\<open>General\<close> was seen, and the key sections.\<close>

record bond_scan =
  bs_section :: string
  bs_general :: bool
  bs_keys :: "(string \<times> bool) list"

definition set_key :: "string \<Rightarrow> bool \<Rightarrow> (string \<times> bool) list \<Rightarrow> (string \<times> bool) list" where
  "set_key k b m = (k, b) # filter (\<lambda>e. fst e \<noteq> k) m"

definition bond_line :: "string \<Rightarrow> bond_scan \<Rightarrow> bond_scan outcome" where
  "bond_line raw b = (let line = TrimSpace raw in
     if line = [] \<or> HasPrefix line ''#'' \<or> HasPrefix line '';'' then Inr b
     else if HasPrefix line ''['' \<and> HasSuffix line '']'' then
       (let section = TrimSuffix (TrimPrefix line ''['') '']'';
            b = b\<lparr>bs_section := section\<rparr>;
            b = (if section = ''General'' then b\<lparr>bs_general := True\<rparr> else b)
        in Inr (if HasSuffix section ''Key'' then b\<lparr>bs_keys := set_key section False (bs_keys b)\<rparr> else b))
     else (case Cut CHR ''='' line of
       None \<Rightarrow> Inl (Errorf ''PERSIST_BOND_INVALID'')
     | Some (key, v) \<Rightarrow>
         if bs_section b = [] \<or> key = [] then Inl (Errorf ''PERSIST_BOND_INVALID'')
         else if key = ''Key'' \<and> HasSuffix (bs_section b) ''Key'' then
           (case hex_decode v of
              None \<Rightarrow> Inl (Errorf ''PERSIST_BOND_INVALID'')
            | Some decoded \<Rightarrow>
                if length decoded \<noteq> 16 \<or> length v \<noteq> 32 then Inl (Errorf ''PERSIST_BOND_INVALID'')
                else Inr (b\<lparr>bs_keys := set_key (bs_section b) True (bs_keys b)\<rparr>))
         else Inr b))"

fun bond_lines :: "string list \<Rightarrow> bond_scan \<Rightarrow> bond_scan outcome" where
  "bond_lines [] b = Inr b"
| "bond_lines (l # ls) b = (case bond_line l b of Inl e \<Rightarrow> Inl e | Inr b' \<Rightarrow> bond_lines ls b')"

definition validateBondInfo :: "string \<Rightarrow> unit outcome" where
  "validateBondInfo content =
     (case bond_lines (split_on newline content) \<lparr>bs_section = [], bs_general = False, bs_keys = []\<rparr> of
        Inl e \<Rightarrow> Inl e
      | Inr b \<Rightarrow>
          if \<not> bs_general b then Inl (Errorf ''PERSIST_BOND_INVALID'')
          else if \<exists>e \<in> set (bs_keys b). \<not> snd e then Inl (Errorf ''PERSIST_BOND_INVALID'')
          else Inr ())"

definition validateFile :: "string \<Rightarrow> string \<Rightarrow> unit outcome" where
  "validateFile name content = (
     if content = [] \<or> maxFile < length content then Inl (Errorf ''PERSIST_STATE_LIMIT'')
     else if name = ''microphone-state'' then
       (if content = ''muted'' @ [newline] \<or> content = ''unmuted'' @ [newline] then Inr ()
        else Inl (Errorf ''PERSIST_STATE_INVALID''))
     else if name = ''music-volume'' then
       (case Atoi (TrimSuffix content [newline]) of
          None \<Rightarrow> Inl (Errorf ''PERSIST_STATE_INVALID'')
        | Some v \<Rightarrow>
            if 0 \<le> v \<and> v \<le> 100 \<and> content = Itoa v @ [newline] then Inr ()
            else Inl (Errorf ''PERSIST_STATE_INVALID''))
     else (let parts = split_on CHR ''/'' name in
       if length parts = 4 \<and> parts ! 0 = ''bluetooth'' \<and> addressPattern (parts ! 1) \<and>
          addressPattern (parts ! 2) \<and> (parts ! 3 = ''info'' \<or> parts ! 3 = ''attributes'') then
         (if \<not> utf8_valid content \<or> CHR 0x00 \<in> set content then Inl (Errorf ''PERSIST_STATE_INVALID'')
          else if parts ! 3 = ''info'' then validateBondInfo content
          else Inr ())
       else Inl (Errorf ''PERSIST_STATE_INVALID'')))"

fun validate_files :: "(string \<times> string) list \<Rightarrow> unit outcome" where
  "validate_files [] = Inr ()"
| "validate_files ((name, content) # fs) =
     (case validateFile name content of Inl e \<Rightarrow> Inl e | Inr _ \<Rightarrow> validate_files fs)"

definition validateStateSnapshot :: "state_snapshot \<Rightarrow> unit outcome" where
  "validateStateSnapshot st = (case Files st of
     None \<Rightarrow> Inl (Errorf ''PERSIST_STATE_INVALID'')
   | Some fs \<Rightarrow>
       if Version st \<noteq> 1 \<or> maxFiles < length fs \<or> (WiFi st = None \<and> fs = [])
       then Inl (Errorf ''PERSIST_STATE_INVALID'')
       else (case (case WiFi st of None \<Rightarrow> Inr () | Some p \<Rightarrow> validateProfile p) of
         Inl e \<Rightarrow> Inl e
       | Inr _ \<Rightarrow> (case validate_files fs of
           Inl e \<Rightarrow> Inl e
         | Inr _ \<Rightarrow> if maxSnapshot div 2 < sum_list (List.map (length \<circ> snd) fs)
             then Inl (Errorf ''PERSIST_STATE_LIMIT'') else Inr ())))"

definition retainRequiredSettings :: "state_snapshot \<Rightarrow> state_snapshot \<Rightarrow> unit outcome" where
  "retainRequiredSettings before after = (
     if \<exists>name \<in> {''microphone-state'', ''music-volume''}.
          map_of (case Files before of None \<Rightarrow> [] | Some fs \<Rightarrow> fs) name \<noteq> None \<and>
          map_of (case Files after of None \<Rightarrow> [] | Some fs \<Rightarrow> fs) name = None
     then Inl (Errorf ''PERSIST_RUNTIME_STATE_MISSING'') else Inr ())"

text \<open>
  \<^verbatim>\<open>json.Marshal\<close> and the strict decoding, of a snapshot and of the envelope around it, and
  SHA-256 are parameters. An encoder that fails returns \<open>None\<close>; a decoder returns \<open>None\<close> for
  anything \<^verbatim>\<open>decodeStrict\<close> refuses, trailing content included.
\<close>

record state_codec =
  jc_Marshal :: "state_snapshot \<Rightarrow> string option"
  jc_Decode :: "string \<Rightarrow> state_snapshot option"
  jc_Wrap :: "string \<Rightarrow> string \<Rightarrow> string option"
  jc_Unwrap :: "string \<Rightarrow> (string \<times> string) option"
  jc_Sum256 :: "string \<Rightarrow> byte list"

definition decodeSnapshot :: "state_codec \<Rightarrow> string \<Rightarrow> state_snapshot outcome" where
  "decodeSnapshot jc content = (case jc_Unwrap jc content of
     None \<Rightarrow> Inl (Errorf ''PERSIST_STATE_CORRUPT'')
   | Some (State, sha256) \<Rightarrow>
       if sha256 \<noteq> hex_encode (jc_Sum256 jc State) then Inl (Errorf ''PERSIST_STATE_CORRUPT'')
       else (case jc_Decode jc State of
         None \<Rightarrow> Inl (Errorf ''PERSIST_STATE_CORRUPT'')
       | Some st \<Rightarrow> (case validateStateSnapshot st of Inl e \<Rightarrow> Inl e | Inr _ \<Rightarrow> Inr st)))"

end
