(* ===== verification/Persist_Store.thy ===== *)
theory Persist_Store
  imports Persist_State
begin

text \<open>
  The private files of the persistence service (\<^verbatim>\<open>state.go\<close>) over the operating system's file
  operations: checked reads, atomic replacement, loading and saving the snapshot.
\<close>

subsection \<open>The operating system\<close>

text \<open>
  A path is the list of its components from the root, so it is absolute and clean: the check of
  \<^verbatim>\<open>trustedParents\<close> that refuses other paths never fires.
\<close>

type_synonym path = "string list"

record file_info =
  fi_dir :: bool
  fi_symlink :: bool
  fi_regular :: bool
  fi_uid :: nat
  fi_nlink :: nat
  fi_perm :: u32
  fi_special :: bool
  fi_size :: nat
  fi_mtime :: nat
  fi_id :: nat
  fi_block :: bool
  fi_rdev :: nat

record dir_entry =
  de_name :: string
  de_dir :: bool
  de_symlink :: bool

text \<open>
  What \<^verbatim>\<open>Lstat\<close> tells of a file: \<open>fi_perm\<close> is \<^verbatim>\<open>Perm()\<close>, \<open>fi_special\<close> whether a set-id or sticky bit is
  set, \<open>fi_block\<close> whether its type is exactly a block device. The operations the code calls:
  handles are numbers. \<open>os_Open\<close> is the read-only open that
  follows no link, \<open>os_ReadAll\<close> reads at most a number of bytes, \<open>os_CreateTemp\<close> takes a directory
  and a prefix and returns the handle and the name of a new file.
\<close>

record 'w os =
  os_Lstat :: "path \<Rightarrow> ('w, file_info) act"
  os_Mkdir :: "path \<Rightarrow> u32 \<Rightarrow> ('w, unit) act"
  os_Open :: "path \<Rightarrow> ('w, nat) act"
  os_Stat :: "nat \<Rightarrow> ('w, file_info) act"
  os_ReadAll :: "nat \<Rightarrow> nat \<Rightarrow> ('w, string) act"
  os_CreateTemp :: "path \<Rightarrow> string \<Rightarrow> ('w, nat \<times> string) act"
  os_Write :: "nat \<Rightarrow> string \<Rightarrow> ('w, unit) act"
  os_Sync :: "nat \<Rightarrow> ('w, unit) act"
  os_Close :: "nat \<Rightarrow> ('w, unit) act"
  os_Rename :: "path \<Rightarrow> path \<Rightarrow> ('w, unit) act"
  os_Remove :: "path \<Rightarrow> ('w, unit) act"
  os_OpenDir :: "path \<Rightarrow> ('w, nat) act"
  os_ReadDir :: "path \<Rightarrow> ('w, dir_entry list) act"

definition Dir :: "path \<Rightarrow> path" where
  "Dir p = butlast p"

definition Base :: "path \<Rightarrow> string" where
  "Base p = (if p = [] then ''/'' else last p)"

definition Join :: "path \<Rightarrow> string \<Rightarrow> path" where
  "Join p name = p @ [name]"

text \<open>The codes of the program stand for any error of the system but a missing file.\<close>

definition codeE :: "string \<Rightarrow> ('w, 'a) act \<Rightarrow> ('w, 'a) act" where
  "codeE c m = tryE m (\<lambda>r. case r of Inl e \<Rightarrow> fail (Errorf c) | Inr x \<Rightarrow> ret x)"

definition missing_or :: "string \<Rightarrow> ('w, 'a) act \<Rightarrow> ('w, 'a) act" where
  "missing_or c m = tryE m (\<lambda>r. case r of
     Inl e \<Rightarrow> fail (if errors_is e ErrNotExist then Sentinel ErrNotExist else Errorf c)
   | Inr x \<Rightarrow> ret x)"

subsection \<open>Directories\<close>

definition trusted_dir :: "nat \<Rightarrow> file_info \<Rightarrow> bool" where
  "trusted_dir uid info \<longleftrightarrow> fi_dir info \<and> \<not> fi_symlink info \<and> (fi_uid info = uid \<or> fi_uid info = 0) \<and>
     fi_perm info AND (if uid \<noteq> 0 then 0x002 else 0x012) = 0"

function trustedParents :: "'w os \<Rightarrow> path \<Rightarrow> nat \<Rightarrow> ('w, unit) act" where
  "trustedParents os path uid =
     bindE (codeE ''PERSIST_PATH_UNSAFE'' (os_Lstat os path)) (\<lambda>info.
     seqE (checkE (trusted_dir uid info) (Errorf ''PERSIST_PATH_UNSAFE''))
       (if path = [] then ret () else trustedParents os (Dir path) uid))"
  by pat_completeness auto
termination
  by (relation "measure (\<lambda>(os, path, uid). length path)") (auto simp: Dir_def)

declare trustedParents.simps [simp del]

definition ensurePrivateDirectory :: "'w os \<Rightarrow> path \<Rightarrow> nat \<Rightarrow> ('w, unit) act" where
  "ensurePrivateDirectory os path uid =
     seqE (trustedParents os (Dir path) uid)
    (tryE (os_Mkdir os path 0x1C0) (\<lambda>created.
     seqE (checkE (case created of Inl e \<Rightarrow> errors_is e ErrExist | Inr _ \<Rightarrow> True)
             (Errorf ''PERSIST_DIRECTORY_CREATE_FAILED''))
    (bindE (codeE ''PERSIST_DIRECTORY_UNSAFE'' (os_Lstat os path)) (\<lambda>info.
     seqE (checkE (fi_dir info \<and> fi_uid info = uid \<and> fi_perm info = 0x1C0) (Errorf ''PERSIST_DIRECTORY_UNSAFE''))
       (case created of
          Inl _ \<Rightarrow> ret ()
        | Inr _ \<Rightarrow> bindE (codeE ''PERSIST_SYNC_FAILED'' (os_OpenDir os (Dir path))) (\<lambda>parent.
            finallyE (codeE ''PERSIST_SYNC_FAILED'' (os_Sync os parent)) (os_Close os parent)))))))"

subsection \<open>Files\<close>

definition private_file :: "nat \<Rightarrow> nat \<Rightarrow> file_info \<Rightarrow> bool" where
  "private_file uid limit info \<longleftrightarrow> fi_regular info \<and> fi_uid info = uid \<and> fi_nlink info = 1 \<and>
     fi_perm info AND 0x03F = 0 \<and> 1 \<le> fi_size info \<and> fi_size info \<le> limit"

definition readOpened :: "'w os \<Rightarrow> nat \<Rightarrow> nat \<Rightarrow> nat \<Rightarrow> file_info \<Rightarrow> ('w, string) act" where
  "readOpened os fd uid limit before =
     bindE (codeE ''PERSIST_FILE_UNSAFE'' (os_Stat os fd)) (\<lambda>info.
     seqE (checkE (fi_id before = fi_id info \<and> private_file uid limit info) (Errorf ''PERSIST_FILE_UNSAFE''))
    (tryE (os_ReadAll os fd (limit + 1)) (\<lambda>content.
     tryE (os_Stat os fd) (\<lambda>after. case (content, after) of
       (Inr content, Inr after) \<Rightarrow>
         if limit < length content \<or> length content \<noteq> fi_size info \<or> fi_size after \<noteq> fi_size info \<or>
            fi_mtime after \<noteq> fi_mtime info
         then fail (Errorf ''PERSIST_FILE_CHANGED'') else ret content
     | _ \<Rightarrow> fail (Errorf ''PERSIST_FILE_CHANGED'')))))"

definition readPrivate :: "'w os \<Rightarrow> path \<Rightarrow> nat \<Rightarrow> nat \<Rightarrow> ('w, string) act" where
  "readPrivate os path uid limit =
     seqE (trustedParents os (Dir path) uid)
    (bindE (missing_or ''PERSIST_FILE_UNSAFE'' (os_Lstat os path)) (\<lambda>before.
     seqE (checkE (private_file uid limit before) (Errorf ''PERSIST_FILE_UNSAFE''))
    (bindE (missing_or ''PERSIST_FILE_UNSAFE'' (os_Open os path)) (\<lambda>fd.
     finallyE (readOpened os fd uid limit before) (os_Close os fd)))))"

definition syncDirectory :: "'w os \<Rightarrow> path \<Rightarrow> ('w, unit) act" where
  "syncDirectory os path =
     bindE (codeE ''PERSIST_SYNC_FAILED'' (os_OpenDir os path)) (\<lambda>directory.
     finallyE (codeE ''PERSIST_SYNC_FAILED'' (os_Sync os directory)) (os_Close os directory))"

text \<open>
  The deferred calls run in reverse order: the temporary file is closed, a second time after a
  complete write, and then removed, which finds nothing after a rename.
\<close>

definition replaceBy :: "'w os \<Rightarrow> path \<Rightarrow> string \<Rightarrow> ('w, unit) act option \<Rightarrow> nat \<Rightarrow> string \<Rightarrow> ('w, unit) act" where
  "replaceBy os path content beforeMove fd name = blockE [
     codeE ''PERSIST_WRITE_FAILED'' (os_Write os fd content),
     codeE ''PERSIST_SYNC_FAILED'' (os_Sync os fd),
     codeE ''PERSIST_WRITE_FAILED'' (os_Close os fd),
     (case beforeMove of None \<Rightarrow> ret () | Some hook \<Rightarrow> hook),
     codeE ''PERSIST_REPLACE_FAILED'' (os_Rename os (Join (Dir path) name) path),
     syncDirectory os (Dir path)]"

definition atomicPrivate :: "'w os \<Rightarrow> path \<Rightarrow> string \<Rightarrow> nat \<Rightarrow> ('w, unit) act option \<Rightarrow> ('w, unit) act" where
  "atomicPrivate os path content uid beforeMove =
     seqE (trustedParents os (Dir path) uid)
    (seqE (tryE (readPrivate os path uid maxSnapshot) (\<lambda>old. case old of
             Inl e \<Rightarrow> if errors_is e ErrNotExist then ret () else fail e | Inr _ \<Rightarrow> ret ()))
    (bindE (codeE ''PERSIST_WRITE_FAILED'' (os_CreateTemp os (Dir path) ''.state-'')) (\<lambda>(fd, name).
     finallyE
       (finallyE (replaceBy os path content beforeMove fd name) (os_Close os fd))
       (os_Remove os (Join (Dir path) name)))))"

subsection \<open>The store\<close>

record 'w storage =
  st_root :: path
  st_runtime :: path
  st_bonds :: path
  st_uid :: nat
  st_check :: "('w, unit) act"
  st_beforeMove :: "('w, unit) act option"

definition state_path :: "'w storage \<Rightarrow> path" where
  "state_path s = Join (st_root s) ''state.json''"

definition store_load :: "'w os \<Rightarrow> state_codec \<Rightarrow> 'w storage \<Rightarrow> ('w, state_snapshot) act" where
  "store_load os jc s =
     seqE (st_check s)
    (seqE (ensurePrivateDirectory os (st_root s) (st_uid s))
    (tryE (readPrivate os (state_path s) (st_uid s) maxSnapshot) (\<lambda>content. case content of
       Inl e \<Rightarrow> fail (if errors_is e ErrNotExist then Errorf ''PERSIST_STATE_ABSENT'' else e)
     | Inr content \<Rightarrow> liftE (decodeSnapshot jc content))))"

definition encodeSnapshot :: "state_codec \<Rightarrow> state_snapshot \<Rightarrow> string outcome" where
  "encodeSnapshot jc st = (case jc_Marshal jc st of
     None \<Rightarrow> Inl (Errorf ''PERSIST_STATE_INVALID'')
   | Some content \<Rightarrow> (case jc_Wrap jc content (hex_encode (jc_Sum256 jc content)) of
       None \<Rightarrow> Inl (Errorf ''PERSIST_STATE_LIMIT'')
     | Some wrapped \<Rightarrow>
         if maxSnapshot < length wrapped then Inl (Errorf ''PERSIST_STATE_LIMIT'') else Inr wrapped))"

definition store_save :: "'w os \<Rightarrow> state_codec \<Rightarrow> 'w storage \<Rightarrow> state_snapshot \<Rightarrow> ('w, unit) act" where
  "store_save os jc s st =
     seqE (st_check s)
    (seqE (liftE (validateStateSnapshot st))
    (seqE (ensurePrivateDirectory os (st_root s) (st_uid s))
    (bindE (liftE (encodeSnapshot jc st)) (\<lambda>wrapped.
     tryE (readPrivate os (state_path s) (st_uid s) maxSnapshot) (\<lambda>old. case old of
       Inr old \<Rightarrow> (case decodeSnapshot jc old of
           Inl e \<Rightarrow> fail e
         | Inr _ \<Rightarrow> if old = wrapped then ret ()
             else atomicPrivate os (state_path s) wrapped (st_uid s) (st_beforeMove s))
     | Inl e \<Rightarrow> if errors_is e ErrNotExist
         then atomicPrivate os (state_path s) wrapped (st_uid s) (st_beforeMove s)
         else fail e)))))"

text \<open>
  The codec's documented behaviour on a snapshot: what the encoder makes of it, the strict
  decoder reads back (with the map enumerated in the same order), and so for the envelope.
\<close>

definition codec_reads_back :: "state_codec \<Rightarrow> state_snapshot \<Rightarrow> bool" where
  "codec_reads_back jc st \<longleftrightarrow> (\<forall>c. jc_Marshal jc st = Some c \<longrightarrow> jc_Decode jc c = Some st) \<and>
     (\<forall>c h y. jc_Wrap jc c h = Some y \<longrightarrow> jc_Unwrap jc y = Some (c, h))"

lemma decodes_encoded_state:
  "codec_reads_back jc st \<Longrightarrow> encodeSnapshot jc st = Inr x \<Longrightarrow> validateStateSnapshot st = Inr () \<Longrightarrow> decodeSnapshot jc x = Inr st"
  by (auto simp: codec_reads_back_def encodeSnapshot_def decodeSnapshot_def split: option.splits if_splits)

end
