(* ===== verification/Persist_Files.thy ===== *)
theory Persist_Files
  imports Persist_Store
begin

text \<open>
  Taking a snapshot of the runtime files, putting one back at start-up, and removing what an
  interrupted write left (\<^verbatim>\<open>capture\<close>, \<^verbatim>\<open>restore\<close>, \<^verbatim>\<open>cleanInterruptedWrites\<close> of
  \<^verbatim>\<open>tools/nand-pilot/persistence/state.go\<close>).
\<close>

subsection \<open>Capturing\<close>

definition runtime_names :: "string list" where
  "runtime_names = [''microphone-state'', ''music-volume'']"

text \<open>Assignment to a Go map.\<close>

definition set_file :: "string \<Rightarrow> string \<Rightarrow> (string \<times> string) list \<Rightarrow> (string \<times> string) list" where
  "set_file name content fs = filter (\<lambda>e. fst e \<noteq> name) fs @ [(name, content)]"

fun capture_runtime :: "'w os \<Rightarrow> 'w storage \<Rightarrow> string list \<Rightarrow> (string \<times> string) list \<Rightarrow> ('w, (string \<times> string) list) act" where
  "capture_runtime os s [] fs = ret fs"
| "capture_runtime os s (name # ns) fs =
     tryE (readPrivate os (Join (st_runtime s) name) (st_uid s) maxFile) (\<lambda>r. case r of
       Inl e \<Rightarrow> if errors_is e ErrNotExist then capture_runtime os s ns fs else fail e
     | Inr content \<Rightarrow> capture_runtime os s ns (set_file name content fs))"

text \<open>
  The walk over the bonds. The callback counts the entries and gets the components below the
  root; a directory is entered, skipped, or an error stops the walk. \<^verbatim>\<open>filepath.WalkDir\<close> calls it
  before reading a directory, and again with the error when the reading fails. \<open>depth\<close> bounds the
  recursion: a directory of three components is never entered, so three are enough.
\<close>

record walk_state =
  ws_entries :: nat
  ws_files :: "(string \<times> string) list"

datatype visit = Descend | Skip

definition bond_file :: "string list \<Rightarrow> bool" where
  "bond_file parts \<longleftrightarrow> length parts = 3 \<and> addressPattern (parts ! 0) \<and> addressPattern (parts ! 1) \<and>
     (parts ! 2 = ''info'' \<or> parts ! 2 = ''attributes'')"

definition suspicious_link :: "string list \<Rightarrow> bool" where
  "suspicious_link parts \<longleftrightarrow> (length parts \<le> 2 \<and> addressPattern (last parts)) \<or>
     (length parts = 3 \<and> (parts ! 2 = ''info'' \<or> parts ! 2 = ''attributes''))"

definition slashed :: "string list \<Rightarrow> string" where
  "slashed parts = concat (List.map (\<lambda>p. p @ ''/'') (butlast parts)) @ last parts"

definition visit_bond :: "'w os \<Rightarrow> 'w storage \<Rightarrow> string list \<Rightarrow> dir_entry \<Rightarrow> walk_state \<Rightarrow> ('w, visit \<times> walk_state) act" where
  "visit_bond os s parts item ws = (let ws = ws\<lparr>ws_entries := ws_entries ws + 1\<rparr> in
     if 512 < ws_entries ws then fail (Errorf ''PERSIST_BONDS_SCAN_FAILED'')
     else if parts = [] then ret (Descend, ws)
     else if de_symlink item \<and> suspicious_link parts then fail (Errorf ''PERSIST_BONDS_PATH_UNSAFE'')
     else if de_dir item then
       (if 2 < length parts \<or> \<not> addressPattern (last parts) then ret (Skip, ws)
        else seqE (trustedParents os (st_bonds s @ parts) (st_uid s)) (ret (Descend, ws)))
     else if \<not> bond_file parts then ret (Descend, ws)
     else bindE (readPrivate os (st_bonds s @ parts) (st_uid s) maxFile) (\<lambda>content.
       let name = ''bluetooth/'' @ slashed parts in
       seqE (liftE (validateFile name content))
         (let fs = set_file name content (ws_files ws) in
          if maxFiles < length fs then fail (Errorf ''PERSIST_STATE_LIMIT'')
          else ret (Descend, ws\<lparr>ws_files := fs\<rparr>))))"

fun walk_bonds :: "nat \<Rightarrow> 'w os \<Rightarrow> 'w storage \<Rightarrow> string list \<Rightarrow> dir_entry \<Rightarrow> walk_state \<Rightarrow> ('w, walk_state) act"
  and walk_entries :: "nat \<Rightarrow> 'w os \<Rightarrow> 'w storage \<Rightarrow> string list \<Rightarrow> dir_entry list \<Rightarrow> walk_state \<Rightarrow> ('w, walk_state) act" where
  "walk_bonds depth os s parts item ws =
     bindE (visit_bond os s parts item ws) (\<lambda>(v, ws).
       if v = Skip \<or> \<not> de_dir item then ret ws
       else case depth of 0 \<Rightarrow> fail OutOfFuel | Suc d \<Rightarrow>
         tryE (os_ReadDir os (st_bonds s @ parts)) (\<lambda>items. case items of
           Inl _ \<Rightarrow> fail (Errorf ''PERSIST_BONDS_SCAN_FAILED'')
         | Inr items \<Rightarrow> walk_entries d os s parts items ws))"
| "walk_entries depth os s parts [] ws = ret ws"
| "walk_entries depth os s parts (item # items) ws =
     bindE (walk_bonds depth os s (parts @ [de_name item]) item ws) (\<lambda>ws.
       walk_entries depth os s parts items ws)"

definition capture :: "'w os \<Rightarrow> 'w storage \<Rightarrow> wifi_profile option \<Rightarrow> ('w, state_snapshot) act" where
  "capture os s wifi =
     bindE (capture_runtime os s runtime_names []) (\<lambda>fs.
     seqE (trustedParents os (st_bonds s) (st_uid s))
    (bindE (tryE (os_Lstat os (st_bonds s)) (\<lambda>info. case info of
        Inl _ \<Rightarrow> fail (Errorf ''PERSIST_BONDS_SCAN_FAILED'')
      | Inr info \<Rightarrow> walk_bonds 3 os s [] \<lparr>de_name = [], de_dir = fi_dir info, de_symlink = fi_symlink info\<rparr>
          \<lparr>ws_entries = 0, ws_files = fs\<rparr>)) (\<lambda>ws.
     let st = \<lparr>Version = 1, WiFi = wifi, Files = Some (ws_files ws)\<rparr> in
     seqE (liftE (validateStateSnapshot st)) (ret st))))"

subsection \<open>Interrupted writes\<close>

definition clean_entry :: "'w os \<Rightarrow> 'w storage \<Rightarrow> dir_entry \<Rightarrow> ('w, unit) act" where
  "clean_entry os s item = (if \<not> HasPrefix (de_name item) ''.state-'' then ret ()
     else (let path = Join (st_root s) (de_name item) in
       bindE (codeE ''PERSIST_INTERRUPTED_FILE_UNSAFE'' (os_Lstat os path)) (\<lambda>info.
       seqE (checkE (fi_regular info \<and> fi_uid info = st_uid s \<and> fi_nlink info = 1 \<and> fi_perm info = 0x180 \<and>
               fi_size info \<le> maxSnapshot) (Errorf ''PERSIST_INTERRUPTED_FILE_UNSAFE''))
         (codeE ''PERSIST_INTERRUPTED_CLEANUP_FAILED'' (os_Remove os path)))))"

definition cleanInterruptedWrites :: "'w os \<Rightarrow> 'w storage \<Rightarrow> ('w, unit) act" where
  "cleanInterruptedWrites os s = tryE (os_ReadDir os (st_root s)) (\<lambda>entries. case entries of
     Inl _ \<Rightarrow> fail (Errorf ''PERSIST_STORE_SCAN_FAILED'')
   | Inr entries \<Rightarrow> if 256 < length entries then fail (Errorf ''PERSIST_STORE_SCAN_FAILED'')
       else forE entries (clean_entry os s))"

subsection \<open>Restoring\<close>

definition restore_file :: "'w os \<Rightarrow> 'w storage \<Rightarrow> string \<times> string \<Rightarrow> ('w, unit) act" where
  "restore_file os s = (\<lambda>(name, content).
     if HasPrefix name ''bluetooth/'' then
       (let parts = split_on CHR ''/'' name;
            adapter = Join (st_bonds s) (parts ! 1); peer = Join adapter (parts ! 2)
        in seqE (ensurePrivateDirectory os adapter (st_uid s))
          (seqE (ensurePrivateDirectory os peer (st_uid s))
            (atomicPrivate os (Join peer (parts ! 3)) content (st_uid s) None)))
     else atomicPrivate os (Join (st_runtime s) name) content (st_uid s) None)"

definition restore :: "'w os \<Rightarrow> 'w storage \<Rightarrow> state_snapshot \<Rightarrow> ('w, unit) act" where
  "restore os s st =
     seqE (liftE (validateStateSnapshot st))
    (tryE (os_ReadDir os (st_bonds s)) (\<lambda>entries.
     seqE (checkE (entries = Inr []) (Errorf ''PERSIST_RESTORE_TARGET_NOT_EMPTY''))
    (seqE (trustedParents os (st_bonds s) (st_uid s))
       (forE (case Files st of None \<Rightarrow> [] | Some fs \<Rightarrow> fs) (restore_file os s)))))"

end
