(* ===== verification/Persist_Crash.thy ===== *)
theory Persist_Crash
  imports Persist_Store
begin

text \<open>
  What a power cut can do to the stored snapshot. The file system is a locale that says which
  contents the snapshot file may be found with after a cut; a cut at some point is a run whose
  later operations all fail. The locale is interpreted on a file system in memory.
\<close>

subsection \<open>The contract of a file system\<close>

text \<open>
  \<open>visible w\<close> is the content of the target that a reader gets, \<open>outcomes w\<close> the contents it may
  have after a power cut. \<open>temp w fd p c\<close> says that \<open>fd\<close> is open on a new file \<open>p\<close> holding \<open>c\<close>,
  \<open>ready w p c\<close> that \<open>p\<close> holds \<open>c\<close> and that this was synced, \<open>whole w\<close> that the target's visible
  content was synced, \<open>dir_open\<close> and \<open>target_open\<close> that a
  handle is open on the target's directory and on the target. A rename may have taken place
  although it reports an error, and is durable only once the directory is synced.
\<close>

locale crash_store =
  fixes os :: "'w os" and T :: path
    and outcomes :: "'w \<Rightarrow> string option set" and visible :: "'w \<Rightarrow> string option"
    and temp :: "'w \<Rightarrow> nat \<Rightarrow> path \<Rightarrow> string \<Rightarrow> bool" and ready :: "'w \<Rightarrow> path \<Rightarrow> string \<Rightarrow> bool"
    and whole :: "'w \<Rightarrow> bool"
    and dir_open :: "'w \<Rightarrow> nat \<Rightarrow> path \<Rightarrow> bool" and target_open :: "'w \<Rightarrow> nat \<Rightarrow> bool"
  assumes lstat: "same (\<lambda>w. (outcomes w, visible w)) (os_Lstat os p)"
    and mkdir: "same (\<lambda>w. (outcomes w, visible w)) (os_Mkdir os p perm)"
    and read_dir: "same (\<lambda>w. (outcomes w, visible w)) (os_ReadDir os p)"
    and opens: "same (\<lambda>w. (outcomes w, visible w)) (os_Open os p)"
    and open_target: "os_Open os T w = (Inr fd, w') \<Longrightarrow> target_open w' fd"
    and stat: "same (\<lambda>w. (outcomes w, visible w, target_open w)) (os_Stat os fd)"
    and read_all: "same (\<lambda>w. (outcomes w, visible w)) (os_ReadAll os fd n)"
    and read_target: "os_ReadAll os fd n w = (Inr content, w') \<Longrightarrow> target_open w fd \<Longrightarrow>
      \<exists>c. visible w = Some c \<and> content = take n c"
    and create: "same (\<lambda>w. (outcomes w, visible w)) (os_CreateTemp os p ''.state-'')"
    and create_temp: "os_CreateTemp os (Dir T) ''.state-'' w = (Inr (fd, name), w') \<Longrightarrow>
      temp w' fd (Join (Dir T) name) [] \<and> Join (Dir T) name \<noteq> T"
    and write_temp: "os_Write os fd x w = (r, w') \<Longrightarrow> temp w fd p c \<Longrightarrow>
      outcomes w' = outcomes w \<and> visible w' = visible w \<and> (r = Inr () \<longrightarrow> temp w' fd p (c @ x))"
    and sync_temp: "os_Sync os fd w = (r, w') \<Longrightarrow> temp w fd p c \<Longrightarrow>
      outcomes w' = outcomes w \<and> visible w' = visible w \<and> (r = Inr () \<longrightarrow> ready w' p c)"
    and closes: "same (\<lambda>w. (outcomes w, visible w, ready w)) (os_Close os fd)"
    and rename_target: "os_Rename os p T w = (r, w') \<Longrightarrow> ready w p c \<Longrightarrow>
      outcomes w' \<subseteq> insert (Some c) (outcomes w) \<and> (visible w' = Some c \<and> whole w' \<or> (\<exists>e. r = Inl e) \<and> visible w' = visible w)"
    and open_dir: "same (\<lambda>w. (outcomes w, visible w, whole w)) (os_OpenDir os p)"
    and open_target_dir: "os_OpenDir os p w = (Inr fd, w') \<Longrightarrow> dir_open w' fd p"
    and sync_dir: "os_Sync os fd w = (r, w') \<Longrightarrow> dir_open w fd p \<Longrightarrow>
      outcomes w' \<subseteq> outcomes w \<and> visible w' = visible w \<and> (r = Inr () \<and> p = Dir T \<and> whole w \<longrightarrow> outcomes w' = {visible w'})"
    and removes: "p \<noteq> T \<Longrightarrow> same (\<lambda>w. (outcomes w, visible w)) (os_Remove os p)"
begin

text \<open>Nothing but the old contents and the new one \<open>x\<close> can be found, before or after a cut.\<close>

definition old_or_new :: "string option set \<Rightarrow> string option \<Rightarrow> string \<Rightarrow> 'w \<Rightarrow> bool" where
  "old_or_new W V x w \<longleftrightarrow> outcomes w \<subseteq> insert (Some x) W \<and> (visible w = V \<or> visible w = Some x)"

definition stored :: "string \<Rightarrow> 'w \<Rightarrow> bool" where
  "stored x w \<longleftrightarrow> outcomes w = {Some x} \<and> visible w = Some x"

lemma stored_new: "stored x w \<Longrightarrow> old_or_new W V x w"
  by (simp add: stored_def old_or_new_def)

text \<open>What may only become more certain.\<close>

definition shrinks :: "('w \<Rightarrow> bool) \<Rightarrow> bool" where
  "shrinks P \<longleftrightarrow> (\<forall>w w'. P w \<longrightarrow> outcomes w' \<subseteq> outcomes w \<longrightarrow> visible w' = visible w \<longrightarrow> P w')"

lemma shrinks_states [simp]: "shrinks (old_or_new W V x)" "shrinks (\<lambda>w. outcomes w \<subseteq> W \<and> visible w = V)"
  by (auto simp: shrinks_def old_or_new_def)

lemma quiet_keeps:
  assumes "same (\<lambda>w. (outcomes w, visible w)) m"
  shows "shrinks P \<Longrightarrow> keeps P m" "keeps (stored x) m"
  using assms by (auto intro!: keepsI simp: same_def stored_def shrinks_def)

lemma close_quiet: "same (\<lambda>w. (outcomes w, visible w)) (os_Close os fd)"
  using closes by (simp add: same_def)

lemma stat_quiet: "same (\<lambda>w. (outcomes w, visible w)) (os_Stat os fd)"
  using stat by (simp add: same_def)

lemma open_dir_quiet: "same (\<lambda>w. (outcomes w, visible w)) (os_OpenDir os fd)"
  using open_dir by (simp add: same_def)

lemmas quiet_ops = quiet_keeps [OF lstat] quiet_keeps [OF mkdir] quiet_keeps [OF opens] quiet_keeps [OF stat_quiet]
  quiet_keeps [OF read_all] quiet_keeps [OF create] quiet_keeps [OF close_quiet] quiet_keeps [OF open_dir_quiet]
  quiet_keeps [OF read_dir]

lemma codeE_keeps: "keeps I m \<Longrightarrow> keeps I (codeE c m)"
  unfolding codeE_def by (intro keeps_rules)

lemma missing_or_keeps: "keeps I m \<Longrightarrow> keeps I (missing_or c m)"
  unfolding missing_or_def by (intro keeps_rules)

lemma trustedParents_keeps:
  assumes "shrinks P"
  shows "keeps P (trustedParents os p uid)"
proof (induction p rule: length_induct)
  case (1 p)
  show ?case
    by (subst trustedParents.simps)
       (intro keeps_rules codeE_keeps quiet_ops assms, use 1 in \<open>auto simp: Dir_def intro!: keeps_ret\<close>)
qed

lemma readPrivate_keeps: "shrinks P \<Longrightarrow> keeps P (readPrivate os p uid limit)"
  unfolding readPrivate_def readOpened_def
  by (intro keeps_rules trustedParents_keeps codeE_keeps missing_or_keeps quiet_ops)

text \<open>Syncing a directory only commits; syncing the target's makes what is visible durable.\<close>

lemma codeE_triple:
  assumes "triple P m Q (\<lambda>_. R)"
  shows "triple P (codeE c m) Q (\<lambda>_. R)"
  unfolding codeE_def
proof (rule triple_tryE [where R = "\<lambda>r. case r of Inl _ \<Rightarrow> R | Inr y \<Rightarrow> Q y"])
  show "triple P m (\<lambda>y. case Inr y of Inl _ \<Rightarrow> R | Inr y \<Rightarrow> Q y) (\<lambda>e. case Inl e of Inl _ \<Rightarrow> R | Inr y \<Rightarrow> Q y)"
    using assms by simp
  show "triple (case r of Inl _ \<Rightarrow> R | Inr y \<Rightarrow> Q y) (case r of Inl _ \<Rightarrow> fail (Errorf c) | Inr y \<Rightarrow> ret y) Q (\<lambda>_. R)" for r
    by (cases r) (auto intro: triple_fail triple_ret)
qed

lemma sync_step:
  "shrinks P \<Longrightarrow> triple (\<lambda>w. P w \<and> dir_open w fd p) (os_Sync os fd) (\<lambda>_. P) (\<lambda>_. P)"
  "triple (\<lambda>w. (old_or_new W V x w \<and> visible w = Some x \<and> whole w) \<and> dir_open w fd (Dir T)) (os_Sync os fd) (\<lambda>_. stored x) (\<lambda>_. old_or_new W V x)"
  by (rule tripleI; use sync_dir in \<open>fastforce simp: old_or_new_def stored_def shrinks_def\<close>)+

lemma open_dir_step:
  assumes "\<And>w w'. (outcomes w', visible w', whole w') = (outcomes w, visible w, whole w) \<Longrightarrow> P w \<Longrightarrow> P w'"
  shows "triple P (codeE c (os_OpenDir os p)) (\<lambda>fd w. P w \<and> dir_open w fd p) (\<lambda>_. P)"
proof (rule codeE_triple, rule tripleI)
  show "P t" if "P w" "os_OpenDir os p w = (Inl e, t)" for w e t
    using that assms [of t w] sameD [OF open_dir that(2)] by simp
  show "P t \<and> dir_open t fd p" if "P w" "os_OpenDir os p w = (Inr fd, t)" for w fd t
    using that assms [of t w] sameD [OF open_dir that(2)] open_target_dir [OF that(2)] by simp
qed

lemma syncDirectory_keeps: "shrinks P \<Longrightarrow> keeps P (syncDirectory os p)"
  unfolding syncDirectory_def
proof (rule triple_bindE [OF open_dir_step])
  assume P: "shrinks P"
  show "P w'" if "(outcomes w', visible w', whole w') = (outcomes w, visible w, whole w)" "P w" for w w'
    using that P unfolding shrinks_def by (metis Pair_inject order_refl)
  show "triple (\<lambda>w. P w \<and> dir_open w fd p) (finallyE (codeE ''PERSIST_SYNC_FAILED'' (os_Sync os fd)) (os_Close os fd))
      (\<lambda>_. P) (\<lambda>_. P)" for fd
    by (rule triple_finallyE [OF codeE_triple [OF sync_step(1) [OF P]]]) (rule quiet_ops(13) [OF P])+
qed

lemma syncDirectory_stores:
  "triple (\<lambda>w. old_or_new W V x w \<and> visible w = Some x \<and> whole w) (syncDirectory os (Dir T)) (\<lambda>_. stored x) (\<lambda>_. old_or_new W V x)"
  unfolding syncDirectory_def
proof (rule triple_bindE [where R = "\<lambda>fd w. (old_or_new W V x w \<and> visible w = Some x \<and> whole w) \<and> dir_open w fd (Dir T)"])
  show "triple (\<lambda>w. old_or_new W V x w \<and> visible w = Some x \<and> whole w) (codeE ''PERSIST_SYNC_FAILED'' (os_OpenDir os (Dir T)))
      (\<lambda>fd w. (old_or_new W V x w \<and> visible w = Some x \<and> whole w) \<and> dir_open w fd (Dir T)) (\<lambda>_. old_or_new W V x)"
    by (rule triple_conseq [OF open_dir_step [where P = "\<lambda>w. old_or_new W V x w \<and> visible w = Some x \<and> whole w"]])
       (auto simp: old_or_new_def)
  show "triple (\<lambda>w. (old_or_new W V x w \<and> visible w = Some x \<and> whole w) \<and> dir_open w fd (Dir T))
      (finallyE (codeE ''PERSIST_SYNC_FAILED'' (os_Sync os fd)) (os_Close os fd)) (\<lambda>_. stored x) (\<lambda>_. old_or_new W V x)" for fd
    by (rule triple_finallyE [OF codeE_triple [OF sync_step(2)]]) (rule quiet_ops shrinks_states)+
qed

lemma ensurePrivateDirectory_keeps: "shrinks P \<Longrightarrow> keeps P (ensurePrivateDirectory os p uid)"
  unfolding ensurePrivateDirectory_def syncDirectory_def [symmetric]
  by (intro keeps_rules trustedParents_keeps codeE_keeps quiet_ops syncDirectory_keeps)

text \<open>A replacement that succeeds is durable; one that fails leaves the old content or the new.\<close>

lemma replaceBy_stores:
  assumes hook: "\<And>h. hook = Some h \<Longrightarrow> same (\<lambda>w. (outcomes w, visible w, ready w)) h"
  shows "triple (\<lambda>w. old_or_new W V x w \<and> temp w fd (Join (Dir T) name) []) (replaceBy os T x hook fd name)
    (\<lambda>_. stored x) (\<lambda>_. old_or_new W V x)"
proof -
  let ?p = "Join (Dir T) name" and ?G = "old_or_new W V x"
  have w: "triple (\<lambda>w. ?G w \<and> temp w fd ?p []) (os_Write os fd x) (\<lambda>_ w. ?G w \<and> temp w fd ?p x) (\<lambda>_. ?G)"
    by (rule tripleI; use write_temp [where c = "[]"] in \<open>fastforce simp: old_or_new_def\<close>)
  have s: "triple (\<lambda>w. ?G w \<and> temp w fd ?p x) (os_Sync os fd) (\<lambda>_ w. ?G w \<and> ready w ?p x) (\<lambda>_. ?G)"
    by (rule tripleI; use sync_temp in \<open>fastforce simp: old_or_new_def\<close>)
  have quiet: "triple (\<lambda>w. ?G w \<and> ready w ?p x) m (\<lambda>_ w. ?G w \<and> ready w ?p x) (\<lambda>_. ?G)"
    if "same (\<lambda>w. (outcomes w, visible w, ready w)) m" for m :: "('w, unit) act"
    by (rule tripleI; use sameD [OF that] in \<open>fastforce simp: old_or_new_def\<close>)
  have r: "triple (\<lambda>w. ?G w \<and> ready w ?p x) (os_Rename os ?p T) (\<lambda>_ w. ?G w \<and> visible w = Some x \<and> whole w) (\<lambda>_. ?G)"
    by (rule tripleI; use rename_target [of ?p _ _ _ x] in \<open>fastforce simp: old_or_new_def\<close>)
  have h: "triple (\<lambda>w. ?G w \<and> ready w ?p x) (case hook of None \<Rightarrow> ret () | Some h \<Rightarrow> h) (\<lambda>_ w. ?G w \<and> ready w ?p x) (\<lambda>_. ?G)"
    by (cases hook) (auto intro: triple_ret quiet hook)
  show ?thesis
    unfolding replaceBy_def blockE.simps
    by (rule triple_seqE [OF codeE_triple [OF w]], rule triple_seqE [OF codeE_triple [OF s]],
        rule triple_seqE [OF codeE_triple [OF quiet [OF closes]]], rule triple_seqE [OF h],
        rule triple_seqE [OF codeE_triple [OF r]], rule triple_seqE [OF syncDirectory_stores], rule triple_ret)
qed

end

context crash_store begin

lemma atomicPrivate_stores:
  assumes hook: "\<And>h. hook = Some h \<Longrightarrow> same (\<lambda>w. (outcomes w, visible w, ready w)) h"
  shows "triple (old_or_new W V x) (atomicPrivate os T x uid hook) (\<lambda>_. stored x) (\<lambda>_. old_or_new W V x)"
proof -
  let ?G = "old_or_new W V x"
  have old: "keeps ?G (tryE (readPrivate os T uid maxSnapshot) (\<lambda>old. case old of
             Inl e \<Rightarrow> if errors_is e ErrNotExist then ret () else fail e | Inr _ \<Rightarrow> ret ()))"
    by (intro keeps_rules readPrivate_keeps shrinks_states)
  have make: "triple ?G (codeE ''PERSIST_WRITE_FAILED'' (os_CreateTemp os (Dir T) ''.state-''))
      (\<lambda>t w. ?G w \<and> temp w (fst t) (Join (Dir T) (snd t)) [] \<and> Join (Dir T) (snd t) \<noteq> T) (\<lambda>_. ?G)"
  proof (rule codeE_triple, rule tripleI)
    show "?G t" if "?G w" "os_CreateTemp os (Dir T) ''.state-'' w = (Inl e, t)" for w e t
      using that sameD [OF create that(2)] by (simp add: old_or_new_def)
    show "?G t \<and> temp t (fst f) (Join (Dir T) (snd f)) [] \<and> Join (Dir T) (snd f) \<noteq> T"
      if "?G w" "os_CreateTemp os (Dir T) ''.state-'' w = (Inr f, t)" for w f t
      using that sameD [OF create that(2)] create_temp [of w "fst f" "snd f" t] by (simp add: old_or_new_def)
  qed
  have rest: "triple (\<lambda>w. ?G w \<and> temp w fd (Join (Dir T) name) [] \<and> Join (Dir T) name \<noteq> T)
      (finallyE (finallyE (replaceBy os T x hook fd name) (os_Close os fd)) (os_Remove os (Join (Dir T) name)))
      (\<lambda>_. stored x) (\<lambda>_. ?G)" for fd name
  proof (cases "Join (Dir T) name = T")
    case True
    then show ?thesis by (simp add: triple_def)
  next
    case False
    note quiet_keeps [OF removes [OF False]]
    with False replaceBy_stores [OF hook] show ?thesis
      by (intro triple_finallyE [where Q' = "\<lambda>_. stored x" and E' = "\<lambda>_. ?G"])
         (auto intro!: triple_finallyE [where Q' = "\<lambda>_. stored x" and E' = "\<lambda>_. ?G"] quiet_ops)
  qed
  show ?thesis
    unfolding atomicPrivate_def
    by (rule triple_seqE [OF trustedParents_keeps [OF shrinks_states(1)]], rule triple_seqE [OF old], rule triple_bindE [OF make])
       (simp add: split_beta rest)
qed

text \<open>A checked read of the target returns its whole visible content.\<close>

lemma readPrivate_visible:
  "triple (\<lambda>w. visible w = V) (readPrivate os T uid limit) (\<lambda>c w. visible w = V \<and> V = Some c) (\<lambda>_ w. visible w = V)"
proof -
  have v: "keeps (\<lambda>w. visible w = V) m" if "same (\<lambda>w. (outcomes w, visible w)) m" for m :: "('w, 'b) act"
    using that by (auto intro!: keepsI simp: same_def)
  have tp: "keeps (\<lambda>w. visible w = V) (trustedParents os p uid)" for p
  proof (induction p rule: length_induct)
    case (1 p)
    show ?case
      by (subst trustedParents.simps)
         (intro keeps_rules codeE_keeps v [OF lstat], use 1 in \<open>auto simp: Dir_def intro!: keeps_ret\<close>)
  qed
  have op: "triple (\<lambda>w. visible w = V) (missing_or c (os_Open os T)) (\<lambda>fd w. visible w = V \<and> target_open w fd) (\<lambda>_ w. visible w = V)" for c
    unfolding missing_or_def
  proof (rule triple_tryE [where R = "\<lambda>r w. visible w = V \<and> (\<forall>fd. r = Inr fd \<longrightarrow> target_open w fd)"])
    show "triple (\<lambda>w. visible w = V) (os_Open os T) (\<lambda>x w. visible w = V \<and> (\<forall>fd. Inr x = Inr fd \<longrightarrow> target_open w fd))
        (\<lambda>e w. visible w = V \<and> (\<forall>fd. Inl e = Inr fd \<longrightarrow> target_open w fd))"
      by (rule tripleI) (use sameD [OF opens] open_target in \<open>fastforce+\<close>)
    show "triple (\<lambda>w. visible w = V \<and> (\<forall>fd. r = Inr fd \<longrightarrow> target_open w fd))
        (case r of Inl e \<Rightarrow> fail (if errors_is e ErrNotExist then Sentinel ErrNotExist else Errorf c) | Inr x \<Rightarrow> ret x)
        (\<lambda>fd w. visible w = V \<and> target_open w fd) (\<lambda>_ w. visible w = V)" for r
      by (cases r) (auto intro: triple_fail triple_ret)
  qed
  have st: "keeps (\<lambda>w. visible w = V \<and> target_open w fd) (codeE c (os_Stat os fd))" for fd c
    by (rule codeE_keeps) (use stat in \<open>auto intro!: keepsI simp: same_def\<close>)
  have rd: "triple (\<lambda>w. visible w = V \<and> target_open w fd) (readOpened os fd uid limit before)
      (\<lambda>c w. visible w = V \<and> V = Some c) (\<lambda>_ w. visible w = V)" for fd before
    unfolding readOpened_def
  proof (rule triple_bindE, rule triple_conseq [OF st], assumption, assumption, blast,
      rule triple_seqE, rule triple_conseq [OF keeps_checkE], assumption, assumption, blast)
    fix info
    show "triple (\<lambda>w. visible w = V \<and> target_open w fd)
      (tryE (os_ReadAll os fd (limit + 1)) (\<lambda>content. tryE (os_Stat os fd) (\<lambda>after. case (content, after) of
       (Inr content, Inr after) \<Rightarrow>
         if limit < length content \<or> length content \<noteq> fi_size info \<or> fi_size after \<noteq> fi_size info \<or>
            fi_mtime after \<noteq> fi_mtime info
         then fail (Errorf ''PERSIST_FILE_CHANGED'') else ret content
     | _ \<Rightarrow> fail (Errorf ''PERSIST_FILE_CHANGED'')))) (\<lambda>c w. visible w = V \<and> V = Some c) (\<lambda>_ w. visible w = V)"
    proof (rule triple_tryE [where R = "\<lambda>r w. visible w = V \<and> (\<forall>c. r = Inr c \<longrightarrow> (\<exists>v. V = Some v \<and> c = take (limit + 1) v))"])
      show "triple (\<lambda>w. visible w = V \<and> target_open w fd) (os_ReadAll os fd (limit + 1))
          (\<lambda>x w. visible w = V \<and> (\<forall>c. Inr x = Inr c \<longrightarrow> (\<exists>v. V = Some v \<and> c = take (limit + 1) v)))
          (\<lambda>e w. visible w = V \<and> (\<forall>c. Inl e = Inr c \<longrightarrow> (\<exists>v. V = Some v \<and> c = take (limit + 1) v)))"
        by (rule tripleI) (use sameD [OF read_all] read_target in \<open>fastforce+\<close>)
      fix content :: "go_error + string"
      let ?R = "\<lambda>w. visible w = V \<and> (\<forall>c. content = Inr c \<longrightarrow> (\<exists>v. V = Some v \<and> c = take (limit + 1) v))"
      have "keeps ?R (os_Stat os fd)" using stat by (auto intro!: keepsI simp: same_def)
      then show "triple ?R (tryE (os_Stat os fd) (\<lambda>after. case (content, after) of
       (Inr content, Inr after) \<Rightarrow>
         if limit < length content \<or> length content \<noteq> fi_size info \<or> fi_size after \<noteq> fi_size info \<or>
            fi_mtime after \<noteq> fi_mtime info
         then fail (Errorf ''PERSIST_FILE_CHANGED'') else ret content
     | _ \<Rightarrow> fail (Errorf ''PERSIST_FILE_CHANGED''))) (\<lambda>c w. visible w = V \<and> V = Some c) (\<lambda>_ w. visible w = V)"
        by (rule triple_tryE [where R = "\<lambda>_. ?R"])
           (auto split: sum.splits if_splits intro!: triple_fail triple_ret)
    qed
  qed
  show ?thesis
    unfolding readPrivate_def
    by (rule triple_seqE [OF tp], rule triple_bindE [OF missing_or_keeps [OF v [OF lstat]]],
        rule triple_seqE [OF keeps_checkE], rule triple_bindE [OF op],
        rule triple_finallyE [OF rd]; use close_quiet in \<open>auto intro!: keepsI simp: same_def\<close>)
qed

end

context crash_store begin

text \<open>
  Saving: an error leaves the old content or the new, and success means that the new content is
  visible, and durable unless it was visible before.
\<close>

lemma store_save_outcome:
  assumes T: "T = state_path s"
    and check: "same (\<lambda>w. (outcomes w, visible w)) (st_check s)"
    and hook: "\<And>h. st_beforeMove s = Some h \<Longrightarrow> same (\<lambda>w. (outcomes w, visible w, ready w)) h"
    and x: "encodeSnapshot jc st = Inr x"
  shows "triple (\<lambda>w. outcomes w \<subseteq> W \<and> visible w = V) (store_save os jc s st)
    (\<lambda>_ w. stored x w \<or> V = Some x \<and> visible w = Some x \<and> outcomes w \<subseteq> W) (\<lambda>_. old_or_new W V x)"
proof -
  let ?P = "\<lambda>w. outcomes w \<subseteq> W \<and> visible w = V" and ?G = "old_or_new W V x"
  let ?Q = "\<lambda>w. stored x w \<or> V = Some x \<and> visible w = Some x \<and> outcomes w \<subseteq> W"
  have G: "?P w \<Longrightarrow> ?G w" for w by (auto simp: old_or_new_def)
  have start: "triple ?P m (\<lambda>_. ?P) (\<lambda>_. ?G)" if "keeps ?P m" for m :: "('w, 'a) act"
    by (rule triple_conseq [OF that]) (simp_all add: G)
  have at: "triple ?P (atomicPrivate os T x (st_uid s) (st_beforeMove s)) (\<lambda>_. ?Q) (\<lambda>_. ?G)"
    by (rule triple_conseq [OF atomicPrivate_stores [OF hook]]) (simp_all add: G)
  have read: "triple ?P (readPrivate os T (st_uid s) maxSnapshot) (\<lambda>c w. ?P w \<and> V = Some c) (\<lambda>_. ?P)"
    by (rule tripleI; use readPrivate_visible [THEN tripleD_value] readPrivate_visible [THEN tripleD_error]
        readPrivate_keeps [OF shrinks_states(2), THEN tripleD_value] readPrivate_keeps [OF shrinks_states(2), THEN tripleD_error] in metis)
  have body: "triple ?P (tryE (readPrivate os T (st_uid s) maxSnapshot) (\<lambda>old. case old of
       Inr old \<Rightarrow> (case decodeSnapshot jc old of
           Inl e \<Rightarrow> fail e
         | Inr _ \<Rightarrow> if old = x then ret () else atomicPrivate os T x (st_uid s) (st_beforeMove s))
     | Inl e \<Rightarrow> if errors_is e ErrNotExist then atomicPrivate os T x (st_uid s) (st_beforeMove s) else fail e))
     (\<lambda>_. ?Q) (\<lambda>_. ?G)"
  proof (rule triple_tryE [where R = "\<lambda>r w. ?P w \<and> (\<forall>c. r = Inr c \<longrightarrow> V = Some c)"])
    show "triple ?P (readPrivate os T (st_uid s) maxSnapshot) (\<lambda>c w. ?P w \<and> (\<forall>c'. Inr c = Inr c' \<longrightarrow> V = Some c'))
        (\<lambda>e w. ?P w \<and> (\<forall>c'. Inl e = Inr c' \<longrightarrow> V = Some c'))"
      by (rule triple_conseq [OF read]) auto
    fix old :: "go_error + string"
    show "triple (\<lambda>w. ?P w \<and> (\<forall>c. old = Inr c \<longrightarrow> V = Some c)) (case old of
       Inr old \<Rightarrow> (case decodeSnapshot jc old of
           Inl e \<Rightarrow> fail e
         | Inr _ \<Rightarrow> if old = x then ret () else atomicPrivate os T x (st_uid s) (st_beforeMove s))
     | Inl e \<Rightarrow> if errors_is e ErrNotExist then atomicPrivate os T x (st_uid s) (st_beforeMove s) else fail e)
     (\<lambda>_. ?Q) (\<lambda>_. ?G)"
    proof (cases old)
      case (Inl e)
      then show ?thesis by (auto intro!: triple_fail triple_conseq [OF at] simp: old_or_new_def)
    next
      case (Inr c)
      then show ?thesis
        by (auto split: sum.split intro!: triple_fail triple_ret triple_conseq [OF at] simp: old_or_new_def)
    qed
  qed
  show ?thesis
    unfolding store_save_def T [symmetric] x
    by (rule triple_seqE [OF start [OF quiet_keeps(1) [OF check shrinks_states(2)]]],
        rule triple_seqE [OF start [OF keeps_liftE]],
        rule triple_seqE [OF start [OF ensurePrivateDirectory_keeps [OF shrinks_states(2)]]],
        rule triple_bindE [where R = "\<lambda>y w. y = x \<and> ?P w"], rule triple_liftE)
       (auto intro!: triple_pure_conj body)
qed

text \<open>A snapshot that is invalid or that cannot be encoded changes nothing.\<close>

lemma store_save_refused:
  assumes check: "same (\<lambda>w. (outcomes w, visible w)) (st_check s)"
    and bad: "validateStateSnapshot st \<noteq> Inr () \<or> (\<exists>e. encodeSnapshot jc st = Inl e)"
  shows "triple (\<lambda>w. outcomes w \<subseteq> W \<and> visible w = V) (store_save os jc s st) (\<lambda>_ _. False)
    (\<lambda>_ w. outcomes w \<subseteq> W \<and> visible w = V)"
proof -
  let ?P = "\<lambda>w. outcomes w \<subseteq> W \<and> visible w = V"
  show ?thesis
    unfolding store_save_def
  proof (rule triple_seqE [OF quiet_keeps(1) [OF check shrinks_states(2)]], rule triple_seqE, rule triple_liftE)
    show "?P w \<Longrightarrow> validateStateSnapshot st = Inr y \<Longrightarrow> ?P w \<and> (\<exists>e. encodeSnapshot jc st = Inl e)" for w y
      using bad by auto
    show "triple (\<lambda>w. ?P w \<and> (\<exists>e. encodeSnapshot jc st = Inl e))
        (seqE (ensurePrivateDirectory os (st_root s) (st_uid s)) (bindE (liftE (encodeSnapshot jc st)) f)) (\<lambda>_ _. False) (\<lambda>_. ?P)" for f
    proof (cases "encodeSnapshot jc st")
      case (Inl e)
      have "triple ?P (bindE (liftE (Inl e)) f) (\<lambda>_ _. False) (\<lambda>_. ?P)"
        by (rule triple_bindE [where R = "\<lambda>_ _. False"]) (auto intro: triple_liftE simp: triple_def)
      with Inl show ?thesis
        by (auto intro!: triple_seqE [OF ensurePrivateDirectory_keeps [OF shrinks_states(2)]])
    qed (simp add: triple_def)
  qed
qed

lemma store_save_decodes:
  assumes T: "T = state_path s"
    and check: "same (\<lambda>w. (outcomes w, visible w)) (st_check s)"
    and hook: "\<And>h. st_beforeMove s = Some h \<Longrightarrow> same (\<lambda>w. (outcomes w, visible w, ready w)) h"
    and codec: "codec_reads_back jc st"
    and run: "store_save os jc s st w = (Inr u, w')"
  shows "\<exists>x. visible w' = Some x \<and> decodeSnapshot jc x = Inr st"
proof (cases "validateStateSnapshot st = Inr () \<and> (\<exists>x. encodeSnapshot jc st = Inr x)")
  case True
  then obtain x where x: "encodeSnapshot jc st = Inr x" and d: "decodeSnapshot jc x = Inr st"
    using decodes_encoded_state [OF codec] by blast
  from tripleD_value [OF store_save_outcome [OF T check hook x, of "outcomes w" "visible w"] _ run] d
  show ?thesis by (auto simp: stored_def)
next
  case False
  then have "validateStateSnapshot st \<noteq> Inr () \<or> (\<exists>e. encodeSnapshot jc st = Inl e)"
    by (cases "encodeSnapshot jc st") auto
  from tripleD_value [OF store_save_refused [OF check this, of "outcomes w" "visible w"] _ run] show ?thesis by simp
qed

text \<open>Loading decodes the visible content.\<close>

lemma store_load_visible:
  assumes T: "T = state_path s" and check: "same (\<lambda>w. (outcomes w, visible w)) (st_check s)"
  shows "triple (\<lambda>w. visible w = V) (store_load os jc s) (\<lambda>st w. \<exists>c. V = Some c \<and> decodeSnapshot jc c = Inr st) (\<lambda>_ _. True)"
proof -
  have sh: "shrinks (\<lambda>w. visible w = V)" by (simp add: shrinks_def)
  show ?thesis
    unfolding store_load_def T [symmetric]
  proof (rule triple_seqE [OF value_only [OF quiet_keeps(1) [OF check sh]]],
      rule triple_seqE [OF value_only [OF ensurePrivateDirectory_keeps [OF sh]]],
      rule triple_tryE [where R = "\<lambda>r w. \<forall>c. r = Inr c \<longrightarrow> V = Some c"])
    show "triple (\<lambda>w. visible w = V) (readPrivate os T (st_uid s) maxSnapshot)
        (\<lambda>x w. \<forall>c. Inr x = Inr c \<longrightarrow> V = Some c) (\<lambda>e w. \<forall>c. Inl e = Inr c \<longrightarrow> V = Some c)"
      by (rule triple_conseq [OF readPrivate_visible]) auto
    show "triple (\<lambda>w. \<forall>c. r = Inr c \<longrightarrow> V = Some c) (case r of
       Inl e \<Rightarrow> fail (if errors_is e ErrNotExist then Errorf ''PERSIST_STATE_ABSENT'' else e)
     | Inr content \<Rightarrow> liftE (decodeSnapshot jc content))
     (\<lambda>st w. \<exists>c. V = Some c \<and> decodeSnapshot jc c = Inr st) (\<lambda>_ _. True)" for r
      by (cases r) (auto intro!: triple_fail triple_liftE)
  qed
qed

lemma store_load_keeps:
  assumes check: "same (\<lambda>w. (outcomes w, visible w)) (st_check s)" and P: "shrinks P"
  shows "keeps P (store_load os jc s)"
  unfolding store_load_def
  by (intro keeps_rules quiet_keeps(1) [OF check P] ensurePrivateDirectory_keeps readPrivate_keeps P)

lemma store_load_decodes:
  assumes T: "T = state_path s" and check: "same (\<lambda>w. (outcomes w, visible w)) (st_check s)"
    and run: "store_load os jc s w = (Inr st, w')"
  shows "\<exists>x. visible w' = Some x \<and> decodeSnapshot jc x = Inr st"
proof -
  have "shrinks (\<lambda>v. visible v = visible w)" by (simp add: shrinks_def)
  then have "visible w' = visible w"
    using store_load_keeps [OF check, THEN tripleD_value, OF _ _ run] by blast
  with store_load_visible [OF T check, THEN tripleD_value, OF refl run] show ?thesis by simp
qed

end

end
