(* ===== verification/Persist_Memory.thy ===== *)
theory Persist_Memory
  imports Persist_Crash
begin

text \<open>
  An executable file system with crashes, an instance of the locale \<open>crash_store\<close>, and what the
  store guarantees on any file system that keeps its laws.
\<close>

subsection \<open>A file system in memory\<close>

text \<open>
  Inodes with their content and whether it is synced; the directory entries a reader sees and
  those on the medium; handles on inodes and on directories; and a script of faults, consumed by
  the operations in turn: an operation can fail without effect or after its effect. A power
  cut is a script that fails from some point on.
\<close>

datatype fault = Works | Fails | FailsAfter

datatype open_file = OnInode nat | OnDir path

record mem_fs =
  mf_inodes :: "(nat \<times> string \<times> bool) list"
  mf_names :: "(path \<times> nat) list"
  mf_durable :: "(path \<times> nat) list"
  mf_dirs :: "path list"
  mf_handles :: "(nat \<times> open_file) list"
  mf_faults :: "fault list"

definition mf_content :: "mem_fs \<Rightarrow> nat \<Rightarrow> string" where
  "mf_content w i = (case map_of (mf_inodes w) i of None \<Rightarrow> [] | Some (c, s) \<Rightarrow> c)"

definition mf_synced :: "mem_fs \<Rightarrow> nat \<Rightarrow> bool" where
  "mf_synced w i = (case map_of (mf_inodes w) i of None \<Rightarrow> True | Some (c, s) \<Rightarrow> s)"

definition mf_visible :: "path \<Rightarrow> mem_fs \<Rightarrow> string option" where
  "mf_visible T w = map_option (mf_content w) (map_of (mf_names w) T)"

text \<open>After a cut the entry on the medium or the one a reader saw is found; what was not synced may be anything.\<close>

definition mf_found :: "mem_fs \<Rightarrow> nat option \<Rightarrow> string option set" where
  "mf_found w n = (case n of None \<Rightarrow> {None} | Some i \<Rightarrow> if mf_synced w i then {Some (mf_content w i)} else range Some)"

definition mf_outcomes :: "path \<Rightarrow> mem_fs \<Rightarrow> string option set" where
  "mf_outcomes T w = mf_found w (map_of (mf_durable w) T) \<union> mf_found w (map_of (mf_names w) T)"

definition mf_next :: "mem_fs \<Rightarrow> nat" where
  "mf_next w = Suc (sum_list (List.map fst (mf_inodes w) @ List.map snd (mf_names w) @ List.map snd (mf_durable w)))"

definition faulty :: "(mem_fs, 'a) act \<Rightarrow> (mem_fs, 'a) act" where
  "faulty m w = (case mf_faults w of
     Fails # fs \<Rightarrow> (Inl (Errorf ''input/output error''), w\<lparr>mf_faults := fs\<rparr>)
   | FailsAfter # fs \<Rightarrow> (Inl (Errorf ''input/output error''), snd (m (w\<lparr>mf_faults := fs\<rparr>)))
   | fs \<Rightarrow> m (w\<lparr>mf_faults := tl fs\<rparr>))"

definition dir_info :: file_info where
  "dir_info = \<lparr>fi_dir = True, fi_symlink = False, fi_regular = False, fi_uid = 0, fi_nlink = 2, fi_perm = 0x1C0,
     fi_special = False, fi_size = 0, fi_mtime = 0, fi_id = 0, fi_block = False, fi_rdev = 0\<rparr>"

definition mf_info :: "nat \<Rightarrow> mem_fs \<Rightarrow> file_info" where
  "mf_info i w = \<lparr>fi_dir = False, fi_symlink = False, fi_regular = True, fi_uid = 0, fi_nlink = 1, fi_perm = 0x180,
     fi_special = False, fi_size = length (mf_content w i), fi_mtime = 0, fi_id = i, fi_block = False, fi_rdev = 0\<rparr>"

definition mf_Lstat :: "path \<Rightarrow> (mem_fs, file_info) act" where
  "mf_Lstat p w = (if p \<in> set (mf_dirs w) then (Inr dir_info, w)
     else (case map_of (mf_names w) p of None \<Rightarrow> (Inl (Sentinel ErrNotExist), w) | Some i \<Rightarrow> (Inr (mf_info i w), w)))"

definition mf_Mkdir :: "path \<Rightarrow> u32 \<Rightarrow> (mem_fs, unit) act" where
  "mf_Mkdir p perm w = (if p \<in> set (mf_dirs w) \<or> map_of (mf_names w) p \<noteq> None then (Inl (Sentinel ErrExist), w)
     else (Inr (), w\<lparr>mf_dirs := p # mf_dirs w\<rparr>))"

definition mf_handle :: "open_file \<Rightarrow> (mem_fs, nat) act" where
  "mf_handle h w = (let fd = length (mf_handles w) in (Inr fd, w\<lparr>mf_handles := (fd, h) # mf_handles w\<rparr>))"

definition mf_Open :: "path \<Rightarrow> (mem_fs, nat) act" where
  "mf_Open p w = (case map_of (mf_names w) p of
     None \<Rightarrow> (Inl (Sentinel ErrNotExist), w) | Some i \<Rightarrow> mf_handle (OnInode i) w)"

definition mf_Stat :: "nat \<Rightarrow> (mem_fs, file_info) act" where
  "mf_Stat fd w = (case map_of (mf_handles w) fd of
     Some (OnInode i) \<Rightarrow> (Inr (mf_info i w), w) | Some (OnDir p) \<Rightarrow> (Inr dir_info, w)
   | None \<Rightarrow> (Inl (Errorf ''bad file descriptor''), w))"

definition mf_ReadAll :: "nat \<Rightarrow> nat \<Rightarrow> (mem_fs, string) act" where
  "mf_ReadAll fd n w = (case map_of (mf_handles w) fd of
     Some (OnInode i) \<Rightarrow> (Inr (take n (mf_content w i)), w) | _ \<Rightarrow> (Inl (Errorf ''bad file descriptor''), w))"

definition mf_CreateTemp :: "path \<Rightarrow> string \<Rightarrow> (mem_fs, nat \<times> string) act" where
  "mf_CreateTemp p pre w = (let i = mf_next w; name = pre @ replicate i CHR ''0'';
       w' = w\<lparr>mf_inodes := (i, [], False) # mf_inodes w, mf_names := (Join p name, i) # mf_names w\<rparr>
     in case mf_handle (OnInode i) w' of (r, w'') \<Rightarrow> (map_sum id (\<lambda>fd. (fd, name)) r, w''))"

definition mf_Write :: "nat \<Rightarrow> string \<Rightarrow> (mem_fs, unit) act" where
  "mf_Write fd x w = (case map_of (mf_handles w) fd of
     Some (OnInode i) \<Rightarrow> (Inr (), w\<lparr>mf_inodes := (i, mf_content w i @ x, False) # mf_inodes w\<rparr>)
   | _ \<Rightarrow> (Inl (Errorf ''bad file descriptor''), w))"

definition mf_Sync :: "nat \<Rightarrow> (mem_fs, unit) act" where
  "mf_Sync fd w = (case map_of (mf_handles w) fd of
     Some (OnInode i) \<Rightarrow> (Inr (), w\<lparr>mf_inodes := (i, mf_content w i, True) # mf_inodes w\<rparr>)
   | Some (OnDir p) \<Rightarrow> (Inr (), w\<lparr>mf_durable := filter (\<lambda>e. Dir (fst e) = p) (mf_names w) @
       filter (\<lambda>e. Dir (fst e) \<noteq> p) (mf_durable w)\<rparr>)
   | None \<Rightarrow> (Inl (Errorf ''bad file descriptor''), w))"

text \<open>Handles are never used again, so closing one changes nothing.\<close>

definition mf_Close :: "nat \<Rightarrow> (mem_fs, unit) act" where
  "mf_Close fd = ret ()"

definition mf_Rename :: "path \<Rightarrow> path \<Rightarrow> (mem_fs, unit) act" where
  "mf_Rename a b w = (case map_of (mf_names w) a of
     None \<Rightarrow> (Inl (Sentinel ErrNotExist), w)
   | Some i \<Rightarrow> (Inr (), w\<lparr>mf_names := (b, i) # filter (\<lambda>e. fst e \<noteq> a \<and> fst e \<noteq> b) (mf_names w)\<rparr>))"

definition mf_Remove :: "path \<Rightarrow> (mem_fs, unit) act" where
  "mf_Remove p w = (case map_of (mf_names w) p of
     None \<Rightarrow> (Inl (Sentinel ErrNotExist), w)
   | Some i \<Rightarrow> (Inr (), w\<lparr>mf_names := filter (\<lambda>e. fst e \<noteq> p) (mf_names w)\<rparr>))"

definition mf_OpenDir :: "path \<Rightarrow> (mem_fs, nat) act" where
  "mf_OpenDir p w = (if p \<in> set (mf_dirs w) then mf_handle (OnDir p) w else (Inl (Sentinel ErrNotExist), w))"

definition mf_ReadDir :: "path \<Rightarrow> (mem_fs, dir_entry list) act" where
  "mf_ReadDir p w = (Inr (
     List.map (\<lambda>q. \<lparr>de_name = Base q, de_dir = False, de_symlink = False\<rparr>) (filter (\<lambda>q. q \<noteq> [] \<and> Dir q = p) (List.map fst (mf_names w))) @
     List.map (\<lambda>q. \<lparr>de_name = Base q, de_dir = True, de_symlink = False\<rparr>) (filter (\<lambda>q. q \<noteq> [] \<and> Dir q = p) (mf_dirs w))), w)"

definition memory_os :: "mem_fs os" where
  "memory_os = \<lparr>os_Lstat = (\<lambda>p. faulty (mf_Lstat p)), os_Mkdir = (\<lambda>p perm. faulty (mf_Mkdir p perm)),
     os_Open = (\<lambda>p. faulty (mf_Open p)), os_Stat = (\<lambda>fd. faulty (mf_Stat fd)),
     os_ReadAll = (\<lambda>fd n. faulty (mf_ReadAll fd n)), os_CreateTemp = (\<lambda>p pre. faulty (mf_CreateTemp p pre)),
     os_Write = (\<lambda>fd x. faulty (mf_Write fd x)), os_Sync = (\<lambda>fd. faulty (mf_Sync fd)),
     os_Close = (\<lambda>fd. faulty (mf_Close fd)), os_Rename = (\<lambda>a b. faulty (mf_Rename a b)),
     os_Remove = (\<lambda>p. faulty (mf_Remove p)), os_OpenDir = (\<lambda>p. faulty (mf_OpenDir p)),
     os_ReadDir = (\<lambda>p. faulty (mf_ReadDir p))\<rparr>"

definition memory_storage :: "mem_fs storage" where
  "memory_storage = \<lparr>st_root = [''persist'', ''reinvoke''], st_runtime = [''run'', ''reinvoke''],
     st_bonds = [''usr'', ''var'', ''lib'', ''bluetooth''], st_uid = 0, st_check = ret (), st_beforeMove = None\<rparr>"

definition new_mem_fs :: "fault list \<Rightarrow> mem_fs" where
  "new_mem_fs faults = \<lparr>mf_inodes = [], mf_names = [], mf_durable = [],
     mf_dirs = [[], [''persist''], [''persist'', ''reinvoke'']], mf_handles = [], mf_faults = faults\<rparr>"

lemma faulty_cases:
  assumes "faulty m w = (r, w')"
  obtains (skipped) fs e where "r = Inl e" "w' = w\<lparr>mf_faults := fs\<rparr>"
  | (lost) fs e q where "r = Inl e" "m (w\<lparr>mf_faults := fs\<rparr>) = (q, w')"
  | (done') fs where "m (w\<lparr>mf_faults := fs\<rparr>) = (r, w')"
proof -
  consider fs where "mf_faults w = Fails # fs" | fs where "mf_faults w = FailsAfter # fs"
    | fs where "mf_faults w = Works # fs" | "mf_faults w = []"
    by (metis fault.exhaust list.exhaust)
  then show ?thesis
  proof cases
    case (2 fs)
    obtain q w2 where "m (w\<lparr>mf_faults := fs\<rparr>) = (q, w2)" by (rule prod.exhaust)
    with 2 assms show ?thesis by (intro lost) (auto simp: faulty_def)
  qed (use assms skipped done' in \<open>auto simp: faulty_def\<close>)
qed

lemma same_faulty:
  assumes "same f m" "\<And>w fs. f (w\<lparr>mf_faults := fs\<rparr>) = f w"
  shows "same f (faulty m)"
proof (rule sameI)
  fix w
  obtain r w' where "faulty m w = (r, w')" by (rule prod.exhaust)
  moreover from this have "f w' = f w"
    by (cases rule: faulty_cases) (use assms(2) sameD [OF assms(1)] in metis)+
  ultimately show "f (snd (faulty m w)) = f w" by simp
qed

lemma mf_next_new: "i \<in> snd ` set (mf_names w) \<union> snd ` set (mf_durable w) \<union> fst ` set (mf_inodes w) \<Longrightarrow> i < mf_next w"
proof -
  let ?l = "List.map fst (mf_inodes w) @ List.map snd (mf_names w) @ List.map snd (mf_durable w)"
  assume "i \<in> snd ` set (mf_names w) \<union> snd ` set (mf_durable w) \<union> fst ` set (mf_inodes w)"
  then have "i \<in> set ?l" by auto
  then have "i \<le> sum_list ?l" by (rule member_le_sum_list) simp
  then show ?thesis by (simp add: mf_next_def)
qed

lemma mf_next_names [simp]: "map_of (mf_names w) p \<noteq> Some (mf_next w)" "map_of (mf_durable w) p \<noteq> Some (mf_next w)"
  using mf_next_new [of "mf_next w" w] by (force dest: map_of_SomeD)+

text \<open>The file system depends only on the two directories and the inodes the target's entries name.\<close>

lemma mf_view:
  assumes "map_of (mf_names w') T = map_of (mf_names w) T" "map_of (mf_durable w') T = map_of (mf_durable w) T"
    and "\<And>i. map_of (mf_names w) T = Some i \<or> map_of (mf_durable w) T = Some i \<Longrightarrow>
      map_of (mf_inodes w') i = map_of (mf_inodes w) i"
  shows "mf_outcomes T w' = mf_outcomes T w" "mf_visible T w' = mf_visible T w"
proof -
  have "mf_found w' n = mf_found w n" if "n = map_of (mf_names w) T \<or> n = map_of (mf_durable w) T" for n
    using that assms(3) by (cases n) (auto simp: mf_found_def mf_synced_def mf_content_def)
  then show "mf_outcomes T w' = mf_outcomes T w" by (simp add: mf_outcomes_def assms(1,2))
  show "mf_visible T w' = mf_visible T w"
    using assms(1,3) by (cases "map_of (mf_names w) T") (auto simp: mf_visible_def mf_content_def)
qed

abbreviation state_target :: path where
  "state_target \<equiv> [''persist'', ''reinvoke'', ''state.json'']"

definition mf_temp :: "mem_fs \<Rightarrow> nat \<Rightarrow> path \<Rightarrow> string \<Rightarrow> bool" where
  "mf_temp w fd p c \<longleftrightarrow> (\<exists>i. map_of (mf_handles w) fd = Some (OnInode i) \<and> map_of (mf_names w) p = Some i \<and>
     mf_content w i = c \<and> map_of (mf_names w) state_target \<noteq> Some i \<and> map_of (mf_durable w) state_target \<noteq> Some i)"

definition mf_ready :: "mem_fs \<Rightarrow> path \<Rightarrow> string \<Rightarrow> bool" where
  "mf_ready w p c \<longleftrightarrow> (\<exists>i. map_of (mf_names w) p = Some i \<and> mf_content w i = c \<and> mf_synced w i)"

definition mf_whole :: "mem_fs \<Rightarrow> bool" where
  "mf_whole w \<longleftrightarrow> (\<forall>i. map_of (mf_names w) state_target = Some i \<longrightarrow> mf_synced w i)"

definition mf_dir_open :: "mem_fs \<Rightarrow> nat \<Rightarrow> path \<Rightarrow> bool" where
  "mf_dir_open w fd p \<longleftrightarrow> map_of (mf_handles w) fd = Some (OnDir p)"

definition mf_target_open :: "mem_fs \<Rightarrow> nat \<Rightarrow> bool" where
  "mf_target_open w fd \<longleftrightarrow> (\<exists>i. map_of (mf_handles w) fd = Some (OnInode i) \<and> map_of (mf_names w) state_target = Some i)"

lemma mf_inode_simps [simp]: "mf_content (w\<lparr>mf_faults := fs\<rparr>) = mf_content w" "mf_synced (w\<lparr>mf_faults := fs\<rparr>) = mf_synced w"
  by (simp_all add: mf_content_def mf_synced_def fun_eq_iff)

lemma mf_found_cong:
  assumes "mf_content w' = mf_content w" "mf_synced w' = mf_synced w"
  shows "mf_found w' = mf_found w"
proof
  show "mf_found w' n = mf_found w n" for n by (cases n) (simp_all add: mf_found_def assms)
qed

lemma mf_found_simps [simp]: "mf_found (w\<lparr>mf_faults := fs\<rparr>) = mf_found w"
  by (rule mf_found_cong) simp_all

lemma mf_faults_simps [simp]:
  "mf_outcomes T (w\<lparr>mf_faults := fs\<rparr>) = mf_outcomes T w" "mf_visible T (w\<lparr>mf_faults := fs\<rparr>) = mf_visible T w"
  "mf_temp (w\<lparr>mf_faults := fs\<rparr>) = mf_temp w" "mf_ready (w\<lparr>mf_faults := fs\<rparr>) = mf_ready w"
  "mf_whole (w\<lparr>mf_faults := fs\<rparr>) = mf_whole w" "mf_dir_open (w\<lparr>mf_faults := fs\<rparr>) = mf_dir_open w"
  "mf_target_open (w\<lparr>mf_faults := fs\<rparr>) = mf_target_open w"
  by (simp_all add: mf_outcomes_def mf_visible_def mf_temp_def [abs_def] mf_ready_def [abs_def] mf_whole_def
      mf_dir_open_def [abs_def] mf_target_open_def [abs_def])

lemma mf_quiet:
  "same (\<lambda>w. (mf_outcomes T w, mf_visible T w)) (mf_Lstat p)" "same (\<lambda>w. (mf_outcomes T w, mf_visible T w)) (mf_Mkdir p perm)"
  "same (\<lambda>w. (mf_outcomes T w, mf_visible T w)) (mf_Open p)" "same (\<lambda>w. (mf_outcomes T w, mf_visible T w)) (mf_ReadDir p)"
  "same (\<lambda>w. (mf_outcomes T w, mf_visible T w, mf_target_open w)) (mf_Stat fd)"
  "same (\<lambda>w. (mf_outcomes T w, mf_visible T w)) (mf_ReadAll fd n)"
  "same (\<lambda>w. (mf_outcomes T w, mf_visible T w, mf_ready w)) (mf_Close fd)"
  "same (\<lambda>w. (mf_outcomes T w, mf_visible T w, mf_whole w)) (mf_OpenDir p)"
proof -
  have v: "mf_outcomes T (w\<lparr>mf_handles := h\<rparr>) = mf_outcomes T w" "mf_visible T (w\<lparr>mf_handles := h\<rparr>) = mf_visible T w"
    "mf_outcomes T (w\<lparr>mf_dirs := d\<rparr>) = mf_outcomes T w" "mf_visible T (w\<lparr>mf_dirs := d\<rparr>) = mf_visible T w" for w h d
    by (rule mf_view; simp)+
  have wh: "mf_whole (w\<lparr>mf_handles := h\<rparr>) = mf_whole w" for w h
    by (simp add: mf_whole_def mf_synced_def)
  show "same (\<lambda>w. (mf_outcomes T w, mf_visible T w)) (mf_Lstat p)" "same (\<lambda>w. (mf_outcomes T w, mf_visible T w)) (mf_Mkdir p perm)"
    "same (\<lambda>w. (mf_outcomes T w, mf_visible T w)) (mf_Open p)" "same (\<lambda>w. (mf_outcomes T w, mf_visible T w)) (mf_ReadDir p)"
    "same (\<lambda>w. (mf_outcomes T w, mf_visible T w, mf_target_open w)) (mf_Stat fd)"
    "same (\<lambda>w. (mf_outcomes T w, mf_visible T w)) (mf_ReadAll fd n)"
    "same (\<lambda>w. (mf_outcomes T w, mf_visible T w, mf_ready w)) (mf_Close fd)"
    "same (\<lambda>w. (mf_outcomes T w, mf_visible T w, mf_whole w)) (mf_OpenDir p)"
    by (auto intro!: sameI simp: mf_Lstat_def mf_Mkdir_def mf_Open_def mf_handle_def mf_Stat_def mf_ReadAll_def mf_Close_def
        mf_OpenDir_def mf_ReadDir_def ret_def v wh Let_def split: option.splits open_file.splits if_splits)
qed

lemma mf_create: "same (\<lambda>w. (mf_outcomes state_target w, mf_visible state_target w)) (mf_CreateTemp p ''.state-'')"
proof (rule sameI)
  fix w
  show "(mf_outcomes state_target (snd (mf_CreateTemp p ''.state-'' w)), mf_visible state_target (snd (mf_CreateTemp p ''.state-'' w))) =
      (mf_outcomes state_target w, mf_visible state_target w)"
    by (simp, intro conjI mf_view) (auto simp: mf_CreateTemp_def mf_handle_def Let_def Join_def)
qed

lemma mf_create_temp:
  assumes "mf_CreateTemp (Dir state_target) ''.state-'' w = (Inr (fd, name), w')"
  shows "mf_temp w' fd (Join (Dir state_target) name) [] \<and> Join (Dir state_target) name \<noteq> state_target"
  using assms
  by (auto simp: mf_CreateTemp_def mf_handle_def Let_def Join_def Dir_def mf_temp_def mf_content_def)

lemma mf_write:
  assumes "mf_Write fd x w = (r, w')" "mf_temp w fd p c"
  shows "mf_outcomes state_target w' = mf_outcomes state_target w \<and> mf_visible state_target w' = mf_visible state_target w \<and>
    mf_temp w' fd p (c @ x)"
proof -
  from assms(2) obtain i where i: "map_of (mf_handles w) fd = Some (OnInode i)" "map_of (mf_names w) p = Some i"
      "mf_content w i = c" "map_of (mf_names w) state_target \<noteq> Some i" "map_of (mf_durable w) state_target \<noteq> Some i"
    by (auto simp: mf_temp_def)
  with assms(1) have w': "w' = w\<lparr>mf_inodes := (i, c @ x, False) # mf_inodes w\<rparr>" by (simp add: mf_Write_def)
  have "mf_outcomes state_target w' = mf_outcomes state_target w" "mf_visible state_target w' = mf_visible state_target w"
    by (rule mf_view; use i w' in auto)+
  with i w' show ?thesis by (auto simp: mf_temp_def mf_content_def)
qed

lemma mf_sync:
  assumes "mf_Sync fd w = (r, w')" "mf_temp w fd p c"
  shows "mf_outcomes state_target w' = mf_outcomes state_target w \<and> mf_visible state_target w' = mf_visible state_target w \<and>
    mf_ready w' p c"
proof -
  from assms(2) obtain i where i: "map_of (mf_handles w) fd = Some (OnInode i)" "map_of (mf_names w) p = Some i"
      "mf_content w i = c" "map_of (mf_names w) state_target \<noteq> Some i" "map_of (mf_durable w) state_target \<noteq> Some i"
    by (auto simp: mf_temp_def)
  with assms(1) have w': "w' = w\<lparr>mf_inodes := (i, c, True) # mf_inodes w\<rparr>" by (simp add: mf_Sync_def)
  have "mf_outcomes state_target w' = mf_outcomes state_target w" "mf_visible state_target w' = mf_visible state_target w"
    by (rule mf_view; use i w' in auto)+
  with i w' show ?thesis by (auto simp: mf_ready_def mf_content_def mf_synced_def)
qed

lemma map_of_filter_key: "P k \<Longrightarrow> map_of (filter (\<lambda>e. P (fst e)) m) k = map_of m k" "\<not> P k \<Longrightarrow> map_of (filter (\<lambda>e. P (fst e)) m) k = None"
  by (induction m) auto

lemma mf_rename:
  assumes "mf_Rename p state_target w = (r, w')" "mf_ready w p c"
  shows "mf_outcomes state_target w' \<subseteq> insert (Some c) (mf_outcomes state_target w) \<and> mf_visible state_target w' = Some c \<and> mf_whole w'"
proof -
  from assms(2) obtain i where i: "map_of (mf_names w) p = Some i" "mf_content w i = c" "mf_synced w i"
    by (auto simp: mf_ready_def)
  with assms(1) have w': "w' = w\<lparr>mf_names := (state_target, i) # filter (\<lambda>e. fst e \<noteq> p \<and> fst e \<noteq> state_target) (mf_names w)\<rparr>"
    by (simp add: mf_Rename_def)
  have same: "mf_content w' = mf_content w" "mf_synced w' = mf_synced w"
    by (simp_all add: w' mf_content_def mf_synced_def fun_eq_iff)
  then have "mf_found w' = mf_found w" by (rule mf_found_cong)
  then show ?thesis
    using i same by (auto simp: w' mf_outcomes_def mf_visible_def mf_whole_def mf_found_def)
qed

lemma mf_sync_dir:
  assumes "mf_Sync fd w = (r, w')" "mf_dir_open w fd p"
  shows "mf_outcomes state_target w' \<subseteq> mf_outcomes state_target w \<and> mf_visible state_target w' = mf_visible state_target w \<and>
    (p = Dir state_target \<and> mf_whole w \<longrightarrow> mf_outcomes state_target w' = {mf_visible state_target w'})"
proof -
  have w': "w' = w\<lparr>mf_durable := filter (\<lambda>e. Dir (fst e) = p) (mf_names w) @ filter (\<lambda>e. Dir (fst e) \<noteq> p) (mf_durable w)\<rparr>"
    using assms by (simp add: mf_Sync_def mf_dir_open_def)
  have same: "mf_content w' = mf_content w" "mf_synced w' = mf_synced w"
    by (simp_all add: w' mf_content_def mf_synced_def fun_eq_iff)
  then have f: "mf_found w' = mf_found w" by (rule mf_found_cong)
  have d: "map_of (mf_durable w') state_target =
      (if Dir state_target = p then map_of (mf_names w) state_target else map_of (mf_durable w) state_target)"
    by (cases "Dir state_target = p")
       (simp_all add: w' map_add_def map_of_filter_key [of "\<lambda>q. Dir q = p"] map_of_filter_key [of "\<lambda>q. Dir q \<noteq> p"]
         split: option.split)
  have n: "mf_names w' = mf_names w" by (simp add: w')
  show ?thesis
    using same by (auto simp: mf_outcomes_def f d n mf_visible_def mf_whole_def mf_found_def split: option.splits)
qed

lemma mf_opened:
  "mf_Open state_target w = (Inr fd, w') \<Longrightarrow> mf_target_open w' fd"
  "mf_OpenDir p w = (Inr fd, w') \<Longrightarrow> mf_dir_open w' fd p"
  "mf_ReadAll fd n w = (Inr content, w') \<Longrightarrow> mf_target_open w fd \<Longrightarrow>
     \<exists>c. mf_visible state_target w = Some c \<and> content = take n c"
  by (auto simp: mf_Open_def mf_OpenDir_def mf_handle_def Let_def mf_target_open_def mf_dir_open_def mf_ReadAll_def mf_visible_def
      split: option.splits if_splits)

lemma mf_remove: "p \<noteq> T \<Longrightarrow> same (\<lambda>w. (mf_outcomes T w, mf_visible T w)) (mf_Remove p)"
proof (rule sameI)
  fix w assume "p \<noteq> T"
  then show "(mf_outcomes T (snd (mf_Remove p w)), mf_visible T (snd (mf_Remove p w))) = (mf_outcomes T w, mf_visible T w)"
    by (simp, intro conjI mf_view) (auto simp: mf_Remove_def map_of_filter_key [of "\<lambda>q. q \<noteq> p"] split: option.split)
qed

interpretation disk: crash_store memory_os state_target "mf_outcomes state_target" "mf_visible state_target"
  mf_temp mf_ready mf_whole mf_dir_open mf_target_open
proof unfold_locales
  fix p c w w' r fd x
  show "os_Write memory_os fd x w = (r, w') \<Longrightarrow> mf_temp w fd p c \<Longrightarrow>
      mf_outcomes state_target w' = mf_outcomes state_target w \<and> mf_visible state_target w' = mf_visible state_target w \<and>
      (r = Inr () \<longrightarrow> mf_temp w' fd p (c @ x))"
    unfolding memory_os_def os.simps by (elim faulty_cases) (auto dest: mf_write [where p = p and c = c])
  show "os_Sync memory_os fd w = (r, w') \<Longrightarrow> mf_temp w fd p c \<Longrightarrow>
      mf_outcomes state_target w' = mf_outcomes state_target w \<and> mf_visible state_target w' = mf_visible state_target w \<and>
      (r = Inr () \<longrightarrow> mf_ready w' p c)"
    unfolding memory_os_def os.simps by (elim faulty_cases) (auto dest: mf_sync [where p = p and c = c])
  show "os_Rename memory_os p state_target w = (r, w') \<Longrightarrow> mf_ready w p c \<Longrightarrow>
      mf_outcomes state_target w' \<subseteq> insert (Some c) (mf_outcomes state_target w) \<and>
      (mf_visible state_target w' = Some c \<and> mf_whole w' \<or> (\<exists>e. r = Inl e) \<and> mf_visible state_target w' = mf_visible state_target w)"
    unfolding memory_os_def os.simps
    by (elim faulty_cases) (auto dest: mf_rename [where c = c, THEN conjunct1, THEN subsetD] mf_rename [where c = c])
  show "os_Sync memory_os fd w = (r, w') \<Longrightarrow> mf_dir_open w fd p \<Longrightarrow>
      mf_outcomes state_target w' \<subseteq> mf_outcomes state_target w \<and> mf_visible state_target w' = mf_visible state_target w \<and>
      (r = Inr () \<and> p = Dir state_target \<and> mf_whole w \<longrightarrow> mf_outcomes state_target w' = {mf_visible state_target w'})"
    unfolding memory_os_def os.simps
    by (elim faulty_cases) (auto dest: mf_sync_dir [where p = p, THEN conjunct1, THEN subsetD] mf_sync_dir [where p = p])
next
  fix w w' :: mem_fs and fd :: nat and name :: string and p n content
  show "os_CreateTemp memory_os (Dir state_target) ''.state-'' w = (Inr (fd, name), w') \<Longrightarrow>
      mf_temp w' fd (Join (Dir state_target) name) [] \<and> Join (Dir state_target) name \<noteq> state_target"
    unfolding memory_os_def os.simps by (elim faulty_cases) (auto dest: mf_create_temp)
  show "os_Open memory_os state_target w = (Inr fd, w') \<Longrightarrow> mf_target_open w' fd"
    unfolding memory_os_def os.simps by (elim faulty_cases) (auto dest: mf_opened)
  show "os_OpenDir memory_os p w = (Inr fd, w') \<Longrightarrow> mf_dir_open w' fd p"
    unfolding memory_os_def os.simps by (elim faulty_cases) (auto dest: mf_opened)
  show "os_ReadAll memory_os fd n w = (Inr content, w') \<Longrightarrow> mf_target_open w fd \<Longrightarrow>
      \<exists>c. mf_visible state_target w = Some c \<and> content = take n c"
    unfolding memory_os_def os.simps by (elim faulty_cases) (auto dest: mf_opened)
qed (auto simp: memory_os_def intro!: same_faulty mf_quiet mf_create mf_remove)

subsection \<open>Properties\<close>

text \<open>A codec for one snapshot, to run the store with.\<close>

definition muted_state :: state_snapshot where
  "muted_state = \<lparr>Version = 1, WiFi = None, Files = Some [(''microphone-state'', ''muted'' @ [newline])]\<rparr>"

definition one_codec :: "state_snapshot \<Rightarrow> state_codec" where
  "one_codec only = \<lparr>jc_Marshal = (\<lambda>st. if st = only then Some ''m'' else None),
     jc_Decode = (\<lambda>c. if c = ''m'' then Some only else None),
     jc_Wrap = (\<lambda>c h. if length c = 1 then Some (c @ h) else None),
     jc_Unwrap = (\<lambda>y. Some (take 1 y, drop 1 y)), jc_Sum256 = (\<lambda>c. [of_nat (length c)])\<rparr>"

abbreviation small_codec :: state_codec where
  "small_codec \<equiv> one_codec muted_state"

definition save_muted :: "fault list \<Rightarrow> (go_error + unit) \<times> mem_fs" where
  "save_muted faults = store_save memory_os small_codec memory_storage muted_state (new_mem_fs faults)"

text \<open>(C7) A power cut never loses the settings: whatever the state file is found to hold after a
  save that was cut short or failed anywhere, it is one of the contents it could have been found
  with before, or one that decodes to exactly the snapshot saved. A save that reports success
  leaves the file decoding to that snapshot, and if it changed the file, then every content a
  later cut can leave does; a load that succeeds after it returns the snapshot.
\<close>

theorem save_survives_a_power_cut:
  assumes fs: "crash_store os (state_path s) outcomes visible temp ready whole dir_open target_open"
    and check: "\<And>w. outcomes (snd (st_check s w)) = outcomes w \<and> visible (snd (st_check s w)) = visible w"
    and hook: "\<And>h w. st_beforeMove s = Some h \<Longrightarrow>
      outcomes (snd (h w)) = outcomes w \<and> visible (snd (h w)) = visible w \<and> ready (snd (h w)) = ready w"
    and codec: "codec_reads_back jc st"
    and run: "store_save os jc s st w = (r, w')"
  shows "(\<forall>found \<in> outcomes w'. found \<in> outcomes w \<or> (\<exists>x. found = Some x \<and> decodeSnapshot jc x = Inr st)) \<and>
    (r = Inr () \<longrightarrow> (\<exists>x. visible w' = Some x \<and> decodeSnapshot jc x = Inr st) \<and>
      (visible w' \<noteq> visible w \<longrightarrow> outcomes w' = {visible w'})) \<and>
    (\<forall>st' w''. r = Inr () \<and> store_load os jc s w' = (Inr st', w'') \<longrightarrow> st' = st)"
proof -
  have c: "same (\<lambda>w. (outcomes w, visible w)) (st_check s)"
    by (rule sameI) (simp add: check)
  have h: "same (\<lambda>w. (outcomes w, visible w, ready w)) m" if "st_beforeMove s = Some m" for m
    by (rule sameI) (simp add: hook [OF that])
  note load = crash_store.store_load_visible [OF fs refl c, where V = "visible w'" and jc = jc,
      THEN tripleD_value, OF refl]
  show ?thesis
  proof (cases "validateStateSnapshot st = Inr () \<and> (\<exists>x. encodeSnapshot jc st = Inr x)")
    case True
    then obtain x where x: "encodeSnapshot jc st = Inr x" and d: "decodeSnapshot jc x = Inr st"
      using decodes_encoded_state [OF codec] by blast
    note out = crash_store.store_save_outcome [OF fs refl c h x, where W = "outcomes w" and V = "visible w"]
    show ?thesis
    proof (cases r)
      case (Inl e)
      with run tripleD_error [OF out, of w e w'] crash_store.old_or_new_def [OF fs] d show ?thesis by auto
    next
      case (Inr u)
      with run tripleD_value [OF out, of w u w'] crash_store.stored_def [OF fs] d load show ?thesis by fastforce
    qed
  next
    case False
    then have "validateStateSnapshot st \<noteq> Inr () \<or> (\<exists>e. encodeSnapshot jc st = Inl e)"
      by (cases "encodeSnapshot jc st") auto
    note out = crash_store.store_save_refused [OF fs c this, where W = "outcomes w" and V = "visible w"]
    show ?thesis
      using run tripleD_error [OF out, of w _ w'] tripleD_value [OF out, of w _ w'] by (cases r) auto
  qed
qed

text \<open>Running the store in memory, one step at a time.\<close>

lemmas store_run = store_save_def ensurePrivateDirectory_def readPrivate_def readOpened_def
  atomicPrivate_def replaceBy_def syncDirectory_def codeE_def missing_or_def trusted_dir_def private_file_def
  trustedParents.simps Dir_def Join_def state_path_def errors_is.simps maxSnapshot_def act_simps

lemmas memory_run = memory_os_def memory_storage_def faulty_def mf_Lstat_def mf_Mkdir_def mf_handle_def mf_Open_def mf_Stat_def
  mf_ReadAll_def mf_CreateTemp_def mf_Write_def mf_Sync_def mf_Close_def mf_Rename_def mf_Remove_def mf_OpenDir_def
  dir_info_def mf_info_def mf_content_def mf_synced_def mf_next_def

lemma one_codec_reads_back: "codec_reads_back (one_codec only) st"
  by (auto simp: codec_reads_back_def one_codec_def length_Suc_conv split: if_splits)

lemma memory_state_path: "state_path memory_storage = state_target"
  by (simp add: state_path_def memory_storage_def Join_def)

lemma memory_storage_fields: "st_check memory_storage = ret ()" "st_beforeMove memory_storage = None"
  by (simp_all add: memory_storage_def)

lemma muted_valid: "validateStateSnapshot muted_state = Inr ()"
  by (simp add: validateStateSnapshot_def muted_state_def maxFiles_def validateFile_def maxFile_def maxSnapshot_def)

lemma hex_of_one: "hex_encode [1] = ''01''"
  by code_simp

lemma one_encoded: "encodeSnapshot (one_codec only) only = Inr ''m01''"
  by (simp add: encodeSnapshot_def one_codec_def maxSnapshot_def hex_of_one)

lemma one_decoded: "validateStateSnapshot only = Inr () \<Longrightarrow> decodeSnapshot (one_codec only) ''m01'' = Inr only"
  by (rule decodes_encoded_state [OF one_codec_reads_back one_encoded])

lemmas save_muted_run = save_muted_def new_mem_fs_def muted_valid one_encoded one_decoded [OF muted_valid] store_run memory_run Let_def

lemma save_muted_works: "\<exists>w. save_muted [] = (Inr (), w) \<and> mf_visible state_target w = Some ''m01''"
  by (simp add: mf_visible_def save_muted_run cong: run_cong)

text \<open>
  The directory cannot be synced after the rename: the save fails, and the file may be found
  absent or saved. Saving the same snapshot again reports success without syncing anything.
\<close>

definition unsynced_fs :: mem_fs where
  "unsynced_fs = \<lparr>mf_inodes = [(1, ''m01'', True), (1, ''m01'', False), (1, [], False)], mf_names = [(state_target, 1)],
     mf_durable = [], mf_dirs = [[], [''persist''], [''persist'', ''reinvoke'']],
     mf_handles = [(1, OnDir [''persist'', ''reinvoke'']), (0, OnInode 1)], mf_faults = []\<rparr>"

lemma save_muted_unsynced: "save_muted (replicate 21 Works @ [Fails]) = (Inl (Errorf ''PERSIST_SYNC_FAILED''), unsynced_fs)"
proof -
  have "replicate 21 Works = [Works, Works, Works, Works, Works, Works, Works, Works, Works, Works, Works, Works, Works, Works, Works, Works, Works, Works, Works, Works, Works]"
    by (simp add: numeral_eq_Suc)
  then show ?thesis
    by (simp add: unsynced_fs_def save_muted_run cong: run_cong)
qed

theorem retried_save_is_not_durable:
  "store_save memory_os small_codec memory_storage muted_state (snd (save_muted (replicate 21 Works @ [Fails]))) =
     (Inr (), unsynced_fs\<lparr>mf_handles := (2, OnInode 1) # mf_handles unsynced_fs\<rparr>) \<and>
   mf_outcomes state_target (unsynced_fs\<lparr>mf_handles := (2, OnInode 1) # mf_handles unsynced_fs\<rparr>) = {None, Some ''m01''}"
proof
  show "store_save memory_os small_codec memory_storage muted_state (snd (save_muted (replicate 21 Works @ [Fails]))) =
     (Inr (), unsynced_fs\<lparr>mf_handles := (2, OnInode 1) # mf_handles unsynced_fs\<rparr>)"
    by (simp add: save_muted_unsynced unsynced_fs_def muted_valid one_encoded one_decoded [OF muted_valid] store_run memory_run Let_def cong: run_cong)
qed (auto simp: mf_outcomes_def mf_found_def mf_synced_def mf_content_def unsynced_fs_def)

theorem save_survives_a_power_cut_witness:
  "mf_outcomes state_target (snd (save_muted [])) = {mf_visible state_target (snd (save_muted []))} \<and>
   (\<exists>x. mf_visible state_target (snd (save_muted [])) = Some x \<and> decodeSnapshot small_codec x = Inr muted_state)"
proof -
  obtain w where w: "save_muted [] = (Inr (), w)" "mf_visible state_target w = Some ''m01''"
    using save_muted_works by blast
  note fs = disk.crash_store_axioms [folded memory_state_path]
  have "mf_visible state_target (new_mem_fs []) = None"
    by (simp add: mf_visible_def new_mem_fs_def)
  moreover note save_survives_a_power_cut [OF fs _ _ one_codec_reads_back [of muted_state muted_state], of "new_mem_fs []" "Inr ()" w]
  ultimately show ?thesis
    using w by (simp add: memory_state_path memory_storage_fields save_muted_def ret_def)
qed

end
