(* ===== verification/Persist_Mount.thy ===== *)
theory Persist_Mount
  imports Persist_Store
begin

text \<open>
  Which partition the persistence service may mount, and mounting it
  (\<^verbatim>\<open>tools/nand-pilot/persistence/partition.go\<close>): the one called \<^verbatim>\<open>app\<close>, identified by \<^verbatim>\<open>/proc/mtd\<close>
  and \<^verbatim>\<open>/sys\<close>, through a block node that root owns, at an empty private mount point.
\<close>

definition appBytes :: nat where "appBytes = 123 * 1024 * 1024"
definition eraseBytes :: nat where "eraseBytes = 128 * 1024"
definition pageBytes :: nat where "pageBytes = 2048"
definition appOffset :: nat where "appOffset = 0x08320000"
definition yaffsMagic :: u64 where "yaffsMagic = 0x5941ff53"
definition mountPoint :: path where "mountPoint = [''persist'']"
definition storePath :: path where "storePath = [''persist'', ''reinvoke'']"
definition runtimeDir :: path where "runtimeDir = [''run'', ''reinvoke'']"
definition bondsPath :: path where "bondsPath = [''usr'', ''var'', ''lib'', ''bluetooth'']"
definition privateDevicePath :: path where "privateDevicePath = [''dev'', ''reinvoke-persist'']"

subsection \<open>Numbers in the kernel's tables\<close>

definition radix_value :: "nat \<Rightarrow> string \<Rightarrow> nat option" where
  "radix_value base s = foldl (\<lambda>n c. case (n, hex_value c) of
     (Some n, Some d) \<Rightarrow> if d < base then Some (base * n + d) else None | _ \<Rightarrow> None) (Some 0) s"

text \<open>\<^verbatim>\<open>strconv.ParseUint(s, 16, 64)\<close> and \<^verbatim>\<open>strconv.ParseUint(s, 0, 64)\<close>, with Go's base prefixes and underscores.\<close>

definition ParseUint16 :: "string \<Rightarrow> nat option" where
  "ParseUint16 s = (if s = [] then None else case radix_value 16 s of
     None \<Rightarrow> None | Some n \<Rightarrow> if n < 2 ^ 64 then Some n else None)"

definition base_prefix :: "string \<Rightarrow> nat \<times> string" where
  "base_prefix s = (
     if take 1 s \<noteq> ''0'' then (10, s)
     else if 3 \<le> length s \<and> ToLower (take 2 s) = ''0b'' then (2, drop 2 s)
     else if 3 \<le> length s \<and> ToLower (take 2 s) = ''0o'' then (8, drop 2 s)
     else if 3 \<le> length s \<and> ToLower (take 2 s) = ''0x'' then (16, drop 2 s)
     else (8, drop 1 s))"

definition ParseUint0 :: "string \<Rightarrow> nat option" where
  "ParseUint0 s = (if s = [] then None
     else (case base_prefix s of (base, digits) \<Rightarrow>
       (case radix_value base (filter (\<lambda>c. c \<noteq> CHR ''_'') digits) of
          None \<Rightarrow> None
        | Some n \<Rightarrow> if n < 2 ^ 64 \<and> \<not> HasPrefix s ''_'' \<and> \<not> HasSuffix s ''_'' \<and> \<not> Contains s ''__''
            then Some n else None)))"

subsection \<open>Selecting the partition\<close>

text \<open>\<^verbatim>\<open>^mtd([0-9]+): ([0-9a-fA-F]+) ([0-9a-fA-F]+) "([^"]+)"$\<close>\<close>

definition quote :: char where "quote = CHR 0x22"

definition mtdLine :: "string \<Rightarrow> (string \<times> string \<times> string \<times> string) option" where
  "mtdLine line = (
     let digits = takeWhile is_digit (drop 3 line);
         rest = drop (3 + length digits) line;
         size = takeWhile is_hex (drop 2 rest);
         rest2 = drop (2 + length size) rest;
         erase = takeWhile is_hex (drop 1 rest2);
         rest3 = drop (1 + length erase) rest2;
         name = takeWhile (\<lambda>c. c \<noteq> quote) (drop 2 rest3)
     in if take 3 line = ''mtd'' \<and> digits \<noteq> [] \<and> take 2 rest = '': '' \<and> size \<noteq> [] \<and> take 1 rest2 = '' '' \<and>
          erase \<noteq> [] \<and> take 2 rest3 = [CHR '' '', quote] \<and> name \<noteq> [] \<and> drop (2 + length name) rest3 = [quote]
        then Some (digits, size, erase, name) else None)"

text \<open>The world outside the file operations: whole files, device nodes, mounts and the kind of a file system.\<close>

record 'w mount_kernel =
  mk_os :: "'w os"
  mk_ReadFile :: "string \<Rightarrow> ('w, string) act"
  mk_Mknod :: "path \<Rightarrow> u32 \<Rightarrow> nat \<Rightarrow> ('w, unit) act"
  mk_Mount :: "path \<Rightarrow> path \<Rightarrow> string \<Rightarrow> u32 \<Rightarrow> string \<Rightarrow> ('w, unit) act"
  mk_Chmod :: "path \<Rightarrow> u32 \<Rightarrow> ('w, unit) act"
  mk_Statfs :: "path \<Rightarrow> ('w, u64) act"

text \<open>The table of attributes is a Go map, read in any order; all of them must match.\<close>

definition sysfs_attributes :: "nat \<Rightarrow> (string \<times> string) list" where
  "sysfs_attributes index = [(''name'', ''app''), (''type'', ''nand''), (''size'', decimal appBytes), (''erasesize'', decimal eraseBytes),
     (''writesize'', decimal pageBytes), (''oobsize'', ''64''), (''dev'', ''90:'' @ decimal (index * 2))]"

definition read_attribute :: "(string \<Rightarrow> ('w, string) act) \<Rightarrow> string \<Rightarrow> string \<Rightarrow> string \<Rightarrow> ('w, unit) act" where
  "read_attribute read path want c = tryE (read path) (\<lambda>v. case v of
     Inl e \<Rightarrow> fail (Errorf c) | Inr v \<Rightarrow> checkE (TrimSpace v = want) (Errorf c))"

definition check_partition :: "(string \<Rightarrow> ('w, string) act) \<Rightarrow> nat \<Rightarrow> ('w, unit) act" where
  "check_partition read index = (let base = ''/sys/class/mtd/mtd'' @ decimal index @ ''/'' in
     seqE (forE (sysfs_attributes index) (\<lambda>(name, want). read_attribute read (base @ name) want ''PERSIST_GEOMETRY_MISMATCH''))
    (seqE (tryE (read (base @ ''offset'')) (\<lambda>v. case v of
        Inl e \<Rightarrow> checkE (errors_is e ErrNotExist) (Errorf ''PERSIST_OFFSET_UNREADABLE'')
      | Inr v \<Rightarrow> checkE (ParseUint0 (TrimSpace v) = Some appOffset) (Errorf ''PERSIST_OFFSET_MISMATCH'')))
      (read_attribute read (''/sys/class/block/mtdblock'' @ decimal index @ ''/dev'') (''31:'' @ decimal index)
         ''PERSIST_BLOCK_IDENTITY_MISMATCH'')))"

fun app_partitions :: "(string \<Rightarrow> ('w, string) act) \<Rightarrow> string list \<Rightarrow> ('w, nat list) act" where
  "app_partitions read [] = ret []"
| "app_partitions read (line # ls) = (case mtdLine line of
     None \<Rightarrow> app_partitions read ls
   | Some (digits, bytes, erase, name) \<Rightarrow>
       if name \<noteq> ''app'' then app_partitions read ls
       else (let index = digits_value digits in
         if 255 < index \<or> ParseUint16 bytes \<noteq> Some appBytes \<or> ParseUint16 erase \<noteq> Some eraseBytes
         then fail (Errorf ''PERSIST_GEOMETRY_MISMATCH'')
         else seqE (check_partition read index)
           (bindE (app_partitions read ls) (\<lambda>found. ret (index # found)))))"

definition known_release :: "string \<Rightarrow> bool" where
  "known_release release \<longleftrightarrow> release = ''3.8.13-yocto-standard'' \<or> release = ''3.8.13-reinvoke-audio-sd8887''"

definition supports_yaffs2 :: "string \<Rightarrow> bool" where
  "supports_yaffs2 filesystems \<longleftrightarrow>
     (\<exists>line \<in> set (split_on newline filesystems). Fields line \<noteq> [] \<and> last (Fields line) = ''yaffs2'')"

definition selectPartition :: "string \<Rightarrow> string \<Rightarrow> string \<Rightarrow> (string \<Rightarrow> ('w, string) act) \<Rightarrow> ('w, nat) act" where
  "selectPartition procMTD filesystems release read = (
     if \<not> known_release release then fail (Errorf ''PERSIST_KERNEL_UNSUPPORTED'')
     else if \<not> supports_yaffs2 filesystems then fail (Errorf ''PERSIST_FILESYSTEM_UNSUPPORTED'')
     else bindE (app_partitions read (split_on newline procMTD)) (\<lambda>found.
       if found = [] then fail (Errorf ''PERSIST_APP_PARTITION_ABSENT'')
       else if length found \<noteq> 1 then fail (Errorf ''PERSIST_APP_PARTITION_AMBIGUOUS'')
       else ret (hd found)))"

definition discover :: "'w mount_kernel \<Rightarrow> ('w, nat) act" where
  "discover k =
     bindE (codeE ''PERSIST_MTD_UNAVAILABLE'' (mk_ReadFile k ''/proc/mtd'')) (\<lambda>mtd.
     bindE (codeE ''PERSIST_FILESYSTEM_UNAVAILABLE'' (mk_ReadFile k ''/proc/filesystems'')) (\<lambda>fs.
     bindE (codeE ''PERSIST_KERNEL_UNAVAILABLE'' (mk_ReadFile k ''/proc/sys/kernel/osrelease'')) (\<lambda>release.
     selectPartition mtd fs (TrimSpace release) (mk_ReadFile k))))"

subsection \<open>The device node\<close>

definition block_node :: "nat \<Rightarrow> file_info \<Rightarrow> bool" where
  "block_node p info \<longleftrightarrow> fi_block info \<and> fi_uid info = 0 \<and> fi_perm info AND 0x012 = 0 \<and>
     fi_rdev info = 31 * 256 + p"

fun first_node :: "'w os \<Rightarrow> nat \<Rightarrow> path list \<Rightarrow> ('w, path) act" where
  "first_node os p [] = fail (Errorf ''PERSIST_BLOCK_DEVICE_UNSAFE'')"
| "first_node os p (path # ps) =
     tryE (trustedParents os (Dir path) 0) (\<lambda>r. case r of
       Inl _ \<Rightarrow> first_node os p ps
     | Inr _ \<Rightarrow> tryE (os_Lstat os path) (\<lambda>r. case r of
         Inl _ \<Rightarrow> first_node os p ps
       | Inr info \<Rightarrow> if block_node p info then ret path else first_node os p ps))"

definition node_paths :: "nat \<Rightarrow> path list" where
  "node_paths p = [privateDevicePath, [''dev'', ''mtdblock'' @ decimal p], [''dev'', ''block'', ''mtdblock'' @ decimal p]]"

text \<open>The index is at most 255, so \<^verbatim>\<open>31<<8|index\<close> is a sum.\<close>

definition devicePath :: "'w os \<Rightarrow> nat \<Rightarrow> ('w, path) act" where
  "devicePath os p = first_node os p (node_paths p)"

definition createPrivateDevice :: "'w mount_kernel \<Rightarrow> nat \<Rightarrow> ('w, unit) act" where
  "createPrivateDevice k p =
     seqE (checkE (p \<le> 255) (Errorf ''PERSIST_BLOCK_IDENTITY_MISMATCH''))
    (seqE (codeE ''PERSIST_BLOCK_DEVICE_UNSAFE'' (trustedParents (mk_os k) (Dir privateDevicePath) 0))
    (tryE (mk_Mknod k privateDevicePath 0x6180 (31 * 256 + p)) (\<lambda>r. case r of
       Inl e \<Rightarrow> checkE (errors_is e ErrExist) (Errorf ''PERSIST_BLOCK_NODE_FAILED'')
     | Inr _ \<Rightarrow> ret ())))"

subsection \<open>The mount table\<close>

definition bluedroidBind :: string where
  "bluedroidBind = ''/home/galois_rwdata/misc/bluedroid''"

definition sameDevice :: "nat \<Rightarrow> string list \<Rightarrow> bool" where
  "sameDevice p fs \<longleftrightarrow> fs ! 2 = ''31:'' @ decimal p"

definition primary_mount :: "string list \<Rightarrow> bool" where
  "primary_mount fs \<longleftrightarrow> fs ! 4 = ''/persist'' \<and> fs ! 3 = ''/''"

definition bluedroid_mount :: "string list \<Rightarrow> bool" where
  "bluedroid_mount fs \<longleftrightarrow> fs ! 4 = bluedroidBind \<and> fs ! 3 = ''/reinvoke/bluedroid''"

text \<open>A line that the guard looks at: long enough, and on the device or on one of the two paths.\<close>

definition mount_line :: "nat \<Rightarrow> string list \<Rightarrow> bool" where
  "mount_line p fs \<longleftrightarrow> 10 \<le> length fs \<and>
     (sameDevice p fs \<or> fs ! 4 = ''/persist'' \<or> fs ! 4 = bluedroidBind)"

definition separator :: "string list \<Rightarrow> int" where
  "separator fs = (case filter (\<lambda>i. fs ! i = ''-'') (rev [0..<length fs]) of [] \<Rightarrow> - 1 | i # _ \<Rightarrow> int i)"

definition yaffs2_line :: "string list \<Rightarrow> bool" where
  "yaffs2_line fs \<longleftrightarrow> (let i = separator fs in
     6 \<le> i \<and> i + 3 < int (length fs) \<and> fs ! nat (i + 1) = ''yaffs2'')"

definition safe_options :: "string list \<Rightarrow> bool" where
  "safe_options fs \<longleftrightarrow> (let options = '','' @ fs ! 5 @ '','' in
     \<forall>flag \<in> {''rw'', ''nosuid'', ''nodev'', ''noexec'', ''noatime''}. Contains options ('','' @ flag @ '',''))"

fun mount_lines :: "nat \<Rightarrow> string list \<Rightarrow> bool \<Rightarrow> bool \<Rightarrow> (bool \<times> bool) outcome" where
  "mount_lines p [] found bindFound = Inr (found, bindFound)"
| "mount_lines p (line # ls) found bindFound = (let fs = Fields line in
     if \<not> mount_line p fs then mount_lines p ls found bindFound
     else if \<not> sameDevice p fs \<or> (\<not> primary_mount fs \<and> \<not> bluedroid_mount fs) \<or>
        (primary_mount fs \<and> found) \<or> \<not> yaffs2_line fs
     then Inl (Errorf ''PERSIST_MOUNT_CONFLICT'')
     else if \<not> safe_options fs then Inl (Errorf ''PERSIST_MOUNT_OPTIONS_UNSAFE'')
     else if primary_mount fs then mount_lines p ls True bindFound
     else mount_lines p ls found True)"

definition mountRecord :: "nat \<Rightarrow> string \<Rightarrow> bool outcome" where
  "mountRecord p content = (case mount_lines p (split_on newline content) False False of
     Inl e \<Rightarrow> Inl e
   | Inr (found, bindFound) \<Rightarrow>
       if bindFound \<and> \<not> found then Inl (Errorf ''PERSIST_MOUNT_CONFLICT'') else Inr found)"

definition mounted :: "'w mount_kernel \<Rightarrow> nat \<Rightarrow> ('w, bool) act" where
  "mounted k p = bindE (codeE ''PERSIST_MOUNTINFO_UNAVAILABLE'' (mk_ReadFile k ''/proc/self/mountinfo'')) (\<lambda>content.
     liftE (mountRecord p content))"

definition verifyMounted :: "'w mount_kernel \<Rightarrow> ('w, unit) act" where
  "verifyMounted k =
     bindE (discover k) (\<lambda>p.
     bindE (mounted k p) (\<lambda>ok.
     seqE (checkE ok (Errorf ''PERSIST_NOT_MOUNTED''))
    (tryE (mk_Statfs k mountPoint) (\<lambda>r. case r of
       Inl _ \<Rightarrow> fail (Errorf ''PERSIST_FILESYSTEM_IDENTITY_MISMATCH'')
     | Inr kind \<Rightarrow> checkE (kind AND 0xffffffff = yaffsMagic) (Errorf ''PERSIST_FILESYSTEM_IDENTITY_MISMATCH'')))))"

subsection \<open>Mounting\<close>

text \<open>The permissions to set, or none when nothing has to change.\<close>

definition tightenedMode :: "file_info \<Rightarrow> u32 \<Rightarrow> u32 option outcome" where
  "tightenedMode info forbidden = (
     if fi_special info then Inl (Errorf ''PERSIST_MOUNTPOINT_UNSAFE'')
     else if fi_perm info AND forbidden = 0 then Inr None
     else Inr (Some (fi_perm info AND NOT forbidden)))"

definition tightenMountPoint :: "'w mount_kernel \<Rightarrow> path \<Rightarrow> nat \<Rightarrow> ('w, unit) act" where
  "tightenMountPoint k path uid =
     bindE (codeE ''PERSIST_MOUNTPOINT_UNSAFE'' (os_Lstat (mk_os k) path)) (\<lambda>info.
     seqE (checkE (fi_dir info \<and> \<not> fi_symlink info \<and> (fi_uid info = uid \<or> fi_uid info = 0)) (Errorf ''PERSIST_MOUNTPOINT_UNSAFE''))
    (bindE (liftE (tightenedMode info (if uid \<noteq> 0 then 0x002 else 0x012))) (\<lambda>wanted. case wanted of
       None \<Rightarrow> ret ()
     | Some wanted \<Rightarrow> codeE ''PERSIST_MOUNTPOINT_NOT_TIGHTENED'' (mk_Chmod k path wanted))))"

definition mountFlags :: u32 where
  "mountFlags = 2 OR 4 OR 8 OR 1024"

definition mountApp :: "'w mount_kernel \<Rightarrow> path \<Rightarrow> ('w, unit) act" where
  "mountApp k device = codeE ''PERSIST_MOUNT_FAILED'' (mk_Mount k device mountPoint ''yaffs2'' mountFlags [])"

definition prepareMount :: "'w mount_kernel \<Rightarrow> ('w, unit) act" where
  "prepareMount k =
     bindE (discover k) (\<lambda>p.
     bindE (tryE (devicePath (mk_os k) p) (\<lambda>r. case r of
       Inl _ \<Rightarrow> seqE (createPrivateDevice k p) (devicePath (mk_os k) p)
     | Inr device \<Rightarrow> ret device)) (\<lambda>device.
     bindE (mounted k p) (\<lambda>ok. blockE [
       checkE (\<not> ok) (Errorf ''PERSIST_ALREADY_MOUNTED''),
       codeE ''PERSIST_MOUNTPOINT_UNSAFE'' (ensurePrivateDirectory (mk_os k) mountPoint 0),
       tryE (os_ReadDir (mk_os k) mountPoint) (\<lambda>entries.
         checkE (entries = Inr []) (Errorf ''PERSIST_MOUNTPOINT_NOT_EMPTY'')),
       mountApp k device,
       verifyMounted k,
       tightenMountPoint k mountPoint 0,
       ensurePrivateDirectory (mk_os k) storePath 0])))"

subsection \<open>What the guards accept\<close>

text \<open>
  The lines that concern the partition, and the mounts of it that are allowed.
\<close>

definition allowed_mount :: "nat \<Rightarrow> string list \<Rightarrow> bool" where
  "allowed_mount p fs \<longleftrightarrow> sameDevice p fs \<and> (primary_mount fs \<or> bluedroid_mount fs) \<and>
     yaffs2_line fs \<and> safe_options fs"

definition mount_entries :: "nat \<Rightarrow> string \<Rightarrow> string list list" where
  "mount_entries p content = filter (mount_line p) (List.map Fields (split_on newline content))"

lemma mount_lines_accepts:
  "mount_lines p ls found bindFound = Inr (b, c) \<longleftrightarrow>
     (let es = filter (mount_line p) (List.map Fields ls) in
       list_all (allowed_mount p) es \<and> length (filter primary_mount es) + (if found then 1 else 0) \<le> 1 \<and>
       b = (found \<or> filter primary_mount es \<noteq> []) \<and> c = (bindFound \<or> filter (\<lambda>e. \<not> primary_mount e) es \<noteq> []))"
  by (induction p ls found bindFound rule: mount_lines.induct) (auto simp: Let_def allowed_mount_def filter_empty_conv)


text \<open>
  The lines of the table called \<^verbatim>\<open>app\<close>. Over a fixed content of \<^verbatim>\<open>/sys\<close>, selection succeeds
  exactly when there is one, its geometry is the expected one and every attribute agrees.
\<close>

definition app_lines :: "string list \<Rightarrow> (string \<times> string \<times> string \<times> string) list" where
  "app_lines ls = filter (\<lambda>(_, _, _, name). name = ''app'') (List.map_filter mtdLine ls)"

definition sysfs_agrees :: "(string \<Rightarrow> string outcome) \<Rightarrow> nat \<Rightarrow> bool" where
  "sysfs_agrees sys p \<longleftrightarrow> (let base = ''/sys/class/mtd/mtd'' @ decimal p @ ''/'' in
     (\<forall>(name, want) \<in> set (sysfs_attributes p). \<exists>v. sys (base @ name) = Inr v \<and> TrimSpace v = want) \<and>
     (case sys (base @ ''offset'') of Inl e \<Rightarrow> errors_is e ErrNotExist
        | Inr v \<Rightarrow> ParseUint0 (TrimSpace v) = Some appOffset) \<and>
     (\<exists>v. sys (''/sys/class/block/mtdblock'' @ decimal p @ ''/dev'') = Inr v \<and> TrimSpace v = ''31:'' @ decimal p))"

definition expected_app :: "(string \<Rightarrow> string outcome) \<Rightarrow> string \<times> string \<times> string \<times> string \<Rightarrow> bool" where
  "expected_app sys = (\<lambda>(digits, bytes, erase, name). digits_value digits \<le> 255 \<and>
     ParseUint16 bytes = Some appBytes \<and> ParseUint16 erase = Some eraseBytes \<and> sysfs_agrees sys (digits_value digits))"

lemma read_attribute_run:
  "read_attribute (\<lambda>q. liftE (sys q)) q want c w = (Inr u, w') \<longleftrightarrow> w' = w \<and> (\<exists>v. sys q = Inr v \<and> TrimSpace v = want)"
  by (cases "sys q") (auto simp: read_attribute_def act_simps)

text \<open>A check that only reads succeeds in the state it started from.\<close>

lemma seqE_reads:
  assumes m: "\<And>u. m w = (Inr (), u) \<longleftrightarrow> u = w \<and> A"
  shows "seqE m k w = (Inr x, u) \<longleftrightarrow> A \<and> k w = (Inr x, u)"
proof (cases "m w")
  case (Pair r v)
  show ?thesis
  proof (cases r)
    case (Inl e)
    with Pair m [of w] show ?thesis by (auto simp: act_simps)
  next
    case (Inr y)
    with Pair m [of v] show ?thesis by (auto simp: act_simps)
  qed
qed

lemma forE_reads:
  assumes "\<And>x u. f x w = (Inr (), u) \<longleftrightarrow> u = w \<and> P x"
  shows "forE xs f w = (Inr (), u) \<longleftrightarrow> u = w \<and> (\<forall>x \<in> set xs. P x)"
  by (induction xs) (auto simp: ret_def seqE_reads [where m = "f _" and w = w, OF assms])

lemma check_partition_run:
  "check_partition (\<lambda>q. liftE (sys q)) p w = (Inr (), w') \<longleftrightarrow> w' = w \<and> sysfs_agrees sys p"
proof -
  let ?base = "''/sys/class/mtd/mtd'' @ decimal p @ ''/''"
  note all = forE_reads [where f = "\<lambda>e. read_attribute (\<lambda>q. liftE (sys q)) (?base @ fst e) (snd e) c" and w = w for c,
      OF read_attribute_run]
  have off: "tryE (liftE (sys (?base @ ''offset''))) (\<lambda>v. case v of
        Inl e \<Rightarrow> checkE (errors_is e ErrNotExist) (Errorf ''PERSIST_OFFSET_UNREADABLE'')
      | Inr v \<Rightarrow> checkE (ParseUint0 (TrimSpace v) = Some appOffset) (Errorf ''PERSIST_OFFSET_MISMATCH'')) w = (Inr (), u) \<longleftrightarrow>
      u = w \<and> (case sys (?base @ ''offset'') of Inl e \<Rightarrow> errors_is e ErrNotExist
        | Inr v \<Rightarrow> ParseUint0 (TrimSpace v) = Some appOffset)" for u
    by (cases "sys (?base @ ''offset'')") (auto simp: tryE_def liftE_def checkE_def ret_def fail_def)
  show ?thesis
    unfolding check_partition_def Let_def sysfs_agrees_def split_beta
    by (subst seqE_reads [where m = "forE _ _"], rule all, subst seqE_reads [where m = "tryE _ _"], rule off)
       (simp only: read_attribute_run conj_ac)
qed

lemma app_partitions_run:
  "app_partitions (\<lambda>q. liftE (sys q)) ls w = (Inr found, w') \<longleftrightarrow> w' = w \<and>
     (\<forall>l \<in> set (app_lines ls). expected_app sys l) \<and> found = List.map (digits_value \<circ> fst) (app_lines ls)"
proof (induction ls arbitrary: found w')
  case (Cons l ls)
  show ?case
  proof (cases "mtdLine l")
    case None
    with Cons show ?thesis by (simp add: app_lines_def List.map_filter_simps)
  next
    case (Some m)
    obtain digits bytes erase name where m: "m = (digits, bytes, erase, name)" by (cases m)
    show ?thesis
    proof (cases "name = ''app''")
      case False
      with Cons Some m show ?thesis by (simp add: app_lines_def List.map_filter_simps)
    next
      case True
      have s: "seqE c (bindE r (\<lambda>xs. ret (i # xs))) w = (Inr found, w') \<longleftrightarrow>
          (\<exists>v y xs. c w = (Inr (), v) \<and> r v = (Inr xs, y) \<and> found = i # xs \<and> w' = y)"
        for c :: "('a, unit) act" and r and i :: nat
        by (cases "c w"; cases "fst (c w)"; cases "r (snd (c w))"; cases "fst (r (snd (c w)))") (auto simp: act_simps)
      from True Some m show ?thesis
        by (auto simp: app_lines_def List.map_filter_simps expected_app_def Let_def s check_partition_run Cons.IH fail_def)
    qed
  qed
qed (auto simp: app_lines_def List.map_filter_simps ret_def)

text \<open>(C24) The service selects partition \<open>p\<close> exactly when the kernel is one of the two known
  ones and has YAFFS2, exactly one line of \<^verbatim>\<open>/proc/mtd\<close> is called \<^verbatim>\<open>app\<close>, it is that of \<open>p\<close> with the size and
  erase size expected, and every identity that \<^verbatim>\<open>/sys\<close> gives for \<open>p\<close> agrees, the offset where the
  kernel tells it; reading changes nothing.
\<close>

theorem selectPartition_run:
  "selectPartition procMTD filesystems release (\<lambda>q. liftE (sys q)) w = (Inr p, w') \<longleftrightarrow> w' = w \<and>
     known_release release \<and> supports_yaffs2 filesystems \<and>
     (\<exists>l. app_lines (split_on newline procMTD) = [l] \<and> expected_app sys l \<and> p = digits_value (fst l))"
proof (cases "known_release release \<and> supports_yaffs2 filesystems")
  case True
  let ?ls = "app_lines (split_on newline procMTD)"
  obtain r v where a: "app_partitions (\<lambda>q. liftE (sys q)) (split_on newline procMTD) w = (r, v)" by (rule prod.exhaust)
  show ?thesis
  proof (cases r)
    case (Inl e)
    have "\<not> (\<forall>l \<in> set ?ls. expected_app sys l)"
    proof
      assume "\<forall>l \<in> set ?ls. expected_app sys l"
      then have "app_partitions (\<lambda>q. liftE (sys q)) (split_on newline procMTD) w = (Inr (List.map (digits_value \<circ> fst) ?ls), w)"
        by (simp add: app_partitions_run)
      with a Inl show False by simp
    qed
    then have "\<not> (\<exists>l. ?ls = [l] \<and> expected_app sys l)" by auto
    with a Inl True show ?thesis by (simp add: selectPartition_def bindE_def) blast
  next
    case (Inr found)
    have f: "v = w \<and> (\<forall>l \<in> set ?ls. expected_app sys l) \<and> found = List.map (digits_value \<circ> fst) ?ls"
      using a [unfolded Inr] unfolding app_partitions_run .
    show ?thesis
    proof (cases ?ls)
      case Nil
      with f a Inr True show ?thesis by (simp add: selectPartition_def bindE_def fail_def)
    next
      case (Cons l ls)
      with f a Inr True show ?thesis by (cases ls) (auto simp: selectPartition_def bindE_def fail_def ret_def)
    qed
  qed
qed (auto simp: selectPartition_def fail_def)

end
