(* ===== verification/Persist_Service.thy ===== *)
theory Persist_Service
  imports Persist_Files Persist_Memory Persist_Mount
begin

text \<open>
  The service that saves and loads Wi-Fi profiles (\<^verbatim>\<open>tools/nand-pilot/persistence/main.go\<close>), and
  the status it publishes (\<^verbatim>\<open>status.go\<close>). Its lock makes every request and every flush one step.
\<close>

subsection \<open>The public status\<close>

record publicStatus =
  ps_Version :: int
  ps_Phase :: string
  ps_Snapshot :: string
  ps_WiFiProfile :: string
  ps_Result :: string

definition statusFor :: "state_snapshot \<Rightarrow> string \<Rightarrow> string \<Rightarrow> publicStatus" where
  "statusFor st phase result =
     (let view = \<lparr>ps_Version = 1, ps_Phase = phase, ps_Snapshot = ''unknown'', ps_WiFiProfile = ''unknown'', ps_Result = result\<rparr>
      in if Version st = 1 then view\<lparr>
           ps_Snapshot := (if (case Files st of None \<Rightarrow> False | Some fs \<Rightarrow> fs \<noteq> []) \<or> WiFi st \<noteq> None then ''present'' else ''absent''),
           ps_WiFiProfile := (if WiFi st \<noteq> None then ''present'' else ''absent'')\<rparr>
         else view)"

text \<open>\<^verbatim>\<open>^PERSIST_[A-Z_]{1,64}$\<close>\<close>

definition resultPattern :: "string \<Rightarrow> bool" where
  "resultPattern s \<longleftrightarrow> HasPrefix s ''PERSIST_'' \<and> 9 \<le> length s \<and> length s \<le> 72 \<and>
     list_all (\<lambda>c. 65 \<le> code c \<and> code c \<le> 90 \<or> c = CHR ''_'') (drop 8 s)"

definition valid_status :: "publicStatus \<Rightarrow> bool" where
  "valid_status view \<longleftrightarrow> ps_Version view = 1 \<and>
     ps_Phase view \<in> {''prepared'', ''ready'', ''degraded'', ''volatile'', ''stopped''} \<and>
     ps_Snapshot view \<in> {''present'', ''absent'', ''unknown''} \<and>
     ps_WiFiProfile view \<in> {''present'', ''absent'', ''unknown''} \<and> resultPattern (ps_Result view)"

text \<open>\<open>encode\<close> is \<^verbatim>\<open>json.Marshal\<close>.\<close>

definition writePublicStatus :: "'w os \<Rightarrow> (publicStatus \<Rightarrow> string option) \<Rightarrow> path \<Rightarrow> nat \<Rightarrow> ('w, unit) act \<Rightarrow> publicStatus \<Rightarrow> ('w, unit) act" where
  "writePublicStatus os encode path uid check view =
     seqE (checkE (valid_status view) (Errorf ''PERSIST_STATUS_INVALID''))
    (seqE check
    (seqE (ensurePrivateDirectory os (Dir path) uid)
    (case encode view of
       None \<Rightarrow> fail (Errorf ''PERSIST_STATUS_INVALID'')
     | Some content \<Rightarrow>
         if 512 < length content then fail (Errorf ''PERSIST_STATUS_INVALID'')
         else (let content = content @ [newline] in
           tryE (readPrivate os path uid 512) (\<lambda>old.
             if old = Inr content then ret () else atomicPrivate os path content uid None)))))"

definition statusFile :: path where
  "statusFile = [''run'', ''reinvoke'', ''persistence-status.json'']"

definition publishStatus :: "'w os \<Rightarrow> (publicStatus \<Rightarrow> string option) \<Rightarrow> ('w, unit) act \<Rightarrow> publicStatus \<Rightarrow> ('w, unit) act" where
  "publishStatus os encode checkRAM view =
     (let view = (if resultPattern (ps_Result view) then view else view\<lparr>ps_Result := ''PERSIST_INTERNAL_ERROR''\<rparr>)
      in ignoreE (writePublicStatus os encode statusFile 0 checkRAM view))"

subsection \<open>The service\<close>

record request =
  rq_Operation :: string
  rq_Profile :: "wifi_profile option"

record response =
  rs_OK :: bool
  rs_Code :: string
  rs_Profile :: "wifi_profile option"

text \<open>
  The service's fields, the snapshot and the time of the last write, and the world. Times are
  nanoseconds of a monotonic clock; the zero time is so far back that no limit applies.
\<close>

record 'w service =
  sv_current :: state_snapshot
  sv_lastWrite :: "nat option"
  sv_world :: 'w

text \<open>
  What the service is built with: the files, the codec, the store, the report of a status, the
  clock, and \<^verbatim>\<open>Error()\<close>.
\<close>

record 'w service_env =
  se_os :: "'w os"
  se_codec :: state_codec
  se_store :: "'w storage"
  se_report :: "(publicStatus \<Rightarrow> ('w, unit) act) option"
  se_now :: "'w \<Rightarrow> nat"
  se_Error :: "go_error \<Rightarrow> string"

definition on_store :: "('w, 'a) act \<Rightarrow> ('w service, 'a) act" where
  "on_store m s = (case m (sv_world s) of (r, w) \<Rightarrow> (r, s\<lparr>sv_world := w\<rparr>))"

definition no_snapshot :: state_snapshot where
  "no_snapshot = \<lparr>Version = 0, WiFi = None, Files = None\<rparr>"

definition empty_snapshot :: state_snapshot where
  "empty_snapshot = \<lparr>Version = 1, WiFi = None, Files = Some []\<rparr>"

definition answer :: "bool \<Rightarrow> string \<Rightarrow> ('w service, response) act" where
  "answer ok c = ret \<lparr>rs_OK = ok, rs_Code = c, rs_Profile = None\<rparr>"

definition answer_error :: "'w service_env \<Rightarrow> go_error \<Rightarrow> ('w service, response) act" where
  "answer_error env e = answer False (se_Error env e)"

definition report :: "'w service_env \<Rightarrow> publicStatus \<Rightarrow> ('w service, unit) act" where
  "report env view = (case se_report env of None \<Rightarrow> ret () | Some f \<Rightarrow> ignoreE (on_store (f view)))"

text \<open>Capturing and storing, which a request and a flush share.\<close>

definition commit :: "'w service_env \<Rightarrow> wifi_profile option \<Rightarrow> ('w service, state_snapshot) act" where
  "commit env wifi =
     bindE (on_store (capture (se_os env) (se_store env) wifi)) (\<lambda>st.
     bindE (readS sv_current) (\<lambda>current.
     seqE (liftE (retainRequiredSettings current st))
    (seqE (on_store (store_save (se_os env) (se_codec env) (se_store env) st))
       (ret st))))"

definition handle_load :: "'w service_env \<Rightarrow> ('w service, response) act" where
  "handle_load env = tryE (on_store (store_load (se_os env) (se_codec env) (se_store env))) (\<lambda>r. case r of
     Inl e \<Rightarrow> answer_error env e
   | Inr durable \<Rightarrow> (case WiFi durable of
       None \<Rightarrow> answer False ''PERSIST_PROFILE_ABSENT''
     | Some p \<Rightarrow> ret \<lparr>rs_OK = True, rs_Code = ''PERSIST_PROFILE_LOADED'', rs_Profile = Some p\<rparr>))"

definition write_profile :: "'w service_env \<Rightarrow> wifi_profile \<Rightarrow> ('w service, response) act" where
  "write_profile env p =
     bindE (readS (\<lambda>s. (sv_lastWrite s, se_now env (sv_world s)))) (\<lambda>(lastWrite, now).
     if (case lastWrite of None \<Rightarrow> False | Some t \<Rightarrow> now - t < 30 * 1000000000)
     then answer False ''PERSIST_SAVE_RATE_LIMITED''
     else tryE (commit env (Some p)) (\<lambda>r. case r of
       Inl e \<Rightarrow> answer_error env e
     | Inr st \<Rightarrow>
         seqE (updS (\<lambda>s. s\<lparr>sv_current := st, sv_lastWrite := Some (se_now env (sv_world s))\<rparr>))
        (seqE (report env (statusFor st ''ready'' ''PERSIST_COMMITTED''))
        (answer True ''PERSIST_PROFILE_SAVED''))))"

definition unchanged_or_write :: "'w service_env \<Rightarrow> wifi_profile \<Rightarrow> ('w service, response) act" where
  "unchanged_or_write env p = bindE (readS sv_current) (\<lambda>current.
     if WiFi current = Some p
     then tryE (on_store (store_load (se_os env) (se_codec env) (se_store env))) (\<lambda>r. case r of
       Inl e \<Rightarrow> answer_error env e
     | Inr durable \<Rightarrow> if WiFi durable \<noteq> Some p then answer False ''PERSIST_PROFILE_MISMATCH''
         else answer True ''PERSIST_PROFILE_UNCHANGED'')
     else write_profile env p)"

definition absent :: "'w service_env \<Rightarrow> go_error \<Rightarrow> bool" where
  "absent env e \<longleftrightarrow> se_Error env e = ''PERSIST_STATE_ABSENT''"

definition handle_save :: "'w service_env \<Rightarrow> bool \<Rightarrow> wifi_profile option \<Rightarrow> ('w service, response) act" where
  "handle_save env seed profile = (case profile of
     None \<Rightarrow> answer False ''PERSIST_PROFILE_INVALID''
   | Some p \<Rightarrow>
       if validateProfile p \<noteq> Inr () then answer False ''PERSIST_PROFILE_INVALID''
       else if seed then
         tryE (on_store (store_load (se_os env) (se_codec env) (se_store env))) (\<lambda>r.
         bindE (readS sv_current) (\<lambda>current. case r of
           Inl e \<Rightarrow>
             if \<not> absent env e then answer_error env e
             else if WiFi current \<noteq> None then answer False ''PERSIST_PROFILE_EXISTS''
             else unchanged_or_write env p
         | Inr durable \<Rightarrow>
             if WiFi current \<noteq> None \<or> WiFi durable \<noteq> None then answer False ''PERSIST_PROFILE_EXISTS''
             else unchanged_or_write env p))
       else unchanged_or_write env p)"

definition expected_codes :: "string list" where
  "expected_codes = [''PERSIST_REQUEST_INVALID'', ''PERSIST_PROFILE_INVALID'', ''PERSIST_SAVE_RATE_LIMITED'',
     ''PERSIST_PROFILE_ABSENT'', ''PERSIST_STATE_ABSENT'', ''PERSIST_PROFILE_EXISTS'']"

definition handle_locked :: "'w service_env \<Rightarrow> request \<Rightarrow> ('w service, response) act" where
  "handle_locked env req = tryE (on_store (st_check (se_store env))) (\<lambda>r. case r of
     Inl e \<Rightarrow> answer_error env e
   | Inr _ \<Rightarrow>
       if rq_Operation req = ''load'' then
         (if rq_Profile req \<noteq> None then answer False ''PERSIST_REQUEST_INVALID'' else handle_load env)
       else if rq_Operation req = ''save'' then handle_save env False (rq_Profile req)
       else if rq_Operation req = ''save-seed'' then handle_save env True (rq_Profile req)
       else answer False ''PERSIST_REQUEST_INVALID'')"

definition handle :: "'w service_env \<Rightarrow> request \<Rightarrow> ('w service, response) act" where
  "handle env req = bindE (handle_locked env req) (\<lambda>a.
     if rs_OK a \<or> rs_Code a \<in> set expected_codes then ret a
     else seqE (report env (statusFor no_snapshot ''degraded'' (rs_Code a))) (ret a))"

definition flush :: "'w service_env \<Rightarrow> ('w service, unit) act" where
  "flush env = tryE (bindE (readS sv_current) (\<lambda>current. commit env (WiFi current))) (\<lambda>r. case r of
     Inl e \<Rightarrow> seqE (report env (statusFor no_snapshot ''degraded'' (se_Error env e))) (fail e)
   | Inr st \<Rightarrow> seqE (updS (\<lambda>s. s\<lparr>sv_current := st\<rparr>))
       (report env (statusFor st ''ready'' ''PERSIST_COMMITTED'')))"

subsection \<open>What an answer promises\<close>

text \<open>A run in the world is a run of the service that leaves its fields alone.\<close>

lemma on_store_run:
  "on_store m s = (r, s') \<longleftrightarrow> m (sv_world s) = (r, sv_world s') \<and> s' = s\<lparr>sv_world := sv_world s'\<rparr>"
  by (cases "m (sv_world s)") (auto simp: on_store_def)

lemma on_store_fields:
  assumes "on_store m s = (r, s')"
  shows "sv_current s' = sv_current s" "sv_lastWrite s' = sv_lastWrite s"
  using assms by (auto simp: on_store_def split: prod.splits)

lemma answer_run [simp]:
  "answer ok c s = (r, s') \<longleftrightarrow> r = Inr \<lparr>rs_OK = ok, rs_Code = c, rs_Profile = None\<rparr> \<and> s' = s"
  "answer_error env e s = (r, s') \<longleftrightarrow> r = Inr \<lparr>rs_OK = False, rs_Code = se_Error env e, rs_Profile = None\<rparr> \<and> s' = s"
  by (auto simp: answer_def answer_error_def)

lemma capture_profile:
  assumes "capture os s wifi w = (Inr st, w')"
  shows "WiFi st = wifi" "Version st = 1"
  using assms unfolding capture_def Let_def by (auto elim!: act_elims)

text \<open>The content of the file that holds the snapshot decodes to one with this profile.\<close>

definition profile_stored :: "('w \<Rightarrow> string option) \<Rightarrow> state_codec \<Rightarrow> wifi_profile option \<Rightarrow> 'w \<Rightarrow> bool" where
  "profile_stored visible jc p w \<longleftrightarrow> (\<exists>x st. visible w = Some x \<and> decodeSnapshot jc x = Inr st \<and> WiFi st = p)"

text \<open>The settings that a commit must not lose.\<close>

definition settings_kept :: "state_snapshot \<Rightarrow> state_snapshot \<Rightarrow> bool" where
  "settings_kept before after \<longleftrightarrow> (\<forall>name \<in> set runtime_names.
     map_of (case Files before of None \<Rightarrow> [] | Some fs \<Rightarrow> fs) name \<noteq> None \<longrightarrow>
     map_of (case Files after of None \<Rightarrow> [] | Some fs \<Rightarrow> fs) name \<noteq> None)"

text \<open>
  What the service relies on: the check of the mount, the hook before a rename and the report
  leave the snapshot file alone, and the codec reads back what it wrote.
\<close>

definition quiet_env :: "('w \<Rightarrow> string option set) \<Rightarrow> ('w \<Rightarrow> string option) \<Rightarrow> ('w \<Rightarrow> path \<Rightarrow> string \<Rightarrow> bool) \<Rightarrow> 'w service_env \<Rightarrow> bool" where
  "quiet_env outcomes visible ready env \<longleftrightarrow>
     same (\<lambda>w. (outcomes w, visible w)) (st_check (se_store env)) \<and>
     (\<forall>h. st_beforeMove (se_store env) = Some h \<longrightarrow> same (\<lambda>w. (outcomes w, visible w, ready w)) h) \<and>
     (\<forall>f view. se_report env = Some f \<longrightarrow> same (\<lambda>w. (outcomes w, visible w)) (f view)) \<and>
     (\<forall>st. codec_reads_back (se_codec env) st)"

lemma quiet_envD:
  assumes "quiet_env outcomes visible ready env"
  shows "same (\<lambda>w. (outcomes w, visible w)) (st_check (se_store env))"
    "\<And>h. st_beforeMove (se_store env) = Some h \<Longrightarrow> same (\<lambda>w. (outcomes w, visible w, ready w)) h"
    "\<And>f view. se_report env = Some f \<Longrightarrow> same (\<lambda>w. (outcomes w, visible w)) (f view)"
    "codec_reads_back (se_codec env) st"
  using assms by (simp_all add: quiet_env_def)

lemma retain_kept: "retainRequiredSettings before after = Inr u \<longleftrightarrow> settings_kept before after"
  by (auto simp: retainRequiredSettings_def settings_kept_def runtime_names_def)

context crash_store begin

lemma commit_stores:
  assumes T: "T = state_path (se_store env)"
    and env: "quiet_env outcomes visible ready env"
    and os: "os = se_os env"
    and run: "commit env wifi s = (Inr st, s')"
  shows "profile_stored visible (se_codec env) wifi (sv_world s')" "WiFi st = wifi"
    "settings_kept (sv_current s) st" "sv_current s' = sv_current s" "sv_lastWrite s' = sv_lastWrite s"
    "\<exists>x. visible (sv_world s') = Some x \<and> decodeSnapshot (se_codec env) x = Inr st"
proof -
  from run obtain s1 s2 u v where
    c: "on_store (capture (se_os env) (se_store env) wifi) s = (Inr st, s1)"
    and k: "retainRequiredSettings (sv_current s1) st = Inr u"
    and w: "on_store (store_save (se_os env) (se_codec env) (se_store env) st) s1 = (Inr v, s2)" and s': "s' = s2"
    unfolding commit_def by (auto elim!: act_elims)
  have p: "WiFi st = wifi" using c capture_profile by (auto simp: on_store_run)
  from w have "store_save os (se_codec env) (se_store env) st (sv_world s1) = (Inr v, sv_world s2)"
    by (simp add: on_store_run os)
  from store_save_decodes [OF T quiet_envD(1,2,4) [OF env] this] obtain x
    where x: "visible (sv_world s2) = Some x" "decodeSnapshot (se_codec env) x = Inr st" by blast
  note f = on_store_fields [OF c] on_store_fields [OF w]
  show "WiFi st = wifi" "sv_current s' = sv_current s" "sv_lastWrite s' = sv_lastWrite s" by (simp_all add: p s' f)
  show "profile_stored visible (se_codec env) wifi (sv_world s')" using x p by (auto simp: profile_stored_def s')
  show "settings_kept (sv_current s) st" using k f by (simp add: retain_kept)
  show "\<exists>x. visible (sv_world s') = Some x \<and> decodeSnapshot (se_codec env) x = Inr st" using x s' by blast
qed

end

text \<open>A report writes another file and never fails.\<close>

lemma report_run:
  assumes "report env view s = (r, s')"
    and env: "quiet_env outcomes visible ready env"
  shows "visible (sv_world s') = visible (sv_world s)" "sv_current s' = sv_current s" "sv_lastWrite s' = sv_lastWrite s" "r = Inr ()"
  using assms(1) sameD [OF quiet_envD(3) [OF env]]
  by (auto simp: report_def ret_def ignoreE_def on_store_def split: option.splits prod.splits)

context crash_store begin

lemma load_stored:
  assumes T: "T = state_path (se_store env)"
    and env: "quiet_env outcomes visible ready env"
    and os: "os = se_os env"
    and run: "on_store (store_load (se_os env) (se_codec env) (se_store env)) s = (Inr st, s')"
  shows "profile_stored visible (se_codec env) (WiFi st) (sv_world s')"
  using store_load_decodes [OF T quiet_envD(1) [OF env], of "se_codec env" "sv_world s" st "sv_world s'"] run os
  by (auto simp: on_store_run profile_stored_def)

lemma write_profile_stores:
  assumes T: "T = state_path (se_store env)"
    and env: "quiet_env outcomes visible ready env"
    and os: "os = se_os env"
    and run: "write_profile env p s = (Inr a, s')" and ok: "rs_OK a"
  shows "profile_stored visible (se_codec env) (Some p) (sv_world s')" "settings_kept (sv_current s) (sv_current s')"
    "WiFi (sv_current s') = Some p" "rs_Code a = ''PERSIST_PROFILE_SAVED''"
    "\<And>t. sv_lastWrite s = Some t \<Longrightarrow> 30 * 1000000000 \<le> se_now env (sv_world s) - t"
proof -
  from run ok have rate: "\<not> (case sv_lastWrite s of None \<Rightarrow> False | Some t \<Rightarrow> se_now env (sv_world s) - t < 30 * 1000000000)"
    unfolding write_profile_def by (auto simp: bindE_def readS_def split: if_splits)
  with run ok obtain st s1 s2 s3 where c: "commit env (Some p) s = (Inr st, s1)"
    and s2: "s2 = s1\<lparr>sv_current := st, sv_lastWrite := Some (se_now env (sv_world s1))\<rparr>"
    and r: "report env (statusFor st ''ready'' ''PERSIST_COMMITTED'') s2 = (Inr (), s')"
    and a: "a = \<lparr>rs_OK = True, rs_Code = ''PERSIST_PROFILE_SAVED'', rs_Profile = None\<rparr>"
    unfolding write_profile_def
    by (auto simp: bindE_def readS_def tryE_def seqE_def updS_def report_def ret_def ignoreE_def answer_def answer_error_def
        split: sum.splits prod.splits if_splits option.splits)
  note k = commit_stores [OF T env os c]
  note q = report_run [OF r env]
  have v: "visible (sv_world s') = visible (sv_world s1)" using q(1) s2 by simp
  show "profile_stored visible (se_codec env) (Some p) (sv_world s')" using k(1) v by (simp add: profile_stored_def)
  show "settings_kept (sv_current s) (sv_current s')" "WiFi (sv_current s') = Some p" using k q s2 by simp_all
  show "rs_Code a = ''PERSIST_PROFILE_SAVED''" using a by simp
  show "30 * 1000000000 \<le> se_now env (sv_world s) - t" if "sv_lastWrite s = Some t" for t
    using rate that by simp
qed

end

context crash_store begin

lemma unchanged_or_write_stores:
  assumes T: "T = state_path (se_store env)"
    and env: "quiet_env outcomes visible ready env"
    and os: "os = se_os env"
    and run: "unchanged_or_write env p s = (Inr a, s')" and ok: "rs_OK a"
  shows "profile_stored visible (se_codec env) (Some p) (sv_world s') \<and> settings_kept (sv_current s) (sv_current s') \<and>
    WiFi (sv_current s') = Some p"
proof (cases "WiFi (sv_current s) = Some p")
  case True
  with run ok obtain st where l: "on_store (store_load (se_os env) (se_codec env) (se_store env)) s = (Inr st, s')"
    and st: "WiFi st = Some p"
    unfolding unchanged_or_write_def
    by (auto simp: bindE_def readS_def tryE_def answer_def answer_error_def ret_def split: sum.splits prod.splits if_splits)
  from load_stored [OF T env os l] st True on_store_fields [OF l] show ?thesis
    by (simp add: settings_kept_def)
next
  case False
  with run have "write_profile env p s = (Inr a, s')"
    by (simp add: unchanged_or_write_def bindE_def readS_def)
  from write_profile_stores [OF T env os this ok] show ?thesis by simp
qed

end

lemma handle_save_run:
  assumes run: "handle_save env seed profile s = (Inr a, s')" and ok: "rs_OK a"
  obtains p s1 where "profile = Some p" "validateProfile p = Inr ()" "unchanged_or_write env p s1 = (Inr a, s')"
    "sv_current s1 = sv_current s" "seed \<longrightarrow> WiFi (sv_current s) = None"
proof -
  from run ok obtain p where p: "profile = Some p" "validateProfile p = Inr ()"
    unfolding handle_save_def by (auto split: option.splits if_splits)
  show thesis
  proof (cases seed)
    case False
    with p run show thesis by (intro that [of p s]) (auto simp: handle_save_def)
  next
    case True
    obtain r s1 where l: "on_store (store_load (se_os env) (se_codec env) (se_store env)) s = (r, s1)"
      by (rule prod.exhaust)
    from p True run ok l have "unchanged_or_write env p s1 = (Inr a, s') \<and> WiFi (sv_current s1) = None"
      unfolding handle_save_def
      by (auto simp: tryE_def bindE_def readS_def answer_def answer_error_def ret_def split: sum.splits if_splits)
    with on_store_fields [OF l] p show thesis by (intro that [of p s1]) simp_all
  qed
qed


text \<open>The service in memory, asked to save a profile.\<close>

definition home_profile :: wifi_profile where
  "home_profile = \<lparr>SSID = ''home'', PSK = replicate 64 CHR ''0'', Security = ''wpa2-psk'', Hidden = False\<rparr>"

abbreviation home_state :: state_snapshot where
  "home_state \<equiv> \<lparr>Version = 1, WiFi = Some home_profile, Files = Some []\<rparr>"

definition memory_service_env :: "mem_fs service_env" where
  "memory_service_env = \<lparr>se_os = memory_os, se_codec = one_codec home_state, se_store = memory_storage, se_report = None,
     se_now = (\<lambda>_. 0), se_Error = (\<lambda>e. case e of Errorf c \<Rightarrow> c | _ \<Rightarrow> ''error'')\<rparr>"

definition service_fs :: mem_fs where
  "service_fs = (new_mem_fs [])\<lparr>mf_dirs := [[], [''persist''], [''persist'', ''reinvoke''], [''run''], [''run'', ''reinvoke''],
     [''usr''], [''usr'', ''var''], [''usr'', ''var'', ''lib''], [''usr'', ''var'', ''lib'', ''bluetooth'']]\<rparr>"

definition new_service :: "mem_fs service" where
  "new_service = \<lparr>sv_current = empty_snapshot, sv_lastWrite = None, sv_world = service_fs\<rparr>"

definition save_home :: "(go_error + response) \<times> mem_fs service" where
  "save_home = handle memory_service_env \<lparr>rq_Operation = ''save-seed'', rq_Profile = Some home_profile\<rparr> new_service"

lemma home_valid: "validateProfile home_profile = Inr ()"
  by code_simp

lemma home_state_valid: "validateStateSnapshot home_state = Inr ()"
  by (simp add: validateStateSnapshot_def home_valid maxFiles_def maxSnapshot_def)

lemma memory_service_quiet:
  "quiet_env (mf_outcomes state_target) (mf_visible state_target) mf_ready memory_service_env"
  by (simp add: quiet_env_def memory_service_env_def memory_storage_def one_codec_reads_back same_def ret_def)

lemma home_captured: "capture memory_os memory_storage (Some home_profile) service_fs =
    (Inr home_state, service_fs)"
  by (simp add: capture_def runtime_names_def service_fs_def new_mem_fs_def store_run memory_run visit_bond_def maxFile_def
      home_state_valid mf_ReadDir_def Base_def Let_def numeral_3_eq_3 cong: run_cong)

lemma home_absent: "store_load memory_os jc memory_storage service_fs = (Inl (Errorf ''PERSIST_STATE_ABSENT''), service_fs)"
  by (simp add: store_load_def service_fs_def new_mem_fs_def store_run memory_run cong: run_cong)

lemma home_stored: "\<exists>w. store_save memory_os (one_codec home_state) memory_storage home_state service_fs = (Inr (), w)"
  by (simp add: service_fs_def new_mem_fs_def store_run memory_run home_state_valid one_encoded Let_def cong: run_cong)

lemma save_home_works: "\<exists>s'. save_home = (Inr \<lparr>rs_OK = True, rs_Code = ''PERSIST_PROFILE_SAVED'', rs_Profile = None\<rparr>, s')"
proof -
  let ?env = memory_service_env
  obtain w where w: "store_save memory_os (one_codec home_state) memory_storage home_state service_fs = (Inr (), w)"
    using home_stored by blast
  have f: "se_os ?env = memory_os" "se_codec ?env = one_codec home_state" "se_store ?env = memory_storage" "se_report ?env = None"
    "se_now ?env u = 0" "se_Error ?env (Errorf c) = c" for u c
    by (simp_all add: memory_service_env_def)
  have "commit ?env (Some home_profile) new_service = (Inr home_state, new_service\<lparr>sv_world := w\<rparr>)"
    by (simp add: commit_def on_store_def new_service_def f home_captured w act_simps empty_snapshot_def retainRequiredSettings_def)
  then have "\<exists>s'. unchanged_or_write ?env home_profile new_service = (Inr \<lparr>rs_OK = True, rs_Code = ''PERSIST_PROFILE_SAVED'', rs_Profile = None\<rparr>, s')"
    by (simp add: unchanged_or_write_def write_profile_def report_def f answer_def act_simps) (simp add: new_service_def empty_snapshot_def)
  then show ?thesis
    by (auto simp: save_home_def handle_def handle_locked_def handle_save_def f home_valid on_store_def home_absent absent_def
        memory_storage_fields act_simps) (auto simp: new_service_def home_absent empty_snapshot_def absent_def f)
qed


subsection \<open>Starting\<close>

text \<open>
  Runtime files must be in memory: \<^verbatim>\<open>tmpfs\<close> or \<^verbatim>\<open>ramfs\<close>.
\<close>

definition checkRAM :: "'w mount_kernel \<Rightarrow> path \<Rightarrow> ('w, unit) act" where
  "checkRAM k path =
     seqE (trustedParents (mk_os k) path 0)
    (tryE (mk_Statfs k path) (\<lambda>r. case r of
       Inl _ \<Rightarrow> fail (Errorf ''PERSIST_RAM_UNAVAILABLE'')
     | Inr kind \<Rightarrow> checkE (kind AND 0xffffffff = 0x01021994 \<or> kind AND 0xffffffff = 0x858458f6) (Errorf ''PERSIST_RUNTIME_NOT_RAM'')))"

definition newStorage :: "'w mount_kernel \<Rightarrow> 'w storage" where
  "newStorage k = \<lparr>st_root = storePath, st_runtime = runtimeDir, st_bonds = bondsPath, st_uid = 0,
     st_check = verifyMounted k, st_beforeMove = None\<rparr>"

text \<open>\<open>text\<close> is \<^verbatim>\<open>Error()\<close>, \<open>publish\<close> the publication of a status.\<close>

definition load_or_empty :: "'w mount_kernel \<Rightarrow> state_codec \<Rightarrow> (go_error \<Rightarrow> string) \<Rightarrow> (state_snapshot \<Rightarrow> ('w, unit) act) \<Rightarrow> ('w, state_snapshot) act" where
  "load_or_empty k jc error_string found = tryE (store_load (mk_os k) jc (newStorage k)) (\<lambda>r. case r of
     Inr st \<Rightarrow> seqE (found st) (ret st)
   | Inl e \<Rightarrow> if error_string e = ''PERSIST_STATE_ABSENT'' then ret empty_snapshot else fail e)"

definition prepare :: "'w mount_kernel \<Rightarrow> state_codec \<Rightarrow> (go_error \<Rightarrow> string) \<Rightarrow> (publicStatus \<Rightarrow> ('w, unit) act) \<Rightarrow> ('w, unit) act" where
  "prepare k jc error_string publish =
     seqE (forE [runtimeDir, bondsPath] (checkRAM k))
    (seqE (ensurePrivateDirectory (mk_os k) runtimeDir 0)
    (seqE (prepareMount k)
    (seqE (cleanInterruptedWrites (mk_os k) (newStorage k))
    (bindE (load_or_empty k jc error_string (restore (mk_os k) (newStorage k))) (\<lambda>st.
     seqE (atomicPrivate (mk_os k) (Join runtimeDir ''persistence-prepared'') (''1'' @ [newline]) 0 None)
       (ignoreE (publish (statusFor st ''prepared'' ''PERSIST_PREPARED''))))))))"

text \<open>The start of \<^verbatim>\<open>serve\<close>, up to the socket.\<close>

definition start_service :: "'w mount_kernel \<Rightarrow> state_codec \<Rightarrow> (go_error \<Rightarrow> string) \<Rightarrow> ('w, state_snapshot) act" where
  "start_service k jc error_string =
     seqE (checkRAM k runtimeDir)
    (tryE (readPrivate (mk_os k) (Join runtimeDir ''persistence-prepared'') 0 8) (\<lambda>marker.
     seqE (checkE (marker = Inr (''1'' @ [newline])) (Errorf ''PERSIST_NOT_PREPARED''))
       (load_or_empty k jc error_string (\<lambda>_. ret ()))))"

end
