(* ===== verification/Go_Net.thy ===== *)
theory Go_Net
  imports Go_Text
begin

text \<open>
  Internet addresses of Go's \<^verbatim>\<open>net\<close> package, as far as the services use them: the IPv4 address, if
  any, that a text stands for, its canonical text, and masks. An address is its four bytes.
\<close>

type_synonym ipv4 = "nat list"

subsection \<open>Dotted text\<close>

definition octet :: "string \<Rightarrow> nat option" where
  "octet s = (if s = [] \<or> \<not> list_all is_digit s \<or> (hd s = CHR ''0'' \<and> s \<noteq> ''0'') \<or> 255 < digits_value s
     then None else Some (digits_value s))"

fun all_some :: "'a option list \<Rightarrow> 'a list option" where
  "all_some [] = Some []"
| "all_some (None # xs) = None"
| "all_some (Some x # xs) = map_option ((#) x) (all_some xs)"

definition parseIPv4 :: "string \<Rightarrow> ipv4 option" where
  "parseIPv4 s = (let parts = split_on CHR ''.'' s in
     if length parts \<noteq> 4 then None else all_some (List.map octet parts))"

definition IPv4_String :: "ipv4 \<Rightarrow> string" where
  "IPv4_String a = decimal (a ! 0) @ ''.'' @ decimal (a ! 1) @ ''.'' @ decimal (a ! 2) @ ''.'' @ decimal (a ! 3)"

subsection \<open>Colons\<close>

text \<open>
  \<^verbatim>\<open>parseIPv6\<close> without a zone: \<open>acc\<close> holds the bytes read, the option where a double colon was
  seen. \<open>k\<close> is the number of groups still to come; there are eight.
\<close>

definition hex_group :: "string \<Rightarrow> nat" where
  "hex_group s = foldl (\<lambda>n c. 16 * n + the (hex_value c)) 0 s"

fun ipv6_groups :: "nat \<Rightarrow> string \<Rightarrow> nat list \<Rightarrow> nat option \<Rightarrow> (nat list \<times> nat option) option" where
  "ipv6_groups 0 s acc dots = (if s = [] then Some (acc, dots) else None)"
| "ipv6_groups (Suc k) s acc dots = (
     let digits = takeWhile is_hex s; rest = dropWhile is_hex s;
         acc' = acc @ [hex_group digits div 256, hex_group digits mod 256]
     in if digits = [] \<or> 4 < length digits then None
        else if take 1 rest = ''.'' then
          (if (dots = None \<and> length acc \<noteq> 12) \<or> 12 < length acc then None
           else map_option (\<lambda>q. (acc @ q, dots)) (parseIPv4 s))
        else if rest = [] then Some (acc', dots)
        else if hd rest \<noteq> CHR '':'' \<or> length rest = 1 then None
        else if rest ! 1 \<noteq> CHR '':'' then ipv6_groups k (drop 1 rest) acc' dots
        else if dots \<noteq> None then None
        else if length rest = 2 then Some (acc', Some (length acc'))
        else ipv6_groups k (drop 2 rest) acc' (Some (length acc')))"

definition parseIPv6 :: "string \<Rightarrow> nat list option" where
  "parseIPv6 s = (
     let lead = (take 2 s = ''::''); start = (if lead then drop 2 s else s)
     in if lead \<and> start = [] then Some (replicate 16 0)
        else (case ipv6_groups 8 start [] (if lead then Some 0 else None) of
          None \<Rightarrow> None
        | Some (acc, dots) \<Rightarrow>
            (case dots of
               None \<Rightarrow> if length acc = 16 then Some acc else None
             | Some e \<Rightarrow> if length acc < 16 then Some (take e acc @ replicate (16 - length acc) 0 @ drop e acc) else None)))"

text \<open>
  \<^verbatim>\<open>net.ParseIP(s).To4()\<close>: an IPv4 address, or an IPv6 address that maps one. The first dot, colon or
  percent sign says which; a zone is not accepted.
\<close>

definition ParseIP4 :: "string \<Rightarrow> ipv4 option" where
  "ParseIP4 s = (case List.find (\<lambda>c. c \<in> {CHR ''.'', CHR '':'', CHR ''%''}) s of
     None \<Rightarrow> None
   | Some c \<Rightarrow>
       if c = CHR ''.'' then parseIPv4 s
       else if c = CHR '':'' \<and> CHR ''%'' \<notin> set s then
         (case parseIPv6 s of
            None \<Rightarrow> None
          | Some b \<Rightarrow> if take 12 b = replicate 10 0 @ [255, 255] then Some (drop 12 b) else None)
       else None)"

subsection \<open>Kinds of addresses and masks\<close>

definition IsUnspecified :: "ipv4 \<Rightarrow> bool" where "IsUnspecified a \<longleftrightarrow> a = [0, 0, 0, 0]"
definition IsMulticast :: "ipv4 \<Rightarrow> bool" where "IsMulticast a \<longleftrightarrow> 224 \<le> a ! 0 \<and> a ! 0 < 240"
definition IPv4bcast :: ipv4 where "IPv4bcast = [255, 255, 255, 255]"

definition byte_bits :: "nat \<Rightarrow> bool list" where
  "byte_bits n = List.map (\<lambda>i. odd (n div 2 ^ i)) (rev [0..<8])"

text \<open>\<^verbatim>\<open>IPMask.Size\<close>: the number of leading ones of a mask that is ones and then zeros, else zero.\<close>

definition mask_ones :: "ipv4 \<Rightarrow> nat" where
  "mask_ones a = (let bits = concat (List.map byte_bits a); ones = takeWhile id bits in
     if list_all Not (drop (length ones) bits) then length ones else 0)"

text \<open>\<^verbatim>\<open>net.ParseCIDR\<close> of an IPv4 network: the address and the length of the prefix.\<close>

definition ParseCIDR4 :: "string \<Rightarrow> (ipv4 \<times> nat) option" where
  "ParseCIDR4 s = (case Cut CHR ''/'' s of
     None \<Rightarrow> None
   | Some (addr, bits) \<Rightarrow>
       if bits = [] \<or> \<not> list_all is_digit bits \<or> 32 < digits_value bits \<or> CHR '':'' \<in> set addr then None
       else (case ParseIP4 addr of None \<Rightarrow> None | Some a \<Rightarrow> Some (a, digits_value bits)))"

subsection \<open>Canonical text\<close>

declare decimal.simps [simp del]

lemma char_code: "(n :: nat) < 256 \<Longrightarrow> code (char_of n) = n"
  by simp

lemma is_digit_char: "n < 10 \<Longrightarrow> is_digit (char_of (48 + n :: nat))"
  by (simp add: is_digit_def)

lemma decimal_digits: "decimal n \<noteq> [] \<and> list_all is_digit (decimal n)"
proof (induction n rule: decimal.induct)
  case (1 n)
  then show ?case by (subst (1 2) decimal.simps) (simp add: is_digit_char)
qed

lemma digits_value_snoc: "digits_value (s @ [c]) = 10 * digits_value s + (of_char c - 48)"
  by (simp add: digits_value_def)

lemma decimal_value [simp]: "digits_value (decimal n) = n"
proof (induction n rule: decimal.induct)
  case (1 n)
  show ?case
  proof (cases "n < 10")
    case True
    then show ?thesis by (subst decimal.simps) (simp add: digits_value_def)
  next
    case False
    with 1 show ?thesis by (subst decimal.simps) (simp add: digits_value_snoc)
  qed
qed

lemma digit_zero: "n < 10 \<Longrightarrow> char_of (48 + n :: nat) = CHR ''0'' \<longleftrightarrow> n = 0"
  by (simp add: char_of_eq_iff take_bit_nat_eq_self)

lemma decimal_hd: "hd (decimal n) = CHR ''0'' \<longleftrightarrow> n = 0"
proof (induction n rule: decimal.induct)
  case (1 n)
  show ?case
  proof (cases "n < 10")
    case True
    then show ?thesis by (subst decimal.simps) (simp add: digit_zero)
  next
    case False
    with 1 show ?thesis by (subst decimal.simps) (simp add: hd_append decimal_digits)
  qed
qed

lemma decimal_0 [simp]: "decimal 0 = ''0''"
  by (subst decimal.simps) (simp add: char_of_eq_iff)

lemma octet_decimal: "n < 256 \<Longrightarrow> octet (decimal n) = Some n"
  using decimal_hd [of n] decimal_digits [of n] by (auto simp: octet_def)

lemma split_on_nonempty [simp]: "split_on sep s \<noteq> []"
  by (induction s) (auto split: list.split)

lemma split_on_append:
  assumes "sep \<notin> set xs"
  shows "split_on sep (xs @ sep # ys) = xs # split_on sep ys" "split_on sep xs = [xs]"
  using assms by (induction xs) (auto split: list.split)

text \<open>Four bytes are read back from their text.\<close>

definition is_ipv4 :: "ipv4 \<Rightarrow> bool" where
  "is_ipv4 a \<longleftrightarrow> length a = 4 \<and> (\<forall>b \<in> set a. b < 256)"

lemma digit_not_dot: "is_digit c \<Longrightarrow> c \<noteq> CHR ''.'' \<and> c \<noteq> CHR '':'' \<and> c \<noteq> CHR ''%''"
  by (auto simp: is_digit_def)

lemma decimal_plain: "c \<in> set (decimal n) \<Longrightarrow> is_digit c"
  using decimal_digits [of n] by (auto simp: list_all_iff)

lemma parseIPv4_String: "is_ipv4 a \<Longrightarrow> parseIPv4 (IPv4_String a) = Some a"
proof -
  assume a: "is_ipv4 a"
  then obtain p q r s where e: "a = [p, q, r, s]" and b: "p < 256" "q < 256" "r < 256" "s < 256"
    by (auto simp: is_ipv4_def numeral_eq_Suc length_Suc_conv)
  have d: "CHR ''.'' \<notin> set (decimal n)" for n
    using digit_not_dot decimal_plain by blast
  show ?thesis
    by (simp add: e parseIPv4_def IPv4_String_def split_on_append d octet_decimal b)
qed

lemma find_append: "List.find P (xs @ ys) = (case List.find P xs of None \<Rightarrow> List.find P ys | Some x \<Rightarrow> Some x)"
  by (induction xs) auto

lemma ParseIP4_String: "is_ipv4 a \<Longrightarrow> ParseIP4 (IPv4_String a) = Some a"
proof -
  have "List.find (\<lambda>c. c \<in> {CHR ''.'', CHR '':'', CHR ''%''}) (decimal (a ! 0)) = None"
    using digit_not_dot decimal_plain by (auto simp: find_None_iff)
  then have "List.find (\<lambda>c. c \<in> {CHR ''.'', CHR '':'', CHR ''%''}) (IPv4_String a) = Some CHR ''.''"
    unfolding IPv4_String_def find_append by simp
  moreover assume "is_ipv4 a"
  ultimately show ?thesis by (simp add: ParseIP4_def parseIPv4_String)
qed

lemma all_some_length: "all_some xs = Some ys \<Longrightarrow> xs = List.map Some ys"
  by (induction xs arbitrary: ys rule: all_some.induct) auto

lemma parseIPv4_bytes: "parseIPv4 s = Some a \<Longrightarrow> is_ipv4 a"
proof -
  assume p: "parseIPv4 s = Some a"
  then have l: "length (split_on CHR ''.'' s) = 4" and m: "List.map octet (split_on CHR ''.'' s) = List.map Some a"
    by (auto simp: parseIPv4_def Let_def split: if_splits dest: all_some_length)
  have "length a = 4" using l arg_cong [OF m, of length] by simp
  moreover have "b < 256" if "b \<in> set a" for b
  proof -
    have "Some b \<in> set (List.map octet (split_on CHR ''.'' s))" using that m by auto
    then obtain t where "octet t = Some b" by auto
    then show ?thesis by (auto simp: octet_def split: if_splits)
  qed
  ultimately show ?thesis by (simp add: is_ipv4_def)
qed

lemma hex_value_less: "hex_value c = Some d \<Longrightarrow> d < 16"
  by (auto simp: hex_value_def is_digit_def split: if_splits)

lemma hex_group_bound:
  "\<forall>c \<in> set s. is_hex c \<Longrightarrow> hex_group s < 16 ^ length s"
proof (induction s rule: rev_induct)
  case (snoc c s)
  then obtain d where "hex_value c = Some d" by (auto simp: is_hex_def)
  moreover have "hex_group s < 16 ^ length s" using snoc by simp
  ultimately show ?case using hex_value_less [of c d] by (simp add: hex_group_def)
qed (simp add: hex_group_def)

lemma hex_group_bytes:
  assumes "\<forall>c \<in> set s. is_hex c" "length s \<le> 4"
  shows "hex_group s div 256 < 256"
proof -
  have "(16 :: nat) ^ length s \<le> 16 ^ 4" using assms(2) by (intro power_increasing) auto
  with hex_group_bound [OF assms(1)] show ?thesis by simp
qed

lemma ipv6_groups_bytes:
  assumes "ipv6_groups k s acc dots = Some (bs, e)" "\<forall>b \<in> set acc. b < 256" "length acc + 2 * k = 16"
  shows "(\<forall>b \<in> set bs. b < 256) \<and> length bs \<le> 16 \<and> length acc \<le> length bs"
  using assms
proof (induction k s acc dots rule: ipv6_groups.induct)
  case (2 k s acc dots)
  define D where "D = takeWhile is_hex s"
  define R where "R = dropWhile is_hex s"
  let ?acc = "acc @ [hex_group D div 256, hex_group D mod 256]"
  note run = 2(3)
  note step = ipv6_groups.simps(2) [of k s acc dots, unfolded Let_def, folded D_def R_def]
  note IH = 2(1,2) [OF refl refl refl, folded D_def R_def]
  from run have d: "\<not> (D = [] \<or> 4 < length D)" unfolding step by (auto split: if_splits)
  have "\<forall>c \<in> set D. is_hex c" unfolding D_def by (auto dest: set_takeWhileD)
  then have acc: "\<forall>b \<in> set ?acc. b < 256" using hex_group_bytes d 2(4) by auto
  have len: "length ?acc + 2 * k = 16" using 2(5) by simp
  show ?case
  proof (cases "take 1 R = ''.''")
    case True
    with run d have "map_option (\<lambda>q. (acc @ q, dots)) (parseIPv4 s) = Some (bs, e)" "length acc \<le> 12"
      unfolding step by (simp_all split: if_split_asm)
    then obtain q where "parseIPv4 s = Some q" "bs = acc @ q" "length acc \<le> 12" by auto
    moreover from this(1) have "is_ipv4 q" by (rule parseIPv4_bytes)
    ultimately show ?thesis using 2(4) by (simp add: is_ipv4_def ball_Un)
  next
    case dot: False
    have short: "?thesis" if "bs = ?acc"
      unfolding that by (rule conjI [OF acc]) (use len in simp)
    show ?thesis
    proof (cases "R = []")
      case True
      with run dot d have "bs = ?acc" unfolding step by simp
      then show ?thesis by (rule short)
    next
      case rest: False
      with run dot d have c: "\<not> (hd R \<noteq> CHR '':'' \<or> length R = 1)" unfolding step by (auto split: if_splits)
      show ?thesis
      proof (cases "R ! 1 = CHR '':''")
        case False
        with run dot d rest c have "ipv6_groups k (drop 1 R) ?acc dots = Some (bs, e)" unfolding step by simp
        from IH(1) [OF d dot rest c False this acc len] show ?thesis by simp
      next
        case True
        with run dot d rest c have n: "\<not> dots \<noteq> None" unfolding step by (auto split: if_splits)
        show ?thesis
        proof (cases "length R = 2")
          case l: True
          with run dot d rest c True n have "bs = ?acc" unfolding step by simp
          then show ?thesis by (rule short)
        next
          case l: False
          with run dot d rest c True n
          have "ipv6_groups k (drop 2 R) ?acc (Some (length ?acc)) = Some (bs, e)" unfolding step by simp
          from IH(2) [OF d dot rest c _ n l this acc len] True show ?thesis by simp
        qed
      qed
    qed
  qed
qed (auto split: if_splits)

lemma ParseIP4_bytes: "ParseIP4 s = Some a \<Longrightarrow> is_ipv4 a"
proof -
  assume p: "ParseIP4 s = Some a"
  have "parseIPv4 s = Some a \<or> (\<exists>b. parseIPv6 s = Some b \<and> a = drop 12 b)"
  proof (cases "List.find (\<lambda>c. c \<in> {CHR ''.'', CHR '':'', CHR ''%''}) s")
    case None
    with p show ?thesis unfolding ParseIP4_def by simp
  next
    case (Some c)
    note q = p [unfolded ParseIP4_def Some option.case]
    show ?thesis
    proof (cases "c = CHR ''.''")
      case True
      with q show ?thesis by simp
    next
      case False
      with q show ?thesis by (cases "parseIPv6 s") (simp_all split: if_split_asm)
    qed
  qed
  then consider "parseIPv4 s = Some a" | b where "parseIPv6 s = Some b" "a = drop 12 b" by blast
  then show ?thesis
  proof cases
    case 1
    then show ?thesis by (rule parseIPv4_bytes)
  next
    case (2 b)
    have "(\<forall>x \<in> set b. x < 256) \<and> length b = 16"
    proof (cases "take 2 s = ''::'' \<and> drop 2 s = []")
      case True
      with 2 show ?thesis by (auto simp: parseIPv6_def)
    next
      case False
      with 2 obtain acc e where g: "ipv6_groups 8 (if take 2 s = ''::'' then drop 2 s else s) []
          (if take 2 s = ''::'' then Some 0 else None) = Some (acc, e)"
        and b: "b = (case e of None \<Rightarrow> acc | Some e \<Rightarrow> take e acc @ replicate (16 - length acc) 0 @ drop e acc)"
        and l: "case e of None \<Rightarrow> length acc = 16 | Some e \<Rightarrow> length acc < 16"
        by (auto simp: parseIPv6_def Let_def split: option.splits if_splits)
      from ipv6_groups_bytes [OF g] have "\<forall>x \<in> set acc. x < 256" by simp
      then show ?thesis using b l
        by (cases e) (auto dest: in_set_takeD in_set_dropD)
    qed
    with 2 show ?thesis by (auto simp: is_ipv4_def dest: in_set_dropD)
  qed
qed

end
