(* ===== verification/Net_Lease.thy ===== *)
theory Net_Lease
  imports Go_Net
begin

text \<open>
  The pure parts of the network lifecycle service (\<^verbatim>\<open>tools/provisioning/networkd/main.go\<close>): leases
  and their checks, what is read from the output of \<^verbatim>\<open>ip\<close>, and the state machine that decides
  when the DHCP client runs.
\<close>

subsection \<open>Leases\<close>

record lease =
  Interface :: string
  Address :: string
  Prefix :: int
  Router :: string
  DNS :: "string list"
  LeaseTime :: nat

definition validIPv4 :: "string \<Rightarrow> string outcome" where
  "validIPv4 v = (
     if v = [] \<or> TrimSpace v \<noteq> v then Inl (Errorf ''invalid IPv4 address'')
     else (case ParseIP4 v of
       None \<Rightarrow> Inl (Errorf ''invalid IPv4 address'')
     | Some a \<Rightarrow>
         if IsUnspecified a \<or> IsMulticast a \<or> a = IPv4bcast then Inl (Errorf ''unsafe IPv4 address'')
         else Inr (IPv4_String a)))"

definition subnetPrefix :: "string \<Rightarrow> int outcome" where
  "subnetPrefix v = (case ParseIP4 v of
     None \<Rightarrow> Inl (Errorf ''invalid subnet mask'')
   | Some m \<Rightarrow> if mask_ones m < 1 then Inl (Errorf ''invalid subnet mask'') else Inr (int (mask_ones m)))"

text \<open>\<^verbatim>\<open>strconv.ParseUint(s, 10, 32)\<close>\<close>

definition ParseUint32 :: "string \<Rightarrow> nat option" where
  "ParseUint32 s = (if s = [] \<or> \<not> list_all is_digit s \<or> 2 ^ 32 \<le> int (digits_value s) then None else Some (digits_value s))"

text \<open>The variables that DHCP sets; a later entry replaces an earlier one, a missing one is empty.\<close>

definition environment_value :: "string list \<Rightarrow> string \<Rightarrow> string" where
  "environment_value environment key = (case map_of (rev (List.map_filter (Cut CHR ''='') environment)) key of
     None \<Rightarrow> [] | Some v \<Rightarrow> v)"

fun valid_all :: "string list \<Rightarrow> string list outcome" where
  "valid_all [] = Inr []"
| "valid_all (v # vs) = (case validIPv4 v of
     Inl e \<Rightarrow> Inl e
   | Inr a \<Rightarrow> (case valid_all vs of Inl e \<Rightarrow> Inl e | Inr as \<Rightarrow> Inr (a # as)))"

definition parseLeaseEnvironment :: "string list \<Rightarrow> string \<Rightarrow> lease outcome" where
  "parseLeaseEnvironment environment expectedInterface = (let value = environment_value environment in
     if value ''interface'' \<noteq> expectedInterface then Inl (Errorf ''invalid lease interface'')
     else case validIPv4 (value ''ip'') of Inl _ \<Rightarrow> Inl (Errorf ''invalid lease address'') | Inr address \<Rightarrow>
     case subnetPrefix (value ''subnet'') of Inl _ \<Rightarrow> Inl (Errorf ''invalid lease subnet'') | Inr prefix \<Rightarrow>
     let routers = Fields (value ''router'') in
     if routers = [] \<or> 8 < length routers then Inl (Errorf ''lease has no default route'')
     else case valid_all routers of Inl _ \<Rightarrow> Inl (Errorf ''invalid lease router'') | Inr rs \<Rightarrow>
     let servers = Fields (value ''dns'') in
     if servers = [] \<or> 3 < length servers then Inl (Errorf ''invalid lease DNS'')
     else case valid_all servers of Inl _ \<Rightarrow> Inl (Errorf ''invalid lease DNS'') | Inr dns \<Rightarrow>
     case ParseUint32 (value ''lease'') of None \<Rightarrow> Inl (Errorf ''invalid lease lifetime'') | Some leaseTime \<Rightarrow>
     if leaseTime = 0 then Inl (Errorf ''invalid lease lifetime'')
     else Inr \<lparr>Interface = expectedInterface, Address = address, Prefix = prefix, Router = hd rs, DNS = dns,
       LeaseTime = leaseTime\<rparr>)"

definition renderResolver :: "lease \<Rightarrow> string" where
  "renderResolver l = concat (List.map (\<lambda>server. ''nameserver '' @ server @ [newline]) (DNS l))"

definition validateStoredLease :: "lease \<Rightarrow> string \<Rightarrow> unit outcome" where
  "validateStoredLease l expectedInterface = (
     if Interface l \<noteq> expectedInterface \<or> Prefix l < 1 \<or> 32 < Prefix l \<or> LeaseTime l = 0 \<or> DNS l = [] \<or> 3 < length (DNS l)
     then Inl (Errorf ''invalid stored lease'')
     else if \<not> (\<forall>a \<in> set (Address l # Router l # DNS l). validIPv4 a = Inr a)
     then Inl (Errorf ''invalid stored lease'')
     else Inr ())"

subsection \<open>The output of ip\<close>

text \<open>The pairs of neighbouring fields of a line.\<close>

definition neighbours :: "string list \<Rightarrow> (string \<times> string) list" where
  "neighbours ws = zip ws (tl ws)"

definition route_line :: "string \<Rightarrow> string \<Rightarrow> string list \<Rightarrow> bool" where
  "route_line router interfaceName ws \<longleftrightarrow> ws \<noteq> [] \<and> hd ws = ''default'' \<and> (''dev'', interfaceName) \<in> set (neighbours ws) \<and>
     (if router = [] then ''via'' \<notin> fst ` set (neighbours ws) else (''via'', router) \<in> set (neighbours ws))"

definition routePresent :: "string \<Rightarrow> string \<Rightarrow> string \<Rightarrow> bool" where
  "routePresent output router interfaceName \<longleftrightarrow>
     (\<exists>line \<in> set (split_on newline output). route_line router interfaceName (Fields line))"

definition cidr :: "string \<Rightarrow> int \<Rightarrow> string" where
  "cidr address prefix = address @ ''/'' @ Itoa prefix"

definition addressPresent :: "string \<Rightarrow> string \<Rightarrow> int \<Rightarrow> bool" where
  "addressPresent output address prefix \<longleftrightarrow>
     (\<exists>line \<in> set (split_on newline output). (''inet'', cidr address prefix) \<in> set (neighbours (Fields line)))"

text \<open>The device and the router of a default route: the last of each; a keyword at the end is an error.\<close>

fun route_fields :: "string list \<Rightarrow> string \<Rightarrow> string \<Rightarrow> (string \<times> string) option" where
  "route_fields [] device router = Some (device, router)"
| "route_fields [w] device router = (if w = ''dev'' \<or> w = ''via'' then None else Some (device, router))"
| "route_fields (w # v # ws) device router = (
     if w = ''dev'' then route_fields ws v router
     else if w = ''via'' then route_fields ws device v
     else route_fields (v # ws) device router)"

text \<open>Both parsers return what they have found beside an error; a route or an address is listed once.\<close>

fun parse_routes :: "string \<Rightarrow> string list \<Rightarrow> string list \<Rightarrow> string list \<times> unit outcome" where
  "parse_routes interfaceName [] routes = (routes, Inr ())"
| "parse_routes interfaceName (line # ls) routes = (let ws = Fields line in
     if ws = [] \<or> hd ws \<noteq> ''default'' then parse_routes interfaceName ls routes
     else case route_fields (tl ws) [] [] of
       None \<Rightarrow> (routes, Inl (Errorf ''invalid stale default route''))
     | Some (device, router) \<Rightarrow>
         if device \<noteq> interfaceName then parse_routes interfaceName ls routes
         else if router \<noteq> [] \<and> validIPv4 router \<noteq> Inr router then (routes, Inl (Errorf ''invalid stale default route''))
         else parse_routes interfaceName ls (if router \<in> set routes then routes else routes @ [router]))"

definition parseInterfaceRoutes :: "string \<Rightarrow> string \<Rightarrow> string list \<times> unit outcome" where
  "parseInterfaceRoutes output interfaceName = parse_routes interfaceName (split_on newline output) []"

fun parse_addresses :: "string list \<Rightarrow> (string \<times> int) list \<Rightarrow> (string \<times> int) list \<times> unit outcome" where
  "parse_addresses [] addresses = (addresses, Inr ())"
| "parse_addresses (line # ls) addresses =
     (case List.find (\<lambda>(w, v). w = ''inet'') (neighbours (Fields line)) of
        None \<Rightarrow> parse_addresses ls addresses
      | Some (w, v) \<Rightarrow> (case ParseCIDR4 v of
          None \<Rightarrow> (addresses, Inl (Errorf ''invalid stale IPv4 address''))
        | Some (a, ones) \<Rightarrow> (case validIPv4 (IPv4_String a) of
            Inl _ \<Rightarrow> (addresses, Inl (Errorf ''invalid stale IPv4 address''))
          | Inr parsed \<Rightarrow>
              if ones < 1 then (addresses, Inl (Errorf ''invalid stale IPv4 address''))
              else parse_addresses ls (if (parsed, int ones) \<in> set addresses then addresses else addresses @ [(parsed, int ones)]))))"

definition parseInterfaceAddresses :: "string \<Rightarrow> (string \<times> int) list \<times> unit outcome" where
  "parseInterfaceAddresses output = parse_addresses (split_on newline output) []"

subsection \<open>The state machine\<close>

record observation =
  completed :: bool
  identity :: string

record lifecycleState =
  connected :: bool
  ls_identity :: string
  dhcp :: bool

datatype lifecycleAction = actionNone | actionStart | actionStop | actionRestart | actionRecover

definition transition :: "lifecycleState \<Rightarrow> observation \<Rightarrow> bool \<Rightarrow> bool \<Rightarrow> lifecycleState \<times> lifecycleAction" where
  "transition current next childRunning eventFailed = (
     if \<not> completed next then
       (\<lparr>connected = False, ls_identity = [], dhcp = False\<rparr>, if childRunning then actionStop else actionNone)
     else (let changed = connected current \<and> ls_identity current \<noteq> [] \<and> ls_identity current \<noteq> identity next;
               result = \<lparr>connected = True, ls_identity = identity next, dhcp = childRunning\<rparr>
       in if eventFailed then (result, actionRecover)
          else if changed \<and> childRunning then (result\<lparr>dhcp := True\<rparr>, actionRestart)
          else if \<not> childRunning then (result\<lparr>dhcp := True\<rparr>, actionStart)
          else (result, actionNone)))"

subsection \<open>Every lease accepted can be stored\<close>

lemma trim_left_digit:
  assumes "is_digit c" "\<forall>r \<in> set rs. r \<noteq> [] \<and> \<not> is_digit (hd r)"
  shows "trim_left rs k (c # s) = c # s"
proof -
  have "\<not> HasPrefix (c # s) r" if "r \<in> set rs" for r
    using assms that by (cases r) (auto simp: HasPrefix_def)
  then have "List.find (HasPrefix (c # s)) rs = None" by (simp add: find_None_iff)
  then show ?thesis by (cases k) simp_all
qed

lemma space_runes_no_digit:
  "\<forall>r \<in> set space_runes. r \<noteq> [] \<and> \<not> is_digit (hd r)" "\<forall>r \<in> set (List.map rev space_runes). r \<noteq> [] \<and> \<not> is_digit (hd r)"
  by (simp_all add: space_runes_def is_digit_def)

lemma TrimSpace_digits:
  assumes "s \<noteq> []" "is_digit (hd s)" "is_digit (last s)"
  shows "TrimSpace s = s"
proof -
  obtain c t where s: "s = c # t" using assms(1) by (cases s) auto
  obtain d u where r: "rev s = d # u" "d = last s" using assms(1) by (cases "rev s") (auto simp: last_rev hd_rev[symmetric] dest: arg_cong[of _ _ hd])
  have "trim_left space_runes (length s) s = s"
    unfolding s by (rule trim_left_digit [OF _ space_runes_no_digit(1)]) (use assms(2) s in simp)
  moreover have "trim_left (List.map rev space_runes) (length s) (rev s) = rev s"
    unfolding r by (rule trim_left_digit [OF _ space_runes_no_digit(2)]) (use assms(3) r in simp)
  ultimately show ?thesis by (simp add: TrimSpace_def)
qed

lemma IPv4_String_ends: "IPv4_String a \<noteq> [] \<and> is_digit (hd (IPv4_String a)) \<and> is_digit (last (IPv4_String a))"
proof -
  have d: "decimal n \<noteq> []" "is_digit (hd (decimal n))" "is_digit (last (decimal n))" for n
    using decimal_digits [of n] decimal_plain [of _ n] by auto
  show ?thesis using d by (simp add: IPv4_String_def hd_append)
qed

lemma validIPv4_canonical: "validIPv4 v = Inr a \<Longrightarrow> validIPv4 a = Inr a"
proof -
  assume v: "validIPv4 v = Inr a"
  then obtain b where b: "ParseIP4 v = Some b" "a = IPv4_String b" "\<not> (IsUnspecified b \<or> IsMulticast b \<or> b = IPv4bcast)"
    unfolding validIPv4_def by (cases "ParseIP4 v") (auto split: if_splits)
  from ParseIP4_String [OF ParseIP4_bytes [OF b(1)]] have "ParseIP4 a = Some b" by (simp add: b(2))
  moreover have "TrimSpace a = a" "a \<noteq> []" using TrimSpace_digits IPv4_String_ends [of b] by (simp_all add: b(2))
  ultimately show ?thesis using b(2,3) by (simp add: validIPv4_def)
qed

lemma valid_all_canonical: "valid_all vs = Inr as \<Longrightarrow> length as = length vs \<and> (\<forall>a \<in> set as. validIPv4 a = Inr a)"
  by (induction vs arbitrary: as) (auto split: sum.splits dest: validIPv4_canonical)

lemma mask_ones_bound: "is_ipv4 m \<Longrightarrow> mask_ones m \<le> 32"
proof -
  assume "is_ipv4 m"
  then have "length (concat (List.map byte_bits m)) = 32"
    by (simp add: is_ipv4_def byte_bits_def length_concat sum_list_triv o_def)
  then show ?thesis
    using length_takeWhile_le [of id "concat (List.map byte_bits m)"] by (simp add: mask_ones_def Let_def)
qed

lemma subnetPrefix_range: "subnetPrefix v = Inr p \<Longrightarrow> 1 \<le> p \<and> p \<le> 32"
  using mask_ones_bound [OF ParseIP4_bytes] by (fastforce simp: subnetPrefix_def split: option.splits if_splits)

lemma parseLeaseEnvironment_storable:
  assumes "parseLeaseEnvironment environment i = Inr l"
  shows "validateStoredLease l i = Inr ()"
proof -
  let ?v = "environment_value environment"
  from assms obtain address prefix rs dns t where
    a: "validIPv4 (?v ''ip'') = Inr address" and p: "subnetPrefix (?v ''subnet'') = Inr prefix"
    and r: "valid_all (Fields (?v ''router'')) = Inr rs" "Fields (?v ''router'') \<noteq> []"
    and d: "valid_all (Fields (?v ''dns'')) = Inr dns" "Fields (?v ''dns'') \<noteq> []" "length (Fields (?v ''dns'')) \<le> 3"
    and t: "t \<noteq> 0"
    and l: "l = \<lparr>Interface = i, Address = address, Prefix = prefix, Router = hd rs, DNS = dns, LeaseTime = t\<rparr>"
    unfolding parseLeaseEnvironment_def Let_def by (auto split: sum.splits option.splits if_splits)
  have "hd rs \<in> set rs" using valid_all_canonical [OF r(1)] r(2) by (cases rs) auto
  then show ?thesis
    using validIPv4_canonical [OF a] subnetPrefix_range [OF p] valid_all_canonical [OF r(1)] valid_all_canonical [OF d(1)] d(2,3) t
    by (auto simp: validateStoredLease_def l)
qed

end
