(* ===== verification/Net_Config.thy ===== *)
theory Net_Config
  imports Net_Lease Persist_Store
begin

text \<open>
  Configuring the interface from a lease and taking it back, over the commands and files of the
  operating system (\<^verbatim>\<open>tools/provisioning/networkd/main.go\<close>): the lease file, addresses and routes
  through \<^verbatim>\<open>ip\<close>, the resolver file and the link to it.
\<close>

subsection \<open>The operating system\<close>

text \<open>
  \<open>no_Run\<close> is a command with its arguments, run within its time limit; it gives its output. A
  created file is a handle and its name in the directory. \<open>no_Flock\<close> waits for the lock or, with
  the flag, gives up.
\<close>

record 'w net_os =
  no_Run :: "string list \<Rightarrow> ('w, string) act"
  no_Lstat :: "path \<Rightarrow> ('w, file_info) act"
  no_ReadFile :: "path \<Rightarrow> ('w, string) act"
  no_Remove :: "path \<Rightarrow> ('w, unit) act"
  no_CreateTemp :: "path \<Rightarrow> string \<Rightarrow> ('w, nat \<times> string) act"
  no_Chmod :: "nat \<Rightarrow> u32 \<Rightarrow> ('w, unit) act"
  no_Write :: "nat \<Rightarrow> string \<Rightarrow> ('w, unit) act"
  no_Sync :: "nat \<Rightarrow> ('w, unit) act"
  no_Close :: "nat \<Rightarrow> ('w, unit) act"
  no_Rename :: "path \<Rightarrow> path \<Rightarrow> ('w, unit) act"
  no_Readlink :: "path \<Rightarrow> ('w, string) act"
  no_Symlink :: "string \<Rightarrow> path \<Rightarrow> ('w, unit) act"
  no_Statfs :: "path \<Rightarrow> ('w, u64) act"
  no_OpenFile :: "path \<Rightarrow> ('w, nat) act"
  no_FStat :: "nat \<Rightarrow> ('w, file_info) act"
  no_Flock :: "nat \<Rightarrow> bool \<Rightarrow> ('w, unit) act"
  no_Unlock :: "nat \<Rightarrow> ('w, unit) act"

text \<open>The text of an error.\<close>

primrec error_message :: "go_error \<Rightarrow> string" where
  "error_message (Sentinel s) = (case s of ErrNotExist \<Rightarrow> ''file does not exist'' | ErrExist \<Rightarrow> ''file already exists'' | _ \<Rightarrow> ''error'')"
| "error_message (Errorf m) = m"
| "error_message (Wrapf m e) = m @ '': '' @ error_message e"
| "error_message (Panic m) = m"
| "error_message OutOfFuel = []"

fun join_messages :: "string list \<Rightarrow> string" where
  "join_messages [] = []"
| "join_messages [m] = m"
| "join_messages (m # ms) = m @ ''; '' @ join_messages ms"

definition combineErrors :: "unit outcome list \<Rightarrow> unit outcome" where
  "combineErrors rs = (let messages = List.map_filter (\<lambda>r. case r of Inl e \<Rightarrow> Some (error_message e) | Inr _ \<Rightarrow> None) rs in
     if messages = [] then Inr () else Inl (Errorf (join_messages messages)))"

text \<open>All the actions run, whatever the others return; their errors are combined.\<close>

fun collectE :: "('w, unit) act list \<Rightarrow> ('w, unit outcome list) act" where
  "collectE [] = ret []"
| "collectE (m # ms) = tryE m (\<lambda>r. bindE (collectE ms) (\<lambda>rs. ret (r # rs)))"

definition combineE :: "('w, unit) act list \<Rightarrow> ('w, unit) act" where
  "combineE ms = bindE (collectE ms) (\<lambda>rs. liftE (combineErrors rs))"

subsection \<open>Addresses and routes\<close>

definition busyboxPath :: string where "busyboxPath = ''/bin/busybox''"

text \<open>A command that fails is not an error if its effect can be seen to be there.\<close>

definition run_or_verify :: "'w net_os \<Rightarrow> string list \<Rightarrow> string list \<Rightarrow> (string \<Rightarrow> bool) \<Rightarrow> string \<Rightarrow> string \<Rightarrow> ('w, unit) act" where
  "run_or_verify os command query holds unverified failed =
     tryE (no_Run os (busyboxPath # command)) (\<lambda>r. case r of
       Inr _ \<Rightarrow> ret ()
     | Inl _ \<Rightarrow> tryE (no_Run os (busyboxPath # query)) (\<lambda>output. case output of
         Inl _ \<Rightarrow> fail (Errorf unverified)
       | Inr output \<Rightarrow> checkE (holds output) (Errorf failed)))"

definition show_addresses :: "string \<Rightarrow> string list" where
  "show_addresses interfaceName = [''ip'', ''-4'', ''addr'', ''show'', ''dev'', interfaceName]"

definition show_routes :: "string list" where
  "show_routes = [''ip'', ''-4'', ''route'', ''show'', ''default'']"

definition add_address :: "string \<Rightarrow> string \<Rightarrow> int \<Rightarrow> string list" where
  "add_address interfaceName address prefix = [''ip'', ''-4'', ''addr'', ''add'', cidr address prefix, ''dev'', interfaceName]"

definition del_address :: "string \<Rightarrow> string \<Rightarrow> int \<Rightarrow> string list" where
  "del_address interfaceName address prefix = [''ip'', ''-4'', ''addr'', ''del'', cidr address prefix, ''dev'', interfaceName]"

definition add_route :: "string \<Rightarrow> string \<Rightarrow> string list" where
  "add_route interfaceName router = [''ip'', ''-4'', ''route'', ''add'', ''default'', ''via'', router, ''dev'', interfaceName]"

definition del_route :: "string \<Rightarrow> string \<Rightarrow> string list" where
  "del_route interfaceName router = [''ip'', ''-4'', ''route'', ''del'', ''default''] @
     (if router \<noteq> [] then [''via'', router] else []) @ [''dev'', interfaceName]"

definition ensureLeaseAddress :: "'w net_os \<Rightarrow> lease \<Rightarrow> ('w, unit) act" where
  "ensureLeaseAddress os l = run_or_verify os (add_address (Interface l) (Address l) (Prefix l)) (show_addresses (Interface l))
     (\<lambda>output. addressPresent output (Address l) (Prefix l))
     ''configure lease address and verify presence'' ''configure lease address''"

definition ensureLeaseRoute :: "'w net_os \<Rightarrow> lease \<Rightarrow> ('w, unit) act" where
  "ensureLeaseRoute os l = run_or_verify os (add_route (Interface l) (Router l)) show_routes
     (\<lambda>output. routePresent output (Router l) (Interface l))
     ''configure lease route and verify presence'' ''configure lease route''"

definition removeDefaultRoute :: "'w net_os \<Rightarrow> string \<Rightarrow> string \<Rightarrow> ('w, unit) act" where
  "removeDefaultRoute os interfaceName router = run_or_verify os (del_route interfaceName router) show_routes
     (\<lambda>output. \<not> routePresent output router interfaceName)
     ''remove lease route and verify absence'' ''remove lease route''"

definition removeIPv4Address :: "'w net_os \<Rightarrow> string \<Rightarrow> string \<Rightarrow> int \<Rightarrow> ('w, unit) act" where
  "removeIPv4Address os interfaceName address prefix =
     run_or_verify os (del_address interfaceName address prefix) (show_addresses interfaceName)
       (\<lambda>output. \<not> addressPresent output address prefix)
       ''remove lease address and verify absence'' ''remove lease address''"

definition removeLeaseNetwork :: "'w net_os \<Rightarrow> lease \<Rightarrow> ('w, unit) act" where
  "removeLeaseNetwork os l = combineE [removeDefaultRoute os (Interface l) (Router l),
     removeIPv4Address os (Interface l) (Address l) (Prefix l)]"

text \<open>What is left from before: every default route and address found is removed, errors are collected.\<close>

definition clearInterfaceNetworkState :: "'w net_os \<Rightarrow> string \<Rightarrow> ('w, unit) act" where
  "clearInterfaceNetworkState os interfaceName =
     tryE (no_Run os (busyboxPath # show_routes)) (\<lambda>routeOutput.
     tryE (no_Run os (busyboxPath # show_addresses interfaceName)) (\<lambda>addressOutput.
       let (routes, e1) = (case routeOutput of
             Inl _ \<Rightarrow> ([], Inl (Errorf ''inspect stale default routes''))
           | Inr output \<Rightarrow> parseInterfaceRoutes output interfaceName);
           (addresses, e2) = (case addressOutput of
             Inl _ \<Rightarrow> ([], Inl (Errorf ''inspect stale IPv4 addresses''))
           | Inr output \<Rightarrow> parseInterfaceAddresses output)
       in combineE ([liftE e1, liftE e2] @
            List.map (\<lambda>router. removeDefaultRoute os interfaceName router) routes @
            List.map (\<lambda>(address, prefix). removeIPv4Address os interfaceName address prefix) addresses)))"

subsection \<open>Files\<close>

definition removeFile :: "'w net_os \<Rightarrow> path \<Rightarrow> ('w, unit) act" where
  "removeFile os p = tryE (no_Remove os p) (\<lambda>r. case r of
     Inl e \<Rightarrow> if errors_is e ErrNotExist then ret () else fail e | Inr _ \<Rightarrow> ret ())"

text \<open>On an error the temporary file is closed; it is removed in the end, which finds nothing after the rename.\<close>

definition closing :: "'w net_os \<Rightarrow> nat \<Rightarrow> string \<Rightarrow> ('w, unit) act \<Rightarrow> ('w, unit) act" where
  "closing os fd msg m = tryE m (\<lambda>r. case r of
     Inl e \<Rightarrow> seqE (ignoreE (no_Close os fd)) (fail (Wrapf msg e)) | Inr _ \<Rightarrow> ret ())"

definition writeAtomic :: "'w net_os \<Rightarrow> path \<Rightarrow> string \<Rightarrow> u32 \<Rightarrow> ('w, unit) act" where
  "writeAtomic os p content mode =
     bindE (wrapE ''create temporary state'' (no_CreateTemp os (Dir p) ''.networkd-'')) (\<lambda>(fd, name).
     finallyE (blockE [
       closing os fd ''restrict temporary state'' (no_Chmod os fd mode),
       closing os fd ''write temporary state'' (no_Write os fd content),
       closing os fd ''sync temporary state'' (no_Sync os fd),
       wrapE ''close temporary state'' (no_Close os fd),
       wrapE ''activate state'' (no_Rename os (Join (Dir p) name) p)])
     (no_Remove os (Join (Dir p) name)))"

text \<open>A path given on the command line must be absolute and clean, without control characters.\<close>

definition clean_path :: "string \<Rightarrow> path option" where
  "clean_path s = (
     if take 1 s \<noteq> ''/'' \<or> (\<exists>c \<in> {CHR 0x00, CHR 0x0D, CHR 0x0A}. c \<in> set s) then None
     else if s = ''/'' then Some []
     else (let parts = split_on CHR ''/'' (tl s) in
       if \<exists>c \<in> set parts. c = [] \<or> c = ''.'' \<or> c = ''..'' then None else Some parts))"

definition tmpfsMagic :: u64 where "tmpfsMagic = 0x01021994"
definition ramfsMagic :: u64 where "ramfsMagic = 0x858458f6"

definition in_memory :: "u64 \<Rightarrow> bool" where
  "in_memory kind \<longleftrightarrow> kind AND 0xffffffff = tmpfsMagic \<or> kind AND 0xffffffff = ramfsMagic"

definition validateResolverLinkParent :: "'w net_os \<Rightarrow> string \<Rightarrow> nat \<Rightarrow> bool \<Rightarrow> ('w, path) act" where
  "validateResolverLinkParent os linkPath uid requireRAM = (case clean_path linkPath of
     None \<Rightarrow> fail (Errorf ''resolver link path must be absolute and clean'')
   | Some link \<Rightarrow>
       bindE (wrapE ''inspect resolver link parent'' (no_Lstat os (Dir link))) (\<lambda>info.
       seqE (checkE (fi_uid info = uid \<and> fi_dir info \<and> \<not> fi_symlink info \<and> fi_perm info AND 0x012 = 0)
               (Errorf ''resolver link parent is not root-controlled''))
      (seqE (if requireRAM then bindE (wrapE ''inspect resolver link filesystem'' (no_Statfs os (Dir link))) (\<lambda>kind.
               checkE (in_memory kind) (Errorf ''resolver link parent must reside on tmpfs or ramfs'')) else ret ())
         (ret link))))"

text \<open>Whether the link is already the one wanted; anything else there must be safe to replace.\<close>

definition resolver_link_there :: "'w net_os \<Rightarrow> path \<Rightarrow> string \<Rightarrow> nat \<Rightarrow> ('w, bool) act" where
  "resolver_link_there os link targetPath uid = tryE (no_Lstat os link) (\<lambda>r. case r of
     Inl e \<Rightarrow> if errors_is e ErrNotExist then ret False else fail (Wrapf ''inspect resolver path'' e)
   | Inr info \<Rightarrow>
       seqE (checkE (fi_uid info = uid) (Errorf ''existing resolver path is not root-controlled''))
         (if fi_symlink info then
            bindE (wrapE ''inspect resolver link'' (no_Readlink os link)) (\<lambda>currentTarget. ret (currentTarget = targetPath))
          else if fi_regular info \<and> fi_perm info AND 0x012 = 0 then ret False
          else fail (Errorf ''existing resolver path is not a safe replaceable file'')))"

text \<open>A link is made under the name of a file created and removed again, and moved into place.\<close>

definition place_link :: "'w net_os \<Rightarrow> path \<Rightarrow> string \<Rightarrow> nat \<Rightarrow> path \<Rightarrow> ('w, unit) act" where
  "place_link os link targetPath fd temporary =
     seqE (tryE (no_Close os fd) (\<lambda>r. case r of
         Inl e \<Rightarrow> seqE (ignoreE (no_Remove os temporary)) (fail (Wrapf ''close resolver link reservation'' e))
       | Inr _ \<Rightarrow> ret ()))
    (seqE (wrapE ''remove resolver link reservation'' (no_Remove os temporary))
    (finallyE
      (seqE (wrapE ''create resolver link'' (no_Symlink os targetPath temporary))
        (wrapE ''activate resolver link'' (no_Rename os temporary link)))
      (no_Remove os temporary)))"

definition ensureResolverLink :: "'w net_os \<Rightarrow> string \<Rightarrow> string \<Rightarrow> nat \<Rightarrow> bool \<Rightarrow> ('w, unit) act" where
  "ensureResolverLink os linkPath targetPath uid requireRAM =
     seqE (checkE (clean_path targetPath \<noteq> None \<and> linkPath \<noteq> targetPath) (Errorf ''resolver target path must be absolute and clean''))
    (bindE (validateResolverLinkParent os linkPath uid requireRAM) (\<lambda>link.
     bindE (resolver_link_there os link targetPath uid) (\<lambda>there.
     if there then ret ()
     else bindE (wrapE ''reserve resolver link'' (no_CreateTemp os (Dir link) ''.networkd-resolver-link-'')) (\<lambda>(fd, name).
       place_link os link targetPath fd (Join (Dir link) name)))))"

text \<open>Only a link to this service's own file is removed.\<close>

definition remove_link :: "'w net_os \<Rightarrow> path \<Rightarrow> string \<Rightarrow> nat \<Rightarrow> ('w, unit) act" where
  "remove_link os link targetPath uid =
     tryE (no_Lstat os link) (\<lambda>r. case r of
       Inl e \<Rightarrow> if errors_is e ErrNotExist then ret () else fail (Wrapf ''inspect resolver link'' e)
     | Inr info \<Rightarrow>
         seqE (checkE (fi_uid info = uid) (Errorf ''resolver link is not root-controlled''))
           (if \<not> fi_symlink info then ret ()
            else bindE (wrapE ''read resolver link'' (no_Readlink os link)) (\<lambda>currentTarget.
              if currentTarget \<noteq> targetPath then ret ()
              else wrapE ''remove resolver link'' (no_Remove os link))))"

definition removeManagedResolverLink :: "'w net_os \<Rightarrow> string \<Rightarrow> string \<Rightarrow> nat \<Rightarrow> bool \<Rightarrow> ('w, unit) act" where
  "removeManagedResolverLink os linkPath targetPath uid requireRAM =
     bindE (validateResolverLinkParent os linkPath uid requireRAM) (\<lambda>link. remove_link os link targetPath uid)"

end
