(* ===== verification/Net_Event.thy ===== *)
theory Net_Event
  imports Net_Config
begin

text \<open>
  What an event of the DHCP client does (\<^verbatim>\<open>tools/provisioning/networkd/main.go\<close>): check that it
  comes from the client this service started, and configure, reconfigure or clear the lease
  under the lease lock; a failure is left for the supervisor in a marker file.
\<close>

text \<open>The files of the service and the codecs of \<^verbatim>\<open>encoding/json\<close>, which are parameters.\<close>

definition runtimeDirectory :: path where "runtimeDirectory = [''run'', ''reinvoke'', ''networkd'']"

record paths =
  np_runtime :: path
  np_resolver :: path
  np_lease :: path
  np_owner :: path
  np_pid :: path
  np_lock :: path
  np_supervisorLock :: path
  np_eventFailure :: path

definition networkPaths :: paths where
  "networkPaths = \<lparr>np_runtime = runtimeDirectory,
     np_resolver = Join runtimeDirectory ''resolv.conf'', np_lease = Join runtimeDirectory ''lease.json'',
     np_owner = Join runtimeDirectory ''udhcpc.owner'', np_pid = Join runtimeDirectory ''udhcpc.pid'',
     np_lock = Join runtimeDirectory ''lease.lock'', np_supervisorLock = Join runtimeDirectory ''supervisor.lock'',
     np_eventFailure = Join runtimeDirectory ''event-failure''\<rparr>"

definition path_text :: "path \<Rightarrow> string" where
  "path_text p = concat (List.map (\<lambda>c. ''/'' @ c) p)"

record ownerRecord =
  PID :: int
  StartTime :: nat
  Token :: string
  ow_Interface :: string
  Script :: string
  ResolverLink :: string

record net_codec =
  nc_Marshal :: "lease \<Rightarrow> string option"
  nc_Decode :: "string \<Rightarrow> lease option"
  nc_MarshalOwner :: "ownerRecord \<Rightarrow> string option"
  nc_DecodeOwner :: "string \<Rightarrow> ownerRecord option"

subsection \<open>The lease\<close>

definition private_state :: "nat \<Rightarrow> file_info \<Rightarrow> bool" where
  "private_state uid info \<longleftrightarrow> fi_uid info = uid \<and> fi_regular info \<and> \<not> fi_symlink info \<and> fi_perm info = 0x180"

definition loadStoredLease :: "'w net_os \<Rightarrow> net_codec \<Rightarrow> path \<Rightarrow> string \<Rightarrow> nat \<Rightarrow> ('w, lease) act" where
  "loadStoredLease os nc p expectedInterface uid =
     bindE (no_Lstat os p) (\<lambda>info.
     seqE (checkE (private_state uid info) (Errorf ''lease state is not root-controlled''))
    (bindE (no_ReadFile os p) (\<lambda>content.
     seqE (checkE (length content \<le> 4096) (Errorf ''lease state is too large''))
    (case nc_Decode nc content of
       None \<Rightarrow> fail (Errorf ''invalid lease state'')
     | Some l \<Rightarrow> seqE (liftE (validateStoredLease l expectedInterface)) (ret l)))))"

definition configureLease :: "'w net_os \<Rightarrow> net_codec \<Rightarrow> lease \<Rightarrow> paths \<Rightarrow> string \<Rightarrow> ('w, unit) act" where
  "configureLease os nc l np resolverLink = (case nc_Marshal nc l of
     None \<Rightarrow> fail (Errorf ''encode lease state'')
   | Some content \<Rightarrow> blockE [
       writeAtomic os (np_lease np) (content @ [newline]) 0x180,
       ensureLeaseAddress os l,
       ensureLeaseRoute os l,
       writeAtomic os (np_resolver np) (renderResolver l) 0x1A4,
       ensureResolverLink os resolverLink (path_text (np_resolver np)) 0 True])"

text \<open>The lease file is removed only once the address and the route are gone.\<close>

definition configureLeaseTransactional :: "'w net_os \<Rightarrow> net_codec \<Rightarrow> lease \<Rightarrow> paths \<Rightarrow> string \<Rightarrow> ('w, unit) act" where
  "configureLeaseTransactional os nc l np resolverLink =
     tryE (configureLease os nc l np resolverLink) (\<lambda>r. case r of
       Inr _ \<Rightarrow> ret ()
     | Inl configureErr \<Rightarrow>
         tryE (removeLeaseNetwork os l) (\<lambda>networkErr.
         tryE (if networkErr = Inr () then removeFile os (np_lease np) else ret ()) (\<lambda>leaseErr.
           combineE [liftE (Inl configureErr), liftE networkErr,
             removeManagedResolverLink os resolverLink (path_text (np_resolver np)) 0 True,
             removeFile os (np_resolver np), liftE leaseErr])))"

definition clearLeaseState :: "'w net_os \<Rightarrow> net_codec \<Rightarrow> paths \<Rightarrow> string \<Rightarrow> string \<Rightarrow> ('w, unit) act" where
  "clearLeaseState os nc np expectedInterface resolverLink =
     tryE (loadStoredLease os nc (np_lease np) expectedInterface 0) (\<lambda>current.
     tryE (case current of
         Inr l \<Rightarrow> removeLeaseNetwork os l
       | Inl e \<Rightarrow> if errors_is e ErrNotExist then ret () else fail e) (\<lambda>cleanupErr.
     tryE (case current of
         Inr l \<Rightarrow> if cleanupErr = Inr () then removeFile os (np_lease np) else ret ()
       | Inl _ \<Rightarrow> ret ()) (\<lambda>leaseFileErr.
       combineE [liftE cleanupErr,
         removeManagedResolverLink os resolverLink (path_text (np_resolver np)) 0 True,
         removeFile os (np_resolver np), liftE leaseFileErr])))"

subsection \<open>The lock\<close>

text \<open>
  An action runs under the lock and yields a value beside its error; \<open>untouched\<close> is the value when
  the lock is not got.
\<close>

definition lock_and :: "'w net_os \<Rightarrow> path \<Rightarrow> 'a \<Rightarrow> ('w, 'a \<times> unit outcome) act \<Rightarrow> ('w, 'a \<times> unit outcome) act" where
  "lock_and os p untouched action =
     tryE (no_OpenFile os p) (\<lambda>r. case r of
       Inl e \<Rightarrow> ret (untouched, Inl (Wrapf ''open lease lock'' e))
     | Inr fd \<Rightarrow> finallyE
        (tryE (bindE (wrapE ''inspect lease lock'' (no_FStat os fd)) (\<lambda>info.
            seqE (checkE (fi_uid info = 0 \<and> fi_regular info \<and> fi_perm info = 0x180) (Errorf ''lease lock is not root-controlled''))
              (wrapE ''lock lease state'' (no_Flock os fd False)))) (\<lambda>r. case r of
           Inl e \<Rightarrow> ret (untouched, Inl e)
         | Inr _ \<Rightarrow> bindE action (\<lambda>(x, actionErr).
             tryE (wrapE ''unlock lease state'' (no_Unlock os fd)) (\<lambda>unlockErr.
               ret (x, combineErrors [actionErr, unlockErr])))))
        (no_Close os fd))"

definition withLeaseLock :: "'w net_os \<Rightarrow> path \<Rightarrow> ('w, unit) act \<Rightarrow> ('w, unit) act" where
  "withLeaseLock os p action = bindE (lock_and os p () (tryE action (\<lambda>r. ret ((), r)))) (\<lambda>(_, r). liftE r)"

subsection \<open>The marker of a failed event\<close>

definition eventFailureContent :: string where
  "eventFailureContent = ''network event failed'' @ [newline]"

definition eventFailureMarkerPresent :: "'w net_os \<Rightarrow> path \<Rightarrow> nat \<Rightarrow> ('w, bool) act" where
  "eventFailureMarkerPresent os p uid = tryE (no_Lstat os p) (\<lambda>r. case r of
     Inl e \<Rightarrow> if errors_is e ErrNotExist then ret False else fail (Wrapf ''inspect event failure marker'' e)
   | Inr info \<Rightarrow>
       seqE (checkE (private_state uid info) (Errorf ''event failure marker is not root-controlled''))
      (seqE (checkE (fi_size info = length eventFailureContent) (Errorf ''event failure marker has invalid content''))
      (tryE (no_ReadFile os p) (\<lambda>r. case r of
         Inl e \<Rightarrow> if errors_is e ErrNotExist then ret False else fail (Wrapf ''read event failure marker'' e)
       | Inr content \<Rightarrow>
           seqE (checkE (content = eventFailureContent) (Errorf ''event failure marker has invalid content'')) (ret True)))))"

definition setEventFailureMarker :: "'w net_os \<Rightarrow> path \<Rightarrow> nat \<Rightarrow> ('w, unit) act" where
  "setEventFailureMarker os p uid =
     bindE (eventFailureMarkerPresent os p uid) (\<lambda>_.
     wrapE ''write event failure marker'' (writeAtomic os p eventFailureContent 0x180))"

definition clearEventFailureMarker :: "'w net_os \<Rightarrow> path \<Rightarrow> nat \<Rightarrow> ('w, unit) act" where
  "clearEventFailureMarker os p uid =
     bindE (eventFailureMarkerPresent os p uid) (\<lambda>present.
     if \<not> present then ret () else wrapE ''remove event failure marker'' (removeFile os p))"

definition finishEvent :: "'w net_os \<Rightarrow> path \<Rightarrow> nat \<Rightarrow> unit outcome \<Rightarrow> ('w, unit) act" where
  "finishEvent os markerPath uid eventErr = (case eventErr of
     Inl e \<Rightarrow> combineE [liftE (Inl e), setEventFailureMarker os markerPath uid]
   | Inr _ \<Rightarrow> clearEventFailureMarker os markerPath uid)"

subsection \<open>The owner of the events\<close>

text \<open>\<^verbatim>\<open>^[A-Za-z0-9_.-]{1,15}$\<close>\<close>

definition interfacePattern :: "string \<Rightarrow> bool" where
  "interfacePattern s \<longleftrightarrow> 1 \<le> length s \<and> length s \<le> 15 \<and>
     list_all (\<lambda>c. 65 \<le> code c \<and> code c \<le> 90 \<or> 97 \<le> code c \<and> code c \<le> 122 \<or> is_digit c \<or> c \<in> {CHR ''_'', CHR ''.'', CHR ''-''}) s"

definition clean_absolute :: "string \<Rightarrow> bool" where
  "clean_absolute s \<longleftrightarrow> take 1 s = ''/'' \<and> (s = ''/'' \<or> (\<forall>c \<in> set (split_on CHR ''/'' (tl s)). c \<noteq> [] \<and> c \<noteq> ''.'' \<and> c \<noteq> ''..''))"

definition valid_owner :: "ownerRecord \<Rightarrow> bool" where
  "valid_owner r \<longleftrightarrow> 2 \<le> PID r \<and> StartTime r \<noteq> 0 \<and> length (Token r) = 32 \<and> interfacePattern (ow_Interface r) \<and>
     take 1 (Script r) = ''/'' \<and> (ResolverLink r = [] \<or> clean_absolute (ResolverLink r))"

definition loadOwner :: "'w net_os \<Rightarrow> net_codec \<Rightarrow> path \<Rightarrow> ('w, ownerRecord) act" where
  "loadOwner os nc p =
     bindE (no_Lstat os p) (\<lambda>info.
     seqE (checkE (private_state 0 info) (Errorf ''DHCP owner record is not root-controlled''))
    (bindE (no_ReadFile os p) (\<lambda>content.
     seqE (checkE (length content \<le> 4096) (Errorf ''DHCP owner record is too large''))
    (case nc_DecodeOwner nc content of
       None \<Rightarrow> fail (Errorf ''invalid DHCP owner record'')
     | Some r \<Rightarrow> seqE (checkE (valid_owner r) (Errorf ''invalid DHCP owner record'')) (ret r)))))"

definition validateEventOwner :: "'w net_os \<Rightarrow> net_codec \<Rightarrow> path \<Rightarrow> string \<Rightarrow> string \<Rightarrow> ('w, unit) act" where
  "validateEventOwner os nc p token interfaceName = tryE (loadOwner os nc p) (\<lambda>r. case r of
     Inl _ \<Rightarrow> fail (Errorf ''DHCP event ownership could not be verified'')
   | Inr record \<Rightarrow> checkE (Token record = token \<and> ow_Interface record = interfaceName)
       (Errorf ''DHCP event ownership could not be verified''))"

subsection \<open>Events\<close>

definition validateRuntimeDirectory :: "'w net_os \<Rightarrow> path \<Rightarrow> ('w, unit) act" where
  "validateRuntimeDirectory os p =
     bindE (wrapE ''inspect runtime directory'' (no_Lstat os p)) (\<lambda>info.
     seqE (checkE (fi_uid info = 0 \<and> fi_dir info \<and> \<not> fi_symlink info \<and> fi_perm info = 0x1C0)
             (Errorf ''runtime directory must be a root-owned mode-0700 directory''))
    (bindE (wrapE ''inspect runtime filesystem'' (no_Statfs os p)) (\<lambda>kind.
     checkE (in_memory kind) (Errorf ''runtime directory must reside on tmpfs or ramfs''))))"

definition validateRootExecutable :: "'w net_os \<Rightarrow> path \<Rightarrow> ('w, unit) act" where
  "validateRootExecutable os p =
     bindE (wrapE ''inspect executable'' (no_Lstat os p)) (\<lambda>info.
     checkE (fi_uid info = 0 \<and> fi_regular info \<and> \<not> fi_symlink info \<and> fi_perm info AND 0x012 = 0 \<and> fi_perm info AND 0x049 \<noteq> 0)
       (Errorf ''executable is not a root-controlled executable''))"

text \<open>The lease that a \<^verbatim>\<open>bound\<close> or \<^verbatim>\<open>renew\<close> event carries replaces the stored one.\<close>

definition replace_lease :: "'w net_os \<Rightarrow> net_codec \<Rightarrow> paths \<Rightarrow> string \<Rightarrow> string \<Rightarrow> lease \<Rightarrow> ('w, unit) act" where
  "replace_lease os nc np interfaceName resolverLink l =
     tryE (loadStoredLease os nc (np_lease np) interfaceName 0) (\<lambda>previous. case previous of
       Inr p \<Rightarrow>
         seqE (if Address p \<noteq> Address l \<or> Prefix p \<noteq> Prefix l \<or> Router p \<noteq> Router l then removeLeaseNetwork os p else ret ())
           (configureLeaseTransactional os nc l np resolverLink)
     | Inl e \<Rightarrow>
         if errors_is e ErrNotExist then configureLeaseTransactional os nc l np resolverLink
         else combineE [liftE (Inl e), clearLeaseState os nc np interfaceName resolverLink])"

definition event_action :: "'w net_os \<Rightarrow> net_codec \<Rightarrow> paths \<Rightarrow> string list \<Rightarrow> string \<Rightarrow> string \<Rightarrow> string \<Rightarrow> ('w, unit) act" where
  "event_action os nc np environment action interfaceName resolverLink = (
     if action = ''deconfig'' then clearLeaseState os nc np interfaceName resolverLink
     else if action = ''bound'' \<or> action = ''renew'' then
       bindE (liftE (parseLeaseEnvironment environment interfaceName)) (replace_lease os nc np interfaceName resolverLink)
     else fail (Errorf ''unsupported DHCP event''))"

text \<open>What runs under the lock: nothing but the check if the event is not of the client that is recorded.\<close>

definition owned_event :: "'w net_os \<Rightarrow> net_codec \<Rightarrow> paths \<Rightarrow> string list \<Rightarrow> string \<Rightarrow> string \<Rightarrow> string \<Rightarrow> ('w, bool \<times> unit outcome) act" where
  "owned_event os nc np environment action interfaceName resolverLink =
     tryE (validateEventOwner os nc (np_owner np) (environment_value environment ''NETWORKD_OWNER'') interfaceName) (\<lambda>r. case r of
       Inl _ \<Rightarrow> ret (False, Inr ())
     | Inr _ \<Rightarrow> tryE (event_action os nc np environment action interfaceName resolverLink) (\<lambda>eventErr. ret (True, eventErr)))"

definition runEvent :: "'w net_os \<Rightarrow> net_codec \<Rightarrow> nat \<Rightarrow> string list \<Rightarrow> string \<Rightarrow> string \<Rightarrow> string \<Rightarrow> paths \<Rightarrow> ('w, unit) act" where
  "runEvent os nc euid environment action interfaceName resolverLink np =
     seqE (checkE (euid = 0) (Errorf ''network event handler must run as root''))
    (seqE (validateRuntimeDirectory os (np_runtime np))
    (bindE (tryE (wrapE ''validate BusyBox'' (validateRootExecutable os [''bin'', ''busybox''])) (\<lambda>r. case r of
        Inl e \<Rightarrow> ret (True, Inl e)
      | Inr _ \<Rightarrow>
          if \<not> interfacePattern interfaceName then ret (True, Inl (Errorf ''invalid interface name''))
          else tryE (validateResolverLinkParent os resolverLink 0 True) (\<lambda>r. case r of
            Inl e \<Rightarrow> ret (True, Inl e)
          | Inr _ \<Rightarrow> lock_and os (np_lock np) True
              (owned_event os nc np environment action interfaceName resolverLink)))) (\<lambda>(eventOwned, eventErr).
     if \<not> eventOwned then ret () else finishEvent os (np_eventFailure np) 0 eventErr)))"

end
