(* ===== verification/Net_Dhcp.thy ===== *)
theory Net_Dhcp
  imports Net_Event
begin

text \<open>
  The DHCP client as a process (\<^verbatim>\<open>tools/provisioning/networkd/main.go\<close>): how a process is told
  apart from another that has taken its number, how a client is started, recorded as the owner
  of the events and stopped, and what is done about the client of an earlier run.
\<close>

subsection \<open>Processes\<close>

record sock_info = file_info +
  fi_gid :: nat
  fi_socket :: bool
  fi_dev :: nat

text \<open>
  The process table, the random source and the clock. The four texts of a process are files of
  \<^verbatim>\<open>/proc\<close>; \<open>px_Executable\<close> and \<open>px_File\<close> give the identity of a file. \<open>px_Wait\<close> returns once the
  process has ended, \<open>px_Exited\<close> says whether it does so within the stop timeout.
\<close>

record 'w proc_os =
  px_Status :: "int \<Rightarrow> ('w, string) act"
  px_Stat :: "int \<Rightarrow> ('w, string) act"
  px_Cmdline :: "int \<Rightarrow> ('w, string) act"
  px_Environ :: "int \<Rightarrow> ('w, string) act"
  px_Executable :: "int \<Rightarrow> ('w, nat) act"
  px_File :: "string \<Rightarrow> ('w, nat) act"
  px_Random :: "nat \<Rightarrow> ('w, byte list) act"
  px_Start :: "string list \<Rightarrow> string list \<Rightarrow> ('w, int) act"
  px_Signal :: "int \<Rightarrow> ('w, unit) act"
  px_Kill :: "int \<Rightarrow> ('w, unit) act"
  px_Exited :: "int \<Rightarrow> ('w, bool) act"
  px_Wait :: "int \<Rightarrow> ('w, unit) act"
  px_IsDir :: "path \<Rightarrow> ('w, bool) act"
  px_Mkdir :: "path \<Rightarrow> u32 \<Rightarrow> ('w, unit) act"
  px_Lstat :: "string \<Rightarrow> ('w, sock_info) act"
  px_Now :: "('w, int) act"

record processSnapshot =
  ps_uid :: nat
  startTime :: nat
  arguments :: "string list"
  executableSame :: bool
  ps_token :: string
  ps_resolverLink :: string

definition ParseUint64 :: "string \<Rightarrow> nat option" where
  "ParseUint64 s = (if s = [] \<or> \<not> list_all is_digit s \<or> 2 ^ 64 \<le> int (digits_value s) then None else Some (digits_value s))"

definition splitNullFields :: "string \<Rightarrow> string list" where
  "splitNullFields content = (
     let content = (if content \<noteq> [] \<and> last content = CHR 0x00 then butlast content else content) in
     if content = [] then [] else split_on CHR 0x00 content)"

text \<open>The first line that names the user; the part of \<^verbatim>\<open>stat\<close> after the name of the program.\<close>

definition status_uid :: "string \<Rightarrow> nat option" where
  "status_uid status = (
     case List.find (\<lambda>ws. 2 \<le> length ws \<and> hd ws = ''Uid:'') (List.map Fields (split_on newline status)) of
       None \<Rightarrow> None | Some ws \<Rightarrow> ParseUint32 (ws ! 1))"

definition stat_startTime :: "string \<Rightarrow> nat outcome" where
  "stat_startTime stat = (
     if CHR '')'' \<notin> set stat then Inl (Errorf ''invalid process stat'')
     else (let ws = Fields (rev (takeWhile (\<lambda>c. c \<noteq> CHR '')'') (rev stat))) in
       if length ws \<le> 19 then Inl (Errorf ''invalid process stat'')
       else case ParseUint64 (ws ! 19) of
         None \<Rightarrow> Inl (Errorf ''invalid process start time'') | Some t \<Rightarrow> Inr t))"

definition last_with_prefix :: "string \<Rightarrow> string list \<Rightarrow> string" where
  "last_with_prefix prefix entries =
     foldl (\<lambda>found entry. if HasPrefix entry prefix then drop (length prefix) entry else found) [] entries"

definition procSnapshot :: "'w proc_os \<Rightarrow> int \<Rightarrow> string \<Rightarrow> ('w, processSnapshot) act" where
  "procSnapshot px pid executable =
     bindE (px_Status px pid) (\<lambda>status.
     case status_uid status of None \<Rightarrow> fail (Errorf ''process UID is unavailable'') | Some uid \<Rightarrow>
     bindE (px_Stat px pid) (\<lambda>stat.
     bindE (liftE (stat_startTime stat)) (\<lambda>t.
     bindE (px_Cmdline px pid) (\<lambda>commandLine.
     bindE (px_Executable px pid) (\<lambda>processExecutable.
     bindE (px_File px executable) (\<lambda>expectedExecutable.
     bindE (px_Environ px pid) (\<lambda>environment.
     ret \<lparr>ps_uid = uid, startTime = t, arguments = splitNullFields commandLine,
       executableSame = (processExecutable = expectedExecutable),
       ps_token = last_with_prefix ''NETWORKD_OWNER='' (splitNullFields environment),
       ps_resolverLink = last_with_prefix ''NETWORKD_RESOLV_LINK='' (splitNullFields environment)\<rparr>)))))))"

definition expectedDHCPArguments :: "string \<Rightarrow> string \<Rightarrow> paths \<Rightarrow> string list" where
  "expectedDHCPArguments interfaceName scriptPath np =
     [busyboxPath, ''udhcpc'', ''-f'', ''-i'', interfaceName, ''-p'', path_text (np_pid np), ''-s'', scriptPath]"

definition validateDHCPProcessSnapshot :: "processSnapshot \<Rightarrow> string list \<Rightarrow> string \<Rightarrow> unit outcome" where
  "validateDHCPProcessSnapshot snapshot expectedArguments resolverLink = (
     if ps_uid snapshot \<noteq> 0 \<or> \<not> executableSame snapshot \<or>
        (case hex_decode (ps_token snapshot) of None \<Rightarrow> True | Some bs \<Rightarrow> length bs \<noteq> 16) \<or>
        ps_resolverLink snapshot \<noteq> resolverLink \<or> arguments snapshot \<noteq> expectedArguments
     then Inl (Errorf ''DHCP process identity could not be verified'') else Inr ())"

definition validateOwnedSnapshot :: "ownerRecord \<Rightarrow> processSnapshot \<Rightarrow> string list \<Rightarrow> unit outcome" where
  "validateOwnedSnapshot r snapshot expectedArguments = (
     if startTime snapshot \<noteq> StartTime r \<or> ps_token snapshot \<noteq> Token r \<or>
        validateDHCPProcessSnapshot snapshot expectedArguments (ResolverLink r) \<noteq> Inr ()
     then Inl (Errorf ''prior DHCP process ownership could not be verified'') else Inr ())"

definition ensurePriorProcessGone :: "'w proc_os \<Rightarrow> ownerRecord \<Rightarrow> string list \<Rightarrow> ('w, unit) act" where
  "ensurePriorProcessGone px r expectedArguments = tryE (procSnapshot px (PID r) busyboxPath) (\<lambda>s. case s of
     Inl e \<Rightarrow> if errors_is e ErrNotExist then ret () else fail (Wrapf ''inspect prior DHCP process'' e)
   | Inr snapshot \<Rightarrow> checkE (validateOwnedSnapshot r snapshot expectedArguments \<noteq> Inr ())
       (Errorf ''prior DHCP process is still active; refusing takeover''))"

subsection \<open>The client of an earlier run\<close>

text \<open>An \<^verbatim>\<open>int\<close> has 32 bits on the speaker.\<close>

definition readPIDFile :: "'w net_os \<Rightarrow> path \<Rightarrow> ('w, int) act" where
  "readPIDFile os p =
     bindE (no_Lstat os p) (\<lambda>info.
     seqE (checkE (fi_uid info = 0 \<and> fi_regular info \<and> \<not> fi_symlink info \<and> fi_perm info AND 0x012 = 0)
             (Errorf ''DHCP PID file is not root-controlled''))
    (bindE (no_ReadFile os p) (\<lambda>content.
     seqE (checkE (length content \<le> 32) (Errorf ''invalid DHCP PID file''))
    (case Atoi (TrimSpace content) of
       None \<Rightarrow> fail (Errorf ''invalid DHCP PID file'')
     | Some pid \<Rightarrow> seqE (checkE (2 \<le> pid \<and> pid < 2 ^ 31) (Errorf ''invalid DHCP PID file'')) (ret pid)))))"

text \<open>A process id without an owner record: only if a DHCP client of this interface runs under it, it is left alone.\<close>

definition replace_unowned :: "'w net_os \<Rightarrow> 'w proc_os \<Rightarrow> paths \<Rightarrow> string list \<Rightarrow> string \<Rightarrow> ('w, unit) act" where
  "replace_unowned os px np expectedArguments resolverLink = tryE (no_Lstat os (np_pid np)) (\<lambda>r. case r of
     Inl e \<Rightarrow> if errors_is e ErrNotExist then ret () else fail (Wrapf ''inspect DHCP PID file'' e)
   | Inr _ \<Rightarrow>
       bindE (readPIDFile os (np_pid np)) (\<lambda>pid.
       seqE (tryE (procSnapshot px pid busyboxPath) (\<lambda>s. case s of
           Inr snapshot \<Rightarrow> checkE (validateDHCPProcessSnapshot snapshot expectedArguments resolverLink \<noteq> Inr ())
             (Errorf ''unowned DHCP PID is still active'')
         | Inl e \<Rightarrow> checkE (errors_is e ErrNotExist) (Errorf ''inspect unowned DHCP PID'')))
       (wrapE ''remove stale DHCP PID file'' (no_Remove os (np_pid np)))))"

definition replacePriorDHCP :: "'w net_os \<Rightarrow> 'w proc_os \<Rightarrow> net_codec \<Rightarrow> paths \<Rightarrow> string \<Rightarrow> string \<Rightarrow> string \<Rightarrow> ('w, unit) act" where
  "replacePriorDHCP os px nc np interfaceName scriptPath resolverLink =
     tryE (loadOwner os nc (np_owner np)) (\<lambda>r. case r of
       Inl e \<Rightarrow>
         if errors_is e ErrNotExist then replace_unowned os px np (expectedDHCPArguments interfaceName scriptPath np) resolverLink
         else fail e
     | Inr record \<Rightarrow>
         seqE (ensurePriorProcessGone px record (expectedDHCPArguments (ow_Interface record) (Script record) np))
           (combineE [removeFile os (np_owner np), removeFile os (np_pid np)]))"

subsection \<open>Starting and stopping\<close>

record dhcpChild =
  ch_pid :: int
  ch_record :: ownerRecord

text \<open>A process that has ended already is as good as signalled.\<close>

definition unless_gone :: "string \<Rightarrow> ('w, unit) act \<Rightarrow> ('w, unit) act" where
  "unless_gone msg m = tryE m (\<lambda>r. case r of
     Inl e \<Rightarrow> if errors_is e ErrProcessDone \<or> errors_is e ESRCH then ret () else fail (Errorf msg) | Inr _ \<Rightarrow> ret ())"

definition killStartedCommand :: "'w proc_os \<Rightarrow> int \<Rightarrow> ('w, unit) act" where
  "killStartedCommand px pid = seqE (unless_gone ''kill unowned DHCP client'' (px_Kill px pid)) (ignoreE (px_Wait px pid))"

definition writeOwner :: "'w net_os \<Rightarrow> net_codec \<Rightarrow> path \<Rightarrow> ownerRecord \<Rightarrow> ('w, unit) act" where
  "writeOwner os nc p r = (case nc_MarshalOwner nc r of
     None \<Rightarrow> fail (Errorf ''encode DHCP owner record'') | Some content \<Rightarrow> writeAtomic os p (content @ [newline]) 0x180)"

text \<open>A started client that cannot be verified or recorded is killed.\<close>

definition kill_after :: "'w proc_os \<Rightarrow> int \<Rightarrow> go_error \<Rightarrow> ('w, 'a) act" where
  "kill_after px pid e = tryE (killStartedCommand px pid) (\<lambda>r.
     fail (case combineErrors [Inl e, r] of Inl e' \<Rightarrow> e' | Inr _ \<Rightarrow> e))"

definition client_environment :: "string \<Rightarrow> string \<Rightarrow> string \<Rightarrow> string list" where
  "client_environment interfaceName token resolverLink =
     [''NETWORKD_EVENT=1'', ''NETWORKD_INTERFACE='' @ interfaceName, ''NETWORKD_OWNER='' @ token, ''NETWORKD_RESOLV_LINK='' @ resolverLink]"

definition startDHCPLocked :: "'w net_os \<Rightarrow> 'w proc_os \<Rightarrow> net_codec \<Rightarrow> string \<Rightarrow> string \<Rightarrow> string \<Rightarrow> paths \<Rightarrow> ('w, dhcpChild) act" where
  "startDHCPLocked os px nc interfaceName scriptPath resolverLink np =
     bindE (tryE (px_Random px 16) (\<lambda>r. case r of Inl _ \<Rightarrow> fail (Errorf ''generate DHCP ownership token'') | Inr bs \<Rightarrow> ret bs)) (\<lambda>tokenBytes.
     let token = hex_encode tokenBytes; args = expectedDHCPArguments interfaceName scriptPath np in
     bindE (tryE (px_Start px args (client_environment interfaceName token resolverLink)) (\<lambda>r. case r of
         Inl _ \<Rightarrow> fail (Errorf ''start DHCP client'') | Inr pid \<Rightarrow> ret pid)) (\<lambda>pid.
     tryE (procSnapshot px pid busyboxPath) (\<lambda>s. case s of
       Inl _ \<Rightarrow> kill_after px pid (Errorf ''inspect started DHCP client'')
     | Inr snapshot \<Rightarrow>
         let owned = \<lparr>PID = pid, StartTime = startTime snapshot, Token = token, ow_Interface = interfaceName,
               Script = scriptPath, ResolverLink = resolverLink\<rparr> in
         case validateOwnedSnapshot owned snapshot args of
           Inl e \<Rightarrow> kill_after px pid e
         | Inr _ \<Rightarrow> tryE (writeOwner os nc (np_owner np) owned) (\<lambda>r. case r of
             Inl e \<Rightarrow> kill_after px pid e
           | Inr _ \<Rightarrow> ret \<lparr>ch_pid = pid, ch_record = owned\<rparr>))))"

definition stop_process :: "'w proc_os \<Rightarrow> int \<Rightarrow> ('w, unit) act" where
  "stop_process px pid =
     seqE (unless_gone ''signal DHCP client'' (px_Signal px pid))
    (bindE (px_Exited px pid) (\<lambda>exited.
     if exited then ret ()
     else seqE (unless_gone ''kill DHCP client'' (px_Kill px pid)) (ignoreE (px_Wait px pid))))"

text \<open>Whether the client is stopped, and the error.\<close>

definition stopDHCP :: "'w net_os \<Rightarrow> 'w proc_os \<Rightarrow> dhcpChild option \<Rightarrow> paths \<Rightarrow> ('w, bool \<times> unit outcome) act" where
  "stopDHCP os px child np =
     tryE (case child of None \<Rightarrow> ret () | Some c \<Rightarrow> stop_process px (ch_pid c)) (\<lambda>r. case r of
       Inl e \<Rightarrow> ret (False, Inl e)
     | Inr _ \<Rightarrow> tryE (combineE [removeFile os (np_owner np), removeFile os (np_pid np)]) (\<lambda>err. ret (True, err)))"

text \<open>The runtime directory must be there before the lock in it is opened, which would not bring it back.\<close>

definition startDHCP :: "'w net_os \<Rightarrow> 'w proc_os \<Rightarrow> net_codec \<Rightarrow> string \<Rightarrow> string \<Rightarrow> string \<Rightarrow> paths \<Rightarrow> ('w, dhcpChild option) act" where
  "startDHCP os px nc interfaceName scriptPath resolverLink np =
     seqE (tryE (px_IsDir px (np_runtime np)) (\<lambda>r. checkE (r = Inr True) (Sentinel ErrRuntimeDirectoryLost)))
    (bindE (lock_and os (np_lock np) None
       (tryE (startDHCPLocked os px nc interfaceName scriptPath resolverLink np) (\<lambda>r. case r of
          Inl e \<Rightarrow> ret (None, Inl e) | Inr c \<Rightarrow> ret (Some c, Inr ())))) (\<lambda>(child, err). case err of
       Inr _ \<Rightarrow> ret child
     | Inl e \<Rightarrow> (case child of
         None \<Rightarrow> fail e
       | Some c \<Rightarrow> bindE (stopDHCP os px (Some c) np) (\<lambda>(stopped, stopErr).
           fail (case combineErrors [Inl e, stopErr] of Inl e' \<Rightarrow> e' | Inr _ \<Rightarrow> e)))))"

end
