(* ===== verification/Net_Supervise.thy ===== *)
theory Net_Supervise
  imports Net_Dhcp
begin

text \<open>
  The supervisor of the network lifecycle service (\<^verbatim>\<open>tools/provisioning/networkd/main.go\<close>): it
  polls the supplicant, starts the DHCP client when the station is associated, stops it and takes
  the lease back when it is not, and retries with a growing delay.
\<close>

subsection \<open>The supplicant\<close>

definition validRootControlSocketMetadata :: "sock_info \<Rightarrow> bool" where
  "validRootControlSocketMetadata info \<longleftrightarrow> fi_uid info = 0 \<and> fi_gid info = 0 \<and> fi_socket info \<and> \<not> fi_symlink info \<and>
     fi_perm info AND 0x002 = 0"

definition validateControlSocket :: "'w proc_os \<Rightarrow> string \<Rightarrow> string \<Rightarrow> ('w, string) act" where
  "validateControlSocket px controlDirectory interfaceName =
     seqE (checkE (take 1 controlDirectory = ''/'') (Errorf ''control directory must be absolute''))
    (bindE (wrapE ''inspect control directory'' (px_Lstat px controlDirectory)) (\<lambda>info.
     seqE (checkE (fi_uid info = 0 \<and> fi_gid info = 0 \<and> fi_dir info \<and> \<not> fi_symlink info \<and> fi_perm info AND 0x002 = 0)
             (Errorf ''supplicant control directory is not root-controlled''))
    (bindE (wrapE ''inspect supplicant control socket'' (px_Lstat px (controlDirectory @ ''/'' @ interfaceName))) (\<lambda>socketInfo.
     seqE (checkE (validRootControlSocketMetadata socketInfo) (Errorf ''supplicant control socket is not root-controlled''))
       (ret (decimal (fi_dev socketInfo) @ '':'' @ decimal (fi_id socketInfo)))))))"

definition wpaCLIPath :: string where "wpaCLIPath = ''/bin/wpa_cli''"

text \<open>The value of a key in \<^verbatim>\<open>key=value\<close> lines, the last one if there are several.\<close>

definition status_value :: "string \<Rightarrow> string \<Rightarrow> string" where
  "status_value output key = (case map_of (rev (List.map_filter (Cut CHR ''='') (split_on newline output))) key of
     None \<Rightarrow> [] | Some v \<Rightarrow> v)"

text \<open>\<open>sha\<close> is SHA-256, a parameter.\<close>

definition querySupplicant :: "'w net_os \<Rightarrow> 'w proc_os \<Rightarrow> (string \<Rightarrow> byte list) \<Rightarrow> string \<Rightarrow> string \<Rightarrow> ('w, observation) act" where
  "querySupplicant os px sha controlDirectory interfaceName =
     bindE (validateControlSocket px controlDirectory interfaceName) (\<lambda>socketIdentity.
     tryE (no_Run os [wpaCLIPath, ''-p'', controlDirectory, ''-i'', interfaceName, ''status'']) (\<lambda>r. case r of
       Inl _ \<Rightarrow> fail (Errorf ''query supplicant status'')
     | Inr output \<Rightarrow>
         if status_value output ''wpa_state'' \<noteq> ''COMPLETED'' then ret \<lparr>completed = False, identity = []\<rparr>
         else ret \<lparr>completed = True, identity = hex_encode (sha
           (socketIdentity @ [CHR 0x00] @ status_value output ''id'' @ [CHR 0x00] @ status_value output ''ssid''))\<rparr>))"

subsection \<open>The lock of the supervisor\<close>

definition acquireSupervisorLock :: "'w net_os \<Rightarrow> path \<Rightarrow> nat \<Rightarrow> ('w, nat) act" where
  "acquireSupervisorLock os p uid =
     seqE (tryE (no_Lstat os p) (\<lambda>r. case r of
         Inr existing \<Rightarrow> checkE (private_state uid existing) (Errorf ''supervisor lock is not root-controlled'')
       | Inl e \<Rightarrow> if errors_is e ErrNotExist then ret () else fail (Wrapf ''inspect supervisor lock path'' e)))
    (bindE (wrapE ''open supervisor lock'' (no_OpenFile os p)) (\<lambda>fd.
     tryE (bindE (wrapE ''inspect supervisor lock'' (no_FStat os fd)) (\<lambda>info.
         seqE (checkE (fi_uid info = uid \<and> fi_regular info \<and> fi_perm info = 0x180) (Errorf ''supervisor lock is not root-controlled''))
           (tryE (no_Flock os fd True) (\<lambda>r. case r of
              Inl e \<Rightarrow> if errors_is e EAGAIN then fail (Errorf ''network lifecycle supervisor is already active'')
                else fail (Wrapf ''lock network lifecycle supervisor'' e)
            | Inr _ \<Rightarrow> ret ())))) (\<lambda>r. case r of
       Inl e \<Rightarrow> seqE (ignoreE (no_Close os fd)) (fail e)
     | Inr _ \<Rightarrow> ret fd)))"

definition releaseSupervisorLock :: "'w net_os \<Rightarrow> nat \<Rightarrow> ('w, unit) act" where
  "releaseSupervisorLock os fd = combineE [
     wrapE ''unlock network lifecycle supervisor'' (no_Unlock os fd),
     wrapE ''close network lifecycle supervisor lock'' (no_Close os fd)]"

subsection \<open>The state of the supervisor\<close>

text \<open>
  Times are in nanoseconds; a retry time that was never set is in the past. The channel on which
  the end of the client is received is there exactly when there is a client.
\<close>

record supervisor =
  sv_state :: lifecycleState
  sv_child :: "dhcpChild option"
  sv_failures :: nat
  sv_retryDelay :: int
  sv_nextRetry :: "int option"
  sv_statusFailures :: nat
  sv_childStarted :: int
  sv_cleanupPending :: bool
  sv_recoveringEvent :: bool

record net_config =
  cf_interface :: string
  cf_control :: string
  cf_resolver :: string
  cf_script :: string
  cf_paths :: paths

definition second :: int where "second = 1000000000"
definition maxCommandFailures :: nat where "maxCommandFailures = 3"

definition new_supervisor :: supervisor where
  "new_supervisor = \<lparr>sv_state = \<lparr>connected = False, ls_identity = [], dhcp = False\<rparr>, sv_child = None, sv_failures = 0,
     sv_retryDelay = second, sv_nextRetry = None, sv_statusFailures = 0, sv_childStarted = 0,
     sv_cleanupPending = False, sv_recoveringEvent = False\<rparr>"

definition due :: "int \<Rightarrow> int option \<Rightarrow> bool" where
  "due now t = (case t of None \<Rightarrow> True | Some t \<Rightarrow> t \<le> now)"

definition backoff :: "int \<Rightarrow> int" where
  "backoff d = (if d < 30 * second then (if 30 * second < 2 * d then 30 * second else 2 * d) else d)"

definition scheduleRecoveryRetry :: "int \<Rightarrow> int \<Rightarrow> int \<times> int" where
  "scheduleRecoveryRetry now retryDelay = (now + retryDelay, retryDelay)"

text \<open>Stop the client and take the lease back; the client is given up only once it is stopped.\<close>

definition cleanup :: "'w net_os \<Rightarrow> 'w proc_os \<Rightarrow> net_codec \<Rightarrow> net_config \<Rightarrow> supervisor \<Rightarrow> ('w, supervisor \<times> unit outcome) act" where
  "cleanup os px nc cf sv =
     bindE (stopDHCP os px (sv_child sv) (cf_paths cf)) (\<lambda>(stopped, stopErr).
     if \<not> stopped then ret (sv, stopErr)
     else tryE (withLeaseLock os (np_lock (cf_paths cf)) (clearLeaseState os nc (cf_paths cf) (cf_interface cf) (cf_resolver cf))) (\<lambda>leaseErr.
       tryE (clearEventFailureMarker os (np_eventFailure (cf_paths cf)) 0) (\<lambda>markerErr.
         ret (sv\<lparr>sv_child := None\<rparr>, combineErrors [stopErr, leaseErr, markerErr]))))"

subsection \<open>One poll\<close>

text \<open>
  What the supplicant says, or for a while what it said before if it cannot be asked; the flag
  says whether the question was answered.
\<close>

definition observe :: "supervisor \<Rightarrow> observation outcome \<Rightarrow> supervisor \<times> observation \<times> bool" where
  "observe sv r = (case r of
     Inl _ \<Rightarrow> let n = Suc (sv_statusFailures sv) in
       (sv\<lparr>sv_statusFailures := n\<rparr>,
        if n < maxCommandFailures then \<lparr>completed = connected (sv_state sv), identity = ls_identity (sv_state sv)\<rparr>
        else \<lparr>completed = False, identity = []\<rparr>, False)
   | Inr observed \<Rightarrow> (sv\<lparr>sv_statusFailures := 0\<rparr>, observed, True))"

definition decide :: "supervisor \<Rightarrow> observation \<Rightarrow> bool \<Rightarrow> supervisor \<times> lifecycleAction" where
  "decide sv observed eventFailed = (
     let (next, action) = transition (sv_state sv) observed (sv_child sv \<noteq> None) eventFailed;
         sv = sv\<lparr>sv_state := next\<rparr>;
         sv = (if action = actionStop \<or> action = actionRestart
               then sv\<lparr>sv_cleanupPending := True, sv_failures := 0, sv_retryDelay := second, sv_nextRetry := None\<rparr> else sv);
         sv = (if action = actionRecover then sv\<lparr>sv_recoveringEvent := True, sv_cleanupPending := True\<rparr> else sv)
     in (sv, action))"

definition pending_cleanup :: "'w net_os \<Rightarrow> 'w proc_os \<Rightarrow> net_codec \<Rightarrow> net_config \<Rightarrow> supervisor \<Rightarrow> ('w, supervisor) act" where
  "pending_cleanup os px nc cf sv =
     (if \<not> sv_cleanupPending sv then ret sv
      else bindE (px_Now px) (\<lambda>now.
        if \<not> due now (sv_nextRetry sv) then ret sv
        else bindE (cleanup os px nc cf sv) (\<lambda>(sv, err).
          case err of
            Inl _ \<Rightarrow> bindE (px_Now px) (\<lambda>now.
              ret (sv\<lparr>sv_nextRetry := Some (now + sv_retryDelay sv), sv_retryDelay := backoff (sv_retryDelay sv)\<rparr>))
          | Inr _ \<Rightarrow>
              let sv = sv\<lparr>sv_cleanupPending := False\<rparr> in
              if sv_recoveringEvent sv then bindE (px_Now px) (\<lambda>now.
                case scheduleRecoveryRetry now (sv_retryDelay sv) of (t, d) \<Rightarrow>
                  ret (sv\<lparr>sv_nextRetry := Some t, sv_retryDelay := d, sv_recoveringEvent := False\<rparr>))
              else ret sv)))"

definition maybe_start :: "'w net_os \<Rightarrow> 'w proc_os \<Rightarrow> net_codec \<Rightarrow> net_config \<Rightarrow> lifecycleAction \<Rightarrow> bool \<Rightarrow> supervisor \<Rightarrow> ('w, supervisor) act" where
  "maybe_start os px nc cf action answered sv =
     (if \<not> ((action = actionStart \<or> action = actionRestart) \<and> \<not> sv_cleanupPending sv \<and> answered) then ret sv
      else bindE (px_Now px) (\<lambda>now.
        if \<not> due now (sv_nextRetry sv) then ret sv
        else tryE (startDHCP os px nc (cf_interface cf) (cf_script cf) (cf_resolver cf) (cf_paths cf)) (\<lambda>r. case r of
          Inl e \<Rightarrow>
            if errors_is e ErrRuntimeDirectoryLost then fail e
            else bindE (px_Now px) (\<lambda>now. ret (sv\<lparr>sv_failures := Suc (sv_failures sv),
              sv_nextRetry := Some (now + sv_retryDelay sv), sv_retryDelay := backoff (sv_retryDelay sv)\<rparr>))
        | Inr child \<Rightarrow> bindE (px_Now px) (\<lambda>now.
            ret (sv\<lparr>sv_child := child, sv_childStarted := now, sv_failures := 0, sv_nextRetry := None\<rparr>)))))"

definition poll :: "'w net_os \<Rightarrow> 'w proc_os \<Rightarrow> net_codec \<Rightarrow> (string \<Rightarrow> byte list) \<Rightarrow> net_config \<Rightarrow> supervisor \<Rightarrow> ('w, supervisor) act" where
  "poll os px nc sha cf sv =
     tryE (querySupplicant os px sha (cf_control cf) (cf_interface cf)) (\<lambda>r.
     case observe sv r of (sv, observed, answered) \<Rightarrow>
     tryE (eventFailureMarkerPresent os (np_eventFailure (cf_paths cf)) 0) (\<lambda>m. case m of
       Inl e \<Rightarrow> bindE (cleanup os px nc cf sv) (\<lambda>(_, err).
         fail (case combineErrors [Inl e, err] of Inl e' \<Rightarrow> e' | Inr _ \<Rightarrow> e))
     | Inr eventFailed \<Rightarrow> (case decide sv observed eventFailed of (sv, action) \<Rightarrow>
         bindE (pending_cleanup os px nc cf sv) (maybe_start os px nc cf action answered))))"

subsection \<open>Between polls\<close>

text \<open>What the loop waits for. A client's end can be received only if there is a client; the result is none when the supervisor returns.\<close>

datatype wake = Terminated | Ticked | ChildEnded

definition child_ended :: "'w net_os \<Rightarrow> 'w proc_os \<Rightarrow> net_codec \<Rightarrow> net_config \<Rightarrow> supervisor \<Rightarrow> dhcpChild \<Rightarrow> ('w, supervisor) act" where
  "child_ended os px nc cf sv c =
     seqE (ignoreE (px_Wait px (ch_pid c)))
    (bindE (cleanup os px nc cf (sv\<lparr>sv_child := None, sv_cleanupPending := True\<rparr>)) (\<lambda>(sv, err).
     let sv = (case err of Inl _ \<Rightarrow> sv | Inr _ \<Rightarrow> sv\<lparr>sv_cleanupPending := False\<rparr>) in
     bindE (px_Now px) (\<lambda>t1.
     let sv = (if 30 * second \<le> t1 - sv_childStarted sv then sv\<lparr>sv_retryDelay := second\<rparr> else sv) in
     bindE (px_Now px) (\<lambda>t2.
     let sv = sv\<lparr>sv_nextRetry := Some (t2 + sv_retryDelay sv)\<rparr> in
     bindE (px_Now px) (\<lambda>t3.
     ret (if t3 - sv_childStarted sv < 30 * second then sv\<lparr>sv_retryDelay := backoff (sv_retryDelay sv)\<rparr> else sv))))))"

definition woken :: "'w net_os \<Rightarrow> 'w proc_os \<Rightarrow> net_codec \<Rightarrow> net_config \<Rightarrow> wake \<Rightarrow> supervisor \<Rightarrow> ('w, supervisor option) act" where
  "woken os px nc cf k sv = (case k of
     Terminated \<Rightarrow> bindE (cleanup os px nc cf sv) (\<lambda>(sv, err). case err of
       Inl e \<Rightarrow> fail (Wrapf ''shutdown network cleanup'' e) | Inr _ \<Rightarrow> ret None)
   | Ticked \<Rightarrow> ret (Some sv)
   | ChildEnded \<Rightarrow> (case sv_child sv of
       None \<Rightarrow> ret (Some sv) | Some c \<Rightarrow> bindE (child_ended os px nc cf sv c) (\<lambda>sv. ret (Some sv))))"

text \<open>
  What happens to the service: polls with what woke it after each, and between them events from
  DHCP clients, which run as processes of their own. The result is the supervisor when nothing
  more happens, or none when it has returned.
\<close>

datatype happening = Round wake | ClientEvent nat "string list" string

fun supervise_loop :: "'w net_os \<Rightarrow> 'w proc_os \<Rightarrow> net_codec \<Rightarrow> (string \<Rightarrow> byte list) \<Rightarrow> net_config \<Rightarrow> happening list \<Rightarrow> supervisor \<Rightarrow>
    ('w, supervisor option) act" where
  "supervise_loop os px nc sha cf [] sv = ret (Some sv)"
| "supervise_loop os px nc sha cf (Round k # hs) sv =
     bindE (poll os px nc sha cf sv) (\<lambda>sv. bindE (woken os px nc cf k sv) (\<lambda>r. case r of
       None \<Rightarrow> ret None | Some sv \<Rightarrow> supervise_loop os px nc sha cf hs sv))"
| "supervise_loop os px nc sha cf (ClientEvent euid environment action # hs) sv =
     seqE (ignoreE (runEvent os nc euid environment action (cf_interface cf) (cf_resolver cf) (cf_paths cf)))
       (supervise_loop os px nc sha cf hs sv)"

subsection \<open>The whole run\<close>

definition ensureRuntimeDirectory :: "'w net_os \<Rightarrow> 'w proc_os \<Rightarrow> path \<Rightarrow> ('w, unit) act" where
  "ensureRuntimeDirectory os px p =
     seqE (tryE (px_Mkdir px p 0x1C0) (\<lambda>r. case r of
        Inl e \<Rightarrow> if errors_is e ErrExist then ret () else fail (Wrapf ''create runtime directory'' e) | Inr _ \<Rightarrow> ret ()))
       (validateRuntimeDirectory os p)"

text \<open>What an earlier run has left: its client, its lease, whatever is on the interface, and the marker.\<close>

definition clear_prior :: "'w net_os \<Rightarrow> 'w proc_os \<Rightarrow> net_codec \<Rightarrow> net_config \<Rightarrow> ('w, unit) act" where
  "clear_prior os px nc cf =
     seqE (replacePriorDHCP os px nc (cf_paths cf) (cf_interface cf) (cf_script cf) (cf_resolver cf))
    (seqE (wrapE ''clear prior lease state'' (withLeaseLock os (np_lock (cf_paths cf)) (combineE [
         clearLeaseState os nc (cf_paths cf) (cf_interface cf) (cf_resolver cf),
         clearInterfaceNetworkState os (cf_interface cf)])))
      (wrapE ''clear prior event failure'' (clearEventFailureMarker os (np_eventFailure (cf_paths cf)) 0)))"

definition supervise :: "'w net_os \<Rightarrow> 'w proc_os \<Rightarrow> net_codec \<Rightarrow> (string \<Rightarrow> byte list) \<Rightarrow> nat \<Rightarrow> path \<Rightarrow> net_config \<Rightarrow> happening list \<Rightarrow>
    ('w, supervisor option) act" where
  "supervise os px nc sha euid script cf hs =
     seqE (checkE (euid = 0) (Errorf ''network lifecycle service must run as root''))
    (seqE (checkE (interfacePattern (cf_interface cf)) (Errorf ''invalid interface name''))
    (seqE (ensureRuntimeDirectory os px (np_runtime (cf_paths cf)))
    (seqE (wrapE ''validate BusyBox'' (validateRootExecutable os [''bin'', ''busybox'']))
    (seqE (wrapE ''validate wpa_cli'' (validateRootExecutable os [''bin'', ''wpa_cli'']))
    (seqE (bindE (validateResolverLinkParent os (cf_resolver cf) 0 True) (\<lambda>_. ret ()))
    (seqE (wrapE ''validate networkd executable'' (validateRootExecutable os script))
    (bindE (acquireSupervisorLock os (np_supervisorLock (cf_paths cf)) 0) (\<lambda>fd.
     tryE (seqE (clear_prior os px nc cf) (supervise_loop os px nc sha cf hs new_supervisor)) (\<lambda>r. case r of
       Inr (Some sv) \<Rightarrow> ret (Some sv)
     | Inr None \<Rightarrow> seqE (releaseSupervisorLock os fd) (ret None)
     | Inl e \<Rightarrow> tryE (releaseSupervisorLock os fd) (\<lambda>q.
         fail (case combineErrors [Inl e, q] of Inl e' \<Rightarrow> e' | Inr _ \<Rightarrow> e)))))))))))"

end
