(* ===== verification/Net_Kept.thy ===== *)
theory Net_Kept
  imports Net_Event
begin

text \<open>
  What the lease file is for: whatever address or default route the service has put on the
  interface is named in it, so that a later event, or the service after a crash, can take it
  back. The commands and files are a locale with their documented behaviour.
\<close>

subsection \<open>The kernel's contract\<close>

text \<open>
  The interface \<open>I\<close> has addresses and routers of default routes; \<open>kept\<close> is the content of the
  lease file \<open>T\<close>. \<open>temp w fd p c\<close> says that \<open>fd\<close> is open on a new file \<open>p\<close> with content \<open>c\<close>. A
  command may have had its effect although it reports an error; what a command that shows the
  state prints names every address and route.
\<close>

locale lease_kernel =
  fixes os :: "'w net_os" and I :: string and T :: path
    and addrs :: "'w \<Rightarrow> (string \<times> int) set" and routes :: "'w \<Rightarrow> string set"
    and kept :: "'w \<Rightarrow> string option" and temp :: "'w \<Rightarrow> nat \<Rightarrow> path \<Rightarrow> string \<Rightarrow> bool"
  assumes reads: "same (\<lambda>w. (addrs w, routes w, kept w)) (no_Lstat os p)"
      "same (\<lambda>w. (addrs w, routes w, kept w)) (no_ReadFile os p)"
      "same (\<lambda>w. (addrs w, routes w, kept w)) (no_Readlink os p)"
      "same (\<lambda>w. (addrs w, routes w, kept w)) (no_Statfs os p)"
      "same (\<lambda>w. (addrs w, routes w, kept w)) (no_FStat os fd)"
    and handles: "same (\<lambda>w. (addrs w, routes w, kept w)) (no_OpenFile os p)"
      "same (\<lambda>w. (addrs w, routes w, kept w)) (no_Flock os fd b)"
      "same (\<lambda>w. (addrs w, routes w, kept w)) (no_Unlock os fd)"
      "same (\<lambda>w. (addrs w, routes w, kept w)) (no_CreateTemp os p pre)"
      "same (\<lambda>w. (addrs w, routes w, kept w)) (no_Symlink os tgt p)"
      "same (\<lambda>w. (addrs w, routes w, kept w)) (no_Chmod os fd mode)"
      "same (\<lambda>w. (addrs w, routes w, kept w)) (no_Write os fd x)"
      "same (\<lambda>w. (addrs w, routes w, kept w)) (no_Sync os fd)"
      "same (\<lambda>w. (addrs w, routes w, kept w)) (no_Close os fd)"
    and lstat_missing: "no_Lstat os T w = (Inl e, w') \<Longrightarrow> errors_is e ErrNotExist \<Longrightarrow> kept w = None"
    and read_missing: "no_ReadFile os T w = (Inl e, w') \<Longrightarrow> errors_is e ErrNotExist \<Longrightarrow> kept w = None"
    and read_content: "no_ReadFile os T w = (Inr c, w') \<Longrightarrow> kept w = Some c"
    and create: "no_CreateTemp os p pre w = (Inr (fd, name), w') \<Longrightarrow> temp w' fd (Join p name) [] \<and> Join p name \<noteq> T"
    and temps: "no_Chmod os fd mode w = (Inr u, w') \<Longrightarrow> temp w fd p c \<Longrightarrow> temp w' fd p c"
      "no_Write os fd x w = (Inr u, w') \<Longrightarrow> temp w fd p c \<Longrightarrow> temp w' fd p (c @ x)"
      "no_Sync os fd w = (Inr u, w') \<Longrightarrow> temp w fd p c \<Longrightarrow> temp w' fd p c"
      "no_Close os fd w = (Inr u, w') \<Longrightarrow> temp w fd p c \<Longrightarrow> temp w' fd p c"
    and rename: "no_Rename os p T w = (r, w') \<Longrightarrow> temp w fd p c \<Longrightarrow>
      addrs w' = addrs w \<and> routes w' = routes w \<and> (kept w' = Some c \<or> (\<exists>e. r = Inl e) \<and> kept w' = kept w)"
    and rename_other: "p \<noteq> T \<Longrightarrow> q \<noteq> T \<Longrightarrow> same (\<lambda>w. (addrs w, routes w, kept w)) (no_Rename os p q)"
    and remove: "no_Remove os T w = (r, w') \<Longrightarrow>
      addrs w' = addrs w \<and> routes w' = routes w \<and> (kept w' = None \<or> kept w' = kept w)"
    and remove_other: "p \<noteq> T \<Longrightarrow> same (\<lambda>w. (addrs w, routes w, kept w)) (no_Remove os p)"
    and address_added: "no_Run os (busyboxPath # add_address I a n) w = (res, w') \<Longrightarrow>
      addrs w' \<subseteq> insert (a, n) (addrs w) \<and> routes w' \<subseteq> routes w \<and> kept w' = kept w"
    and route_added: "no_Run os (busyboxPath # add_route I v) w = (res, w') \<Longrightarrow>
      addrs w' \<subseteq> addrs w \<and> routes w' \<subseteq> insert v (routes w) \<and> kept w' = kept w"
    and address_removed: "no_Run os (busyboxPath # del_address I a n) w = (res, w') \<Longrightarrow>
      addrs w' \<subseteq> addrs w \<and> routes w' \<subseteq> routes w \<and> kept w' = kept w \<and> ((\<exists>out. res = Inr out) \<longrightarrow> (a, n) \<notin> addrs w')"
    and route_removed: "no_Run os (busyboxPath # del_route I v) w = (res, w') \<Longrightarrow>
      addrs w' \<subseteq> addrs w \<and> routes w' \<subseteq> routes w \<and> kept w' = kept w \<and> ((\<exists>out. res = Inr out) \<longrightarrow> v \<notin> routes w')"
    and addresses_shown: "no_Run os (busyboxPath # show_addresses I) w = (res, w') \<Longrightarrow>
      addrs w' = addrs w \<and> routes w' = routes w \<and> kept w' = kept w \<and>
      (\<forall>output a n. res = Inr output \<and> (a, n) \<in> addrs w \<and> validIPv4 a = Inr a \<longrightarrow> addressPresent output a n)"
    and routes_shown: "no_Run os (busyboxPath # show_routes) w = (res, w') \<Longrightarrow>
      addrs w' = addrs w \<and> routes w' = routes w \<and> kept w' = kept w \<and>
      (\<forall>output v. res = Inr output \<and> v \<in> routes w \<and> validIPv4 v = Inr v \<longrightarrow> routePresent output v I)"
begin

text \<open>Predicates that stay true when addresses and routes disappear.\<close>

definition calm :: "('w \<Rightarrow> bool) \<Rightarrow> bool" where
  "calm P \<longleftrightarrow> (\<forall>w w'. P w \<longrightarrow> addrs w' \<subseteq> addrs w \<longrightarrow> routes w' \<subseteq> routes w \<longrightarrow> kept w' = kept w \<longrightarrow> P w')"

lemma calmD: "calm P \<Longrightarrow> P w \<Longrightarrow> addrs w' \<subseteq> addrs w \<Longrightarrow> routes w' \<subseteq> routes w \<Longrightarrow> kept w' = kept w \<Longrightarrow> P w'"
  by (simp add: calm_def)

lemma quiet: "same (\<lambda>w. (addrs w, routes w, kept w)) m \<Longrightarrow> calm P \<Longrightarrow> keeps P m"
  by (auto intro!: keepsI elim!: calmD simp: same_def)

lemmas quiet_ops = reads [THEN quiet] handles [THEN quiet] rename_other [THEN quiet] remove_other [THEN quiet]

lemma shrink_keeps:
  assumes "calm P" "\<And>w r w'. m w = (r, w') \<Longrightarrow> addrs w' \<subseteq> addrs w \<and> routes w' \<subseteq> routes w \<and> kept w' = kept w"
  shows "keeps P m"
proof (rule keepsI)
  fix w assume "P w"
  then show "P (snd (m w))" using assms(2) [of w "fst (m w)" "snd (m w)"] calmD [OF assms(1)] by simp
qed

lemma run_calm:
  assumes P: "calm P"
  shows "keeps P (no_Run os (busyboxPath # del_address I a n))" "keeps P (no_Run os (busyboxPath # del_route I v))"
    "keeps P (no_Run os (busyboxPath # show_addresses I))" "keeps P (no_Run os (busyboxPath # show_routes))"
  by (rule shrink_keeps [OF P]; use address_removed route_removed addresses_shown routes_shown in \<open>blast dest: equalityD1\<close>)+

text \<open>The network of the interface is that of the lease; what the file holds covers the network.\<close>

definition of_lease :: "lease \<Rightarrow> 'w \<Rightarrow> bool" where
  "of_lease l w \<longleftrightarrow> addrs w \<subseteq> {(Address l, Prefix l)} \<and> routes w \<subseteq> {Router l}"

definition holds :: "net_codec \<Rightarrow> lease \<Rightarrow> 'w \<Rightarrow> bool" where
  "holds nc l w \<longleftrightarrow> (\<exists>c. kept w = Some c \<and> nc_Decode nc c = Some l) \<and> validateStoredLease l I = Inr () \<and> of_lease l w"

definition bare :: "'w \<Rightarrow> bool" where
  "bare w \<longleftrightarrow> addrs w = {} \<and> routes w = {}"

definition covered :: "net_codec \<Rightarrow> 'w \<Rightarrow> bool" where
  "covered nc w \<longleftrightarrow> bare w \<or> (\<exists>l. holds nc l w)"

lemma calm_states [simp]: "calm (of_lease l)" "calm (holds nc l)" "calm bare" "calm (covered nc)"
  unfolding calm_def of_lease_def holds_def bare_def covered_def by (simp_all, blast+)

lemma calm_conj [simp]: "calm P \<Longrightarrow> calm Q \<Longrightarrow> calm (\<lambda>w. P w \<and> Q w)"
  by (auto simp: calm_def)

end

subsection \<open>Collecting errors\<close>

lemma collectE_keeps: "(\<And>m. m \<in> set ms \<Longrightarrow> keeps P m) \<Longrightarrow> keeps P (collectE ms)"
  by (induction ms) (auto intro!: keeps_ret keeps_tryE keeps_bindE)

lemma combineE_keeps: "(\<And>m. m \<in> set ms \<Longrightarrow> keeps P m) \<Longrightarrow> keeps P (combineE ms)"
  unfolding combineE_def by (intro keeps_bindE collectE_keeps keeps_liftE)

lemma combineErrors_ok: "combineErrors rs = Inr () \<longleftrightarrow> (\<forall>r \<in> set rs. \<exists>u. r = Inr u)"
proof -
  have "List.map_filter (\<lambda>r. case r of Inl e \<Rightarrow> Some (error_message e) | Inr _ \<Rightarrow> None) rs = [] \<longleftrightarrow> (\<forall>r \<in> set rs. \<exists>u. r = Inr u)"
    by (induction rs) (auto simp: List.map_filter_simps split: sum.splits)
  then show ?thesis by (simp add: combineErrors_def)
qed

text \<open>Two collected actions succeed together.\<close>

lemma triple_combineE2:
  assumes m: "triple P m (\<lambda>_. Q) (\<lambda>_. E)" and k: "triple Q k (\<lambda>_. R) (\<lambda>_. E)" and k': "keeps E k"
    and weak: "\<And>w. R w \<Longrightarrow> E w"
  shows "triple P (combineE [m, k]) (\<lambda>_. R) (\<lambda>_. E)"
proof (rule tripleI)
  have run: "\<exists>q v. m w = (q, v) \<and> (\<exists>q'. k v = (q', w') \<and> r = combineErrors [q, q'])"
    if "combineE [m, k] w = (r, w')" for w r w'
    using that by (auto simp: combineE_def tryE_def bindE_def ret_def liftE_def split: prod.splits)
  have all: "case combineErrors [q, q'] of Inl _ \<Rightarrow> E w' | Inr _ \<Rightarrow> R w'" if "P w" "m w = (q, v)" "k v = (q', w')" for w q v q' w'
  proof (cases q)
    case (Inl e)
    with that have "E v" using tripleD_error [OF m] by simp
    then have "E w'" using keepsD [OF k', of v] that(3) by simp
    moreover have "combineErrors [q, q'] \<noteq> Inr ()" using Inl by (simp add: combineErrors_ok)
    ultimately show ?thesis by (cases "combineErrors [q, q']") auto
  next
    case (Inr u)
    with that have v: "Q v" using tripleD_value [OF m] by simp
    show ?thesis
    proof (cases q')
      case (Inl e)
      with that(3) v have "E w'" using tripleD_error [OF k] by simp
      moreover have "combineErrors [q, q'] \<noteq> Inr ()" using Inl by (simp add: combineErrors_ok)
      ultimately show ?thesis by (cases "combineErrors [q, q']") auto
    next
      case (Inr u')
      with that(3) v have "R w'" using tripleD_value [OF k] by simp
      then show ?thesis using weak by (cases "combineErrors [q, q']") auto
    qed
  qed
  show "E w'" if "P w" "combineE [m, k] w = (Inl e, w')" for w e w'
    using run [OF that(2)] all [OF that(1)] by (metis old.sum.simps(5))
  show "R w'" if "P w" "combineE [m, k] w = (Inr u, w')" for w u w'
    using run [OF that(2)] all [OF that(1)] by (metis old.sum.simps(6))
qed

subsection \<open>Taking the network back\<close>

context lease_kernel begin

text \<open>A removal that succeeds, or that the state shown confirms, has removed its entry.\<close>

lemma run_or_verify_gone:
  assumes P: "calm P"
    and del: "\<And>w res w'. no_Run os (busyboxPath # command) w = (res, w') \<Longrightarrow>
      addrs w' \<subseteq> addrs w \<and> routes w' \<subseteq> routes w \<and> kept w' = kept w \<and> ((\<exists>out. res = Inr out) \<longrightarrow> x \<notin> S w')"
    and shown: "\<And>w res w'. no_Run os (busyboxPath # query) w = (res, w') \<Longrightarrow>
      addrs w' \<subseteq> addrs w \<and> routes w' \<subseteq> routes w \<and> kept w' = kept w \<and> (\<forall>output. res = Inr output \<and> x \<in> S w' \<longrightarrow> \<not> gone output)"
  shows "triple P (run_or_verify os command query gone e1 e2) (\<lambda>_ w. P w \<and> x \<notin> S w) (\<lambda>_. P)"
  unfolding run_or_verify_def
proof (rule triple_tryE [where R = "\<lambda>r w. P w \<and> ((\<exists>out. r = Inr out) \<longrightarrow> x \<notin> S w)"])
  show "triple P (no_Run os (busyboxPath # command)) (\<lambda>y w. P w \<and> ((\<exists>out. Inr y = Inr out) \<longrightarrow> x \<notin> S w))
      (\<lambda>e w. P w \<and> ((\<exists>out. Inl e = Inr out) \<longrightarrow> x \<notin> S w))"
    by (rule tripleI; use del calmD [OF P] in \<open>fastforce\<close>)
  fix r
  have q: "triple P (no_Run os (busyboxPath # query)) (\<lambda>y w. P w \<and> (\<forall>output. Inr y = Inr output \<longrightarrow> x \<in> S w \<longrightarrow> \<not> gone output))
      (\<lambda>e w. P w \<and> (\<forall>output. Inl e = Inr output \<longrightarrow> x \<in> S w \<longrightarrow> \<not> gone output))"
    by (rule tripleI; use shown calmD [OF P] in \<open>metis sum.inject(2) sum.simps(4)\<close>)
  show "triple (\<lambda>w. P w \<and> ((\<exists>out. r = Inr out) \<longrightarrow> x \<notin> S w)) (case r of
       Inr _ \<Rightarrow> ret ()
     | Inl _ \<Rightarrow> tryE (no_Run os (busyboxPath # query)) (\<lambda>output. case output of
         Inl _ \<Rightarrow> fail (Errorf e1) | Inr output \<Rightarrow> checkE (gone output) (Errorf e2)))
     (\<lambda>_ w. P w \<and> x \<notin> S w) (\<lambda>_. P)"
  proof (cases r)
    case (Inl e)
    then show ?thesis
      by (auto intro!: triple_tryE [where R = "\<lambda>r w. P w \<and> (\<forall>output. r = Inr output \<longrightarrow> x \<in> S w \<longrightarrow> \<not> gone output)", OF q]
          triple_fail triple_checkE split: sum.split)
  qed (auto intro: triple_ret)
qed

lemma removeDefaultRoute_gone:
  assumes "calm P" "validIPv4 v = Inr v"
  shows "triple P (removeDefaultRoute os I v) (\<lambda>_ w. P w \<and> v \<notin> routes w) (\<lambda>_. P)"
  unfolding removeDefaultRoute_def
  by (rule run_or_verify_gone [OF assms(1)]) (use route_removed routes_shown assms(2) in \<open>blast dest: equalityD1\<close>)+

lemma removeIPv4Address_gone:
  assumes "calm P" "validIPv4 a = Inr a"
  shows "triple P (removeIPv4Address os I a n) (\<lambda>_ w. P w \<and> (a, n) \<notin> addrs w) (\<lambda>_. P)"
  unfolding removeIPv4Address_def
  by (rule run_or_verify_gone [OF assms(1)]) (use address_removed addresses_shown assms(2) in \<open>blast dest: equalityD1\<close>)+

lemma calm_gone [simp]: "calm (\<lambda>w. x \<notin> addrs w)" "calm (\<lambda>w. v \<notin> routes w)"
  by (auto simp: calm_def)

text \<open>A stored lease is valid and of this interface.\<close>

lemma stored_lease:
  assumes "validateStoredLease l I = Inr ()"
  shows "Interface l = I" "validIPv4 (Address l) = Inr (Address l)" "validIPv4 (Router l) = Inr (Router l)"
  using assms by (auto simp: validateStoredLease_def split: if_splits)

lemma removeLeaseNetwork_bare:
  assumes P: "calm P" and l: "validateStoredLease l I = Inr ()"
  shows "triple (\<lambda>w. P w \<and> of_lease l w) (removeLeaseNetwork os l) (\<lambda>_ w. P w \<and> bare w) (\<lambda>_ w. P w \<and> of_lease l w)"
  unfolding removeLeaseNetwork_def stored_lease(1) [OF l]
proof (rule triple_combineE2)
  let ?G = "\<lambda>w. P w \<and> of_lease l w"
  have G: "calm ?G" using P by simp
  show "triple ?G (removeDefaultRoute os I (Router l)) (\<lambda>_ w. ?G w \<and> Router l \<notin> routes w) (\<lambda>_. ?G)"
    by (rule removeDefaultRoute_gone [OF G stored_lease(3) [OF l]])
  show "triple (\<lambda>w. ?G w \<and> Router l \<notin> routes w) (removeIPv4Address os I (Address l) (Prefix l)) (\<lambda>_ w. P w \<and> bare w) (\<lambda>_. ?G)"
    by (rule triple_conseq [OF removeIPv4Address_gone [OF calm_conj [OF G calm_gone(2)] stored_lease(2) [OF l]]])
       (auto simp: of_lease_def bare_def)
  show "keeps ?G (removeIPv4Address os I (Address l) (Prefix l))"
    by (rule triple_conseq [OF removeIPv4Address_gone [OF G stored_lease(2) [OF l]]]) auto
qed (simp add: bare_def of_lease_def)

subsection \<open>Configuring\<close>

text \<open>Files other than the lease file leave the state alone.\<close>

lemma closing_keeps: "calm P \<Longrightarrow> keeps P m \<Longrightarrow> keeps P (closing os fd msg m)"
  unfolding closing_def by (intro keeps_rules quiet_ops)

lemma create_fresh:
  assumes "calm P"
  shows "triple P (no_CreateTemp os p pre) (\<lambda>t w. P w \<and> temp w (fst t) (Join p (snd t)) [] \<and> Join p (snd t) \<noteq> T) (\<lambda>_. P)"
proof (rule tripleI)
  show "P w'" if "P w" "no_CreateTemp os p pre w = (Inl e, w')" for w e w'
    using tripleD_error [OF quiet_ops(9) [OF assms] that] .
  show "P w' \<and> temp w' (fst t) (Join p (snd t)) [] \<and> Join p (snd t) \<noteq> T"
    if "P w" "no_CreateTemp os p pre w = (Inr t, w')" for w t w'
    using tripleD_value [OF quiet_ops(9) [OF assms] that] create [of p pre w "fst t" "snd t" w'] that(2) by simp
qed

lemma writeAtomic_other:
  assumes P: "calm P" and p: "p \<noteq> T"
  shows "keeps P (writeAtomic os p content mode)"
  unfolding writeAtomic_def
proof (rule triple_bindE [OF triple_wrapE [OF create_fresh [OF P]]])
  fix t :: "nat \<times> string"
  obtain fd name where t: "t = (fd, name)" by (rule prod.exhaust)
  show "triple (\<lambda>w. P w \<and> temp w (fst t) (Join (Dir p) (snd t)) [] \<and> Join (Dir p) (snd t) \<noteq> T)
      (case t of (fd, name) \<Rightarrow> finallyE (blockE [
       closing os fd ''restrict temporary state'' (no_Chmod os fd mode),
       closing os fd ''write temporary state'' (no_Write os fd content),
       closing os fd ''sync temporary state'' (no_Sync os fd),
       wrapE ''close temporary state'' (no_Close os fd),
       wrapE ''activate state'' (no_Rename os (Join (Dir p) name) p)])
     (no_Remove os (Join (Dir p) name))) (\<lambda>_. P) (\<lambda>_. P)"
  proof (cases "Join (Dir p) name = T")
    case False
    have "keeps P (finallyE (blockE [
       closing os fd ''restrict temporary state'' (no_Chmod os fd mode),
       closing os fd ''write temporary state'' (no_Write os fd content),
       closing os fd ''sync temporary state'' (no_Sync os fd),
       wrapE ''close temporary state'' (no_Close os fd),
       wrapE ''activate state'' (no_Rename os (Join (Dir p) name) p)])
     (no_Remove os (Join (Dir p) name)))"
      unfolding blockE.simps by (intro keeps_rules closing_keeps quiet_ops P False p)
    then show ?thesis unfolding t prod.case by (rule triple_conseq) simp_all
  qed (simp add: t triple_def)
qed

end

context lease_kernel begin

lemma triple_closing:
  assumes "triple P m (\<lambda>_. Q) (\<lambda>_. E)" "calm E"
  shows "triple P (closing os fd msg m) (\<lambda>_. Q) (\<lambda>_. E)"
  unfolding closing_def
proof (rule triple_tryE [where R = "\<lambda>r. case r of Inl _ \<Rightarrow> E | Inr _ \<Rightarrow> Q"])
  show "triple P m (\<lambda>x. case Inr x of Inl _ \<Rightarrow> E | Inr _ \<Rightarrow> Q) (\<lambda>e. case Inl e of Inl _ \<Rightarrow> E | Inr _ \<Rightarrow> Q)"
    using assms(1) by simp
  show "triple (case r of Inl _ \<Rightarrow> E | Inr _ \<Rightarrow> Q)
      (case r of Inl e \<Rightarrow> seqE (ignoreE (no_Close os fd)) (fail (Wrapf msg e)) | Inr _ \<Rightarrow> ret ()) (\<lambda>_. Q) (\<lambda>_. E)" for r
    by (cases r) (auto intro!: triple_ret triple_seqE [OF keeps_ignoreE [OF quiet_ops(14) [OF assms(2)]]] triple_fail)
qed

text \<open>
  Writing the lease file: if it fails, the old lease or the new one covers the network. Either
  way the network is that of the new lease.
\<close>

lemma writeAtomic_lease:
  assumes c: "nc_Decode nc content = Some l" and l: "validateStoredLease l I = Inr ()"
  shows "triple (\<lambda>w. of_lease l w \<and> covered nc w) (writeAtomic os T content mode) (\<lambda>_. holds nc l)
    (\<lambda>_ w. of_lease l w \<and> covered nc w)"
  unfolding writeAtomic_def
proof -
  let ?G = "\<lambda>w. of_lease l w \<and> covered nc w"
  have G: "calm ?G" by simp
  have op: "triple (\<lambda>w. ?G w \<and> temp w fd p x) m (\<lambda>_ w. ?G w \<and> temp w fd p y) (\<lambda>_. ?G)"
    if "keeps ?G m" "\<And>w u w'. m w = (Inr u, w') \<Longrightarrow> temp w fd p x \<Longrightarrow> temp w' fd p y" for m :: "('w, unit) act" and fd p x y
    by (rule tripleI; use tripleD_value [OF that(1)] tripleD_error [OF that(1)] that(2) in blast)
  have move: "triple (\<lambda>w. ?G w \<and> temp w fd p content) (no_Rename os p T) (\<lambda>_. holds nc l) (\<lambda>_. ?G)" for fd p
  proof (rule tripleI)
    show "holds nc l w'" if "?G w \<and> temp w fd p content" "no_Rename os p T w = (Inr u, w')" for w u w'
      using that rename [OF that(2)] c l by (auto simp: holds_def of_lease_def)
    show "?G w'" if "?G w \<and> temp w fd p content" "no_Rename os p T w = (Inl e, w')" for w e w'
    proof -
      have t: "temp w fd p content" "?G w" using that(1) by simp_all
      from rename [OF that(2) t(1)] have n: "addrs w' = addrs w" "routes w' = routes w" "kept w' = Some content \<or> kept w' = kept w" by auto
      then have "of_lease l w'" using t(2) by (simp add: of_lease_def)
      moreover have "covered nc w'"
        using n(3)
      proof
        assume "kept w' = Some content"
        then have "holds nc l w'" using c l \<open>of_lease l w'\<close> by (simp add: holds_def)
        then show ?thesis by (auto simp: covered_def)
      next
        assume "kept w' = kept w"
        then show ?thesis using calmD [OF calm_states(4), of nc w w'] t(2) n by simp
      qed
      ultimately show ?thesis by simp
    qed
  qed
  show "triple ?G (bindE (wrapE ''create temporary state'' (no_CreateTemp os (Dir T) ''.networkd-'')) (\<lambda>(fd, name).
     finallyE (blockE [
       closing os fd ''restrict temporary state'' (no_Chmod os fd mode),
       closing os fd ''write temporary state'' (no_Write os fd content),
       closing os fd ''sync temporary state'' (no_Sync os fd),
       wrapE ''close temporary state'' (no_Close os fd),
       wrapE ''activate state'' (no_Rename os (Join (Dir T) name) T)])
     (no_Remove os (Join (Dir T) name)))) (\<lambda>_. holds nc l) (\<lambda>_. ?G)"
  proof (rule triple_bindE [OF triple_wrapE [OF create_fresh [OF G]]])
    fix t :: "nat \<times> string"
    obtain fd name where t: "t = (fd, name)" by (rule prod.exhaust)
    let ?p = "Join (Dir T) name"
    show "triple (\<lambda>w. ?G w \<and> temp w (fst t) (Join (Dir T) (snd t)) [] \<and> Join (Dir T) (snd t) \<noteq> T)
      (case t of (fd, name) \<Rightarrow> finallyE (blockE [
       closing os fd ''restrict temporary state'' (no_Chmod os fd mode),
       closing os fd ''write temporary state'' (no_Write os fd content),
       closing os fd ''sync temporary state'' (no_Sync os fd),
       wrapE ''close temporary state'' (no_Close os fd),
       wrapE ''activate state'' (no_Rename os (Join (Dir T) name) T)])
     (no_Remove os (Join (Dir T) name))) (\<lambda>_. holds nc l) (\<lambda>_. ?G)"
    proof (cases "?p = T")
      case False
      have "triple (\<lambda>w. ?G w \<and> temp w fd ?p []) (finallyE (blockE [
       closing os fd ''restrict temporary state'' (no_Chmod os fd mode),
       closing os fd ''write temporary state'' (no_Write os fd content),
       closing os fd ''sync temporary state'' (no_Sync os fd),
       wrapE ''close temporary state'' (no_Close os fd),
       wrapE ''activate state'' (no_Rename os ?p T)])
     (no_Remove os ?p)) (\<lambda>_. holds nc l) (\<lambda>_. ?G)"
        unfolding blockE.simps
      proof (rule triple_finallyE [where Q' = "\<lambda>_. holds nc l" and E' = "\<lambda>_. ?G"])
        let ?at = "\<lambda>x w. ?G w \<and> temp w fd ?p x"
        have 1: "triple (?at []) (closing os fd ''restrict temporary state'' (no_Chmod os fd mode)) (\<lambda>_. ?at []) (\<lambda>_. ?G)"
          by (rule triple_closing [OF op [OF quiet_ops(11) [OF G]] G]) (rule temps)
        have 2: "triple (?at []) (closing os fd ''write temporary state'' (no_Write os fd content)) (\<lambda>_. ?at content) (\<lambda>_. ?G)"
          by (rule triple_closing [OF op [OF quiet_ops(12) [OF G]] G]) (use temps(2) [where c = "[]"] in simp)
        have 3: "triple (?at content) (closing os fd ''sync temporary state'' (no_Sync os fd)) (\<lambda>_. ?at content) (\<lambda>_. ?G)"
          by (rule triple_closing [OF op [OF quiet_ops(13) [OF G]] G]) (rule temps)
        have 4: "triple (?at content) (wrapE ''close temporary state'' (no_Close os fd)) (\<lambda>_. ?at content) (\<lambda>_. ?G)"
          by (rule triple_wrapE [OF op [OF quiet_ops(14) [OF G]]]) (rule temps)
        show "triple (?at []) (seqE (closing os fd ''restrict temporary state'' (no_Chmod os fd mode))
            (seqE (closing os fd ''write temporary state'' (no_Write os fd content))
            (seqE (closing os fd ''sync temporary state'' (no_Sync os fd))
            (seqE (wrapE ''close temporary state'' (no_Close os fd))
            (seqE (wrapE ''activate state'' (no_Rename os ?p T)) (ret ())))))) (\<lambda>_. holds nc l) (\<lambda>_. ?G)"
          by (rule triple_seqE [OF 1 triple_seqE [OF 2 triple_seqE [OF 3 triple_seqE [OF 4 triple_seqE [OF triple_wrapE [OF move]]]]]])
             (rule triple_ret)
        show "keeps (holds nc l) (no_Remove os ?p)" for x by (rule quiet_ops(16) [OF False]) simp
        show "keeps ?G (no_Remove os ?p)" for e by (rule quiet_ops(16) [OF False G])
      qed
      then show ?thesis unfolding t prod.case by (rule triple_conseq) simp_all
    qed (simp add: t triple_def)
  qed
qed

end

context lease_kernel begin

text \<open>Adding what the lease names keeps the network that of the lease.\<close>

lemma add_keeps:
  assumes "\<And>w res w'. no_Run os (busyboxPath # command) w = (res, w') \<Longrightarrow>
      addrs w' \<subseteq> insert (Address l, Prefix l) (addrs w) \<and> routes w' \<subseteq> insert (Router l) (routes w) \<and> kept w' = kept w"
    and "keeps (holds nc l) (no_Run os (busyboxPath # query))"
  shows "keeps (holds nc l) (run_or_verify os command query present e1 e2)"
proof -
  have "keeps (holds nc l) (no_Run os (busyboxPath # command))"
  proof (rule keepsI)
    fix w assume h: "holds nc l w"
    obtain res w' where r: "no_Run os (busyboxPath # command) w = (res, w')" by (rule prod.exhaust)
    from assms(1) [OF r] h have "of_lease l w'" "kept w' = kept w" by (auto simp: of_lease_def holds_def)
    with h r show "holds nc l (snd (no_Run os (busyboxPath # command) w))" by (simp add: holds_def)
  qed
  then show ?thesis unfolding run_or_verify_def by (intro keeps_rules assms(2))
qed

lemma ensure_keeps:
  assumes l: "validateStoredLease l I = Inr ()"
  shows "keeps (holds nc l) (ensureLeaseAddress os l)" "keeps (holds nc l) (ensureLeaseRoute os l)"
proof -
  note show_ops = run_calm(3,4) [OF calm_states(2)]
  show "keeps (holds nc l) (ensureLeaseAddress os l)"
    unfolding ensureLeaseAddress_def stored_lease(1) [OF l]
    by (rule add_keeps [OF _ show_ops(1)]) (use address_added in blast)
  show "keeps (holds nc l) (ensureLeaseRoute os l)"
    unfolding ensureLeaseRoute_def stored_lease(1) [OF l]
    by (rule add_keeps [OF _ show_ops(2)]) (use route_added in blast)
qed

text \<open>The resolver's link is another file.\<close>

lemma keeps_guarded: "(c \<Longrightarrow> keeps P m) \<Longrightarrow> triple (\<lambda>w. P w \<and> c) m (\<lambda>_. P) (\<lambda>_. P)"
  by (cases c) (simp_all add: triple_def)

lemma resolver_parent:
  assumes P: "calm P"
  shows "triple P (validateResolverLinkParent os linkPath uid ram) (\<lambda>link w. P w \<and> clean_path linkPath = Some link) (\<lambda>_. P)"
proof (cases "clean_path linkPath")
  case None
  then show ?thesis unfolding validateResolverLinkParent_def by (auto intro: triple_fail)
next
  case (Some link)
  have ram: "keeps P (if ram then bindE (wrapE ''inspect resolver link filesystem'' (no_Statfs os (Dir link))) (\<lambda>kind.
               checkE (in_memory kind) (Errorf ''resolver link parent must reside on tmpfs or ramfs'')) else ret ())"
    by (intro keeps_rules quiet_ops P)
  show ?thesis
    unfolding validateResolverLinkParent_def Some option.case
    by (rule triple_bindE [where R = "\<lambda>_. P"], rule keeps_wrapE [OF quiet_ops(1) [OF P]],
        rule triple_seqE [OF keeps_checkE triple_seqE [OF ram triple_ret]]) simp
qed

lemma place_link_keeps: "calm P \<Longrightarrow> link \<noteq> T \<Longrightarrow> q \<noteq> T \<Longrightarrow> keeps P (place_link os link target fd q)"
  unfolding place_link_def by (intro keeps_rules quiet_ops)

lemma resolver_keeps:
  assumes P: "calm P" and link: "clean_path linkPath \<noteq> Some T"
  shows "keeps P (ensureResolverLink os linkPath target uid ram)" "keeps P (removeManagedResolverLink os linkPath target uid ram)"
proof -
  have make: "keeps P (bindE (wrapE ''reserve resolver link'' (no_CreateTemp os (Dir p) ''.networkd-resolver-link-'')) (\<lambda>(fd, name).
       place_link os p target fd (Join (Dir p) name)))" if "p \<noteq> T" for p
  proof (rule triple_bindE [OF triple_wrapE [OF create_fresh [OF P]]])
    show "triple (\<lambda>w. P w \<and> temp w (fst t) (Join (Dir p) (snd t)) [] \<and> Join (Dir p) (snd t) \<noteq> T)
        (case t of (fd, name) \<Rightarrow> place_link os p target fd (Join (Dir p) name)) (\<lambda>_. P) (\<lambda>_. P)" for t
      by (cases "Join (Dir p) (snd t) = T")
         (auto simp: triple_def split_beta keepsD [OF place_link_keeps [OF P that]])
  qed
  show "keeps P (ensureResolverLink os linkPath target uid ram)"
    unfolding ensureResolverLink_def
  proof (rule triple_seqE [OF keeps_checkE], rule triple_bindE [OF resolver_parent [OF P]], rule keeps_guarded)
    fix p assume "clean_path linkPath = Some p"
    with link have "p \<noteq> T" by simp
    then show "keeps P (bindE (resolver_link_there os p target uid) (\<lambda>there. if there then ret ()
        else bindE (wrapE ''reserve resolver link'' (no_CreateTemp os (Dir p) ''.networkd-resolver-link-'')) (\<lambda>(fd, name).
          place_link os p target fd (Join (Dir p) name))))"
      unfolding resolver_link_there_def by (intro keeps_rules quiet_ops P make)
  qed
  show "keeps P (removeManagedResolverLink os linkPath target uid ram)"
    unfolding removeManagedResolverLink_def
  proof (rule triple_bindE [OF resolver_parent [OF P]], rule keeps_guarded)
    fix p assume "clean_path linkPath = Some p"
    with link have "p \<noteq> T" by simp
    then show "keeps P (remove_link os p target uid)"
      unfolding remove_link_def by (intro keeps_rules quiet_ops P)
  qed
qed

end

subsection \<open>Events\<close>

text \<open>The codec reads back the lease that it wrote, with the newline after it.\<close>

definition codec_ok :: "net_codec \<Rightarrow> bool" where
  "codec_ok nc \<longleftrightarrow> (\<forall>l c. nc_Marshal nc l = Some c \<longrightarrow> nc_Decode nc (c @ [newline]) = Some l)"

context lease_kernel begin

lemma removeFile_keeps: "calm P \<Longrightarrow> p \<noteq> T \<Longrightarrow> keeps P (removeFile os p)"
  unfolding removeFile_def by (intro keeps_rules quiet_ops)

lemma removeFile_bare: "triple bare (removeFile os T) (\<lambda>_. bare) (\<lambda>_. bare)"
  unfolding removeFile_def
proof (rule triple_tryE [where R = "\<lambda>_. bare"])
  show "keeps bare (no_Remove os T)"
  proof (rule keepsI)
    fix w assume "bare w"
    then show "bare (snd (no_Remove os T w))"
      using remove [of w "fst (no_Remove os T w)" "snd (no_Remove os T w)"] by (simp add: bare_def)
  qed
  show "keeps bare (case r of Inl e \<Rightarrow> if errors_is e ErrNotExist then ret () else fail e | Inr _ \<Rightarrow> ret ())" for r
    by (intro keeps_rules)
qed

lemma covered_bare: "bare w \<Longrightarrow> covered nc w" and covered_holds: "holds nc l w \<Longrightarrow> covered nc w"
  by (auto simp: covered_def)

lemma holds_network: "holds nc l w \<Longrightarrow> of_lease l w"
  by (simp add: holds_def)

lemma configureLease_step:
  assumes nc: "codec_ok nc" and l: "validateStoredLease l I = Inr ()" and np: "np_lease np = T" "np_resolver np \<noteq> T"
    and link: "clean_path link \<noteq> Some T"
  shows "triple (\<lambda>w. of_lease l w \<and> covered nc w) (configureLease os nc l np link) (\<lambda>_. covered nc)
    (\<lambda>_ w. of_lease l w \<and> covered nc w)"
proof (cases "nc_Marshal nc l")
  case None
  then show ?thesis unfolding configureLease_def by (auto intro: triple_fail)
next
  case (Some c)
  have d: "nc_Decode nc (c @ [newline]) = Some l" using nc Some by (simp add: codec_ok_def)
  have next': "triple (holds nc l) m (\<lambda>_. holds nc l) (\<lambda>_ w. of_lease l w \<and> covered nc w)"
    if "keeps (holds nc l) m" for m :: "('w, unit) act"
    by (rule triple_conseq [OF that]) (auto intro: covered_holds holds_network)
  show ?thesis
    unfolding configureLease_def Some option.case blockE.simps np(1)
    by (rule triple_seqE [OF writeAtomic_lease [OF d l]],
        rule triple_seqE [OF next' [OF ensure_keeps(1) [OF l]]],
        rule triple_seqE [OF next' [OF ensure_keeps(2) [OF l]]],
        rule triple_seqE [OF next' [OF writeAtomic_other [OF calm_states(2) np(2)]]],
        rule triple_seqE [OF next' [OF resolver_keeps(1) [OF calm_states(2) link]]],
        rule triple_ret, rule covered_holds)
qed

text \<open>Removing the network of a lease and then its file, which both clearing and a failed configuration do.\<close>

lemma removed_then_file:
  assumes l: "validateStoredLease l I = Inr ()"
    and rest: "\<And>r q. triple (\<lambda>w. covered nc w \<and> (r = Inr () \<longrightarrow> bare w)) (f r q) Q E"
  shows "triple (\<lambda>w. of_lease l w \<and> covered nc w)
    (tryE (removeLeaseNetwork os l) (\<lambda>r. tryE (if r = Inr () then removeFile os T else ret ()) (f r))) Q E"
proof (rule triple_tryE [where R = "\<lambda>r w. covered nc w \<and> (r = Inr () \<longrightarrow> bare w)"])
    show "triple (\<lambda>w. of_lease l w \<and> covered nc w) (removeLeaseNetwork os l)
        (\<lambda>x w. covered nc w \<and> (Inr x = Inr () \<longrightarrow> bare w)) (\<lambda>e w. covered nc w \<and> (Inl e = Inr () \<longrightarrow> bare w))"
      by (rule triple_conseq [OF removeLeaseNetwork_bare [OF calm_states(4) l]]) auto
    show "triple (\<lambda>w. covered nc w \<and> (r = Inr () \<longrightarrow> bare w)) (tryE (if r = Inr () then removeFile os T else ret ()) (f r)) Q E" for r
    proof (rule triple_tryE [where R = "\<lambda>_ w. covered nc w \<and> (r = Inr () \<longrightarrow> bare w)"])
      show "triple (\<lambda>w. covered nc w \<and> (r = Inr () \<longrightarrow> bare w)) (if r = Inr () then removeFile os T else ret ())
          (\<lambda>_ w. covered nc w \<and> (r = Inr () \<longrightarrow> bare w)) (\<lambda>_ w. covered nc w \<and> (r = Inr () \<longrightarrow> bare w))"
        by (cases "r = Inr ()") (auto intro!: triple_ret triple_conseq [OF removeFile_bare] covered_bare)
    qed (rule rest)
qed

end

context lease_kernel begin

lemma transactional_covers:
  assumes nc: "codec_ok nc" and l: "validateStoredLease l I = Inr ()" and np: "np_lease np = T" "np_resolver np \<noteq> T"
    and link: "clean_path link \<noteq> Some T"
  shows "triple (\<lambda>w. of_lease l w \<and> covered nc w) (configureLeaseTransactional os nc l np link) (\<lambda>_. covered nc) (\<lambda>_. covered nc)"
  unfolding configureLeaseTransactional_def np(1)
proof (rule triple_tryE [where R = "\<lambda>r w. covered nc w \<and> ((\<exists>e. r = Inl e) \<longrightarrow> of_lease l w)"])
  show "triple (\<lambda>w. of_lease l w \<and> covered nc w) (configureLease os nc l np link)
      (\<lambda>x w. covered nc w \<and> ((\<exists>e. Inr x = Inl e) \<longrightarrow> of_lease l w)) (\<lambda>e w. covered nc w \<and> ((\<exists>e'. Inl e = Inl e') \<longrightarrow> of_lease l w))"
    by (rule triple_conseq [OF configureLease_step [OF nc l np link]]) auto
  have after: "triple (\<lambda>w. covered nc w \<and> (r = Inr () \<longrightarrow> bare w)) (combineE [liftE (Inl e), liftE r,
        removeManagedResolverLink os link (path_text (np_resolver np)) 0 True,
        removeFile os (np_resolver np), liftE q]) (\<lambda>_. covered nc) (\<lambda>_. covered nc)" for e r q
    by (rule triple_conseq [OF combineE_keeps [where P = "covered nc"]])
       (auto intro: keeps_liftE resolver_keeps(2) [OF calm_states(4) link] removeFile_keeps [OF calm_states(4) np(2)])
  show "triple (\<lambda>w. covered nc w \<and> ((\<exists>e. r = Inl e) \<longrightarrow> of_lease l w)) (case r of
       Inr _ \<Rightarrow> ret ()
     | Inl configureErr \<Rightarrow>
         tryE (removeLeaseNetwork os l) (\<lambda>networkErr.
         tryE (if networkErr = Inr () then removeFile os T else ret ()) (\<lambda>leaseErr.
           combineE [liftE (Inl configureErr), liftE networkErr,
             removeManagedResolverLink os link (path_text (np_resolver np)) 0 True,
             removeFile os (np_resolver np), liftE leaseErr]))) (\<lambda>_. covered nc) (\<lambda>_. covered nc)" for r
  proof (cases r)
    case (Inl e)
    show ?thesis
      unfolding Inl sum.case
      by (rule triple_conseq [OF removed_then_file [OF l after]]) simp_all
  qed (auto intro: triple_ret)
qed

text \<open>A stored lease that is loaded is what the file holds; one that is missing leaves no network.\<close>

lemma loadStoredLease_holds:
  "triple (covered nc) (loadStoredLease os nc T I uid)
    (\<lambda>l w. covered nc w \<and> validateStoredLease l I = Inr () \<and> of_lease l w)
    (\<lambda>e w. covered nc w \<and> (errors_is e ErrNotExist \<longrightarrow> bare w))"
proof (rule tripleI)
  have k: "keeps P (loadStoredLease os nc T I uid)" if "calm P" for P
    unfolding loadStoredLease_def by (intro keeps_rules quiet_ops that)
  have keep: "addrs w' = addrs w \<and> routes w' = routes w \<and> kept w' = kept w"
    if "no_Lstat os T w = (r, w')" for w r w'
    using sameD [OF reads(1) that] by simp
  show "covered nc w' \<and> validateStoredLease l I = Inr () \<and> of_lease l w'"
    if c: "covered nc w" and run: "loadStoredLease os nc T I uid w = (Inr l, w')" for w l w'
  proof -
    from run obtain info w1 w2 content w3 where w1: "no_Lstat os T w = (Inr info, w1)" and w2: "no_ReadFile os T w1 = (Inr content, w')"
      and d: "nc_Decode nc content = Some l" and v: "validateStoredLease l I = Inr ()"
      unfolding loadStoredLease_def by (auto elim!: act_elims split: option.splits)
    have "kept w = Some content" using read_content [OF w2] keep [OF w1] by simp
    moreover have cov': "covered nc w'" using tripleD_value [OF k [OF calm_states(4)] c run] .
    moreover have "of_lease l w" if "\<not> bare w" using c that d calculation(1) by (auto simp: covered_def holds_def)
    moreover have "of_lease l w" if "bare w" using that by (simp add: bare_def of_lease_def)
    ultimately show ?thesis using v tripleD_value [OF k [OF calm_states(1)] _ run] by blast
  qed
  show "covered nc w' \<and> (errors_is e ErrNotExist \<longrightarrow> bare w')"
    if c: "covered nc w" and run: "loadStoredLease os nc T I uid w = (Inl e, w')" for w e w'
  proof (intro conjI impI)
    show "covered nc w'" using tripleD_error [OF k [OF calm_states(4)] c run] .
    assume e: "errors_is e ErrNotExist"
    have "kept w = None"
    proof -
      consider "no_Lstat os T w = (Inl e, w')" | info w1 where "no_Lstat os T w = (Inr info, w1)" "no_ReadFile os T w1 = (Inl e, w')"
        using run e unfolding loadStoredLease_def
        by (auto simp: bindE_def seqE_def checkE_def ret_def fail_def liftE_def validateStoredLease_def
            split: sum.splits prod.splits if_splits option.splits)
      then show ?thesis
      proof cases
        case 1
        then show ?thesis by (rule lstat_missing [OF _ e])
      next
        case (2 info w1)
        from read_missing [OF 2(2) e] keep [OF 2(1)] show ?thesis by simp
      qed
    qed
    with c have "bare w" by (auto simp: covered_def holds_def)
    then show "bare w'" using tripleD_error [OF k [OF calm_states(3)] _ run] by simp
  qed
qed

end

context lease_kernel begin

text \<open>Clearing: what the file names is taken back; success leaves nothing.\<close>

lemma clearLeaseState_bare:
  assumes np: "np_lease np = T" "np_resolver np \<noteq> T" and link: "clean_path link \<noteq> Some T"
  shows "triple (covered nc) (clearLeaseState os nc np I link) (\<lambda>_. bare) (\<lambda>_. covered nc)"
  unfolding clearLeaseState_def np(1)
proof (rule triple_tryE [where R = "\<lambda>r w. covered nc w \<and>
    (case r of Inr l \<Rightarrow> validateStoredLease l I = Inr () \<and> of_lease l w | Inl e \<Rightarrow> errors_is e ErrNotExist \<longrightarrow> bare w)"])
  show "triple (covered nc) (loadStoredLease os nc T I 0)
      (\<lambda>x w. covered nc w \<and> (case Inr x of Inr l \<Rightarrow> validateStoredLease l I = Inr () \<and> of_lease l w | Inl e \<Rightarrow> errors_is e ErrNotExist \<longrightarrow> bare w))
      (\<lambda>x w. covered nc w \<and> (case Inl x of Inr l \<Rightarrow> validateStoredLease l I = Inr () \<and> of_lease l w | Inl e \<Rightarrow> errors_is e ErrNotExist \<longrightarrow> bare w))"
    by (rule triple_conseq [OF loadStoredLease_holds]) simp_all
  let ?rest = "\<lambda>r q. combineE [liftE r, removeManagedResolverLink os link (path_text (np_resolver np)) 0 True,
        removeFile os (np_resolver np), liftE q]"
  have rest: "keeps P (?rest r q)" if "calm P" for r q P
    by (rule combineE_keeps) (auto intro: keeps_liftE resolver_keeps(2) [OF that link] removeFile_keeps [OF that np(2)])
  have failed: "?rest r q w \<noteq> (Inr (), w')" if "r \<noteq> Inr ()" for r q w w'
    using that by (auto simp: combineE_def tryE_def bindE_def ret_def liftE_def combineErrors_ok split: prod.splits)
  have after: "triple (\<lambda>w. covered nc w \<and> (r = Inr () \<longrightarrow> bare w)) (?rest r q) (\<lambda>_. bare) (\<lambda>_. covered nc)" for r q
  proof (cases "r = Inr ()")
    case True
    then show ?thesis
      by (intro triple_conseq [OF rest [OF calm_states(3)]]) (auto intro: covered_bare)
  next
    case False
    show ?thesis
      by (rule tripleI) (use tripleD_error [OF rest [OF calm_states(4)]] failed [OF False] in \<open>auto\<close>)
  qed
  show "triple (\<lambda>w. covered nc w \<and>
      (case current of Inr l \<Rightarrow> validateStoredLease l I = Inr () \<and> of_lease l w | Inl e \<Rightarrow> errors_is e ErrNotExist \<longrightarrow> bare w))
     (tryE (case current of
         Inr l \<Rightarrow> removeLeaseNetwork os l
       | Inl e \<Rightarrow> if errors_is e ErrNotExist then ret () else fail e) (\<lambda>cleanupErr.
     tryE (case current of
         Inr l \<Rightarrow> if cleanupErr = Inr () then removeFile os T else ret ()
       | Inl _ \<Rightarrow> ret ()) (\<lambda>leaseFileErr. ?rest cleanupErr leaseFileErr))) (\<lambda>_. bare) (\<lambda>_. covered nc)" for current
  proof (cases current)
    case (Inr l)
    show ?thesis
    proof (cases "validateStoredLease l I = Inr ()")
      case True
      show ?thesis
        unfolding Inr sum.case by (rule triple_conseq [OF removed_then_file [OF True after]]) simp_all
    qed (simp add: Inr triple_def)
  next
    case (Inl e)
    have "triple (\<lambda>w. covered nc w \<and> (errors_is e ErrNotExist \<longrightarrow> bare w))
       (tryE (if errors_is e ErrNotExist then ret () else fail e) (\<lambda>cleanupErr. tryE (ret ()) (\<lambda>leaseFileErr. ?rest cleanupErr leaseFileErr)))
       (\<lambda>_. bare) (\<lambda>_. covered nc)"
      by (rule triple_tryE [where R = "\<lambda>r w. covered nc w \<and> (r = Inr () \<longrightarrow> bare w)"])
         (auto intro!: triple_ret triple_fail triple_tryE [where R = "\<lambda>_ w. covered nc w \<and> (r = Inr () \<longrightarrow> bare w)" for r] after)
    then show ?thesis unfolding Inl sum.case .
  qed
qed

end

context lease_kernel begin

lemma covered_clear: "np_lease np = T \<Longrightarrow> np_resolver np \<noteq> T \<Longrightarrow> clean_path link \<noteq> Some T \<Longrightarrow>
    keeps (covered nc) (clearLeaseState os nc np I link)"
  by (rule triple_conseq [OF clearLeaseState_bare]) (auto intro: covered_bare)

lemma replace_lease_covers:
  assumes nc: "codec_ok nc" and l: "validateStoredLease l I = Inr ()" and np: "np_lease np = T" "np_resolver np \<noteq> T"
    and link: "clean_path link \<noteq> Some T"
  shows "keeps (covered nc) (replace_lease os nc np I link l)"
  unfolding replace_lease_def np(1)
proof (rule triple_tryE [where R = "\<lambda>r w. covered nc w \<and>
    (case r of Inr p \<Rightarrow> validateStoredLease p I = Inr () \<and> of_lease p w | Inl e \<Rightarrow> errors_is e ErrNotExist \<longrightarrow> bare w)"])
  show "triple (covered nc) (loadStoredLease os nc T I 0)
      (\<lambda>x w. covered nc w \<and> (case Inr x of Inr p \<Rightarrow> validateStoredLease p I = Inr () \<and> of_lease p w | Inl e \<Rightarrow> errors_is e ErrNotExist \<longrightarrow> bare w))
      (\<lambda>x w. covered nc w \<and> (case Inl x of Inr p \<Rightarrow> validateStoredLease p I = Inr () \<and> of_lease p w | Inl e \<Rightarrow> errors_is e ErrNotExist \<longrightarrow> bare w))"
    by (rule triple_conseq [OF loadStoredLease_holds]) simp_all
  note configure = transactional_covers [OF nc l np link]
  show "triple (\<lambda>w. covered nc w \<and>
      (case previous of Inr p \<Rightarrow> validateStoredLease p I = Inr () \<and> of_lease p w | Inl e \<Rightarrow> errors_is e ErrNotExist \<longrightarrow> bare w))
    (case previous of
       Inr p \<Rightarrow>
         seqE (if Address p \<noteq> Address l \<or> Prefix p \<noteq> Prefix l \<or> Router p \<noteq> Router l then removeLeaseNetwork os p else ret ())
           (configureLeaseTransactional os nc l np link)
     | Inl e \<Rightarrow>
         if errors_is e ErrNotExist then configureLeaseTransactional os nc l np link
         else combineE [liftE (Inl e), clearLeaseState os nc np I link]) (\<lambda>_. covered nc) (\<lambda>_. covered nc)" for previous
  proof (cases previous)
    case (Inl e)
    have "triple (\<lambda>w. covered nc w \<and> bare w) (configureLeaseTransactional os nc l np link) (\<lambda>_. covered nc) (\<lambda>_. covered nc)"
      by (rule triple_conseq [OF configure]) (auto simp: bare_def of_lease_def)
    moreover have "keeps (covered nc) (combineE [liftE (Inl e), clearLeaseState os nc np I link])"
      by (rule combineE_keeps) (auto intro: keeps_liftE covered_clear [OF np link])
    ultimately show ?thesis
      unfolding Inl sum.case by (auto elim: triple_conseq)
  next
    case (Inr p)
    show ?thesis
    proof (cases "validateStoredLease p I = Inr ()")
      case True
      have "triple (\<lambda>w. covered nc w \<and> of_lease p w)
          (if Address p \<noteq> Address l \<or> Prefix p \<noteq> Prefix l \<or> Router p \<noteq> Router l then removeLeaseNetwork os p else ret ())
          (\<lambda>_ w. of_lease l w \<and> covered nc w) (\<lambda>_. covered nc)"
        by (auto intro!: triple_conseq [OF removeLeaseNetwork_bare [OF calm_states(4) True]] triple_ret simp: bare_def of_lease_def)
      from triple_seqE [OF this configure] show ?thesis
        unfolding Inr sum.case by (rule triple_conseq) simp_all
    qed (simp add: Inr triple_def)
  qed
qed

lemma event_covers:
  assumes nc: "codec_ok nc" and np: "np_lease np = T" "np_resolver np \<noteq> T" and link: "clean_path link \<noteq> Some T"
  shows "keeps (covered nc) (event_action os nc np environment action I link)"
proof -
  have "keeps (covered nc) (bindE (liftE (parseLeaseEnvironment environment I)) (replace_lease os nc np I link))"
  proof (rule triple_bindE [where R = "\<lambda>l w. covered nc w \<and> parseLeaseEnvironment environment I = Inr l"])
    show "triple (covered nc) (liftE (parseLeaseEnvironment environment I)) (\<lambda>l w. covered nc w \<and> parseLeaseEnvironment environment I = Inr l) (\<lambda>_. covered nc)"
      by (rule triple_liftE) simp_all
    show "triple (\<lambda>w. covered nc w \<and> parseLeaseEnvironment environment I = Inr l) (replace_lease os nc np I link l) (\<lambda>_. covered nc) (\<lambda>_. covered nc)" for l
      by (rule keeps_guarded, rule replace_lease_covers [OF nc parseLeaseEnvironment_storable np link])
  qed
  then show ?thesis
    unfolding event_action_def by (intro keeps_if covered_clear np link keeps_fail)
qed

lemma lock_keeps: "calm P \<Longrightarrow> keeps P m \<Longrightarrow> keeps P (lock_and os p u m)"
  unfolding lock_and_def by (intro keeps_rules quiet_ops)

lemma marker_keeps:
  assumes P: "calm P" and p: "p \<noteq> T"
  shows "keeps P (eventFailureMarkerPresent os p uid)" "keeps P (finishEvent os p uid r)" "keeps P (clearEventFailureMarker os p uid)"
proof -
  show k: "keeps P (eventFailureMarkerPresent os p uid)"
    unfolding eventFailureMarkerPresent_def by (intro keeps_rules quiet_ops P)
  show c: "keeps P (clearEventFailureMarker os p uid)"
    unfolding clearEventFailureMarker_def by (intro keeps_rules k removeFile_keeps P p)
  have "keeps P (setEventFailureMarker os p uid)"
    unfolding setEventFailureMarker_def by (intro keeps_rules k writeAtomic_other P p)
  then have "keeps P (combineE [liftE (Inl e), setEventFailureMarker os p uid])" for e
    by (intro combineE_keeps) (auto intro: keeps_liftE)
  then show "keeps P (finishEvent os p uid r)"
    unfolding finishEvent_def by (intro keeps_case_sum c)
qed

lemma runEvent_covers:
  assumes nc: "codec_ok nc" and np: "np_lease np = T" "np_resolver np \<noteq> T" "np_eventFailure np \<noteq> T"
    and link: "clean_path link \<noteq> Some T"
  shows "keeps (covered nc) (runEvent os nc euid environment action I link np)"
proof -
  have owner: "keeps (covered nc) (validateEventOwner os nc p token I)" for p token
    unfolding validateEventOwner_def loadOwner_def by (intro keeps_rules quiet_ops) simp_all
  have event: "keeps (covered nc) (owned_event os nc np environment action I link)"
    unfolding owned_event_def by (intro keeps_rules owner event_covers nc np(1,2) link)
  have parent: "keeps (covered nc) (validateResolverLinkParent os link 0 True)"
    by (rule triple_conseq [OF resolver_parent]) simp_all
  show ?thesis
    unfolding runEvent_def validateRuntimeDirectory_def validateRootExecutable_def
    by (intro keeps_rules quiet_ops calm_states parent lock_keeps event marker_keeps np)
qed

end

subsection \<open>Runs\<close>

text \<open>
  What happens to the interface: an event of any kind, from the DHCP client or not, or the
  supervisor clearing the lease under the lock.
\<close>

datatype lease_step = Event nat "string list" string | Clear

definition clear_locked :: "'w net_os \<Rightarrow> net_codec \<Rightarrow> paths \<Rightarrow> string \<Rightarrow> string \<Rightarrow> ('w, unit) act" where
  "clear_locked os nc np interfaceName resolverLink =
     withLeaseLock os (np_lock np) (clearLeaseState os nc np interfaceName resolverLink)"

fun lease_run :: "'w net_os \<Rightarrow> net_codec \<Rightarrow> string \<Rightarrow> string \<Rightarrow> lease_step list \<Rightarrow> 'w \<Rightarrow> 'w" where
  "lease_run os nc interfaceName resolverLink [] w = w"
| "lease_run os nc interfaceName resolverLink (Event euid environment action # steps) w =
     lease_run os nc interfaceName resolverLink steps
       (snd (runEvent os nc euid environment action interfaceName resolverLink networkPaths w))"
| "lease_run os nc interfaceName resolverLink (Clear # steps) w =
     lease_run os nc interfaceName resolverLink steps
       (snd (clear_locked os nc networkPaths interfaceName resolverLink w))"

lemma networkPaths_distinct:
  "np_resolver networkPaths \<noteq> np_lease networkPaths" "np_eventFailure networkPaths \<noteq> np_lease networkPaths"
  by (simp_all add: networkPaths_def Join_def)

context lease_kernel begin

lemma withLeaseLock_keeps: "calm P \<Longrightarrow> keeps P m \<Longrightarrow> keeps P (withLeaseLock os p m)"
  unfolding withLeaseLock_def by (intro keeps_rules lock_keeps)

lemma lease_run_covers:
  assumes nc: "codec_ok nc" and T: "np_lease networkPaths = T" and link: "clean_path link \<noteq> Some T"
  shows "covered nc w \<Longrightarrow> covered nc (lease_run os nc I link steps w)"
proof (induction steps arbitrary: w)
  case (Cons s steps)
  note d = networkPaths_distinct [unfolded T]
  show ?case
  proof (cases s)
    case (Event euid environment action)
    from keepsD [OF runEvent_covers [OF nc T d link] Cons.prems] show ?thesis
      unfolding Event lease_run.simps by (rule Cons.IH)
  next
    case Clear
    have "keeps (covered nc) (clear_locked os nc networkPaths I link)"
      unfolding clear_locked_def by (intro withLeaseLock_keeps covered_clear T d(1) link) simp
    from keepsD [OF this Cons.prems] show ?thesis
      unfolding Clear lease_run.simps by (rule Cons.IH)
  qed
qed simp

lemma clear_locked_bare:
  assumes T: "np_lease networkPaths = T" and link: "clean_path link \<noteq> Some T"
    and run: "clear_locked os nc networkPaths I link w = (Inr u, w')" and w: "covered nc w"
  shows "bare w'"
proof -
  note d = networkPaths_distinct [unfolded T]
  have q: "keeps P (wrapE msg (no_Unlock os fd))" "keeps P (no_Close os fd)" if "calm P" for P msg fd
    by (intro keeps_wrapE quiet_ops that)+
  obtain fd w1 r w2 where r: "clearLeaseState os nc networkPaths I link w1 = (r, w2)" and w1: "covered nc w1"
    and rest: "bare w2 \<longrightarrow> bare w'" and ok: "r = Inr ()"
  proof -
    from run obtain fd v where o: "no_OpenFile os (np_lock networkPaths) w = (Inr fd, v)"
      unfolding clear_locked_def withLeaseLock_def lock_and_def
      by (auto simp: tryE_def bindE_def ret_def liftE_def split: prod.splits sum.splits)
    have cv: "covered nc v" using tripleD_value [OF handles(1) [THEN quiet, OF calm_states(4)] w o] .
    let ?guard = "bindE (wrapE ''inspect lease lock'' (no_FStat os fd)) (\<lambda>info.
            seqE (checkE (fi_uid info = 0 \<and> fi_regular info \<and> fi_perm info = 0x180) (Errorf ''lease lock is not root-controlled''))
              (wrapE ''lock lease state'' (no_Flock os fd False)))"
    have kg: "keeps (covered nc) ?guard" by (intro keeps_rules quiet_ops calm_states)
    obtain g w1 where g: "?guard v = (g, w1)" by (rule prod.exhaust)
    have c1: "covered nc w1" using keepsD [OF kg cv] g by simp
    obtain r w2 where r: "clearLeaseState os nc networkPaths I link w1 = (r, w2)" by (rule prod.exhaust)
    obtain q w3 where u: "wrapE ''unlock lease state'' (no_Unlock os fd) w2 = (q, w3)" by (rule prod.exhaust)
    have "(case g of Inl _ \<Rightarrow> False | Inr _ \<Rightarrow> combineErrors [r, q] = Inr () \<and> w' = snd (no_Close os fd w3))"
      using run o g r u
      unfolding clear_locked_def withLeaseLock_def lock_and_def
      by (auto simp: tryE_def bindE_def ret_def liftE_def finallyE_def split: sum.splits prod.splits)
    then have "r = Inr ()" "w' = snd (no_Close os fd w3)"
      by (auto simp: combineErrors_ok split: sum.splits)
    moreover have "bare w2 \<longrightarrow> bare (snd (no_Close os fd w3))"
      using keepsD [OF q(1) [OF calm_states(3)], of w2] keepsD [OF q(2) [OF calm_states(3)], of w3] u by (metis snd_conv)
    ultimately show thesis using that [OF r c1] by simp
  qed
  from tripleD_value [OF clearLeaseState_bare [OF T d(1) link] w1] r ok rest show ?thesis by auto
qed

end

end
