(* ===== verification/Net_Supervised.thy ===== *)
theory Net_Supervised
  imports Net_Supervise Net_Kept
begin

text \<open>
  What the supervisor guarantees over everything that can happen to it: no DHCP client that it
  started is ever left running unwatched, and the network is covered by the lease file all along.
\<close>

subsection \<open>What all the operations keep\<close>

definition kept_by_os :: "'w net_os \<Rightarrow> ('w \<Rightarrow> bool) \<Rightarrow> bool" where
  "kept_by_os os P \<longleftrightarrow>
     (\<forall>a. keeps P (no_Run os a)) \<and> (\<forall>p. keeps P (no_Lstat os p)) \<and> (\<forall>p. keeps P (no_ReadFile os p)) \<and>
     (\<forall>p. keeps P (no_Remove os p)) \<and> (\<forall>p x. keeps P (no_CreateTemp os p x)) \<and> (\<forall>fd m. keeps P (no_Chmod os fd m)) \<and>
     (\<forall>fd x. keeps P (no_Write os fd x)) \<and> (\<forall>fd. keeps P (no_Sync os fd)) \<and> (\<forall>fd. keeps P (no_Close os fd)) \<and>
     (\<forall>p q. keeps P (no_Rename os p q)) \<and> (\<forall>p. keeps P (no_Readlink os p)) \<and> (\<forall>t p. keeps P (no_Symlink os t p)) \<and>
     (\<forall>p. keeps P (no_Statfs os p)) \<and> (\<forall>p. keeps P (no_OpenFile os p)) \<and> (\<forall>fd. keeps P (no_FStat os fd)) \<and>
     (\<forall>fd b. keeps P (no_Flock os fd b)) \<and> (\<forall>fd. keeps P (no_Unlock os fd))"

text \<open>Reading a process, and what touches no process.\<close>

definition kept_by_reads :: "'w proc_os \<Rightarrow> ('w \<Rightarrow> bool) \<Rightarrow> bool" where
  "kept_by_reads px P \<longleftrightarrow>
     (\<forall>i. keeps P (px_Status px i)) \<and> (\<forall>i. keeps P (px_Stat px i)) \<and> (\<forall>i. keeps P (px_Cmdline px i)) \<and>
     (\<forall>i. keeps P (px_Environ px i)) \<and> (\<forall>i. keeps P (px_Executable px i)) \<and> (\<forall>s. keeps P (px_File px s)) \<and>
     (\<forall>n. keeps P (px_Random px n)) \<and> (\<forall>i. keeps P (px_Signal px i)) \<and> (\<forall>i. keeps P (px_Kill px i)) \<and>
     (\<forall>i. keeps P (px_Wait px i)) \<and> (\<forall>i. keeps P (px_Exited px i)) \<and> (\<forall>p. keeps P (px_IsDir px p)) \<and>
     (\<forall>p m. keeps P (px_Mkdir px p m)) \<and> (\<forall>p. keeps P (px_Lstat px p)) \<and> keeps P (px_Now px)"

lemma kept_by_osD:
  assumes "kept_by_os os P"
  shows "keeps P (no_Run os a)" "keeps P (no_Lstat os p)" "keeps P (no_ReadFile os p)" "keeps P (no_Remove os p)"
    "keeps P (no_CreateTemp os p x)" "keeps P (no_Chmod os fd m)" "keeps P (no_Write os fd x)" "keeps P (no_Sync os fd)"
    "keeps P (no_Close os fd)" "keeps P (no_Rename os p q)" "keeps P (no_Readlink os p)" "keeps P (no_Symlink os x p)"
    "keeps P (no_Statfs os p)" "keeps P (no_OpenFile os p)" "keeps P (no_FStat os fd)" "keeps P (no_Flock os fd b)"
    "keeps P (no_Unlock os fd)"
  using assms by (simp_all add: kept_by_os_def)

lemma kept_by_readsD:
  assumes "kept_by_reads px P"
  shows "keeps P (px_Status px i)" "keeps P (px_Stat px i)" "keeps P (px_Cmdline px i)" "keeps P (px_Environ px i)"
    "keeps P (px_Executable px i)" "keeps P (px_File px s)" "keeps P (px_Random px n)" "keeps P (px_Signal px i)"
    "keeps P (px_Kill px i)" "keeps P (px_Wait px i)" "keeps P (px_Exited px i)" "keeps P (px_IsDir px p)"
    "keeps P (px_Mkdir px p m)" "keeps P (px_Lstat px s)" "keeps P (px_Now px)"
  using assms by (simp_all add: kept_by_reads_def)

lemma keeps_combineE:
  "keeps P (combineE [])" "keeps P (collectE (m # ms)) \<Longrightarrow> keeps P (combineE (m # ms))"
  unfolding combineE_def by (auto intro!: keeps_bindE keeps_liftE keeps_ret)

lemma keeps_collectE:
  "keeps P (collectE [])" "keeps P m \<Longrightarrow> keeps P (collectE ms) \<Longrightarrow> keeps P (collectE (m # ms))"
  by (auto intro!: keeps_ret keeps_tryE keeps_bindE)

lemma os_keeps:
  assumes k: "kept_by_os os P"
  shows "keeps P (writeAtomic os p c mode)" "keeps P (removeFile os p)" "keeps P (run_or_verify os a q f e1 e2)"
    "keeps P (validateResolverLinkParent os link uid ram)" "keeps P (ensureResolverLink os link target uid ram)"
    "keeps P (removeManagedResolverLink os link target uid ram)" "keeps P (loadStoredLease os nc p i uid)"
    "keeps P (eventFailureMarkerPresent os p uid)" "keeps P (loadOwner os nc p)"
    "keeps P (validateRuntimeDirectory os p)" "keeps P (validateRootExecutable os p)"
  unfolding writeAtomic_def closing_def blockE.simps removeFile_def run_or_verify_def validateResolverLinkParent_def
    ensureResolverLink_def resolver_link_there_def place_link_def removeManagedResolverLink_def remove_link_def loadStoredLease_def
    eventFailureMarkerPresent_def loadOwner_def validateRuntimeDirectory_def validateRootExecutable_def
  by (intro keeps_rules kept_by_osD [OF k])+

lemma lease_keeps:
  assumes k: "kept_by_os os P"
  shows "keeps P (removeLeaseNetwork os l)" "keeps P (configureLease os nc l np link)"
    "keeps P (clearEventFailureMarker os p uid)" "keeps P (setEventFailureMarker os p uid)"
    "keeps P (validateEventOwner os nc p token i)"
  unfolding removeLeaseNetwork_def removeDefaultRoute_def removeIPv4Address_def configureLease_def blockE.simps
    ensureLeaseAddress_def ensureLeaseRoute_def clearEventFailureMarker_def setEventFailureMarker_def validateEventOwner_def
  by (intro keeps_rules keeps_combineE keeps_collectE os_keeps [OF k])+

lemma lock_keeps_any:
  assumes k: "kept_by_os os P"
  shows "keeps P m \<Longrightarrow> keeps P (lock_and os p u m)" "keeps P m' \<Longrightarrow> keeps P (withLeaseLock os p m')"
  unfolding withLeaseLock_def lock_and_def by (intro keeps_rules kept_by_osD [OF k] | assumption)+

lemma state_keeps:
  assumes k: "kept_by_os os P"
  shows "keeps P (clearLeaseState os nc np i link)" "keeps P (configureLeaseTransactional os nc l np link)"
    "keeps P (finishEvent os p uid r)"
  unfolding clearLeaseState_def configureLeaseTransactional_def finishEvent_def
  by (intro keeps_rules keeps_combineE keeps_collectE os_keeps [OF k] lease_keeps [OF k])+

lemma event_keeps:
  assumes k: "kept_by_os os P"
  shows "keeps P (runEvent os nc euid environment action i link np)"
  unfolding runEvent_def owned_event_def event_action_def replace_lease_def
  by (intro keeps_rules keeps_combineE keeps_collectE lock_keeps_any [OF k] os_keeps [OF k] lease_keeps [OF k] state_keeps [OF k])

subsection \<open>The contract of the processes\<close>

text \<open>
  \<open>clients\<close> are the DHCP clients that were started and have not ended. Starting one adds it and a
  process that was waited for has ended; signalling fails only for a process that has ended; the
  file operations and commands start none, and no process operation touches the interface.
\<close>

locale supervisor_kernel = lease_kernel os I T addrs routes kept temp
  for os :: "'w net_os" and I :: string and T :: path
    and addrs :: "'w \<Rightarrow> (string \<times> int) set" and routes :: "'w \<Rightarrow> string set"
    and kept :: "'w \<Rightarrow> string option" and temp :: "'w \<Rightarrow> nat \<Rightarrow> path \<Rightarrow> string \<Rightarrow> bool" +
  fixes px :: "'w proc_os" and clients :: "'w \<Rightarrow> int set"
  assumes os_clients: "kept_by_os os (\<lambda>w. clients w \<subseteq> S)"
    and px_clients: "kept_by_reads px (\<lambda>w. clients w \<subseteq> S)"
    and px_network: "kept_by_reads px (\<lambda>w. addrs w = A \<and> routes w = V \<and> kept w = K)"
    and start_network: "keeps (\<lambda>w. addrs w = A \<and> routes w = V \<and> kept w = K) (px_Start px args env)"
    and supplicant: "keeps (\<lambda>w. addrs w = A \<and> routes w = V \<and> kept w = K) (no_Run os (wpaCLIPath # words))"
    and started: "px_Start px args env w = (r, w') \<Longrightarrow> clients w' \<subseteq> (case r of Inl _ \<Rightarrow> clients w | Inr pid \<Rightarrow> insert pid (clients w))"
    and waited: "px_Wait px pid w = (q, w') \<Longrightarrow> clients w' \<subseteq> clients w - {pid}"
    and exited: "px_Exited px pid w = (x, w') \<Longrightarrow> \<exists>b. x = Inr b \<and> (b \<longrightarrow> pid \<notin> clients w')"
    and gone: "px_Signal px pid w = (Inl e, w') \<or> px_Kill px pid w = (Inl e, w') \<Longrightarrow> errors_is e ErrProcessDone \<or> errors_is e ESRCH"
    and clock: "px_Now px w = (now, w') \<Longrightarrow> \<exists>t. now = Inr t"
begin

abbreviation few :: "int set \<Rightarrow> 'w \<Rightarrow> bool" where
  "few S w \<equiv> clients w \<subseteq> S"

lemma network_keeps:
  assumes P: "calm P" and m: "\<And>A V K. keeps (\<lambda>w. addrs w = A \<and> routes w = V \<and> kept w = K) m"
  shows "keeps P m"
proof (rule keepsI)
  fix w assume "P w"
  moreover from keepsD [OF m [of "addrs w" "routes w" "kept w"], of w] have "addrs (snd (m w)) = addrs w" "routes (snd (m w)) = routes w"
    "kept (snd (m w)) = kept w" by simp_all
  ultimately show "P (snd (m w))" using calmD [OF P] by simp
qed

lemma px_calm: "calm P \<Longrightarrow> kept_by_reads px P"
  unfolding kept_by_reads_def by (intro conjI allI; rule network_keeps, assumption, rule kept_by_readsD [OF px_network])

lemma unless_gone_ok:
  assumes k: "keeps P m" and e: "\<And>w e w'. m w = (Inl e, w') \<Longrightarrow> errors_is e ErrProcessDone \<or> errors_is e ESRCH"
  shows "triple P (unless_gone msg m) (\<lambda>_. P) (\<lambda>_ _. False)"
proof (rule tripleI)
  have run: "r = Inr () \<and> P w'" if "P w" "unless_gone msg m w = (r, w')" for w r w'
  proof -
    obtain q v where q: "m w = (q, v)" by (rule prod.exhaust)
    have "P v" using keepsD [OF k that(1)] q by simp
    with q that(2) e [of w _ v] show ?thesis
      by (cases q) (auto simp: unless_gone_def tryE_def ret_def)
  qed
  show False if "P w" "unless_gone msg m w = (Inl e, w')" for w e w' using run [OF that] by simp
  show "P w'" if "P w" "unless_gone msg m w = (Inr u, w')" for w u w' using run [OF that] by simp
qed

text \<open>A client that is waited for, killed or stopped is gone.\<close>

lemma wait_gone: "triple (few (insert pid S)) (ignoreE (px_Wait px pid)) (\<lambda>_. few S) (\<lambda>_ _. False)"
  by (rule triple_ignoreE, rule tripleI) (use waited in blast)+

lemma killStartedCommand_gone: "triple (few (insert pid S)) (killStartedCommand px pid) (\<lambda>_. few S) (\<lambda>_ _. False)"
  unfolding killStartedCommand_def
  by (rule triple_seqE [OF unless_gone_ok [OF kept_by_readsD(9) [OF px_clients]] wait_gone]) (use gone in blast)

lemma kill_after_gone: "triple (few (insert pid S)) (kill_after px pid e) Q (\<lambda>_. few S)"
  unfolding kill_after_def
  by (rule triple_tryE [where R = "\<lambda>_. few S"])
     (rule triple_conseq [OF killStartedCommand_gone], simp_all add: triple_fail)

lemma stop_process_gone: "triple (few (insert pid S)) (stop_process px pid) (\<lambda>_. few S) (\<lambda>_ _. False)"
  unfolding stop_process_def
proof (rule triple_seqE [OF unless_gone_ok [OF kept_by_readsD(8) [OF px_clients]]])
  show "errors_is e ErrProcessDone \<or> errors_is e ESRCH" if "px_Signal px pid w = (Inl e, w')" for w e w'
    using gone that by blast
  have "triple (few (insert pid S)) (px_Exited px pid) (\<lambda>b. few (if b then S else insert pid S)) (\<lambda>_ _. False)"
  proof (rule tripleI)
    show "False" if "px_Exited px pid w = (Inl e, w')" for w e w' using exited [OF that] by simp
    show "few (if b then S else insert pid S) w'" if w: "few (insert pid S) w" and r: "px_Exited px pid w = (Inr b, w')" for w b w'
      using tripleD_value [OF kept_by_readsD(11) [OF px_clients] w r] exited [OF r] by auto
  qed
  moreover have "triple (few (if b then S else insert pid S)) (if b then ret ()
      else seqE (unless_gone ''kill DHCP client'' (px_Kill px pid)) (ignoreE (px_Wait px pid))) (\<lambda>_. few S) (\<lambda>_ _. False)" for b
    by (cases b) (use gone in \<open>auto intro!: triple_ret triple_seqE [OF unless_gone_ok [OF kept_by_readsD(9) [OF px_clients]] wait_gone]\<close>)
  ultimately show "triple (few (insert pid S)) (bindE (px_Exited px pid) (\<lambda>exited. if exited then ret ()
      else seqE (unless_gone ''kill DHCP client'' (px_Kill px pid)) (ignoreE (px_Wait px pid)))) (\<lambda>_. few S) (\<lambda>_ _. False)"
    by (rule triple_bindE)
qed

end

subsection \<open>Starting and stopping the client\<close>

lemma procSnapshot_keeps: "kept_by_reads px P \<Longrightarrow> keeps P (procSnapshot px pid p)"
  unfolding procSnapshot_def by (intro keeps_rules kept_by_readsD)

lemma writeOwner_keeps: "kept_by_os os P \<Longrightarrow> keeps P (writeOwner os nc p r)"
  unfolding writeOwner_def by (intro keeps_rules os_keeps)

lemma querySupplicant_keeps:
  "kept_by_reads px P \<Longrightarrow> (\<And>words. keeps P (no_Run os (wpaCLIPath # words))) \<Longrightarrow> keeps P (querySupplicant os px sha dir i)"
  unfolding querySupplicant_def validateControlSocket_def by (intro keeps_rules kept_by_readsD)

definition child_pids :: "dhcpChild option \<Rightarrow> int set" where
  "child_pids c = (case c of None \<Rightarrow> {} | Some c \<Rightarrow> {ch_pid c})"

lemma child_pids_simps [simp]: "child_pids None = {}" "child_pids (Some c) = {ch_pid c}"
  by (simp_all add: child_pids_def)

context supervisor_kernel begin

lemma startDHCPLocked_few: "triple (few S) (startDHCPLocked os px nc i script link np) (\<lambda>c. few (insert (ch_pid c) S)) (\<lambda>_. few S)"
  unfolding startDHCPLocked_def
proof (rule triple_bindE [where R = "\<lambda>_. few S"])
  show "keeps (few S) (tryE (px_Random px 16) (\<lambda>r. case r of Inl _ \<Rightarrow> fail (Errorf ''generate DHCP ownership token'') | Inr bs \<Rightarrow> ret bs))"
    by (intro keeps_rules kept_by_readsD [OF px_clients])
  fix tokenBytes :: "byte list"
  let ?token = "hex_encode tokenBytes" and ?args = "expectedDHCPArguments i script np"
  let ?owner = "\<lambda>pid t. \<lparr>PID = pid, StartTime = t, Token = ?token, ow_Interface = i, Script = script, ResolverLink = link\<rparr>"
  have start: "triple (few S) (px_Start px ?args env) (\<lambda>pid. few (insert pid S)) (\<lambda>_. few S)" for env
    by (rule tripleI) (use started in \<open>fastforce\<close>)+
  have owned: "triple (few (insert pid S)) (tryE (writeOwner os nc (np_owner np) r) (\<lambda>q. case q of
      Inl e \<Rightarrow> kill_after px pid e | Inr _ \<Rightarrow> ret \<lparr>ch_pid = pid, ch_record = r\<rparr>)) (\<lambda>c. few (insert (ch_pid c) S)) (\<lambda>_. few S)" for pid r
    by (rule kept_tryE [OF writeOwner_keeps [OF os_clients]])
       (rule triple_case_sum, rule kill_after_gone, rule triple_ret, simp)
  show "triple (few S) (let token = ?token; args = ?args in
     bindE (tryE (px_Start px args (client_environment i token link)) (\<lambda>r. case r of
         Inl _ \<Rightarrow> fail (Errorf ''start DHCP client'') | Inr pid \<Rightarrow> ret pid)) (\<lambda>pid.
     tryE (procSnapshot px pid busyboxPath) (\<lambda>s. case s of
       Inl _ \<Rightarrow> kill_after px pid (Errorf ''inspect started DHCP client'')
     | Inr snapshot \<Rightarrow>
         let owned = \<lparr>PID = pid, StartTime = startTime snapshot, Token = token, ow_Interface = i,
               Script = script, ResolverLink = link\<rparr> in
         case validateOwnedSnapshot owned snapshot args of
           Inl e \<Rightarrow> kill_after px pid e
         | Inr _ \<Rightarrow> tryE (writeOwner os nc (np_owner np) owned) (\<lambda>r. case r of
             Inl e \<Rightarrow> kill_after px pid e
           | Inr _ \<Rightarrow> ret \<lparr>ch_pid = pid, ch_record = owned\<rparr>)))) (\<lambda>c. few (insert (ch_pid c) S)) (\<lambda>_. few S)"
    unfolding Let_def
  proof (rule triple_bindE [where R = "\<lambda>pid. few (insert pid S)"])
    show "triple (few S) (tryE (px_Start px ?args (client_environment i ?token link)) (\<lambda>r. case r of
         Inl _ \<Rightarrow> fail (Errorf ''start DHCP client'') | Inr pid \<Rightarrow> ret pid)) (\<lambda>pid. few (insert pid S)) (\<lambda>_. few S)"
      by (rule triple_tryE [where R = "\<lambda>r. case r of Inl _ \<Rightarrow> few S | Inr pid \<Rightarrow> few (insert pid S)"])
         (use start in \<open>auto intro!: triple_case_sum triple_ret triple_fail split: sum.splits\<close>)
    show "triple (few (insert pid S)) (tryE (procSnapshot px pid busyboxPath) (\<lambda>s. case s of
       Inl _ \<Rightarrow> kill_after px pid (Errorf ''inspect started DHCP client'')
     | Inr snapshot \<Rightarrow> (case validateOwnedSnapshot (?owner pid (startTime snapshot)) snapshot ?args of
           Inl e \<Rightarrow> kill_after px pid e
         | Inr _ \<Rightarrow> tryE (writeOwner os nc (np_owner np) (?owner pid (startTime snapshot))) (\<lambda>r. case r of
             Inl e \<Rightarrow> kill_after px pid e
           | Inr _ \<Rightarrow> ret \<lparr>ch_pid = pid, ch_record = ?owner pid (startTime snapshot)\<rparr>)))) (\<lambda>c. few (insert (ch_pid c) S)) (\<lambda>_. few S)" for pid
      by (rule kept_tryE [OF procSnapshot_keeps [OF px_clients]]) (intro triple_case_sum kill_after_gone owned)
  qed
qed

lemma stopDHCP_few: "triple (few (child_pids c)) (stopDHCP os px c np) (\<lambda>(stopped, err) w. stopped \<and> few {} w) (\<lambda>_ _. False)"
  unfolding stopDHCP_def
proof (rule triple_tryE [where R = "\<lambda>r w. (\<exists>u. r = Inr u) \<and> few {} w"])
  show "triple (few (child_pids c)) (case c of None \<Rightarrow> ret () | Some c \<Rightarrow> stop_process px (ch_pid c))
      (\<lambda>x w. (\<exists>u. Inr x = Inr u) \<and> few {} w) (\<lambda>e w. (\<exists>u. Inl e = Inr u) \<and> few {} w)"
    by (cases c) (auto intro!: triple_ret triple_conseq [OF stop_process_gone [where S = "{}"]])
  have files: "keeps (few {}) (combineE [removeFile os (np_owner np), removeFile os (np_pid np)])"
    by (intro keeps_combineE keeps_collectE os_keeps [OF os_clients])
  have "triple (few {}) (tryE (combineE [removeFile os (np_owner np), removeFile os (np_pid np)]) (\<lambda>err. ret (True, err)))
      (\<lambda>(stopped, err) w. stopped \<and> few {} w) (\<lambda>_ _. False)"
    by (rule kept_tryE [OF files]) (simp add: triple_ret)
  then show "triple (\<lambda>w. (\<exists>u. r = Inr u) \<and> few {} w) (case r of Inl e \<Rightarrow> ret (False, Inl e)
      | Inr _ \<Rightarrow> tryE (combineE [removeFile os (np_owner np), removeFile os (np_pid np)]) (\<lambda>err. ret (True, err)))
      (\<lambda>(stopped, err) w. stopped \<and> few {} w) (\<lambda>_ _. False)" for r
    by (cases r) (simp_all add: triple_def)
qed

end

lemma triple_lock_and:
  assumes P: "kept_by_os os P" and Q: "\<And>x. kept_by_os os (Q x)" and E: "kept_by_os os E"
    and u: "\<And>w. P w \<Longrightarrow> Q u w" and m: "triple P m (\<lambda>(x, r). Q x) (\<lambda>_. E)"
  shows "triple P (lock_and os p u m) (\<lambda>(x, r). Q x) (\<lambda>_. E)"
  unfolding lock_and_def
proof (rule kept_tryE [OF kept_by_osD(14) [OF P]])
  fix r
  have locked: "triple P (case r of Inl e \<Rightarrow> ret (u, Inl e)
      | Inr _ \<Rightarrow> bindE m (\<lambda>(x, actionErr). tryE (wrapE ''unlock lease state'' (no_Unlock os fd)) (\<lambda>unlockErr.
          ret (x, combineErrors [actionErr, unlockErr])))) (\<lambda>(x, r). Q x) (\<lambda>_. E)" for r :: "unit outcome" and fd
  proof (rule triple_case_sum)
    show "triple P (ret (u, Inl e)) (\<lambda>(x, r). Q x) (\<lambda>_. E)" for e :: go_error
      by (rule triple_ret) (use u in simp)
    have unlock: "triple (Q x) (tryE (wrapE ''unlock lease state'' (no_Unlock os fd)) (\<lambda>unlockErr.
          ret (x, combineErrors [actionErr, unlockErr]))) (\<lambda>(x, r). Q x) (\<lambda>_. E)" for x actionErr
      by (rule kept_tryE [OF keeps_wrapE [OF kept_by_osD(17) [OF Q]]]) (simp add: triple_ret)
    show "triple P (bindE m (\<lambda>(x, actionErr). tryE (wrapE ''unlock lease state'' (no_Unlock os fd)) (\<lambda>unlockErr.
          ret (x, combineErrors [actionErr, unlockErr])))) (\<lambda>(x, r). Q x) (\<lambda>_. E)"
      by (rule triple_bindE [OF m]) (use unlock in \<open>auto intro!: triple_case_prod\<close>)
  qed
  have close: "keeps (case y of (x, r) \<Rightarrow> Q x) (no_Close os fd)" for fd and y :: "_ \<times> unit outcome"
    using kept_by_osD(9) [OF Q] by (cases y) simp
  show "triple P (case r of Inl e \<Rightarrow> ret (u, Inl (Wrapf ''open lease lock'' e))
     | Inr fd \<Rightarrow> finallyE
        (tryE (bindE (wrapE ''inspect lease lock'' (no_FStat os fd)) (\<lambda>info.
            seqE (checkE (fi_uid info = 0 \<and> fi_regular info \<and> fi_perm info = 0x180) (Errorf ''lease lock is not root-controlled''))
              (wrapE ''lock lease state'' (no_Flock os fd False)))) (\<lambda>r. case r of
           Inl e \<Rightarrow> ret (u, Inl e)
         | Inr _ \<Rightarrow> bindE m (\<lambda>(x, actionErr).
             tryE (wrapE ''unlock lease state'' (no_Unlock os fd)) (\<lambda>unlockErr.
               ret (x, combineErrors [actionErr, unlockErr])))))
        (no_Close os fd)) (\<lambda>(x, r). Q x) (\<lambda>_. E)"
  proof (rule triple_case_sum)
    show "triple P (ret (u, Inl (Wrapf ''open lease lock'' e))) (\<lambda>(x, r). Q x) (\<lambda>_. E)" for e
      by (rule triple_ret) (use u in simp)
    show "triple P (finallyE
        (tryE (bindE (wrapE ''inspect lease lock'' (no_FStat os fd)) (\<lambda>info.
            seqE (checkE (fi_uid info = 0 \<and> fi_regular info \<and> fi_perm info = 0x180) (Errorf ''lease lock is not root-controlled''))
              (wrapE ''lock lease state'' (no_Flock os fd False)))) (\<lambda>r. case r of
           Inl e \<Rightarrow> ret (u, Inl e)
         | Inr _ \<Rightarrow> bindE m (\<lambda>(x, actionErr).
             tryE (wrapE ''unlock lease state'' (no_Unlock os fd)) (\<lambda>unlockErr.
               ret (x, combineErrors [actionErr, unlockErr])))))
        (no_Close os fd)) (\<lambda>(x, r). Q x) (\<lambda>_. E)" for fd
      by (rule triple_finallyE [OF kept_tryE [OF _ locked] close kept_by_osD(9) [OF E]])
         (intro keeps_rules kept_by_osD [OF P])
  qed
qed

context supervisor_kernel begin

lemma startDHCP_few: "triple (few {}) (startDHCP os px nc i script link np) (\<lambda>c. few (child_pids c)) (\<lambda>_. few {})"
  unfolding startDHCP_def
proof (rule triple_seqE [where R = "few {}"])
  show "keeps (few {}) (tryE (px_IsDir px (np_runtime np)) (\<lambda>r. checkE (r = Inr True) (Sentinel ErrRuntimeDirectoryLost)))"
    by (intro keeps_rules kept_by_readsD [OF px_clients])
  have locked: "triple (few {}) (lock_and os (np_lock np) None
       (tryE (startDHCPLocked os px nc i script link np) (\<lambda>r. case r of
          Inl e \<Rightarrow> ret (None, Inl e) | Inr c \<Rightarrow> ret (Some c, Inr ())))) (\<lambda>(c, r). few (child_pids c)) (\<lambda>_. few {})"
  proof (rule triple_lock_and [where Q = "\<lambda>c. few (child_pids c)", OF os_clients os_clients os_clients])
    show "triple (few {}) (tryE (startDHCPLocked os px nc i script link np) (\<lambda>r. case r of
          Inl e \<Rightarrow> ret (None, Inl e) | Inr c \<Rightarrow> ret (Some c, Inr ()))) (\<lambda>(c, r). few (child_pids c)) (\<lambda>_. few {})"
      by (rule triple_tryE [where R = "\<lambda>r. case r of Inl _ \<Rightarrow> few {} | Inr c \<Rightarrow> few {ch_pid c}"])
         (use startDHCPLocked_few [where S = "{}"] in \<open>auto intro!: triple_case_sum triple_ret split: sum.splits\<close>)
  qed simp
  have stop: "triple (few (child_pids (Some c))) (bindE (stopDHCP os px (Some c) np) (\<lambda>(stopped, stopErr).
           fail (case combineErrors [Inl e, stopErr] of Inl e' \<Rightarrow> e' | Inr _ \<Rightarrow> e))) Q (\<lambda>_. few {})" for c e Q
    by (rule triple_bindE [where R = "\<lambda>_. few {}"], rule triple_conseq [OF stopDHCP_few]) (auto intro!: triple_fail split: prod.split)
  show "triple (few {}) (bindE (lock_and os (np_lock np) None
       (tryE (startDHCPLocked os px nc i script link np) (\<lambda>r. case r of
          Inl e \<Rightarrow> ret (None, Inl e) | Inr c \<Rightarrow> ret (Some c, Inr ())))) (\<lambda>(child, err). case err of
       Inr _ \<Rightarrow> ret child
     | Inl e \<Rightarrow> (case child of
         None \<Rightarrow> fail e
       | Some c \<Rightarrow> bindE (stopDHCP os px (Some c) np) (\<lambda>(stopped, stopErr).
           fail (case combineErrors [Inl e, stopErr] of Inl e' \<Rightarrow> e' | Inr _ \<Rightarrow> e))))) (\<lambda>c. few (child_pids c)) (\<lambda>_. few {})"
    by (rule triple_bindE [OF locked])
       (auto intro!: triple_case_sum triple_case_option triple_ret triple_fail stop [simplified] split: prod.split)
qed

lemma cleanup_few:
  "triple (few (child_pids (sv_child sv))) (cleanup os px nc cf sv) (\<lambda>(sv', err) w. sv' = sv\<lparr>sv_child := None\<rparr> \<and> few {} w) (\<lambda>_ _. False)"
  unfolding cleanup_def
proof (rule triple_bindE [OF stopDHCP_few])
  have rest: "triple (few {}) (tryE (withLeaseLock os (np_lock (cf_paths cf)) (clearLeaseState os nc (cf_paths cf) (cf_interface cf) (cf_resolver cf)))
      (\<lambda>leaseErr. tryE (clearEventFailureMarker os (np_eventFailure (cf_paths cf)) 0) (\<lambda>markerErr.
         ret (sv\<lparr>sv_child := None\<rparr>, combineErrors [stopErr, leaseErr, markerErr]))))
      (\<lambda>(sv', err) w. sv' = sv\<lparr>sv_child := None\<rparr> \<and> few {} w) (\<lambda>_ _. False)" for stopErr
    by (rule kept_tryE [OF lock_keeps_any(2) [OF os_clients state_keeps(1) [OF os_clients]]],
        rule kept_tryE [OF lease_keeps(3) [OF os_clients]]) (simp add: triple_ret)
  show "triple ((\<lambda>(stopped, err) w. stopped \<and> few {} w) x) (case x of (stopped, stopErr) \<Rightarrow>
      if \<not> stopped then ret (sv, stopErr)
      else tryE (withLeaseLock os (np_lock (cf_paths cf)) (clearLeaseState os nc (cf_paths cf) (cf_interface cf) (cf_resolver cf))) (\<lambda>leaseErr.
        tryE (clearEventFailureMarker os (np_eventFailure (cf_paths cf)) 0) (\<lambda>markerErr.
          ret (sv\<lparr>sv_child := None\<rparr>, combineErrors [stopErr, leaseErr, markerErr]))))
      (\<lambda>(sv', err) w. sv' = sv\<lparr>sv_child := None\<rparr> \<and> few {} w) (\<lambda>_ _. False)" for x
    using rest by (cases x; cases "fst x") (simp_all add: triple_def)
qed

end

subsection \<open>The loop\<close>

text \<open>
  The state of the supervisor between polls: the delay is within its bounds, and a client of a
  station that is not associated is about to be cleaned up.
\<close>

definition good :: "supervisor \<Rightarrow> bool" where
  "good sv \<longleftrightarrow> second \<le> sv_retryDelay sv \<and> sv_retryDelay sv \<le> 30 * second \<and>
     (sv_child sv \<noteq> None \<and> \<not> connected (sv_state sv) \<longrightarrow> sv_cleanupPending sv)"

definition startable :: "lifecycleAction \<Rightarrow> supervisor \<Rightarrow> bool" where
  "startable action sv \<longleftrightarrow> (action = actionStart \<or> action = actionRestart \<longrightarrow>
     connected (sv_state sv) \<and> (sv_child sv = None \<or> sv_cleanupPending sv))"

lemma backoff_bounds: "second \<le> d \<Longrightarrow> d \<le> 30 * second \<Longrightarrow> second \<le> backoff d \<and> backoff d \<le> 30 * second"
  by (simp add: backoff_def second_def)

lemma second_bounds: "second \<le> 30 * second"
  by (simp add: second_def)

lemma good_new: "good new_supervisor"
  by (simp add: good_def new_supervisor_def second_bounds)

lemma observe_child: "observe sv r = (sv', observed, answered) \<Longrightarrow> sv_child sv' = sv_child sv \<and> sv_retryDelay sv' = sv_retryDelay sv"
  by (auto simp: observe_def Let_def split: sum.splits)

lemma decide_good:
  assumes "decide sv observed eventFailed = (sv', action)" "second \<le> sv_retryDelay sv" "sv_retryDelay sv \<le> 30 * second"
  shows "good sv' \<and> startable action sv' \<and> sv_child sv' = sv_child sv"
  using assms second_bounds
  by (auto simp: decide_def transition_def good_def startable_def Let_def split: if_splits)

context supervisor_kernel begin

lemma now_keeps: "kept_by_reads px P \<Longrightarrow> triple P (px_Now px) (\<lambda>_. P) (\<lambda>_ _. False)"
  by (rule tripleI) (use clock tripleD_value [OF kept_by_readsD(15)] in fast)+

lemma now_pure: "triple (\<lambda>w. c \<and> few S w) (px_Now px) (\<lambda>_ w. c \<and> few S w) (\<lambda>_ _. False)"
  by (rule triple_pure_conj) (simp add: now_keeps [OF px_clients])

lemma pending_cleanup_few:
  "triple (\<lambda>w. (good sv \<and> startable action sv) \<and> few (child_pids (sv_child sv)) w) (pending_cleanup os px nc cf sv)
    (\<lambda>sv' w. (good sv' \<and> startable action sv') \<and> few (child_pids (sv_child sv')) w) (\<lambda>_ _. False)"
proof (rule triple_pure_conj)
  assume g: "good sv \<and> startable action sv"
  let ?I = "\<lambda>sv' w. (good sv' \<and> startable action sv') \<and> few (child_pids (sv_child sv')) w"
  let ?sv = "sv\<lparr>sv_child := None\<rparr>"
  have d: "second \<le> sv_retryDelay sv" "sv_retryDelay sv \<le> 30 * second" using g by (simp_all add: good_def)
  have after: "triple (few {}) (case err of
       Inl _ \<Rightarrow> bindE (px_Now px) (\<lambda>now.
         ret (?sv\<lparr>sv_nextRetry := Some (now + sv_retryDelay ?sv), sv_retryDelay := backoff (sv_retryDelay ?sv)\<rparr>))
     | Inr _ \<Rightarrow>
         let sv = ?sv\<lparr>sv_cleanupPending := False\<rparr> in
         if sv_recoveringEvent sv then bindE (px_Now px) (\<lambda>now.
           case scheduleRecoveryRetry now (sv_retryDelay sv) of (t, d) \<Rightarrow>
             ret (sv\<lparr>sv_nextRetry := Some t, sv_retryDelay := d, sv_recoveringEvent := False\<rparr>))
         else ret sv) ?I (\<lambda>_ _. False)" for err :: "unit outcome"
    unfolding Let_def scheduleRecoveryRetry_def prod.case
    by (intro triple_case_sum triple_if triple_bindE [OF now_keeps [OF px_clients]] triple_ret)
       (use g backoff_bounds [OF d] d in \<open>auto simp: good_def startable_def\<close>)
  show "triple (few (child_pids (sv_child sv))) (pending_cleanup os px nc cf sv) ?I (\<lambda>_ _. False)"
    unfolding pending_cleanup_def
  proof (intro triple_if)
    show "triple (few (child_pids (sv_child sv))) (ret sv) ?I (\<lambda>_ _. False)"
      by (rule triple_ret) (use g in simp)
    show "triple (few (child_pids (sv_child sv))) (bindE (px_Now px) (\<lambda>now.
        if \<not> due now (sv_nextRetry sv) then ret sv
        else bindE (cleanup os px nc cf sv) (\<lambda>(sv, err). case err of
            Inl _ \<Rightarrow> bindE (px_Now px) (\<lambda>now.
              ret (sv\<lparr>sv_nextRetry := Some (now + sv_retryDelay sv), sv_retryDelay := backoff (sv_retryDelay sv)\<rparr>))
          | Inr _ \<Rightarrow>
              let sv = sv\<lparr>sv_cleanupPending := False\<rparr> in
              if sv_recoveringEvent sv then bindE (px_Now px) (\<lambda>now.
                case scheduleRecoveryRetry now (sv_retryDelay sv) of (t, d) \<Rightarrow>
                  ret (sv\<lparr>sv_nextRetry := Some t, sv_retryDelay := d, sv_recoveringEvent := False\<rparr>))
              else ret sv))) ?I (\<lambda>_ _. False)"
    proof (rule triple_bindE [OF now_keeps [OF px_clients]], rule triple_if)
      show "triple (few (child_pids (sv_child sv))) (ret sv) ?I (\<lambda>_ _. False)"
        by (rule triple_ret) (use g in simp)
      show "triple (few (child_pids (sv_child sv))) (bindE (cleanup os px nc cf sv) (\<lambda>(sv, err). case err of
            Inl _ \<Rightarrow> bindE (px_Now px) (\<lambda>now.
              ret (sv\<lparr>sv_nextRetry := Some (now + sv_retryDelay sv), sv_retryDelay := backoff (sv_retryDelay sv)\<rparr>))
          | Inr _ \<Rightarrow>
              let sv = sv\<lparr>sv_cleanupPending := False\<rparr> in
              if sv_recoveringEvent sv then bindE (px_Now px) (\<lambda>now.
                case scheduleRecoveryRetry now (sv_retryDelay sv) of (t, d) \<Rightarrow>
                  ret (sv\<lparr>sv_nextRetry := Some t, sv_retryDelay := d, sv_recoveringEvent := False\<rparr>))
              else ret sv)) ?I (\<lambda>_ _. False)"
        by (rule triple_bindE [OF cleanup_few], rule triple_case_prod) (simp only: prod.case, rule triple_pure_conj, use after in blast)
    qed
  qed
qed

end

context supervisor_kernel begin

lemma maybe_start_few:
  "triple (\<lambda>w. (good sv \<and> startable action sv) \<and> few (child_pids (sv_child sv)) w) (maybe_start os px nc cf action answered sv)
    (\<lambda>sv' w. good sv' \<and> few (child_pids (sv_child sv')) w) (\<lambda>_. few {})"
proof (rule triple_pure_conj)
  assume g: "good sv \<and> startable action sv"
  let ?I = "\<lambda>sv' w. good sv' \<and> few (child_pids (sv_child sv')) w"
  have stay: "triple (few (child_pids (sv_child sv))) (ret sv) ?I (\<lambda>_. few {})"
    by (rule triple_ret) (use g in simp)
  have d: "second \<le> sv_retryDelay sv" "sv_retryDelay sv \<le> 30 * second" using g by (simp_all add: good_def)
  show "triple (few (child_pids (sv_child sv))) (maybe_start os px nc cf action answered sv) ?I (\<lambda>_. few {})"
  proof (cases "(action = actionStart \<or> action = actionRestart) \<and> \<not> sv_cleanupPending sv \<and> answered")
    case False
    then show ?thesis using stay by (simp add: maybe_start_def)
  next
    case True
    then have c: "sv_child sv = None" "connected (sv_state sv)" using g by (auto simp: startable_def)
    have clock': "triple P (px_Now px) (\<lambda>_. P) (\<lambda>_. few {})" if "kept_by_reads px P" for P
      by (rule triple_conseq [OF now_keeps [OF that]]) simp_all
    have ended: "triple (few {}) (if errors_is e ErrRuntimeDirectoryLost then fail e
            else bindE (px_Now px) (\<lambda>now. ret (sv\<lparr>sv_failures := Suc (sv_failures sv),
              sv_nextRetry := Some (now + sv_retryDelay sv), sv_retryDelay := backoff (sv_retryDelay sv)\<rparr>))) ?I (\<lambda>_. few {})" for e
      by (intro triple_if triple_fail triple_bindE [OF clock' [OF px_clients]] triple_ret)
         (use c backoff_bounds [OF d] in \<open>auto simp: good_def\<close>)
    have began: "triple (few (child_pids child)) (bindE (px_Now px) (\<lambda>now.
            ret (sv\<lparr>sv_child := child, sv_childStarted := now, sv_failures := 0, sv_nextRetry := None\<rparr>))) ?I (\<lambda>_. few {})" for child
      by (rule triple_bindE [OF clock' [OF px_clients]], rule triple_ret) (use c d in \<open>auto simp: good_def\<close>)
    have start: "triple (few {}) (tryE (startDHCP os px nc (cf_interface cf) (cf_script cf) (cf_resolver cf) (cf_paths cf)) (\<lambda>r. case r of
          Inl e \<Rightarrow> if errors_is e ErrRuntimeDirectoryLost then fail e
            else bindE (px_Now px) (\<lambda>now. ret (sv\<lparr>sv_failures := Suc (sv_failures sv),
              sv_nextRetry := Some (now + sv_retryDelay sv), sv_retryDelay := backoff (sv_retryDelay sv)\<rparr>))
        | Inr child \<Rightarrow> bindE (px_Now px) (\<lambda>now.
            ret (sv\<lparr>sv_child := child, sv_childStarted := now, sv_failures := 0, sv_nextRetry := None\<rparr>)))) ?I (\<lambda>_. few {})"
    proof (rule triple_tryE [where R = "\<lambda>r. case r of Inl _ \<Rightarrow> few {} | Inr c \<Rightarrow> few (child_pids c)"])
      show "triple (few {}) (startDHCP os px nc (cf_interface cf) (cf_script cf) (cf_resolver cf) (cf_paths cf))
          (\<lambda>x. case Inr x of Inl _ \<Rightarrow> few {} | Inr c \<Rightarrow> few (child_pids c)) (\<lambda>e. case Inl e of Inl _ \<Rightarrow> few {} | Inr c \<Rightarrow> few (child_pids c))"
        using startDHCP_few by simp
    qed (use ended began in \<open>auto split: sum.split\<close>)
    show ?thesis
      unfolding maybe_start_def c(1) child_pids_simps
      by (rule triple_if, use True in blast, rule triple_bindE [OF clock' [OF px_clients]], rule triple_if,
          rule stay [unfolded c(1) child_pids_simps], rule start)
  qed
qed

lemma poll_few:
  assumes ok: "good sv"
  shows "triple (few (child_pids (sv_child sv))) (poll os px nc sha cf sv) (\<lambda>sv' w. good sv' \<and> few (child_pids (sv_child sv')) w) (\<lambda>_. few {})"
  unfolding poll_def
proof (rule kept_tryE, rule querySupplicant_keeps [OF px_clients kept_by_osD(1) [OF os_clients]])
  fix r
  obtain sv1 observed answered where o: "observe sv r = (sv1, observed, answered)" by (metis prod.exhaust)
  note child = observe_child [OF o]
  have lost: "triple (few (child_pids (sv_child sv1))) (bindE (cleanup os px nc cf sv1) (\<lambda>(_, err).
         fail (case combineErrors [Inl e, err] of Inl e' \<Rightarrow> e' | Inr _ \<Rightarrow> e)))
      (\<lambda>sv' w. good sv' \<and> few (child_pids (sv_child sv')) w) (\<lambda>_. few {})" for e
    by (rule triple_bindE [where R = "\<lambda>_. few {}"], rule triple_conseq [OF cleanup_few]) (auto intro!: triple_fail split: prod.split)
  have on: "triple (few (child_pids (sv_child sv1))) (case decide sv1 observed eventFailed of (sv, action) \<Rightarrow>
         bindE (pending_cleanup os px nc cf sv) (maybe_start os px nc cf action answered))
      (\<lambda>sv' w. good sv' \<and> few (child_pids (sv_child sv')) w) (\<lambda>_. few {})" for eventFailed
  proof (rule triple_case_prod)
    fix sv2 action assume d: "decide sv1 observed eventFailed = (sv2, action)"
    have g: "good sv2 \<and> startable action sv2 \<and> sv_child sv2 = sv_child sv1"
      by (rule decide_good [OF d]) (use ok child in \<open>simp_all add: good_def\<close>)
    show "triple (few (child_pids (sv_child sv1))) (bindE (pending_cleanup os px nc cf sv2) (maybe_start os px nc cf action answered))
      (\<lambda>sv' w. good sv' \<and> few (child_pids (sv_child sv')) w) (\<lambda>_. few {})"
      by (rule triple_bindE [OF triple_conseq [OF pending_cleanup_few [where sv = sv2 and action = action]] maybe_start_few])
         (use g in simp_all)
  qed
  show "triple (few (child_pids (sv_child sv))) (case observe sv r of (sv, observed, answered) \<Rightarrow>
     tryE (eventFailureMarkerPresent os (np_eventFailure (cf_paths cf)) 0) (\<lambda>m. case m of
       Inl e \<Rightarrow> bindE (cleanup os px nc cf sv) (\<lambda>(_, err).
         fail (case combineErrors [Inl e, err] of Inl e' \<Rightarrow> e' | Inr _ \<Rightarrow> e))
     | Inr eventFailed \<Rightarrow> (case decide sv observed eventFailed of (sv, action) \<Rightarrow>
         bindE (pending_cleanup os px nc cf sv) (maybe_start os px nc cf action answered))))
      (\<lambda>sv' w. good sv' \<and> few (child_pids (sv_child sv')) w) (\<lambda>_. few {})"
    unfolding o prod.case child [THEN conjunct1, symmetric]
    by (rule kept_tryE [OF os_keeps(8) [OF os_clients]], rule triple_case_sum, rule lost, rule on)
qed

lemma child_ended_few:
  assumes ok: "good sv"
  shows "triple (few {ch_pid c}) (child_ended os px nc cf sv c) (\<lambda>sv' w. good sv' \<and> few (child_pids (sv_child sv')) w) (\<lambda>_. few {})"
  unfolding child_ended_def
proof (rule triple_seqE [where R = "few {}"])
  show "triple (few {ch_pid c}) (ignoreE (px_Wait px (ch_pid c))) (\<lambda>_. few {}) (\<lambda>_. few {})"
    by (rule triple_conseq [OF wait_gone [where S = "{}"]]) simp_all
  let ?sv = "sv\<lparr>sv_child := None, sv_cleanupPending := True\<rparr>"
  have clock': "triple (few {}) (px_Now px) (\<lambda>_. few {}) (\<lambda>_. few {})"
    by (rule triple_conseq [OF now_keeps [OF px_clients [where S = "{}"]]]) simp_all
  have d: "second \<le> sv_retryDelay sv" "sv_retryDelay sv \<le> 30 * second" using ok by (simp_all add: good_def)
  have rest: "triple (few {}) (let sv = (case err of Inl _ \<Rightarrow> ?sv | Inr _ \<Rightarrow> ?sv\<lparr>sv_cleanupPending := False\<rparr>) in
     bindE (px_Now px) (\<lambda>t1.
     let sv = (if 30 * second \<le> t1 - sv_childStarted sv then sv\<lparr>sv_retryDelay := second\<rparr> else sv) in
     bindE (px_Now px) (\<lambda>t2.
     let sv = sv\<lparr>sv_nextRetry := Some (t2 + sv_retryDelay sv)\<rparr> in
     bindE (px_Now px) (\<lambda>t3.
     ret (if t3 - sv_childStarted sv < 30 * second then sv\<lparr>sv_retryDelay := backoff (sv_retryDelay sv)\<rparr> else sv)))))
     (\<lambda>sv' w. good sv' \<and> few (child_pids (sv_child sv')) w) (\<lambda>_. few {})" for err :: "unit outcome"
    unfolding Let_def
    by (intro triple_bindE [OF clock'] triple_ret)
       (use d backoff_bounds [OF d] backoff_bounds [of second] second_bounds in \<open>auto simp: good_def split: sum.split\<close>)
  show "triple (few {}) (bindE (cleanup os px nc cf ?sv) (\<lambda>(sv, err).
     let sv = (case err of Inl _ \<Rightarrow> sv | Inr _ \<Rightarrow> sv\<lparr>sv_cleanupPending := False\<rparr>) in
     bindE (px_Now px) (\<lambda>t1.
     let sv = (if 30 * second \<le> t1 - sv_childStarted sv then sv\<lparr>sv_retryDelay := second\<rparr> else sv) in
     bindE (px_Now px) (\<lambda>t2.
     let sv = sv\<lparr>sv_nextRetry := Some (t2 + sv_retryDelay sv)\<rparr> in
     bindE (px_Now px) (\<lambda>t3.
     ret (if t3 - sv_childStarted sv < 30 * second then sv\<lparr>sv_retryDelay := backoff (sv_retryDelay sv)\<rparr> else sv))))))
     (\<lambda>sv' w. good sv' \<and> few (child_pids (sv_child sv')) w) (\<lambda>_. few {})"
  proof (rule triple_bindE [where R = "\<lambda>(sv', err) w. sv' = ?sv \<and> few {} w"])
    show "triple (few {}) (cleanup os px nc cf ?sv) (\<lambda>(sv', err) w. sv' = ?sv \<and> few {} w) (\<lambda>_. few {})"
      by (rule triple_conseq [OF cleanup_few [where sv = ?sv]]) (auto split: prod.split)
  qed (use rest in \<open>auto intro!: triple_pure_conj split: prod.split\<close>)
qed

end

context supervisor_kernel begin

lemma woken_few:
  assumes ok: "good sv"
  shows "triple (few (child_pids (sv_child sv))) (woken os px nc cf k sv)
    (\<lambda>r w. case r of None \<Rightarrow> few {} w | Some sv' \<Rightarrow> good sv' \<and> few (child_pids (sv_child sv')) w) (\<lambda>_. few {})"
proof (cases k)
  case Terminated
  have "triple (few (child_pids (sv_child sv))) (bindE (cleanup os px nc cf sv) (\<lambda>(sv, err). case err of
       Inl e \<Rightarrow> fail (Wrapf ''shutdown network cleanup'' e) | Inr _ \<Rightarrow> ret None))
    (\<lambda>r w. case r of None \<Rightarrow> few {} w | Some sv' \<Rightarrow> good sv' \<and> few (child_pids (sv_child sv')) w) (\<lambda>_. few {})"
  proof (rule triple_bindE [where R = "\<lambda>_. few {}"])
    show "triple (few (child_pids (sv_child sv))) (cleanup os px nc cf sv) (\<lambda>_. few {}) (\<lambda>_. few {})"
      by (rule triple_conseq [OF cleanup_few]) auto
  qed (auto intro!: triple_case_sum triple_fail triple_ret split: prod.split)
  then show ?thesis by (simp add: woken_def Terminated)
next
  case Ticked
  then show ?thesis unfolding woken_def by (auto intro!: triple_ret simp: ok)
next
  case ChildEnded
  show ?thesis
  proof (cases "sv_child sv")
    case None
    then show ?thesis unfolding woken_def by (auto intro!: triple_ret simp: ChildEnded ok)
  next
    case (Some c)
    have "triple (few {ch_pid c}) (bindE (child_ended os px nc cf sv c) (\<lambda>sv. ret (Some sv)))
      (\<lambda>r w. case r of None \<Rightarrow> few {} w | Some sv' \<Rightarrow> good sv' \<and> few (child_pids (sv_child sv')) w) (\<lambda>_. few {})"
      by (rule triple_bindE [OF child_ended_few [OF ok]], rule triple_ret) simp
    then show ?thesis by (simp add: woken_def ChildEnded Some)
  qed
qed

lemma supervise_loop_few:
  "good sv \<Longrightarrow> triple (few (child_pids (sv_child sv))) (supervise_loop os px nc sha cf hs sv)
    (\<lambda>r w. case r of None \<Rightarrow> few {} w | Some sv' \<Rightarrow> good sv' \<and> few (child_pids (sv_child sv')) w) (\<lambda>_. few {})"
proof (induction hs arbitrary: sv)
  case Nil
  then show ?case by (simp add: triple_ret)
next
  case (Cons h hs)
  let ?Q = "\<lambda>r w. case r of None \<Rightarrow> few {} w | Some sv' \<Rightarrow> good sv' \<and> few (child_pids (sv_child sv')) w"
  show ?case
  proof (cases h)
    case (Round k)
    have next': "triple (?Q r) (case r of None \<Rightarrow> ret None | Some sv \<Rightarrow> supervise_loop os px nc sha cf hs sv) ?Q (\<lambda>_. few {})" for r
      using Cons.IH by (cases r) (auto intro!: triple_ret triple_pure_conj)
    show ?thesis
      unfolding Round supervise_loop.simps
      by (rule triple_bindE [OF poll_few [OF Cons.prems]], rule triple_pure_conj, rule triple_bindE [OF woken_few next'])
  next
    case (ClientEvent euid environment action)
    show ?thesis
      unfolding ClientEvent supervise_loop.simps
      by (rule triple_seqE [OF triple_ignoreE [OF event_keeps [OF os_clients]]], rule triple_conseq [OF Cons.IH [OF Cons.prems]]) simp_all
  qed
qed

end

subsection \<open>The network under the supervisor\<close>

lemma networkPaths_distinct':
  "np_owner networkPaths \<noteq> np_lease networkPaths" "np_pid networkPaths \<noteq> np_lease networkPaths"
  by (simp_all add: networkPaths_def Join_def)

context supervisor_kernel begin

lemma stopDHCP_covers:
  assumes P: "calm P" and np: "np_owner np \<noteq> T" "np_pid np \<noteq> T"
  shows "triple P (stopDHCP os px c np) (\<lambda>(stopped, err) w. P w \<and> (\<not> stopped \<longrightarrow> err \<noteq> Inr ())) (\<lambda>_. P)"
  unfolding stopDHCP_def
proof (rule kept_tryE)
  show "keeps P (case c of None \<Rightarrow> ret () | Some c \<Rightarrow> stop_process px (ch_pid c))"
    unfolding stop_process_def unless_gone_def by (intro keeps_rules kept_by_readsD [OF px_calm [OF P]])
  have files: "keeps P (combineE [removeFile os (np_owner np), removeFile os (np_pid np)])"
    by (intro keeps_combineE keeps_collectE removeFile_keeps P np)
  show "triple P (case r of Inl e \<Rightarrow> ret (False, Inl e)
      | Inr _ \<Rightarrow> tryE (combineE [removeFile os (np_owner np), removeFile os (np_pid np)]) (\<lambda>err. ret (True, err)))
      (\<lambda>(stopped, err) w. P w \<and> (\<not> stopped \<longrightarrow> err \<noteq> Inr ())) (\<lambda>_. P)" for r
    by (rule triple_case_sum, rule triple_ret, simp, rule kept_tryE [OF files], rule triple_ret, simp)
qed

lemma startDHCP_covers:
  assumes P: "calm P" and np: "np_owner np \<noteq> T" "np_pid np \<noteq> T"
  shows "keeps P (startDHCP os px nc i script link np)"
proof -
  note reads = kept_by_readsD [OF px_calm [OF P]]
  have stop: "keeps P (stopDHCP os px c np)" for c
    by (rule triple_conseq [OF stopDHCP_covers [OF P np]]) auto
  have kill: "keeps P (kill_after px pid e)" for pid and e
    unfolding kill_after_def killStartedCommand_def unless_gone_def by (intro keeps_rules reads)
  have owner: "keeps P (writeOwner os nc (np_owner np) r)" for r
    unfolding writeOwner_def by (intro keeps_rules writeAtomic_other P np)
  have start: "keeps P (px_Start px args env)" for args env
    by (rule network_keeps [OF P start_network])
  have "keeps P (startDHCPLocked os px nc i script link np)"
    unfolding startDHCPLocked_def Let_def
    by (intro keeps_rules reads procSnapshot_keeps px_calm P kill owner start)
  then show ?thesis
    unfolding startDHCP_def by (intro keeps_rules reads lock_keeps P stop)
qed

lemma querySupplicant_covers: "calm P \<Longrightarrow> keeps P (querySupplicant os px sha dir i)"
  by (rule querySupplicant_keeps [OF px_calm]) (assumption, rule network_keeps, assumption, rule supplicant)

lemma clear_locked_triple:
  assumes T: "np_lease networkPaths = T" and link: "clean_path link \<noteq> Some T"
  shows "triple (covered nc) (withLeaseLock os (np_lock networkPaths) (clearLeaseState os nc networkPaths I link)) (\<lambda>_. bare) (\<lambda>_. covered nc)"
proof (rule tripleI)
  have k: "keeps (covered nc) (withLeaseLock os (np_lock networkPaths) (clearLeaseState os nc networkPaths I link))"
    by (rule withLeaseLock_keeps) (simp_all add: covered_clear [OF T networkPaths_distinct(1) [unfolded T] link])
  show "covered nc w'" if "covered nc w" "withLeaseLock os (np_lock networkPaths) (clearLeaseState os nc networkPaths I link) w = (Inl e, w')" for w e w'
    using tripleD_error [OF k that] .
  show "bare w'" if "covered nc w" "withLeaseLock os (np_lock networkPaths) (clearLeaseState os nc networkPaths I link) w = (Inr u, w')" for w u w'
    by (rule clear_locked_bare [OF T link _ that(1)]) (use that(2) in \<open>simp add: clear_locked_def\<close>)
qed

lemma cleanup_bare:
  assumes T: "np_lease networkPaths = T" and cf: "cf_paths cf = networkPaths" "cf_interface cf = I" "clean_path (cf_resolver cf) \<noteq> Some T"
  shows "triple (covered nc) (cleanup os px nc cf sv) (\<lambda>(sv', err) w. covered nc w \<and> (err = Inr () \<longrightarrow> bare w)) (\<lambda>_. covered nc)"
  unfolding cleanup_def cf(1,2)
proof (rule triple_bindE [OF stopDHCP_covers])
  note d = networkPaths_distinct [unfolded T] networkPaths_distinct' [unfolded T]
  show "calm (covered nc)" "np_owner networkPaths \<noteq> T" "np_pid networkPaths \<noteq> T" using d by simp_all
  have marker: "keeps P (clearEventFailureMarker os (np_eventFailure networkPaths) 0)" if "calm P" for P
    by (rule marker_keeps(3) [OF that d(2)])
  let ?tail = "\<lambda>stopErr leaseErr. tryE (clearEventFailureMarker os (np_eventFailure networkPaths) 0) (\<lambda>markerErr.
          ret (sv\<lparr>sv_child := None\<rparr>, combineErrors [stopErr, leaseErr, markerErr]))"
  have last: "triple (\<lambda>w. covered nc w \<and> (leaseErr = Inr () \<longrightarrow> bare w)) (?tail stopErr leaseErr)
      (\<lambda>(sv', err) w. covered nc w \<and> (err = Inr () \<longrightarrow> bare w)) (\<lambda>_. covered nc)" for stopErr leaseErr
  proof (rule triple_tryE [where R = "\<lambda>_ w. covered nc w \<and> (leaseErr = Inr () \<longrightarrow> bare w)"])
    have "calm (\<lambda>w. covered nc w \<and> (leaseErr = Inr () \<longrightarrow> bare w))"
      using calm_states(3,4) unfolding calm_def by blast
    then show "keeps (\<lambda>w. covered nc w \<and> (leaseErr = Inr () \<longrightarrow> bare w)) (clearEventFailureMarker os (np_eventFailure networkPaths) 0)"
      by (rule marker)
    show "triple (\<lambda>w. covered nc w \<and> (leaseErr = Inr () \<longrightarrow> bare w)) (ret (sv\<lparr>sv_child := None\<rparr>, combineErrors [stopErr, leaseErr, markerErr]))
      (\<lambda>(sv', err) w. covered nc w \<and> (err = Inr () \<longrightarrow> bare w)) (\<lambda>_. covered nc)" for markerErr
      by (rule triple_ret) (auto simp: combineErrors_ok)
  qed
  have clear: "triple (covered nc) (tryE (withLeaseLock os (np_lock networkPaths) (clearLeaseState os nc networkPaths I (cf_resolver cf))) (?tail stopErr))
      (\<lambda>(sv', err) w. covered nc w \<and> (err = Inr () \<longrightarrow> bare w)) (\<lambda>_. covered nc)" for stopErr
    by (rule triple_tryE [OF triple_conseq [OF clear_locked_triple [OF T cf(3)]] last]) (auto intro: covered_bare)
  show "triple ((\<lambda>(stopped, err) w. covered nc w \<and> (\<not> stopped \<longrightarrow> err \<noteq> Inr ())) x) (case x of (stopped, stopErr) \<Rightarrow>
      if \<not> stopped then ret (sv, stopErr)
      else tryE (withLeaseLock os (np_lock networkPaths) (clearLeaseState os nc networkPaths I (cf_resolver cf))) (?tail stopErr))
      (\<lambda>(sv', err) w. covered nc w \<and> (err = Inr () \<longrightarrow> bare w)) (\<lambda>_. covered nc)" for x
    using clear by (cases x; cases "fst x") (auto intro: triple_ret)
qed

end

context supervisor_kernel begin

lemma cleanup_keeps:
  assumes "np_lease networkPaths = T" "cf_paths cf = networkPaths" "cf_interface cf = I" "clean_path (cf_resolver cf) \<noteq> Some T"
  shows "keeps (covered nc) (cleanup os px nc cf sv)"
  by (rule triple_conseq [OF cleanup_bare [OF assms]]) auto

lemma poll_covers:
  assumes T: "np_lease networkPaths = T" and cf: "cf_paths cf = networkPaths" "cf_interface cf = I" "clean_path (cf_resolver cf) \<noteq> Some T"
  shows "keeps (covered nc) (poll os px nc sha cf sv)"
proof -
  note c = calm_states(4) and clean = cleanup_keeps [OF T cf]
  note reads = kept_by_readsD [OF px_calm [OF c]]
  have "keeps (covered nc) (pending_cleanup os px nc cf sv)" for sv
    unfolding pending_cleanup_def Let_def scheduleRecoveryRetry_def by (intro keeps_rules reads clean)
  moreover have "keeps (covered nc) (maybe_start os px nc cf action answered sv)" for action answered sv
    unfolding maybe_start_def cf(1)
    by (intro keeps_rules reads startDHCP_covers c networkPaths_distinct' [unfolded T])
  moreover have "keeps (covered nc) (eventFailureMarkerPresent os (np_eventFailure (cf_paths cf)) 0)"
    unfolding cf(1) by (rule marker_keeps(1) [OF c networkPaths_distinct(2) [unfolded T]])
  ultimately show ?thesis
    unfolding poll_def by (intro keeps_rules querySupplicant_covers c clean) blast+
qed

lemma woken_covers:
  assumes T: "np_lease networkPaths = T" and cf: "cf_paths cf = networkPaths" "cf_interface cf = I" "clean_path (cf_resolver cf) \<noteq> Some T"
  shows "triple (covered nc) (woken os px nc cf k sv) (\<lambda>r w. covered nc w \<and> (r = None \<longrightarrow> bare w)) (\<lambda>_. covered nc)"
proof (cases k)
  case Terminated
  show ?thesis
    unfolding woken_def Terminated wake.case
    by (rule triple_bindE [OF cleanup_bare [OF T cf]], rule triple_case_prod, rule triple_case_sum)
       (auto intro!: triple_fail triple_ret)
next
  case Ticked
  show ?thesis unfolding woken_def Ticked wake.case by (rule triple_ret) simp
next
  case ChildEnded
  have "keeps (covered nc) (child_ended os px nc cf sv c)" for c
    unfolding child_ended_def Let_def
    by (intro keeps_rules kept_by_readsD [OF px_calm [OF calm_states(4)]] cleanup_keeps [OF T cf])
  then show ?thesis
    unfolding woken_def ChildEnded wake.case
    by (intro triple_case_option triple_ret triple_bindE [where R = "\<lambda>_. covered nc"]) (auto intro: triple_ret)
qed

lemma supervise_loop_covers:
  assumes nc: "codec_ok nc" and T: "np_lease networkPaths = T"
    and cf: "cf_paths cf = networkPaths" "cf_interface cf = I" "clean_path (cf_resolver cf) \<noteq> Some T"
  shows "triple (covered nc) (supervise_loop os px nc sha cf hs sv) (\<lambda>r w. covered nc w \<and> (r = None \<longrightarrow> bare w)) (\<lambda>_. covered nc)"
proof (induction hs arbitrary: sv)
  case Nil
  show ?case by (simp add: triple_ret)
next
  case (Cons h hs)
  let ?Q = "\<lambda>r w. covered nc w \<and> (r = None \<longrightarrow> bare w)"
  show ?case
  proof (cases h)
    case (Round k)
    have next': "triple (?Q r) (case r of None \<Rightarrow> ret None | Some sv \<Rightarrow> supervise_loop os px nc sha cf hs sv) ?Q (\<lambda>_. covered nc)" for r
      using Cons.IH by (cases r) (auto intro!: triple_ret)
    show ?thesis
      unfolding Round supervise_loop.simps
      by (rule triple_bindE [OF poll_covers [OF T cf] triple_bindE [OF woken_covers [OF T cf] next']])
  next
    case (ClientEvent euid environment action)
    have "keeps (covered nc) (runEvent os nc euid environment action I (cf_resolver cf) networkPaths)"
      by (rule runEvent_covers [OF nc T networkPaths_distinct [unfolded T] cf(3)])
    then show ?thesis
      unfolding ClientEvent supervise_loop.simps cf(1,2)
      by (intro triple_seqE [OF triple_ignoreE Cons.IH])
  qed
qed

end

end
