(* ===== verification/Net_Memory.thy ===== *)
theory Net_Memory
  imports Net_Kept Persist_Memory
begin

text \<open>
  A network interface and its files in memory, an instance of the contract of \<open>lease_kernel\<close>:
  addresses and routes are the texts the commands were given, what is shown are lines like those
  of BusyBox, and a script of faults makes any operation fail before its effect or after it.
\<close>

subsection \<open>Lines of fields\<close>

declare decimal.simps [simp del]

lemma is_space_simps [simp]:
  "is_space CHR '' ''" "is_digit c \<Longrightarrow> \<not> is_space c" "\<not> is_space CHR ''.''" "\<not> is_space CHR ''/''" "\<not> is_space CHR ''-''"
  by (auto simp: is_space_def space_runes_def is_digit_def)

lemma not_digit [simp]: "\<not> is_digit CHR ''-''" "\<not> is_digit CHR ''/''" "\<not> is_digit newline"
  by (simp_all add: is_digit_def newline_def)

lemma Fields_word: "w \<noteq> [] \<Longrightarrow> (\<And>c. c \<in> set w \<Longrightarrow> \<not> is_space c) \<Longrightarrow> Fields w = [w]"
proof (induction w)
  case (Cons c w)
  then show ?case by (cases w) simp_all
qed simp

lemma Fields_cons: "w \<noteq> [] \<Longrightarrow> (\<And>c. c \<in> set w \<Longrightarrow> \<not> is_space c) \<Longrightarrow> Fields (w @ CHR '' '' # rest) = w # Fields rest"
proof (induction w)
  case (Cons c w)
  then show ?case by (cases w) simp_all
qed simp

lemma word_chars: "c \<in> set (decimal n) \<Longrightarrow> is_digit c"
  using decimal_plain by blast

lemma Itoa_chars: "c \<in> set (Itoa n) \<Longrightarrow> is_digit c \<or> c = CHR ''-''"
  by (auto simp: Itoa_def split: if_splits dest: word_chars)

lemma IPv4_String_chars: "c \<in> set (IPv4_String a) \<Longrightarrow> is_digit c \<or> c = CHR ''.''"
  by (auto simp: IPv4_String_def dest: word_chars)

lemma valid_chars: "validIPv4 a = Inr a \<Longrightarrow> c \<in> set a \<Longrightarrow> is_digit c \<or> c = CHR ''.''"
  using IPv4_String_chars by (auto simp: validIPv4_def split: option.splits if_splits)

lemma valid_nonempty: "validIPv4 a = Inr a \<Longrightarrow> a \<noteq> []"
  by (auto simp: validIPv4_def)

lemma word_no_space:
  assumes "validIPv4 a = Inr a"
  shows "c \<in> set a \<Longrightarrow> \<not> is_space c \<and> c \<noteq> newline" "c \<in> set (cidr a n) \<Longrightarrow> \<not> is_space c \<and> c \<noteq> newline"
proof -
  have p: "CHR ''.'' \<noteq> newline" "CHR ''/'' \<noteq> newline" "CHR ''-'' \<noteq> newline" by (simp_all add: newline_def)
  show 1: "c \<in> set a \<Longrightarrow> \<not> is_space c \<and> c \<noteq> newline" for c
    using valid_chars [OF assms, of c] p by auto
  show "c \<in> set (cidr a n) \<Longrightarrow> \<not> is_space c \<and> c \<noteq> newline"
    using 1 [of c] Itoa_chars [of c n] p by (auto simp: cidr_def)
qed

lemma Itoa_inject: "Itoa m = Itoa n \<longleftrightarrow> m = n"
proof
  assume e: "Itoa m = Itoa n"
  have v: "decimal i = decimal j \<Longrightarrow> i = j" for i j using decimal_value by metis
  have s: "decimal i \<noteq> CHR ''-'' # decimal j" for i j
    using word_chars [of "CHR ''-''" i] by fastforce
  consider "m < 0" "n < 0" | "m \<ge> 0" "n \<ge> 0" | "m < 0" "n \<ge> 0" | "m \<ge> 0" "n < 0" by linarith
  then show "m = n"
  proof cases
    case 1
    with e have "decimal (nat (- m)) = decimal (nat (- n))" by (simp add: Itoa_def)
    from v [OF this] 1 show ?thesis by simp
  next
    case 2
    with e have "decimal (nat m) = decimal (nat n)" by (simp add: Itoa_def)
    from v [OF this] 2 show ?thesis by simp
  next
    case 3
    with e have "CHR ''-'' # decimal (nat (- m)) = decimal (nat n)" by (simp add: Itoa_def)
    then show ?thesis using s [of "nat n" "nat (- m)"] by simp
  next
    case 4
    with e have "decimal (nat m) = CHR ''-'' # decimal (nat (- n))" by (simp add: Itoa_def)
    then show ?thesis using s [of "nat m" "nat (- n)"] by simp
  qed
qed simp

lemma cidr_inject: "cidr a m = cidr b n \<longleftrightarrow> a = b \<and> m = n"
proof
  assume e: "cidr a m = cidr b n"
  have t: "takeWhile (\<lambda>c. c \<noteq> CHR ''/'') (rev (cidr x k)) = rev (Itoa k)" for x k
  proof -
    have m: "c \<in> set (rev (Itoa k)) \<Longrightarrow> c \<noteq> CHR ''/''" for c
      using Itoa_chars [of c k] by auto
    have "rev (cidr x k) = rev (Itoa k) @ CHR ''/'' # rev x" by (simp add: cidr_def)
    moreover have "takeWhile (\<lambda>c. c \<noteq> CHR ''/'') (rev (Itoa k)) = rev (Itoa k)"
      by (rule takeWhile_eq_all_conv [THEN iffD2]) (rule ballI, rule m)
    ultimately show ?thesis
      using takeWhile_tail [of "\<lambda>c. c \<noteq> CHR ''/''" "CHR ''/''" "rev (Itoa k)" "rev x"] by (simp only: not_not refl simp_thms)
  qed
  from t [of a m] t [of b n] e have "rev (Itoa m) = rev (Itoa n)" by simp
  then have "m = n" by (simp add: Itoa_inject)
  with e show "a = b \<and> m = n" by (simp add: cidr_def)
qed simp

lemma split_on_join: "split_on sep (xs @ sep # ys) = split_on sep xs @ split_on sep ys"
  by (induction xs) (auto split: list.split simp: neq_Nil_conv)

lemma shown_line:
  assumes "x \<in> set xs" "newline \<notin> set (f x)"
  shows "f x \<in> set (split_on newline (concat (List.map (\<lambda>x. f x @ [newline]) xs)))"
  using assms(1)
proof (induction xs)
  case (Cons y xs)
  have "split_on newline (concat (List.map (\<lambda>x. f x @ [newline]) (y # xs))) =
      split_on newline (f y) @ split_on newline (concat (List.map (\<lambda>x. f x @ [newline]) xs))"
    by (simp add: split_on_join)
  with Cons split_on_append(2) [OF assms(2)] show ?case by auto
qed simp

subsection \<open>A network in memory\<close>

datatype node = File string | Link string

record mem_net =
  mn_addrs :: "string list"
  mn_routes :: "string list"
  mn_files :: "(path \<times> node) list"
  mn_temps :: "(path \<times> string) list"
  mn_handles :: "(nat \<times> path) list"
  mn_dirs :: "path list"
  mn_next :: nat
  mn_faults :: "fault list"
  mn_procs :: "(int \<times> string list \<times> string list) list"
  mn_pid :: int
  mn_clock :: int
  mn_status :: string

definition mn_faulty :: "(mem_net, 'a) act \<Rightarrow> (mem_net, 'a) act" where
  "mn_faulty m w = (case mn_faults w of
     Fails # fs \<Rightarrow> (Inl (Errorf ''input/output error''), w\<lparr>mn_faults := fs\<rparr>)
   | FailsAfter # fs \<Rightarrow> (Inl (Errorf ''input/output error''), snd (m (w\<lparr>mn_faults := fs\<rparr>)))
   | fs \<Rightarrow> m (w\<lparr>mn_faults := tl fs\<rparr>))"

definition mn_lines :: "('a \<Rightarrow> string) \<Rightarrow> 'a list \<Rightarrow> string" where
  "mn_lines f xs = concat (List.map (\<lambda>x. f x @ [newline]) xs)"

definition mn_address_line :: "string \<Rightarrow> string" where
  "mn_address_line x = ''inet '' @ x"

definition mn_route_line :: "string \<Rightarrow> string" where
  "mn_route_line v = ''default '' @ (if v = [] then [] else ''via '' @ v @ '' '') @ ''dev mlan0''"

text \<open>The commands, by the words of their arguments; they act on one interface. Any other program is \<^verbatim>\<open>wpa_cli\<close>.\<close>

definition mn_Run :: "string list \<Rightarrow> (mem_net, string) act" where
  "mn_Run args w = (let verb = take 4 (tl args) in
     if hd args \<noteq> busyboxPath then (Inr (mn_status w), w)
     else if verb = [''ip'', ''-4'', ''addr'', ''add''] then
       (let x = args ! 5 in if x \<in> set (mn_addrs w) then (Inl (Errorf ''exit status 2''), w) else (Inr [], w\<lparr>mn_addrs := x # mn_addrs w\<rparr>))
     else if verb = [''ip'', ''-4'', ''addr'', ''del''] then
       (let x = args ! 5 in if x \<in> set (mn_addrs w) then (Inr [], w\<lparr>mn_addrs := removeAll x (mn_addrs w)\<rparr>) else (Inl (Errorf ''exit status 2''), w))
     else if verb = [''ip'', ''-4'', ''addr'', ''show''] then
       (Inr (mn_lines mn_address_line (mn_addrs w)), w)
     else if verb = [''ip'', ''-4'', ''route'', ''add''] then
       (let v = (if args ! 6 = ''via'' then args ! 7 else []) in if v \<in> set (mn_routes w) then (Inl (Errorf ''exit status 2''), w) else (Inr [], w\<lparr>mn_routes := v # mn_routes w\<rparr>))
     else if verb = [''ip'', ''-4'', ''route'', ''del''] then
       (let v = (if args ! 6 = ''via'' then args ! 7 else []) in if v \<in> set (mn_routes w) then (Inr [], w\<lparr>mn_routes := removeAll v (mn_routes w)\<rparr>) else (Inl (Errorf ''exit status 2''), w))
     else if verb = [''ip'', ''-4'', ''route'', ''show''] then
       (Inr (mn_lines mn_route_line (mn_routes w)), w)
     else (Inl (Errorf ''exit status 1''), w))"

definition mn_info :: "bool \<Rightarrow> bool \<Rightarrow> u32 \<Rightarrow> nat \<Rightarrow> file_info" where
  "mn_info dir link perm n = \<lparr>fi_dir = dir, fi_symlink = link, fi_regular = (\<not> dir \<and> \<not> link), fi_uid = 0, fi_nlink = 1,
     fi_perm = perm, fi_special = False, fi_size = n, fi_mtime = 0, fi_id = 0, fi_block = False, fi_rdev = 0\<rparr>"

definition mn_Lstat :: "path \<Rightarrow> (mem_net, file_info) act" where
  "mn_Lstat p w = (
     if p \<in> set (mn_dirs w) then (Inr (mn_info True False 0x1C0 0), w)
     else if p = [''bin'', ''busybox''] then (Inr (mn_info False False 0x1ED 0), w)
     else case map_of (mn_files w) p of
       None \<Rightarrow> (Inl (Sentinel ErrNotExist), w)
     | Some (File c) \<Rightarrow> (Inr (mn_info False False 0x180 (length c)), w)
     | Some (Link tgt) \<Rightarrow> (Inr (mn_info False True 0x1FF (length tgt)), w))"

definition mn_ReadFile :: "path \<Rightarrow> (mem_net, string) act" where
  "mn_ReadFile p w = (case map_of (mn_files w) p of
     Some (File c) \<Rightarrow> (Inr c, w) | Some (Link tgt) \<Rightarrow> (Inl (Errorf ''is a link''), w) | None \<Rightarrow> (Inl (Sentinel ErrNotExist), w))"

definition mn_Readlink :: "path \<Rightarrow> (mem_net, string) act" where
  "mn_Readlink p w = (case map_of (mn_files w) p of Some (Link tgt) \<Rightarrow> (Inr tgt, w) | _ \<Rightarrow> (Inl (Errorf ''invalid argument''), w))"

definition mn_Remove :: "path \<Rightarrow> (mem_net, unit) act" where
  "mn_Remove p w = (
     if p \<in> fst ` set (mn_temps w) then (Inr (), w\<lparr>mn_temps := filter (\<lambda>e. fst e \<noteq> p) (mn_temps w)\<rparr>)
     else if p \<in> fst ` set (mn_files w) then (Inr (), w\<lparr>mn_files := filter (\<lambda>e. fst e \<noteq> p) (mn_files w)\<rparr>)
     else (Inl (Sentinel ErrNotExist), w))"

definition mn_handle :: "path \<Rightarrow> (mem_net, nat) act" where
  "mn_handle p w = (Inr (length (mn_handles w)), w\<lparr>mn_handles := (length (mn_handles w), p) # mn_handles w\<rparr>)"

definition mn_CreateTemp :: "path \<Rightarrow> string \<Rightarrow> (mem_net, nat \<times> string) act" where
  "mn_CreateTemp p pre w = (let name = pre @ replicate (Suc (mn_next w)) CHR ''0'' in
     map_prod (map_sum id (\<lambda>fd. (fd, name))) id
       (mn_handle (Join p name) (w\<lparr>mn_next := Suc (mn_next w), mn_temps := (Join p name, []) # mn_temps w\<rparr>)))"

text \<open>A handle writes the new file it was opened on; once the file is moved nothing writes it.\<close>

definition mn_Write :: "nat \<Rightarrow> string \<Rightarrow> (mem_net, unit) act" where
  "mn_Write fd x w = (case map_of (mn_handles w) fd of
     Some p \<Rightarrow> (case map_of (mn_temps w) p of
         Some c \<Rightarrow> (Inr (), w\<lparr>mn_temps := (p, c @ x) # mn_temps w\<rparr>) | None \<Rightarrow> (Inl (Errorf ''bad file descriptor''), w))
   | None \<Rightarrow> (Inl (Errorf ''bad file descriptor''), w))"

definition mn_Rename :: "path \<Rightarrow> path \<Rightarrow> (mem_net, unit) act" where
  "mn_Rename p q w = (case map_of (mn_temps w) p of
     Some c \<Rightarrow> (Inr (), w\<lparr>mn_temps := filter (\<lambda>e. fst e \<noteq> p) (mn_temps w), mn_files := (q, File c) # mn_files w\<rparr>)
   | None \<Rightarrow> (case map_of (mn_files w) p of
       Some n \<Rightarrow> (Inr (), w\<lparr>mn_files := (q, n) # filter (\<lambda>e. fst e \<noteq> p) (mn_files w)\<rparr>)
     | None \<Rightarrow> (Inl (Sentinel ErrNotExist), w)))"

definition mn_Symlink :: "string \<Rightarrow> path \<Rightarrow> (mem_net, unit) act" where
  "mn_Symlink tgt p w = (if map_of (mn_files w) p \<noteq> None then (Inl (Sentinel ErrExist), w)
     else (Inr (), w\<lparr>mn_files := (p, Link tgt) # mn_files w\<rparr>))"

definition mn_OpenFile :: "path \<Rightarrow> (mem_net, nat) act" where
  "mn_OpenFile p w = (if map_of (mn_files w) p = None then (Inl (Sentinel ErrNotExist), w) else mn_handle p w)"

definition memory_net_os :: "mem_net net_os" where
  "memory_net_os = \<lparr>no_Run = (\<lambda>a. mn_faulty (mn_Run a)), no_Lstat = (\<lambda>p. mn_faulty (mn_Lstat p)),
     no_ReadFile = (\<lambda>p. mn_faulty (mn_ReadFile p)), no_Remove = (\<lambda>p. mn_faulty (mn_Remove p)),
     no_CreateTemp = (\<lambda>p pre. mn_faulty (mn_CreateTemp p pre)), no_Chmod = (\<lambda>fd m. mn_faulty (ret ())),
     no_Write = (\<lambda>fd x. mn_faulty (mn_Write fd x)), no_Sync = (\<lambda>fd. mn_faulty (ret ())),
     no_Close = (\<lambda>fd. mn_faulty (ret ())), no_Rename = (\<lambda>a b. mn_faulty (mn_Rename a b)),
     no_Readlink = (\<lambda>p. mn_faulty (mn_Readlink p)), no_Symlink = (\<lambda>t p. mn_faulty (mn_Symlink t p)),
     no_Statfs = (\<lambda>p. mn_faulty (ret tmpfsMagic)), no_OpenFile = (\<lambda>p. mn_faulty (mn_OpenFile p)),
     no_FStat = (\<lambda>fd. mn_faulty (ret (mn_info False False 0x180 0))), no_Flock = (\<lambda>fd b. mn_faulty (ret ())),
     no_Unlock = (\<lambda>fd. mn_faulty (ret ()))\<rparr>"

text \<open>What the contract speaks of.\<close>

definition mn_addresses :: "mem_net \<Rightarrow> (string \<times> int) set" where
  "mn_addresses w = {(a, n). cidr a n \<in> set (mn_addrs w)}"

definition mn_routers :: "mem_net \<Rightarrow> string set" where
  "mn_routers w = set (mn_routes w)"

definition mn_kept :: "mem_net \<Rightarrow> string option" where
  "mn_kept w = (case map_of (mn_files w) (np_lease networkPaths) of Some (File c) \<Rightarrow> Some c | _ \<Rightarrow> None)"

definition mn_temp :: "mem_net \<Rightarrow> nat \<Rightarrow> path \<Rightarrow> string \<Rightarrow> bool" where
  "mn_temp w fd p c \<longleftrightarrow> map_of (mn_handles w) fd = Some p \<and> map_of (mn_temps w) p = Some c"

subsection \<open>The contract holds\<close>

lemma mn_faulty_cases:
  assumes "mn_faulty m w = (r, w')"
  obtains (skipped) fs e where "r = Inl e" "\<not> errors_is e ErrNotExist" "w' = w\<lparr>mn_faults := fs\<rparr>"
  | (lost) fs e q where "r = Inl e" "\<not> errors_is e ErrNotExist" "m (w\<lparr>mn_faults := fs\<rparr>) = (q, w')"
  | (ran) fs where "m (w\<lparr>mn_faults := fs\<rparr>) = (r, w')"
proof -
  consider fs where "mn_faults w = Fails # fs" | fs where "mn_faults w = FailsAfter # fs"
    | fs where "mn_faults w = Works # fs" | "mn_faults w = []"
    by (metis fault.exhaust list.exhaust)
  then show ?thesis
  proof cases
    case (2 fs)
    obtain q w2 where "m (w\<lparr>mn_faults := fs\<rparr>) = (q, w2)" by (rule prod.exhaust)
    with 2 assms show ?thesis by (intro lost) (auto simp: mn_faulty_def)
  qed (use assms skipped ran in \<open>auto simp: mn_faulty_def\<close>)
qed

lemma mn_state_frame [simp]:
  "mn_addresses (w\<lparr>mn_faults := fs\<rparr>) = mn_addresses w" "mn_routers (w\<lparr>mn_faults := fs\<rparr>) = mn_routers w" "mn_kept (w\<lparr>mn_faults := fs\<rparr>) = mn_kept w"
  "mn_addresses (w\<lparr>mn_temps := ts\<rparr>) = mn_addresses w" "mn_routers (w\<lparr>mn_temps := ts\<rparr>) = mn_routers w" "mn_kept (w\<lparr>mn_temps := ts\<rparr>) = mn_kept w"
  "mn_addresses (w\<lparr>mn_handles := hs\<rparr>) = mn_addresses w" "mn_routers (w\<lparr>mn_handles := hs\<rparr>) = mn_routers w" "mn_kept (w\<lparr>mn_handles := hs\<rparr>) = mn_kept w"
  "mn_addresses (w\<lparr>mn_next := k\<rparr>) = mn_addresses w" "mn_routers (w\<lparr>mn_next := k\<rparr>) = mn_routers w" "mn_kept (w\<lparr>mn_next := k\<rparr>) = mn_kept w"
  "mn_addresses (w\<lparr>mn_files := f\<rparr>) = mn_addresses w" "mn_routers (w\<lparr>mn_files := f\<rparr>) = mn_routers w"
  "mn_routers (w\<lparr>mn_addrs := a\<rparr>) = mn_routers w" "mn_kept (w\<lparr>mn_addrs := a\<rparr>) = mn_kept w"
  "mn_addresses (w\<lparr>mn_routes := v\<rparr>) = mn_addresses w" "mn_kept (w\<lparr>mn_routes := v\<rparr>) = mn_kept w"
  "mn_addresses (w\<lparr>mn_procs := ps\<rparr>) = mn_addresses w" "mn_routers (w\<lparr>mn_procs := ps\<rparr>) = mn_routers w" "mn_kept (w\<lparr>mn_procs := ps\<rparr>) = mn_kept w"
  "mn_addresses (w\<lparr>mn_pid := i\<rparr>) = mn_addresses w" "mn_routers (w\<lparr>mn_pid := i\<rparr>) = mn_routers w" "mn_kept (w\<lparr>mn_pid := i\<rparr>) = mn_kept w"
  "mn_addresses (w\<lparr>mn_clock := i\<rparr>) = mn_addresses w" "mn_routers (w\<lparr>mn_clock := i\<rparr>) = mn_routers w" "mn_kept (w\<lparr>mn_clock := i\<rparr>) = mn_kept w"
  "mn_temp (w\<lparr>mn_faults := fs\<rparr>) = mn_temp w"
  by (simp_all add: mn_addresses_def mn_routers_def mn_kept_def mn_temp_def fun_eq_iff)

lemma same_mn_faulty_view:
  assumes "same f m" "\<And>w fs. f (w\<lparr>mn_faults := fs\<rparr>) = f w"
  shows "same f (mn_faulty m)"
proof (rule sameI)
  fix w
  obtain r w' where "mn_faulty m w = (r, w')" by (rule prod.exhaust)
  moreover from this have "f w' = f w"
    by (cases rule: mn_faulty_cases) (use assms(2) sameD [OF assms(1)] in metis)+
  ultimately show "f (snd (mn_faulty m w)) = f w" by simp
qed

lemma same_mn_faulty:
  "same (\<lambda>w. (mn_addresses w, mn_routers w, mn_kept w)) m \<Longrightarrow> same (\<lambda>w. (mn_addresses w, mn_routers w, mn_kept w)) (mn_faulty m)"
  by (erule same_mn_faulty_view) simp

lemma same_ret: "same f (ret x)"
  by (simp add: same_def ret_def)

lemma mn_kept_files:
  "map_of (mn_files w') (np_lease networkPaths) = map_of (mn_files w) (np_lease networkPaths) \<Longrightarrow> mn_kept w' = mn_kept w"
  by (simp add: mn_kept_def)

lemma same_mn:
  "same (\<lambda>w. (mn_addresses w, mn_routers w, mn_kept w)) (mn_Lstat p)"
  "same (\<lambda>w. (mn_addresses w, mn_routers w, mn_kept w)) (mn_ReadFile p)"
  "same (\<lambda>w. (mn_addresses w, mn_routers w, mn_kept w)) (mn_Readlink p)"
  "same (\<lambda>w. (mn_addresses w, mn_routers w, mn_kept w)) (mn_CreateTemp p pre)"
  "same (\<lambda>w. (mn_addresses w, mn_routers w, mn_kept w)) (mn_OpenFile p)"
  "same (\<lambda>w. (mn_addresses w, mn_routers w, mn_kept w)) (mn_Write fd x)"
  by (auto simp: same_def mn_Lstat_def mn_ReadFile_def mn_Readlink_def mn_CreateTemp_def mn_OpenFile_def mn_handle_def
      mn_Write_def Let_def split: option.split node.split)

lemma same_mn_Symlink: "same (\<lambda>w. (mn_addresses w, mn_routers w, mn_kept w)) (mn_Symlink tgt p)"
  by (auto simp: same_def mn_Symlink_def mn_kept_def)

lemma map_of_filter_other: "q \<noteq> p \<Longrightarrow> map_of (filter (\<lambda>e. fst e \<noteq> p) xs) q = map_of xs q"
  by (induction xs) auto

lemma map_of_filter_gone: "map_of (filter (\<lambda>e. fst e \<noteq> p) xs) p = None"
  by (induction xs) auto

lemma same_mn_Rename:
  assumes "p \<noteq> np_lease networkPaths" "q \<noteq> np_lease networkPaths"
  shows "same (\<lambda>w. (mn_addresses w, mn_routers w, mn_kept w)) (mn_Rename p q)"
  using assms by (auto simp: same_def mn_Rename_def mn_kept_def map_of_filter_other split: option.split)

lemma same_mn_Remove:
  assumes "p \<noteq> np_lease networkPaths"
  shows "same (\<lambda>w. (mn_addresses w, mn_routers w, mn_kept w)) (mn_Remove p)"
  using assms by (auto simp: same_def mn_Remove_def mn_kept_def map_of_filter_other)

lemma mn_Run_simps:
  "mn_Run (busyboxPath # add_address i a n) w =
     (if cidr a n \<in> set (mn_addrs w) then (Inl (Errorf ''exit status 2''), w) else (Inr [], w\<lparr>mn_addrs := cidr a n # mn_addrs w\<rparr>))"
  "mn_Run (busyboxPath # del_address i a n) w =
     (if cidr a n \<in> set (mn_addrs w) then (Inr [], w\<lparr>mn_addrs := removeAll (cidr a n) (mn_addrs w)\<rparr>) else (Inl (Errorf ''exit status 2''), w))"
  "mn_Run (busyboxPath # add_route i v) w =
     (if v \<in> set (mn_routes w) then (Inl (Errorf ''exit status 2''), w) else (Inr [], w\<lparr>mn_routes := v # mn_routes w\<rparr>))"
  "mn_Run (busyboxPath # del_route i v) w =
     (if v \<in> set (mn_routes w) then (Inr [], w\<lparr>mn_routes := removeAll v (mn_routes w)\<rparr>) else (Inl (Errorf ''exit status 2''), w))"
  "mn_Run (busyboxPath # show_addresses i) w = (Inr (mn_lines mn_address_line (mn_addrs w)), w)"
  "mn_Run (busyboxPath # show_routes) w =
     (Inr (mn_lines mn_route_line (mn_routes w)), w)"
  by (simp_all add: mn_Run_def Let_def add_address_def del_address_def add_route_def del_route_def show_addresses_def show_routes_def)

lemma mn_address_shown:
  assumes x: "cidr a n \<in> set xs" and a: "validIPv4 a = Inr a"
  shows "addressPresent (mn_lines mn_address_line xs) a n"
proof -
  have c: "Fields (cidr a n) = [cidr a n]"
    using word_no_space(2) [OF a] by (intro Fields_word) (auto simp: cidr_def)
  have "Fields (''inet'' @ CHR '' '' # cidr a n) = ''inet'' # Fields (cidr a n)"
    by (rule Fields_cons) (auto simp: is_space_def space_runes_def)
  then have f: "Fields (''inet '' @ cidr a n) = [''inet'', cidr a n]" by (simp add: c)
  have "newline \<notin> set (''inet '' @ cidr a n)" using word_no_space(2) [OF a] by (auto simp: newline_def)
  from shown_line [where f = "\<lambda>x. ''inet '' @ x", OF x this]
  show ?thesis unfolding mn_lines_def mn_address_line_def addressPresent_def neighbours_def by (rule bexI [rotated]) (simp only: f list.sel zip_Cons_Cons zip_Nil set_simps, simp)
qed

text \<open>A default route is shown with its router, and with the router alone.\<close>

lemma mn_route_shown:
  assumes x: "v \<in> set vs" and v: "validIPv4 v = Inr v"
  shows "routePresent (mn_lines mn_route_line vs) v ''mlan0''"
proof -
  have words: "Fields (''default'' @ CHR '' '' # r) = ''default'' # Fields r" "Fields (''via'' @ CHR '' '' # r) = ''via'' # Fields r"
    "Fields (''dev'' @ CHR '' '' # r) = ''dev'' # Fields r" "Fields ''mlan0'' = [''mlan0'']" for r
    by ((rule Fields_cons | rule Fields_word), simp, auto simp: is_space_def space_runes_def)+
  have n: "v \<noteq> []" by (rule valid_nonempty [OF v])
  then have w: "Fields (v @ CHR '' '' # r) = v # Fields r" for r
    by (rule Fields_cons) (use word_no_space(1) [OF v] in blast)
  have e: "mn_route_line v = ''default'' @ CHR '' '' # ''via'' @ CHR '' '' # v @ CHR '' '' # ''dev'' @ CHR '' '' # ''mlan0''" using n by (simp add: mn_route_line_def)
  have f: "Fields (mn_route_line v) = [''default'', ''via'', v, ''dev'', ''mlan0'']"
    by (subst e, subst words, subst words, subst w, subst words, subst words) (rule refl)
  have "newline \<notin> set (mn_route_line v)" using word_no_space(1) [OF v] by (auto simp: newline_def mn_route_line_def)
  from shown_line [where f = mn_route_line, OF x this]
  show ?thesis unfolding mn_lines_def routePresent_def
    by (rule bexI [rotated], unfold f) (simp add: route_line_def neighbours_def n)
qed

lemma Join_lease: "Join p (pre @ replicate (Suc k) CHR ''0'') \<noteq> np_lease networkPaths"
proof
  assume "Join p (pre @ replicate (Suc k) CHR ''0'') = np_lease networkPaths"
  then have e: "pre @ replicate (Suc k) CHR ''0'' = ''lease.json''" by (simp add: Join_def networkPaths_def)
  have "last (pre @ replicate (Suc k) CHR ''0'') = CHR ''0''" by (simp del: replicate_Suc)
  then show False unfolding e by simp
qed

lemma mn_run_laws:
  "no_Run memory_net_os (busyboxPath # add_address ''mlan0'' a n) w = (res, w') \<Longrightarrow>
     mn_addresses w' \<subseteq> insert (a, n) (mn_addresses w) \<and> mn_routers w' \<subseteq> mn_routers w \<and> mn_kept w' = mn_kept w"
  "no_Run memory_net_os (busyboxPath # add_route ''mlan0'' v) w = (res, w') \<Longrightarrow>
     mn_addresses w' \<subseteq> mn_addresses w \<and> mn_routers w' \<subseteq> insert v (mn_routers w) \<and> mn_kept w' = mn_kept w"
  "no_Run memory_net_os (busyboxPath # del_address ''mlan0'' a n) w = (res, w') \<Longrightarrow>
     mn_addresses w' \<subseteq> mn_addresses w \<and> mn_routers w' \<subseteq> mn_routers w \<and> mn_kept w' = mn_kept w \<and>
     ((\<exists>out. res = Inr out) \<longrightarrow> (a, n) \<notin> mn_addresses w')"
  "no_Run memory_net_os (busyboxPath # del_route ''mlan0'' v) w = (res, w') \<Longrightarrow>
     mn_addresses w' \<subseteq> mn_addresses w \<and> mn_routers w' \<subseteq> mn_routers w \<and> mn_kept w' = mn_kept w \<and>
     ((\<exists>out. res = Inr out) \<longrightarrow> v \<notin> mn_routers w')"
  unfolding memory_net_os_def net_os.simps
  by (erule mn_faulty_cases;
      auto simp: mn_Run_simps mn_addresses_def mn_routers_def mn_kept_def cidr_inject split: if_splits)+

lemma mn_show_laws:
  "no_Run memory_net_os (busyboxPath # show_addresses ''mlan0'') w = (res, w') \<Longrightarrow>
     mn_addresses w' = mn_addresses w \<and> mn_routers w' = mn_routers w \<and> mn_kept w' = mn_kept w \<and>
     (\<forall>output a n. res = Inr output \<and> (a, n) \<in> mn_addresses w \<and> validIPv4 a = Inr a \<longrightarrow> addressPresent output a n)"
  "no_Run memory_net_os (busyboxPath # show_routes) w = (res, w') \<Longrightarrow>
     mn_addresses w' = mn_addresses w \<and> mn_routers w' = mn_routers w \<and> mn_kept w' = mn_kept w \<and>
     (\<forall>output v. res = Inr output \<and> v \<in> mn_routers w \<and> validIPv4 v = Inr v \<longrightarrow> routePresent output v ''mlan0'')"
  unfolding memory_net_os_def net_os.simps
  by (erule mn_faulty_cases;
      auto simp: mn_Run_simps mn_addresses_def mn_routers_def mn_kept_def intro: mn_address_shown mn_route_shown)+

lemma mn_same_ops:
  "same (\<lambda>w. (mn_addresses w, mn_routers w, mn_kept w)) (no_Lstat memory_net_os p)"
  "same (\<lambda>w. (mn_addresses w, mn_routers w, mn_kept w)) (no_ReadFile memory_net_os p)"
  "same (\<lambda>w. (mn_addresses w, mn_routers w, mn_kept w)) (no_Readlink memory_net_os p)"
  "same (\<lambda>w. (mn_addresses w, mn_routers w, mn_kept w)) (no_Statfs memory_net_os p)"
  "same (\<lambda>w. (mn_addresses w, mn_routers w, mn_kept w)) (no_FStat memory_net_os fd)"
  "same (\<lambda>w. (mn_addresses w, mn_routers w, mn_kept w)) (no_OpenFile memory_net_os p)"
  "same (\<lambda>w. (mn_addresses w, mn_routers w, mn_kept w)) (no_Flock memory_net_os fd b)"
  "same (\<lambda>w. (mn_addresses w, mn_routers w, mn_kept w)) (no_Unlock memory_net_os fd)"
  "same (\<lambda>w. (mn_addresses w, mn_routers w, mn_kept w)) (no_CreateTemp memory_net_os p pre)"
  "same (\<lambda>w. (mn_addresses w, mn_routers w, mn_kept w)) (no_Symlink memory_net_os tgt p)"
  "same (\<lambda>w. (mn_addresses w, mn_routers w, mn_kept w)) (no_Chmod memory_net_os fd mode)"
  "same (\<lambda>w. (mn_addresses w, mn_routers w, mn_kept w)) (no_Write memory_net_os fd x)"
  "same (\<lambda>w. (mn_addresses w, mn_routers w, mn_kept w)) (no_Sync memory_net_os fd)"
  "same (\<lambda>w. (mn_addresses w, mn_routers w, mn_kept w)) (no_Close memory_net_os fd)"
  "p \<noteq> np_lease networkPaths \<Longrightarrow> q \<noteq> np_lease networkPaths \<Longrightarrow>
    same (\<lambda>w. (mn_addresses w, mn_routers w, mn_kept w)) (no_Rename memory_net_os p q)"
  "p \<noteq> np_lease networkPaths \<Longrightarrow> same (\<lambda>w. (mn_addresses w, mn_routers w, mn_kept w)) (no_Remove memory_net_os p)"
  unfolding memory_net_os_def net_os.simps
  by (intro same_mn_faulty same_mn same_ret same_mn_Symlink same_mn_Rename same_mn_Remove; assumption)+

lemma mn_file_laws:
  "no_Lstat memory_net_os (np_lease networkPaths) w = (Inl e, w') \<Longrightarrow> errors_is e ErrNotExist \<Longrightarrow> mn_kept w = None"
  "no_ReadFile memory_net_os (np_lease networkPaths) w = (Inl e, w') \<Longrightarrow> errors_is e ErrNotExist \<Longrightarrow> mn_kept w = None"
  "no_ReadFile memory_net_os (np_lease networkPaths) w = (Inr c, w') \<Longrightarrow> mn_kept w = Some c"
  unfolding memory_net_os_def net_os.simps
  by (erule mn_faulty_cases; auto simp: mn_Lstat_def mn_ReadFile_def mn_kept_def split: option.splits node.splits if_splits)+

lemma mn_temp_laws:
  "no_CreateTemp memory_net_os p pre w = (Inr (fd, name), w') \<Longrightarrow> mn_temp w' fd (Join p name) [] \<and> Join p name \<noteq> np_lease networkPaths"
  "no_Chmod memory_net_os fd mode w = (Inr u, w') \<Longrightarrow> mn_temp w fd p c \<Longrightarrow> mn_temp w' fd p c"
  "no_Write memory_net_os fd x w = (Inr u, w') \<Longrightarrow> mn_temp w fd p c \<Longrightarrow> mn_temp w' fd p (c @ x)"
  "no_Sync memory_net_os fd w = (Inr u, w') \<Longrightarrow> mn_temp w fd p c \<Longrightarrow> mn_temp w' fd p c"
  "no_Close memory_net_os fd w = (Inr u, w') \<Longrightarrow> mn_temp w fd p c \<Longrightarrow> mn_temp w' fd p c"
  unfolding memory_net_os_def net_os.simps
  by (erule mn_faulty_cases; use Join_lease in \<open>auto simp: mn_CreateTemp_def mn_handle_def mn_Write_def mn_temp_def ret_def Let_def\<close>)+

lemma mn_Rename_temp:
  assumes "mn_Rename p (np_lease networkPaths) v = (r, v')" "mn_temp v fd p c"
  shows "mn_addresses v' = mn_addresses v \<and> mn_routers v' = mn_routers v \<and> mn_kept v' = Some c"
  using assms by (auto simp: mn_Rename_def mn_temp_def mn_kept_def)

lemma mn_move_laws:
  "no_Rename memory_net_os p (np_lease networkPaths) w = (r, w') \<Longrightarrow> mn_temp w fd p c \<Longrightarrow>
     mn_addresses w' = mn_addresses w \<and> mn_routers w' = mn_routers w \<and> (mn_kept w' = Some c \<or> (\<exists>e. r = Inl e) \<and> mn_kept w' = mn_kept w)"
  "no_Remove memory_net_os (np_lease networkPaths) w = (r, w') \<Longrightarrow>
     mn_addresses w' = mn_addresses w \<and> mn_routers w' = mn_routers w \<and> (mn_kept w' = None \<or> mn_kept w' = mn_kept w)"
  unfolding memory_net_os_def net_os.simps
  subgoal by (erule mn_faulty_cases) (use mn_Rename_temp in \<open>fastforce\<close>)+
  subgoal by (erule mn_faulty_cases)
      (auto simp: mn_Remove_def mn_kept_def map_of_filter_gone split: if_splits)
  done

interpretation memory_net: lease_kernel memory_net_os "''mlan0''" "np_lease networkPaths" mn_addresses mn_routers mn_kept mn_temp
  by unfold_locales
    (rule mn_same_ops mn_run_laws mn_show_laws mn_file_laws mn_temp_laws mn_move_laws; assumption)+

subsection \<open>The lease is never forgotten\<close>

text \<open>(C11) The service never loses track of what it put on the interface. From a bare interface and
  over every sequence of DHCP events and clearings, whichever commands and file operations fail
  on the way, an address or a default route is on the interface only if the lease file holds a
  valid lease with that address and that router; and whenever the supervisor's clearing reports
  success, the interface is bare again.
\<close>

theorem lease_never_forgotten:
  assumes kernel: "lease_kernel os I (np_lease networkPaths) addrs routes kept temp"
    and codec: "codec_ok nc" and link: "clean_path resolverLink \<noteq> Some (np_lease networkPaths)"
    and start: "addrs w = {}" "routes w = {}"
    and run: "w' = lease_run os nc I resolverLink steps w"
  shows "(addrs w' = {} \<and> routes w' = {} \<or>
      (\<exists>c l. kept w' = Some c \<and> nc_Decode nc c = Some l \<and> validateStoredLease l I = Inr () \<and>
        addrs w' \<subseteq> {(Address l, Prefix l)} \<and> routes w' \<subseteq> {Router l})) \<and>
    (\<forall>w''. clear_locked os nc networkPaths I resolverLink w' = (Inr (), w'') \<longrightarrow> addrs w'' = {} \<and> routes w'' = {})"
proof -
  note defs = lease_kernel.covered_def [OF kernel] lease_kernel.bare_def [OF kernel] lease_kernel.holds_def [OF kernel]
    lease_kernel.of_lease_def [OF kernel]
  have c: "lease_kernel.covered I addrs routes kept nc w'"
    unfolding run by (rule lease_kernel.lease_run_covers [OF kernel codec refl link]) (simp add: defs start)
  show ?thesis
    using c lease_kernel.clear_locked_bare [OF kernel refl link _ c] unfolding defs by blast
qed

text \<open>Everything fails once the address is on the interface, also its removal: the file names it.\<close>

definition demo_lease :: lease where
  "demo_lease = \<lparr>Interface = ''mlan0'', Address = ''10.0.0.2'', Prefix = 24, Router = ''10.0.0.1'', DNS = [''10.0.0.1''], LeaseTime = 60\<rparr>"

definition demo_owner :: ownerRecord where
  "demo_owner = \<lparr>PID = 7, StartTime = 1, Token = replicate 32 CHR ''0'', ow_Interface = ''mlan0'', Script = ''/s'', ResolverLink = ''/run/resolv.conf''\<rparr>"

definition demo_codec :: net_codec where
  "demo_codec = \<lparr>nc_Marshal = (\<lambda>l. if l = demo_lease then Some ''L'' else None),
     nc_Decode = (\<lambda>s. if s = ''L'' @ [newline] then Some demo_lease else None),
     nc_MarshalOwner = (\<lambda>r. if r = demo_owner then Some ''O'' else None),
     nc_DecodeOwner = (\<lambda>s. if s = ''O'' @ [newline] then Some demo_owner else None)\<rparr>"

definition demo_net :: "fault list \<Rightarrow> mem_net" where
  "demo_net faults = \<lparr>mn_addrs = [], mn_routes = [], 
     mn_files = [(np_owner networkPaths, File (''O'' @ [newline])), (np_lock networkPaths, File [])], mn_temps = [], mn_handles = [],
     mn_dirs = [runtimeDirectory, [''run'']], mn_next = 0, mn_faults = faults, mn_procs = [], mn_pid = 7, mn_clock = 0, mn_status = ''wpa_state=COMPLETED''\<rparr>"

definition demo_environment :: "string list" where
  "demo_environment = [''interface=mlan0'', ''ip=10.0.0.2'', ''subnet=255.255.255.0'', ''router=10.0.0.1'',
     ''dns=10.0.0.1'', ''lease=60'', ''NETWORKD_OWNER='' @ replicate 32 CHR ''0'']"

lemma demo_codec_ok: "codec_ok demo_codec"
  by (simp add: codec_ok_def demo_codec_def)

lemma demo_bound:
  "mn_addrs (lease_run memory_net_os demo_codec ''mlan0'' ''/run/resolv.conf'' [Event 0 demo_environment ''bound'']
     (demo_net (replicate 19 Works @ replicate 60 Fails))) = [''10.0.0.2/24'']"
  by code_simp

theorem lease_never_forgotten_witness:
  "let w = lease_run memory_net_os demo_codec ''mlan0'' ''/run/resolv.conf'' [Event 0 demo_environment ''bound'']
       (demo_net (replicate 19 Works @ replicate 60 Fails)) in
     mn_addresses w \<noteq> {} \<and>
     (\<exists>c l. mn_kept w = Some c \<and> nc_Decode demo_codec c = Some l \<and> validateStoredLease l ''mlan0'' = Inr () \<and>
       mn_addresses w \<subseteq> {(Address l, Prefix l)} \<and> mn_routers w \<subseteq> {Router l})"
proof -
  let ?w = "lease_run memory_net_os demo_codec ''mlan0'' ''/run/resolv.conf'' [Event 0 demo_environment ''bound'']
       (demo_net (replicate 19 Works @ replicate 60 Fails))"
  have "cidr ''10.0.0.2'' 24 = ''10.0.0.2/24''" by code_simp
  then have a: "mn_addresses ?w \<noteq> {}" unfolding mn_addresses_def demo_bound by force
  have l: "clean_path ''/run/resolv.conf'' \<noteq> Some (np_lease networkPaths)" by code_simp
  have s: "mn_addresses (demo_net fs) = {}" "mn_routers (demo_net fs) = {}" for fs
    by (simp_all add: demo_net_def mn_addresses_def mn_routers_def)
  from lease_never_forgotten [OF memory_net.lease_kernel_axioms demo_codec_ok l s refl] a
  show ?thesis unfolding Let_def by blast
qed

end
