(* ===== verification/Net_Machine.thy ===== *)
theory Net_Machine
  imports Net_Supervised Net_Memory
begin

text \<open>
  A process table beside the network in memory, an instance of the contract of the supervisor,
  and the safety of a supervised run, with one that is evaluated.
\<close>

subsection \<open>Processes in memory\<close>

definition mn_clients :: "mem_net \<Rightarrow> int set" where
  "mn_clients w = fst ` set (mn_procs w)"

definition mn_ended :: "int \<Rightarrow> mem_net \<Rightarrow> mem_net" where
  "mn_ended pid w = w\<lparr>mn_procs := filter (\<lambda>e. fst e \<noteq> pid) (mn_procs w)\<rparr>"

definition mn_of_process :: "(string list \<times> string list \<Rightarrow> string) \<Rightarrow> int \<Rightarrow> (mem_net, string) act" where
  "mn_of_process f pid w = (case map_of (mn_procs w) pid of None \<Rightarrow> (Inl (Sentinel ErrNotExist), w) | Some p \<Rightarrow> (Inr (f p), w))"

definition null_fields :: "string list \<Rightarrow> string" where
  "null_fields ws = concat (List.map (\<lambda>x. x @ [CHR 0x00]) ws)"

definition mn_Start :: "string list \<Rightarrow> string list \<Rightarrow> (mem_net, int) act" where
  "mn_Start args env w = (Inr (mn_pid w), w\<lparr>mn_procs := (mn_pid w, args, env) # mn_procs w, mn_pid := mn_pid w + 1\<rparr>)"

text \<open>A client ends when it is signalled.\<close>

definition mn_Signal :: "int \<Rightarrow> (mem_net, unit) act" where
  "mn_Signal pid w = (if pid \<in> mn_clients w then (Inr (), mn_ended pid w) else (Inl (Sentinel ErrProcessDone), w))"

definition mn_Exited :: "int \<Rightarrow> (mem_net, bool) act" where
  "mn_Exited pid w = (Inr (pid \<notin> mn_clients w), w)"

definition mn_Wait :: "int \<Rightarrow> (mem_net, unit) act" where
  "mn_Wait pid w = (Inr (), mn_ended pid w)"

definition mn_Now :: "(mem_net, int) act" where
  "mn_Now w = (Inr (mn_clock w), w\<lparr>mn_clock := mn_clock w + second\<rparr>)"

definition mn_sock :: "string \<Rightarrow> sock_info" where
  "mn_sock p = file_info.extend (mn_info (p = ''/run/wpa'') False 0x1C0 0)
     \<lparr>fi_gid = 0, fi_socket = (p \<noteq> ''/run/wpa''), fi_dev = 3\<rparr>"

definition memory_proc_os :: "mem_net proc_os" where
  "memory_proc_os = \<lparr>px_Status = (\<lambda>i. mn_faulty (mn_of_process (\<lambda>p. ''Uid: 0 0'') i)),
     px_Stat = (\<lambda>i. mn_faulty (mn_of_process (\<lambda>p. ''7 (udhcpc) '' @ concat (replicate 19 ''0 '') @ ''1'') i)),
     px_Cmdline = (\<lambda>i. mn_faulty (mn_of_process (\<lambda>p. null_fields (fst p)) i)),
     px_Environ = (\<lambda>i. mn_faulty (mn_of_process (\<lambda>p. null_fields (snd p)) i)),
     px_Executable = (\<lambda>i. mn_faulty (ret 1)), px_File = (\<lambda>p. mn_faulty (ret (if p = busyboxPath then 1 else 2))),
     px_Random = (\<lambda>n. mn_faulty (ret (replicate n 0))), px_Start = mn_Start, px_Signal = mn_Signal, px_Kill = mn_Signal,
     px_Exited = mn_Exited, px_Wait = mn_Wait, px_IsDir = (\<lambda>p w. (Inr (p \<in> set (mn_dirs w)), w)),
     px_Mkdir = (\<lambda>p m. fail (Sentinel ErrExist)), px_Lstat = (\<lambda>p. mn_faulty (ret (mn_sock p))), px_Now = mn_Now\<rparr>"

lemma mn_clients_frame [simp]:
  "mn_clients (w\<lparr>mn_faults := fs\<rparr>) = mn_clients w" "mn_clients (w\<lparr>mn_clock := t\<rparr>) = mn_clients w"
  "mn_clients (mn_ended pid w) = mn_clients w - {pid}"
  "mn_addresses (mn_ended pid w) = mn_addresses w" "mn_routers (mn_ended pid w) = mn_routers w" "mn_kept (mn_ended pid w) = mn_kept w"
  by (auto simp: mn_clients_def mn_ended_def)

lemma mn_os_clients: "kept_by_os memory_net_os (\<lambda>w. mn_clients w \<subseteq> S)"
  unfolding kept_by_os_def memory_net_os_def net_os.simps
  by (intro conjI allI same_keeps [where f = mn_clients] same_mn_faulty_view same_ret mn_clients_frame;
      auto simp: same_def mn_clients_def mn_Run_def mn_Lstat_def mn_ReadFile_def mn_Remove_def mn_CreateTemp_def mn_handle_def
        mn_Write_def mn_Rename_def mn_Readlink_def mn_Symlink_def mn_OpenFile_def Let_def split: option.split node.split)

lemma same_mn_of_process: "same f (mn_of_process g pid)"
  by (auto simp: same_def mn_of_process_def split: option.split)

lemma mn_read_clients: "kept_by_reads memory_proc_os (\<lambda>w. mn_clients w \<subseteq> S)"
  unfolding kept_by_reads_def memory_proc_os_def proc_os.simps
proof (intro conjI allI)
  show "keeps (\<lambda>w. mn_clients w \<subseteq> S) (mn_Signal i)" "keeps (\<lambda>w. mn_clients w \<subseteq> S) (mn_Signal i)" "keeps (\<lambda>w. mn_clients w \<subseteq> S) (mn_Wait i)"
    "keeps (\<lambda>w. mn_clients w \<subseteq> S) (mn_Exited i)" "keeps (\<lambda>w. mn_clients w \<subseteq> S) (\<lambda>w. (Inr (p \<in> set (mn_dirs w)), w))"
    "keeps (\<lambda>w. mn_clients w \<subseteq> S) (fail (Sentinel ErrExist))" "keeps (\<lambda>w. mn_clients w \<subseteq> S) mn_Now" for i p
    by (rule keepsI; auto simp: mn_Signal_def mn_Wait_def mn_Exited_def mn_Now_def fail_def)+
qed (rule same_keeps, rule same_mn_faulty_view, (rule same_ret | rule same_mn_of_process), simp)+

lemma mn_read_network: "kept_by_reads memory_proc_os (\<lambda>w. mn_addresses w = A \<and> mn_routers w = V \<and> mn_kept w = K)"
  unfolding kept_by_reads_def memory_proc_os_def proc_os.simps
proof (intro conjI allI)
  let ?P = "\<lambda>w. mn_addresses w = A \<and> mn_routers w = V \<and> mn_kept w = K"
  show "keeps ?P (mn_Signal i)" "keeps ?P (mn_Signal i)" "keeps ?P (mn_Wait i)" "keeps ?P (mn_Exited i)"
    "keeps ?P (\<lambda>w. (Inr (p \<in> set (mn_dirs w)), w))" "keeps ?P (fail (Sentinel ErrExist))" "keeps ?P mn_Now" for i p
    by (rule keepsI; auto simp: mn_Signal_def mn_Wait_def mn_Exited_def mn_Now_def fail_def)+
qed (rule same_keeps [where f = "\<lambda>w. (mn_addresses w, mn_routers w, mn_kept w)" and P = "\<lambda>(a, r, k). a = A \<and> r = V \<and> k = K", unfolded prod.case],
     rule same_mn_faulty_view, (rule same_ret | rule same_mn_of_process), simp)+

lemma mn_start_laws:
  "keeps (\<lambda>w. mn_addresses w = A \<and> mn_routers w = V \<and> mn_kept w = K) (px_Start memory_proc_os args env)"
  "px_Start memory_proc_os args env w = (r, w') \<Longrightarrow> mn_clients w' \<subseteq> (case r of Inl _ \<Rightarrow> mn_clients w | Inr pid \<Rightarrow> insert pid (mn_clients w))"
proof -
  have c: "mn_clients (w\<lparr>mn_procs := (mn_pid w, args, env) # mn_procs w, mn_pid := mn_pid w + 1\<rparr>) = insert (mn_pid w) (mn_clients w)"
    by (simp add: mn_clients_def)
  show "keeps (\<lambda>w. mn_addresses w = A \<and> mn_routers w = V \<and> mn_kept w = K) (px_Start memory_proc_os args env)"
    by (rule keepsI) (simp add: memory_proc_os_def mn_Start_def)
  show "mn_clients w' \<subseteq> (case r of Inl _ \<Rightarrow> mn_clients w | Inr pid \<Rightarrow> insert pid (mn_clients w))"
    if "px_Start memory_proc_os args env w = (r, w')"
    using that c by (auto simp: memory_proc_os_def mn_Start_def)
qed

lemma mn_supplicant:
  "keeps (\<lambda>w. mn_addresses w = A \<and> mn_routers w = V \<and> mn_kept w = K) (no_Run memory_net_os (wpaCLIPath # words))"
proof (rule keepsI)
  fix w assume w: "mn_addresses w = A \<and> mn_routers w = V \<and> mn_kept w = K"
  obtain r w' where run: "mn_faulty (mn_Run (wpaCLIPath # words)) w = (r, w')" by (rule prod.exhaust)
  from run have "mn_addresses w' = A \<and> mn_routers w' = V \<and> mn_kept w' = K"
    by (cases rule: mn_faulty_cases) (use w in \<open>auto simp: mn_Run_def wpaCLIPath_def busyboxPath_def\<close>)
  then show "mn_addresses (snd (no_Run memory_net_os (wpaCLIPath # words) w)) = A \<and>
      mn_routers (snd (no_Run memory_net_os (wpaCLIPath # words) w)) = V \<and> mn_kept (snd (no_Run memory_net_os (wpaCLIPath # words) w)) = K"
    using run by (simp add: memory_net_os_def)
qed

lemma mn_process_laws:
  "px_Wait memory_proc_os pid w = (q, w') \<Longrightarrow> mn_clients w' \<subseteq> mn_clients w - {pid}"
  "px_Exited memory_proc_os pid w = (x, w') \<Longrightarrow> \<exists>b. x = Inr b \<and> (b \<longrightarrow> pid \<notin> mn_clients w')"
  "px_Signal memory_proc_os pid w = (Inl e, w') \<or> px_Kill memory_proc_os pid w = (Inl e, w') \<Longrightarrow> errors_is e ErrProcessDone \<or> errors_is e ESRCH"
  "px_Now memory_proc_os w = (now, w') \<Longrightarrow> \<exists>t. now = Inr t"
  by (auto simp: memory_proc_os_def mn_Wait_def mn_Exited_def mn_Signal_def mn_Now_def split: if_splits)

interpretation memory_machine: supervisor_kernel memory_net_os "''mlan0''" "np_lease networkPaths" mn_addresses mn_routers mn_kept mn_temp
    memory_proc_os mn_clients
  by unfold_locales
    (rule mn_os_clients mn_read_clients mn_read_network mn_start_laws mn_supplicant mn_process_laws; assumption)+

subsection \<open>A supervised run\<close>

text \<open>(C5) The supervisor never loses a DHCP client or an address. From a bare interface, over every
  sequence of polls, wake-ups, ends of the client and DHCP events, and whichever commands, file
  operations and process inspections fail: while the supervisor runs, the only client running is
  the one it watches, with the station associated or its removal pending, and its retry delay is
  between one and thirty seconds; however it returns, no client is left running; when it returns
  without an error, the interface is bare; and at every moment an address or default route on the
  interface is that of the valid lease in the lease file.
\<close>

theorem supervision_is_safe:
  assumes kernel: "supervisor_kernel os (cf_interface cf) (np_lease networkPaths) addrs routes kept temp px clients"
    and codec: "codec_ok nc" and paths: "cf_paths cf = networkPaths"
    and link: "clean_path (cf_resolver cf) \<noteq> Some (np_lease networkPaths)"
    and start: "addrs w = {}" "routes w = {}" "clients w = {}"
    and run: "supervise_loop os px nc sha cf hs new_supervisor w = (r, w')"
  shows "(case r of
      Inr (Some sv) \<Rightarrow> clients w' \<subseteq> child_pids (sv_child sv) \<and>
        (sv_child sv \<noteq> None \<longrightarrow> connected (sv_state sv) \<or> sv_cleanupPending sv) \<and>
        1000000000 \<le> sv_retryDelay sv \<and> sv_retryDelay sv \<le> 30000000000
    | Inr None \<Rightarrow> clients w' = {} \<and> addrs w' = {} \<and> routes w' = {}
    | Inl e \<Rightarrow> clients w' = {}) \<and>
    (addrs w' = {} \<and> routes w' = {} \<or>
      (\<exists>c l. kept w' = Some c \<and> nc_Decode nc c = Some l \<and> validateStoredLease l (cf_interface cf) = Inr () \<and>
        addrs w' \<subseteq> {(Address l, Prefix l)} \<and> routes w' \<subseteq> {Router l}))"
proof -
  note lease = supervisor_kernel.axioms(1) [OF kernel]
  note defs = lease_kernel.covered_def [OF lease] lease_kernel.bare_def [OF lease] lease_kernel.holds_def [OF lease]
    lease_kernel.of_lease_def [OF lease]
  have c: "lease_kernel.covered (cf_interface cf) addrs routes kept nc w" by (simp add: defs start)
  have f: "clients w \<subseteq> child_pids (sv_child new_supervisor)" by (simp add: start new_supervisor_def)
  note few = supervisor_kernel.supervise_loop_few [OF kernel good_new]
  note network = supervisor_kernel.supervise_loop_covers [OF kernel codec refl paths refl link]
  show ?thesis
  proof (cases r)
    case (Inl e)
    with run have e: "supervise_loop os px nc sha cf hs new_supervisor w = (Inl e, w')" by simp
    from tripleD_error [OF few f e] tripleD_error [OF network c e] show ?thesis unfolding Inl sum.case defs by blast
  next
    case (Inr q)
    with run have v: "supervise_loop os px nc sha cf hs new_supervisor w = (Inr q, w')" by simp
    from tripleD_value [OF few f v] tripleD_value [OF network c v] show ?thesis unfolding Inr sum.case defs by (cases q) (auto simp: good_def second_def)
  qed
qed

text \<open>The client is started, its lease is bound, and the supervisor is terminated.\<close>

definition demo_config :: net_config where
  "demo_config = \<lparr>cf_interface = ''mlan0'', cf_control = ''/run/wpa'', cf_resolver = ''/run/resolv.conf'', cf_script = ''/s'',
     cf_paths = networkPaths\<rparr>"

definition demo_supervised :: "happening list \<Rightarrow> (go_error + supervisor option) \<times> mem_net" where
  "demo_supervised hs = supervise_loop memory_net_os memory_proc_os demo_codec (\<lambda>s. [0]) demo_config hs new_supervisor (demo_net [])"

lemma demo_running:
  "let w = snd (demo_supervised [Round Ticked, ClientEvent 0 demo_environment ''bound'']) in
     List.map fst (mn_procs w) = [7] \<and> mn_addrs w = [''10.0.0.2/24''] \<and> mn_routes w = [''10.0.0.1'']"
  by code_simp

lemma demo_stopped:
  "fst (demo_supervised [Round Ticked, ClientEvent 0 demo_environment ''bound'', Round Ticked, Round Terminated]) = Inr None"
  by code_simp

theorem supervision_is_safe_witness:
  "(let w = snd (demo_supervised [Round Ticked, ClientEvent 0 demo_environment ''bound'']) in
     List.map fst (mn_procs w) = [7] \<and> mn_addrs w = [''10.0.0.2/24''] \<and> mn_routes w = [''10.0.0.1'']) \<and>
   (let w = snd (demo_supervised [Round Ticked, ClientEvent 0 demo_environment ''bound'', Round Ticked, Round Terminated]) in
     mn_clients w = {} \<and> mn_addresses w = {} \<and> mn_routers w = {})"
proof (intro conjI demo_running)
  let ?hs = "[Round Ticked, ClientEvent 0 demo_environment ''bound'', Round Ticked, Round Terminated]"
  have run: "supervise_loop memory_net_os memory_proc_os demo_codec (\<lambda>s. [0]) demo_config ?hs new_supervisor (demo_net []) =
      (Inr None, snd (demo_supervised ?hs))"
    using demo_stopped unfolding demo_supervised_def by (metis prod.collapse)
  have i: "cf_interface demo_config = ''mlan0''" "cf_paths demo_config = networkPaths"
    by (simp_all add: demo_config_def)
  have k: "supervisor_kernel memory_net_os (cf_interface demo_config) (np_lease networkPaths) mn_addresses mn_routers mn_kept mn_temp
      memory_proc_os mn_clients"
    unfolding i by (rule memory_machine.supervisor_kernel_axioms)
  have l: "clean_path (cf_resolver demo_config) \<noteq> Some (np_lease networkPaths)" by code_simp
  have s: "mn_addresses (demo_net []) = {}" "mn_routers (demo_net []) = {}" "mn_clients (demo_net []) = {}"
    by (simp_all add: demo_net_def mn_addresses_def mn_routers_def mn_clients_def)
  from supervision_is_safe [OF k demo_codec_ok i(2) l s run]
  show "let w = snd (demo_supervised ?hs) in mn_clients w = {} \<and> mn_addresses w = {} \<and> mn_routers w = {}"
    unfolding Let_def by simp
qed

end
