(* ===== verification/Spec2Isabelle.thy ===== *)
theory Spec2Isabelle
  imports Dsp_Wamp Nand_Props Mcu_I2c Mcu_Volume_Run Persist_Service Net_Machine
begin

text \<open>
  A verification of the services of reInvoke, the replacement firmware of a smart speaker,
  written in Go under \<^verbatim>\<open>src/tools\<close>.

  \<^bold>\<open>The program.\<close> Several small services run on the speaker and talk over a WAMP router:
  \<^verbatim>\<open>dsp-interface\<close> boots the DSP over SPI and exchanges frames with it, \<^verbatim>\<open>mcu-interface\<close> owns the
  amplifier, the volume, the buttons and the lights, \<^verbatim>\<open>provisioning\<close>, \<^verbatim>\<open>source-manager\<close>,
  \<^verbatim>\<open>mic-capture\<close> and \<^verbatim>\<open>voice-endpoint\<close> the rest. \<^verbatim>\<open>nand-inspect\<close> writes a boot image to the raw
  NAND of a running system, the one operation that can destroy the device.
  The DSP service and the MCU service share one register of an IO expander: its bit 0 resets
  the DSP, its other bits mute the outputs and switch the power rails.
  \<^verbatim>\<open>provisioning/networkd\<close> owns the Wi-Fi address: it starts DHCP clients, receives their
  events and configures the interface. \<^verbatim>\<open>nand-pilot/persistence\<close> keeps the settings over a power
  cut, in a partition of the NAND that it mounts only when it is certainly the right one.

  \<^bold>\<open>How it is modelled.\<close> \<open>Prelude\<close> models Go's errors and stateful code: an action takes a state
  and returns an error or a value with the new state, which is kept in both cases; an index out
  of range or a nil pointer is the error \<open>Panic\<close>. Hoare triples over actions, and the collections
  \<open>hoare\<close>, \<open>keeps_rules\<close>, \<open>safe_rules\<close>, \<open>nofail_rules\<close>, carry the proofs. Structs are records,
  interfaces are records of actions over an unknown world, and what the code relies on of an
  interface is a locale, interpreted on an implementation in memory. Error texts name the
  error, and the values formatted into them are left out; log lines are left out. A method
  that holds a mutex from start to end is one action; where other goroutines or processes can
  interfere, the theories have step relations.

  \<^item> \<open>Dsp_Frame\<close> (\<^verbatim>\<open>frame.go\<close>): building and decoding frames with their checksums. Decoding is
    the inverse of building, a corrupted body is refused, and the length field wraps.
  \<^item> \<open>Dsp_Image\<close> (\<^verbatim>\<open>image.go\<close>): loading the boot image, with the bit reversal of its bytes.
  \<^item> \<open>Dsp_Backend\<close> (\<^verbatim>\<open>backend.go\<close>): the interfaces of SPI, GPIO and I2C, their memory
    implementations, and the locales \<open>register_bus\<close>, \<open>gpio_lines\<close>, \<open>spi_sender\<close>.
  \<^item> \<open>Dsp_Link\<close> (\<^verbatim>\<open>link.go\<close>), with \<open>Dsp_Link_Queue\<close> and \<open>Dsp_Link_Props\<close>: reset, download, the
    transmit queue and an iteration of the message loop. Over every history (\<open>link_run\<close>) the
    completions are answered in order and once, no iteration hangs or panics, and the transfer
    line and the register are left as they must be.
  \<^item> \<open>Msgpack\<close> (\<^verbatim>\<open>msgpack.go\<close>): the codec, its round trip and its bounds.
  \<^item> \<open>Dsp_Wamp_Conn\<close>, \<open>Dsp_Wamp\<close> (\<^verbatim>\<open>wamp.go\<close>, \<^verbatim>\<open>mic_control.go\<close>, \<^verbatim>\<open>boot_state.go\<close>,
    \<^verbatim>\<open>privacy_state.go\<close>): the WAMP client, the dispatch of its procedures, safe mode, the pump
    from the DSP and the microphone control socket. A session is a schedule of what its
    \<^verbatim>\<open>select\<close> receives.
  \<^item> \<open>Nand_Plan\<close>, \<open>Nand_Read\<close>, \<open>Nand_Engine\<close>, \<open>Nand_Resume\<close> (\<^verbatim>\<open>plan.go\<close>, \<^verbatim>\<open>engine.go\<close>,
    \<^verbatim>\<open>resume.go\<close> of \<^verbatim>\<open>nand-inspect/internal/probewrite\<close>): planning a write, reading everything
    first, erasing, programming and verifying block by block, and the resumption of an
    interrupted write. \<open>Nand_Flash\<close> states the contract of a flash (locale \<open>flash\<close>) and the
    engine's guarantees on any flash, \<open>Nand_Mem\<close> is a healthy flash on which the write succeeds.
  \<^item> \<open>Nand_Mtd\<close> (\<^verbatim>\<open>mtd_linux.go\<close>): the engine's device over the system calls of the kernel;
    \<open>Nand_Mtd_Flash\<close> shows that it is a \<open>flash\<close> over any kernel that keeps the laws of the
    locale \<open>nand_kernel\<close>. \<open>Nand_Props\<close> draws the conclusions for the engine on both levels.
  \<^item> \<open>Mcu_Outputs\<close> (\<^verbatim>\<open>mcu-interface/controller.go\<close>): the mute bits of amplifier and DAC, over a
    register that other processes write (locale \<open>output_bus\<close>, runs \<open>outputs_run\<close>).
    \<open>Mcu_I2c\<close> (\<^verbatim>\<open>i2c_linux.go\<close>): the bus with its retries and its file lock; over a kernel that
    keeps the laws of \<open>i2c_chip\<close> it is an \<open>output_bus\<close>.
  \<^item> \<open>Mcu_Volume\<close>, \<open>Mcu_Volume_Run\<close> (\<^verbatim>\<open>volume.go\<close>, with \<^verbatim>\<open>music_state.go\<close> and the curves of
    \<^verbatim>\<open>softvol_linux.go\<close> and \<^verbatim>\<open>cue_player.go\<close>): level, mute and ducks, the curve of the dial, the
    fade, and the worker that pushes levels to the DSP as a step relation (\<open>worker_step\<close>)
    interleaved with the operations (\<open>vol_reach\<close>).
  \<^item> \<open>Go_Text\<close>, \<open>Go_Net\<close>: the functions on text and on internet addresses of Go's standard library
    that the next two services use.
  \<^item> \<open>Persist_State\<close>, \<open>Persist_Store\<close>, \<open>Persist_Files\<close> (\<^verbatim>\<open>nand-pilot/persistence/state.go\<close>): what a
    valid state is, the snapshot file with its atomic replacement over a record of file operations,
    and the capture and restoration of the runtime files. \<open>Persist_Crash\<close> is the locale of a file
    system that can lose power, \<open>Persist_Memory\<close> its instance and the safety of a save that is cut
    off anywhere. \<open>Persist_Mount\<close> (\<^verbatim>\<open>partition.go\<close>): which partition is accepted, stated twice, as
    the code's scan and as the property of the text it accepts. \<open>Persist_Service\<close> (\<^verbatim>\<open>main.go\<close>): the
    requests, whose positive answer implies that the state is on the medium.
  \<^item> \<open>Net_Lease\<close>, \<open>Net_Config\<close>, \<open>Net_Event\<close> (\<^verbatim>\<open>provisioning/networkd/main.go\<close>): leases, the
    commands and files that configure the interface and take it back, and the event of a DHCP
    client. \<open>Net_Kept\<close> is the locale \<open>lease_kernel\<close> of those commands and files, in which the lease
    file is shown to cover whatever is configured; \<open>Net_Memory\<close> is its instance.
    \<open>Net_Dhcp\<close>, \<open>Net_Supervise\<close>: the client as a process with its identity, and the supervisor's
    loop, whose events between two polls are a list of happenings. \<open>Net_Supervised\<close> extends the
    locale by the processes (\<open>supervisor_kernel\<close>); \<open>Net_Machine\<close> is its instance, and states the
    safety of a supervised run.

  \<^bold>\<open>Bounds and fuel.\<close> Waiting for the DSP polls against a deadline of the clock; the model cuts it
  off with \<open>OutOfFuel\<close> after as many polls as fit the timeout, and \<open>Poll_never_hangs_or_panics\<close>
  shows that this never happens when a sleep advances the clock. Writing to a connection has
  fuel for one byte per write, which suffices since a connection that writes less than it was
  given returns an error. The
  decoder's recursion is bounded by its own depth limit. Every other loop is a total function.

  \<^bold>\<open>Abstractions.\<close> Floating-point numbers of the volume curve are real numbers. Text is ASCII
  where the code trims or folds it. Times are nanoseconds. SHA-256, JSON, the file system, the
  system calls and the network are parameters, constrained only by the hypotheses a theorem
  names.

  \<^bold>\<open>Not modelled.\<close> Flags, signals, the start of goroutines and the device nodes (\<^verbatim>\<open>main.go\<close>,
  \<^verbatim>\<open>lifecycle.go\<close>, \<^verbatim>\<open>*_linux.go\<close> of the DSP service): glue around the parts above. Of the DSP's
  WAMP service, the dialling and the accept loop of the control socket; of the persistence and
  network services, the sockets and the checks of the peer. Not modelled either: the
  other parts of \<^verbatim>\<open>mcu-interface\<close>, the reconstruction of the NAND baseline
  (\<^verbatim>\<open>reconstruction_*.go\<close>), the other programs of \<^verbatim>\<open>provisioning\<close>, and the services
  \<^verbatim>\<open>source-manager\<close>, \<^verbatim>\<open>mic-capture\<close> and \<^verbatim>\<open>voice-endpoint\<close>.
\<close>

end
